(* ===== verification/Prelude.thy ===== *)
theory Prelude
  imports Main "HOL-Library.Word" "HOL-Library.List_Lexorder"
begin

text \<open>
  Shared ground of the development: JavaScript strings, results of fallible code, and the
  SQL statements the job store is written with, read as functions on lists of rows.

  \<^item> A JavaScript string is the list of its UTF-16 code units (\<open>jstring\<close>), so that
    \<open>String.length\<close> is \<^const>\<open>length\<close>, SQLite's \<open>length()\<close> is \<open>sql_length\<close> and
    \<open>Buffer.byteLength(_, "utf8")\<close> is \<open>utf8_length\<close>. \<open>js ''abc''\<close> is the literal.
  \<^item> A table is the list of its rows in rowid order. \<open>sql_update\<close>, \<open>sql_count\<close> and
    \<open>sql_delete\<close> are the UPDATE, SELECT COUNT(*) (also the number of changes of an UPDATE)
    and DELETE statements over a row predicate.
  \<^item> Fallible code returns a sum; \<open>bindR\<close> sequences it and stops at the first error.
\<close>

named_theorems row_simps "frame equations of the row updates"
named_theorems sql_simps "characteristic equations of the SQL statements"

section \<open>JavaScript strings\<close>

type_synonym jstring = "16 word list"

definition js :: "string \<Rightarrow> jstring" where
  "js s = map (\<lambda>c. word_of_nat (of_char c)) s"

lemma length_js [simp]: "length (js s) = length s"
  by (simp add: js_def)

lemma js_Nil_iff [simp]: "js s = [] \<longleftrightarrow> s = []"
  by (simp add: js_def)

lemma js_Nil [simp]: "js [] = []"
  by (simp add: js_def)

lemma of_char_less: "(of_char (c :: char) :: nat) < 256"
  by (rule nat_of_char_less_256)

lemma js_char_inj: "(word_of_nat (of_char c) :: 16 word) = word_of_nat (of_char d) \<longleftrightarrow> c = d"
proof -
  have lt: "(of_char x :: nat) < 2 ^ LENGTH(16)" for x :: char
    by (rule less_trans [OF of_char_less]) simp
  show ?thesis
    using lt [of c] lt [of d] by (simp add: word_of_nat_eq_iff take_bit_nat_eq_self)
qed

lemma js_eq_iff [simp]: "js s = js t \<longleftrightarrow> s = t"
  unfolding js_def
  by (induction s arbitrary: t) (auto simp: js_char_inj map_eq_Cons_conv Cons_eq_map_conv)

text \<open>JavaScript's falsiness of a nullable string: \<open>!x\<close> holds of \<open>null\<close> and of \<open>""\<close>.\<close>

definition falsy :: "jstring option \<Rightarrow> bool" where
  "falsy x = (case x of None \<Rightarrow> True | Some s \<Rightarrow> s = [])"

lemma falsy_simps [simp]: "falsy None" "falsy (Some s) \<longleftrightarrow> s = []"
  by (simp_all add: falsy_def)

definition is_high_surrogate :: "16 word \<Rightarrow> bool" where
  "is_high_surrogate u \<longleftrightarrow> 0xD800 \<le> u \<and> u \<le> 0xDBFF"

definition is_low_surrogate :: "16 word \<Rightarrow> bool" where
  "is_low_surrogate u \<longleftrightarrow> 0xDC00 \<le> u \<and> u \<le> 0xDFFF"

text \<open>Number of code points, a lone surrogate counting for one (it is stored as U+FFFD).\<close>

fun cp_length :: "jstring \<Rightarrow> nat" where
  "cp_length [] = 0"
| "cp_length [u] = 1"
| "cp_length (u # v # r) =
     (if is_high_surrogate u \<and> is_low_surrogate v then Suc (cp_length r)
      else Suc (cp_length (v # r)))"

text \<open>SQLite's \<open>length()\<close> of a text value counts the characters before the first NUL.\<close>

definition sql_length :: "jstring \<Rightarrow> nat" where
  "sql_length s = cp_length (takeWhile (\<lambda>u. u \<noteq> 0) s)"

lemma cp_length_le: "cp_length s \<le> length s"
  by (induction s rule: cp_length.induct) auto

lemma sql_length_le: "sql_length s \<le> length s"
  using cp_length_le length_takeWhile_le order_trans unfolding sql_length_def by blast

lemma sql_length_Nil [simp]: "sql_length [] = 0"
  by (simp add: sql_length_def)

lemma sql_length_pos: "0 < sql_length s \<Longrightarrow> s \<noteq> []"
  by auto

text \<open>\<open>Buffer.byteLength(value, "utf8")\<close>: a surrogate pair takes four bytes, a lone
  surrogate is replaced by U+FFFD and takes three.\<close>

fun utf8_length :: "jstring \<Rightarrow> nat" where
  "utf8_length [] = 0"
| "utf8_length [u] = (if u < 0x80 then 1 else if u < 0x800 then 2 else 3)"
| "utf8_length (u # v # r) =
     (if is_high_surrogate u \<and> is_low_surrogate v then 4 + utf8_length r
      else (if u < 0x80 then 1 else if u < 0x800 then 2 else 3) + utf8_length (v # r))"

lemma length_le_utf8_length: "length s \<le> utf8_length s"
  by (induction s rule: utf8_length.induct) auto

text \<open>\<open>String.trim\<close> leaves nothing: every unit is white space or a line terminator.\<close>

definition is_js_space :: "16 word \<Rightarrow> bool" where
  "is_js_space u \<longleftrightarrow>
     (0x09 \<le> u \<and> u \<le> 0x0D) \<or> u = 0x20 \<or> u = 0xA0 \<or> u = 0x1680
     \<or> (0x2000 \<le> u \<and> u \<le> 0x200A) \<or> u = 0x2028 \<or> u = 0x2029 \<or> u = 0x202F
     \<or> u = 0x205F \<or> u = 0x3000 \<or> u = 0xFEFF"

definition js_blank :: "jstring \<Rightarrow> bool" where
  "js_blank s \<longleftrightarrow> list_all is_js_space s"

text \<open>Decimal digits, as in a template literal \<open>${n}\<close>.\<close>

fun js_decimal :: "nat \<Rightarrow> jstring" where
  "js_decimal n =
     (if n < 10 then [word_of_nat (0x30 + n)]
      else js_decimal (n div 10) @ [word_of_nat (0x30 + n mod 10)])"

declare js_decimal.simps [simp del]

section \<open>Results\<close>

definition bindR :: "'e + 'a \<Rightarrow> ('a \<Rightarrow> 'e + 'b) \<Rightarrow> 'e + 'b" where
  "bindR m k = (case m of Inl e \<Rightarrow> Inl e | Inr a \<Rightarrow> k a)"

definition guardR :: "bool \<Rightarrow> 'e \<Rightarrow> 'e + unit" where
  "guardR ok e = (if ok then Inr () else Inl e)"

lemma bindR_simps [simp]: "bindR (Inl e) k = Inl e" "bindR (Inr a) k = k a"
  by (simp_all add: bindR_def)

lemma bindR_Inr_iff: "bindR m k = Inr b \<longleftrightarrow> (\<exists>a. m = Inr a \<and> k a = Inr b)"
  by (cases m) simp_all

lemma bindR_Inl_iff:
  "bindR m k = Inl e \<longleftrightarrow> m = Inl e \<or> (\<exists>a. m = Inr a \<and> k a = Inl e)"
  by (cases m) simp_all

lemma bindR_cong [fundef_cong]:
  "m = m' \<Longrightarrow> (\<And>a. m' = Inr a \<Longrightarrow> k a = k' a) \<Longrightarrow> bindR m k = bindR m' k'"
  by (cases m') simp_all

lemma guardR_Inr_iff [simp]: "guardR ok e = Inr u \<longleftrightarrow> ok"
  by (simp add: guardR_def)

lemma guardR_Inl_iff [simp]: "guardR ok e = Inl e' \<longleftrightarrow> \<not> ok \<and> e' = e"
  by (auto simp: guardR_def)

text \<open>A loop over a list that may throw, and \<open>COALESCE\<close>.\<close>

primrec eachR :: "('a \<Rightarrow> 's \<Rightarrow> 'e + 's) \<Rightarrow> 'a list \<Rightarrow> 's \<Rightarrow> 'e + 's" where
  "eachR f [] s = Inr s"
| "eachR f (x # xs) s = bindR (f x s) (eachR f xs)"

definition coalesce :: "'a option \<Rightarrow> 'a option \<Rightarrow> 'a option" where
  "coalesce a b = (case a of None \<Rightarrow> b | Some x \<Rightarrow> Some x)"

lemma coalesce_simps [simp]: "coalesce None b = b" "coalesce (Some x) b = Some x"
  by (simp_all add: coalesce_def)

lemma eachR_append: "eachR f (xs @ ys) s = bindR (eachR f xs s) (eachR f ys)"
proof (induction xs arbitrary: s)
  case (Cons x xs)
  then show ?case by (cases "f x s") simp_all
qed simp

lemma eachR_invariant:
  assumes "eachR f xs s = Inr t" "P s"
    and "\<And>x s t. x \<in> set xs \<Longrightarrow> P s \<Longrightarrow> f x s = Inr t \<Longrightarrow> P t"
  shows "P t"
  using assms by (induction xs arbitrary: s) (auto simp: bindR_Inr_iff)

section \<open>SQL statements on lists of rows\<close>

definition sql_update :: "('r \<Rightarrow> bool) \<Rightarrow> ('r \<Rightarrow> 'r) \<Rightarrow> 'r list \<Rightarrow> 'r list" where
  "sql_update P f rs = map (\<lambda>r. if P r then f r else r) rs"

definition sql_count :: "('r \<Rightarrow> bool) \<Rightarrow> 'r list \<Rightarrow> nat" where
  "sql_count P rs = length (filter P rs)"

definition sql_delete :: "('r \<Rightarrow> bool) \<Rightarrow> 'r list \<Rightarrow> 'r list" where
  "sql_delete P rs = filter (\<lambda>r. \<not> P r) rs"

definition sql_exists :: "('r \<Rightarrow> bool) \<Rightarrow> 'r list \<Rightarrow> bool" where
  "sql_exists P rs = list_ex P rs"

text \<open>\<open>MAX(x)\<close> over the selected rows, 0 when there is none (the code's \<open>?? 0\<close>).\<close>

definition sql_max :: "('r \<Rightarrow> nat) \<Rightarrow> ('r \<Rightarrow> bool) \<Rightarrow> 'r list \<Rightarrow> nat" where
  "sql_max f P rs = foldr max (map f (filter P rs)) 0"

lemma sql_exists_iff [simp]: "sql_exists P rs \<longleftrightarrow> (\<exists>r \<in> set rs. P r)"
  by (simp add: sql_exists_def list_ex_iff)

lemma sql_update_Nil [simp]: "sql_update P f [] = []"
  by (simp add: sql_update_def)

lemma sql_update_Cons [simp]:
  "sql_update P f (r # rs) = (if P r then f r else r) # sql_update P f rs"
  by (simp add: sql_update_def)

lemma length_sql_update [simp]: "length (sql_update P f rs) = length rs"
  by (simp add: sql_update_def)

lemma set_sql_update:
  "set (sql_update P f rs) = {r \<in> set rs. \<not> P r} \<union> f ` {r \<in> set rs. P r}"
  by (auto simp: sql_update_def image_iff)

lemma in_sql_updateE:
  assumes "r' \<in> set (sql_update P f rs)"
  obtains r where "r \<in> set rs" "\<not> P r" "r' = r" | r where "r \<in> set rs" "P r" "r' = f r"
  using assms by (auto simp: set_sql_update)

lemma sql_update_none:
  "(\<And>r. r \<in> set rs \<Longrightarrow> \<not> P r) \<Longrightarrow> sql_update P f rs = rs"
  unfolding sql_update_def by (induction rs) auto

lemma sql_update_keys:
  "(\<And>r. r \<in> set rs \<Longrightarrow> P r \<Longrightarrow> k (f r) = k r) \<Longrightarrow> map k (sql_update P f rs) = map k rs"
  by (auto simp: sql_update_def)

lemma set_sql_delete [simp]: "set (sql_delete P rs) = {r \<in> set rs. \<not> P r}"
  by (simp add: sql_delete_def)

lemma sql_delete_none: "(\<And>r. r \<in> set rs \<Longrightarrow> \<not> P r) \<Longrightarrow> sql_delete P rs = rs"
  unfolding sql_delete_def by (simp add: filter_id_conv)

lemma distinct_sql_delete: "distinct (map k rs) \<Longrightarrow> distinct (map k (sql_delete P rs))"
  by (simp add: sql_delete_def distinct_map_filter)

lemma sql_count_0_iff: "sql_count P rs = 0 \<longleftrightarrow> (\<forall>r \<in> set rs. \<not> P r)"
  by (simp add: sql_count_def filter_empty_conv)

lemma sql_count_le_1:
  assumes "distinct (map k rs)" "\<And>r. P r \<Longrightarrow> k r = x"
  shows "sql_count P rs \<le> 1"
  using assms(1)
proof (induction rs)
  case (Cons r rs)
  show ?case
  proof (cases "P r")
    case True
    with assms(2) have "\<forall>q \<in> set rs. \<not> P q"
      using Cons.prems by (metis distinct.simps(2) image_eqI list.set_map list.simps(9))
    with True show ?thesis by (simp add: sql_count_def)
  next
    case False
    with Cons show ?thesis by (simp add: sql_count_def)
  qed
qed (simp add: sql_count_def)

lemma sql_count_1_iff:
  assumes "distinct (map k rs)" "\<And>r. P r \<Longrightarrow> k r = x"
  shows "sql_count P rs = 1 \<longleftrightarrow> (\<exists>r \<in> set rs. P r)"
proof -
  have "sql_count P rs = 1 \<longleftrightarrow> sql_count P rs \<noteq> 0"
    using sql_count_le_1 [where P = P, OF assms] by linarith
  then show ?thesis by (simp add: sql_count_0_iff)
qed

lemma sql_max_ge: "r \<in> set rs \<Longrightarrow> P r \<Longrightarrow> f r \<le> sql_max f P rs"
  unfolding sql_max_def by (induction rs) (auto simp: le_max_iff_disj)

lemma sql_max_none: "(\<And>r. r \<in> set rs \<Longrightarrow> \<not> P r) \<Longrightarrow> sql_max f P rs = 0"
  unfolding sql_max_def by (induction rs) auto

text \<open>\<open>SELECT ... LIMIT 1\<close> and \<open>.get()\<close> on a key: the first row in rowid order.\<close>

lemma find_key_unique:
  assumes "distinct (map k rs)" "r \<in> set rs"
  shows "find (\<lambda>q. k q = k r) rs = Some r"
  using assms
proof (induction rs)
  case (Cons q rs)
  then show ?case by (auto simp: image_iff dest: sym)
qed simp

lemma find_Some_in: "find P rs = Some r \<Longrightarrow> r \<in> set rs \<and> P r"
  by (induction rs) (auto split: if_splits)

lemma find_None_all: "find P rs = None \<longleftrightarrow> (\<forall>r \<in> set rs. \<not> P r)"
  by (induction rs) auto

lemma key_unique: "distinct (map k rs) \<Longrightarrow> r \<in> set rs \<Longrightarrow> q \<in> set rs \<Longrightarrow> k r = k q \<Longrightarrow> r = q"
  by (induction rs) (auto simp: image_iff)

lemma find_sql_update_other:
  assumes "\<And>r. r \<in> set rs \<Longrightarrow> P r \<Longrightarrow> \<not> Q r \<and> \<not> Q (f r)"
  shows "find Q (sql_update P f rs) = find Q rs"
  using assms by (induction rs) auto

end
