(* ===== verification/Store_Types.thy ===== *)
theory Store_Types
  imports Prelude
begin

text \<open>
  The data of the job store (\<open>src/src/types.ts\<close>, the row interfaces and input types of
  \<open>src/src/state/store.ts\<close>): statuses, the rows of the SQLite tables of schema v8, the
  errors that the store throws, and the validation functions of its inputs. Row fields have
  the column names, prefixed by the table's letter. Times (\<open>Date.now()\<close>) are \<open>int\<close>
  milliseconds.
\<close>

section \<open>Enumerations\<close>

datatype backend_kind = Hermes | Codex | Claude

datatype job_status =
  Received | Acked | Dispatching | Running | Cancelling | Succeeded | Cancelled
| CancelUnknown | Interrupted | Failed | Rejected

datatype outbox_status = Pending | Delivering | Delivered | AckFailed

datatype attempt_event_type =
  EvReserved | EvAccepted | EvNotSent | EvCancelledNotSent | EvSucceeded | EvFailed
| EvCancelUnknown | EvInterrupted | EvLegacyActiveImported

datatype turn_status = TurnCompleted | TurnFailed | TurnInterrupted

datatype identity_strength = StrengthSubject | StrengthTypeOnly

datatype state_ownership = AccountBound | LocalStateOpaque

fun backend_name :: "backend_kind \<Rightarrow> jstring" where
  "backend_name Hermes = js ''hermes''"
| "backend_name Codex = js ''codex''"
| "backend_name Claude = js ''claude''"

lemma backend_name_inj [simp]: "backend_name a = backend_name b \<longleftrightarrow> a = b"
  by (cases a; cases b) simp_all

text \<open>\<open>ORDER BY target_backend\<close> compares the names: claude, codex, hermes.\<close>

fun backend_rank :: "backend_kind \<Rightarrow> nat" where
  "backend_rank Claude = 0"
| "backend_rank Codex = 1"
| "backend_rank Hermes = 2"

lemma backend_rank_inj: "backend_rank a = backend_rank b \<Longrightarrow> a = b"
  by (cases a; cases b) simp_all

instantiation backend_kind :: linorder
begin

definition less_eq_backend_kind :: "backend_kind \<Rightarrow> backend_kind \<Rightarrow> bool" where
  "less_eq_backend_kind a b \<longleftrightarrow> backend_rank a \<le> backend_rank b"

definition less_backend_kind :: "backend_kind \<Rightarrow> backend_kind \<Rightarrow> bool" where
  "less_backend_kind a b \<longleftrightarrow> backend_rank a < backend_rank b"

instance
  by standard (auto simp: less_eq_backend_kind_def less_backend_kind_def dest: backend_rank_inj)

end

text \<open>The status sets the SQL spells out: \<open>('Dispatching','Running','Cancelling')\<close>,
  \<open>('Received','Acked')\<close> and the six terminal ones.\<close>

fun active_status :: "job_status \<Rightarrow> bool" where
  "active_status Dispatching = True"
| "active_status Running = True"
| "active_status Cancelling = True"
| "active_status _ = False"

fun waiting_status :: "job_status \<Rightarrow> bool" where
  "waiting_status Received = True"
| "waiting_status Acked = True"
| "waiting_status _ = False"

fun terminal_status :: "job_status \<Rightarrow> bool" where
  "terminal_status Succeeded = True"
| "terminal_status Cancelled = True"
| "terminal_status CancelUnknown = True"
| "terminal_status Interrupted = True"
| "terminal_status Failed = True"
| "terminal_status Rejected = True"
| "terminal_status _ = False"

lemma status_partition:
  "terminal_status s \<longleftrightarrow> \<not> waiting_status s \<and> \<not> active_status s"
  "\<not> (waiting_status s \<and> active_status s)"
  by (cases s; simp)+

section \<open>Rows\<close>

record incoming_job =
  in_jobId :: jstring
  in_messageId :: jstring
  in_fromNodeId :: jstring
  in_fromNodeType :: "jstring option"
  in_text :: jstring
  in_timestamp :: int
  in_rawPayload :: jstring

record job_row =
  j_scope_key :: jstring
  j_job_id :: jstring
  j_msg_id :: jstring
  j_payload_hash :: jstring
  j_target_backend :: backend_kind
  j_from_node_id :: jstring
  j_from_node_type :: "jstring option"
  j_input_text :: jstring
  j_raw_payload :: jstring
  j_status :: job_status
  j_session_key :: jstring
  j_connector_id :: "jstring option"
  j_lease_id :: "jstring option"
  j_run_generation :: nat
  j_error :: "jstring option"
  j_cancel_requested :: bool
  j_created_at :: int
  j_updated_at :: int
  j_completed_at :: "int option"
  j_input_timestamp :: int

record outbox_row =
  o_scope_key :: jstring
  o_job_id :: jstring
  o_status :: outbox_status
  o_result_json :: jstring
  o_retry_count :: nat
  o_last_message_id :: "jstring option"
  o_next_attempt_at :: "int option"
  o_created_at :: int
  o_updated_at :: int
  o_delivered_at :: "int option"
  o_acked_at :: "int option"

record delivery_attempt_row =
  d_scope_key :: jstring
  d_message_id :: jstring
  d_job_id :: jstring
  d_created_at :: int

record quarantine_row =
  q_scope_key :: jstring
  q_session_key :: jstring
  q_reason :: jstring
  q_created_at :: int

record pending_cancel_row =
  p_scope_key :: jstring
  p_job_id :: jstring
  p_created_at :: int

record session_row =
  s_scope_key :: jstring
  s_backend :: jstring
  s_session_key :: jstring
  s_session_hash :: jstring
  s_thread_id :: "jstring option"
  s_cwd :: jstring
  s_cli_version :: jstring
  s_state_ownership :: "state_ownership option"
  s_account_type :: "jstring option"
  s_account_subject_sha256 :: "jstring option"
  s_account_identity_strength :: "identity_strength option"
  s_requested_model :: "jstring option"
  s_effective_model :: "jstring option"
  s_model_provider :: "jstring option"
  s_security_config_sha256 :: "jstring option"
  s_feature_snapshot_sha256 :: "jstring option"
  s_checkpoint_turn_id :: "jstring option"
  s_checkpoint_turn_status :: "turn_status option"
  s_checkpoint_turn_count :: "int option"
  s_checkpoint_turns_sha256 :: "jstring option"
  s_checkpointed_at :: "int option"
  s_active_job_id :: "jstring option"
  s_active_lease_id :: "jstring option"
  s_active_run_generation :: "nat option"
  s_active_turn_id :: "jstring option"
  s_recovery_required :: bool
  s_created_at :: int
  s_updated_at :: int

record event_row =
  e_scope_key :: jstring
  e_job_id :: jstring
  e_run_generation :: nat
  e_sequence :: nat
  e_backend :: backend_kind
  e_session_key :: jstring
  e_lease_id :: jstring
  e_backend_execution_id :: jstring
  e_provider_session_id :: "jstring option"
  e_provider_operation_id :: "jstring option"
  e_runtime_version :: "jstring option"
  e_requested_model :: "jstring option"
  e_effective_model :: "jstring option"
  e_model_provider :: "jstring option"
  e_state_ownership :: "state_ownership option"
  e_account_type :: "jstring option"
  e_account_subject_sha256 :: "jstring option"
  e_security_config_sha256 :: "jstring option"
  e_feature_snapshot_sha256 :: "jstring option"
  e_event_type :: attempt_event_type
  e_reason :: "jstring option"
  e_created_at :: int

text \<open>\<open>StoredJob\<close> is the job row joined with its outbox row (\<open>JOB_VIEW\<close>,
  \<open>rowToJob\<close>); the renaming of columns to camelCase fields is the identity here.\<close>

record stored_job =
  sj_row :: job_row
  sj_outbox :: "outbox_row option"

text \<open>The database file: one list of rows per table. A store instance only touches the rows
  of its own scope, but several scopes may share the file.\<close>

record db =
  jobs :: "job_row list"
  outbox :: "outbox_row list"
  delivery_attempts :: "delivery_attempt_row list"
  session_quarantine :: "quarantine_row list"
  pending_cancels :: "pending_cancel_row list"
  backend_sessions :: "session_row list"
  attempt_events :: "event_row list"
  meta :: "(jstring \<times> jstring) list"

definition fresh_db :: db where
  "fresh_db = \<lparr>jobs = [], outbox = [], delivery_attempts = [], session_quarantine = [],
     pending_cancels = [], backend_sessions = [], attempt_events = [], meta = []\<rparr>"

text \<open>What a store instance is created with. SHA-256 comes from \<open>node:crypto\<close> and is a
  parameter.\<close>

record store_cfg =
  scopeKey :: jstring
  sha256 :: "jstring \<Rightarrow> jstring"

section \<open>Errors\<close>

datatype session_conflict =
  MetadataLength | BadSha256 | BadTurnCount | BadCheckpointedAt | ZeroTurnWithTail
| TailMissing | StrengthMismatch | PathConflict | LegacyUnbindable | ImmutableMismatch
| Quarantined | MetadataUnbound | OtherThread | ThreadUnbindable | BadFenceGeneration
| FenceTailMismatch | SessionMissing | ThreadMismatch | InRecovery | IdleHasActive
| ActiveFenceMismatch | CheckpointUnbound | CountRegressed | CheckpointDiffers | CasMissed
| AlreadyExists

datatype store_error =
  SqliteConstraint
| JobMissing jstring
| JobConflict jstring
| BackendSessionConflict session_conflict
| BackendSessionMissing
| PendingCancelCapacity
| AttemptContextMissing jstring
| AttemptMetadataMissing jstring
| InconsistentCommit
| EmptyQuarantineReason

text \<open>\<open>transaction.immediate()\<close>: the body works on the database; an exception rolls every
  write of the body back and is rethrown.\<close>

type_synonym 'a tx = "db \<Rightarrow> store_error + ('a \<times> db)"

type_synonym 'a reply = "(store_error + 'a) \<times> db"

definition transaction :: "'a tx \<Rightarrow> db \<Rightarrow> 'a reply" where
  "transaction body db =
     (case body db of Inl e \<Rightarrow> (Inl e, db) | Inr (a, db') \<Rightarrow> (Inr a, db'))"

text \<open>What the method does after the commit, reading the committed database.\<close>

definition after :: "'a reply \<Rightarrow> ('a \<Rightarrow> db \<Rightarrow> store_error + 'b) \<Rightarrow> 'b reply" where
  "after r k = (case fst r of Inl e \<Rightarrow> (Inl e, snd r) | Inr a \<Rightarrow> (k a (snd r), snd r))"

lemma transaction_simps [simp]:
  "body db = Inl e \<Longrightarrow> transaction body db = (Inl e, db)"
  "body db = Inr (a, db') \<Longrightarrow> transaction body db = (Inr a, db')"
  by (simp_all add: transaction_def)

lemma snd_after [simp]: "snd (after r k) = snd r"
  by (simp add: after_def split: sum.split)

lemma snd_transaction:
  "snd (transaction body db) = (case body db of Inl e \<Rightarrow> db | Inr (a, db') \<Rightarrow> db')"
  by (simp add: transaction_def split: sum.split prod.split)

lemma snd_transaction_cases:
  assumes "P db" "\<And>a db'. body db = Inr (a, db') \<Longrightarrow> P db'"
  shows "P (snd (transaction body db))"
  using assms by (simp add: snd_transaction split: sum.split prod.split)

section \<open>Validation of inputs\<close>

definition max_safe_integer :: int where
  "max_safe_integer = 9007199254740991"

definition is_safe_integer :: "int \<Rightarrow> bool" where
  "is_safe_integer n \<longleftrightarrow> \<bar>n\<bar> \<le> max_safe_integer"

text \<open>\<open>[0-9a-f]\<close> as code units.\<close>

definition is_hex_digit :: "16 word \<Rightarrow> bool" where
  "is_hex_digit u \<longleftrightarrow> (0x30 \<le> u \<and> u \<le> 0x39) \<or> (0x61 \<le> u \<and> u \<le> 0x66)"

definition sha256_hex :: "jstring \<Rightarrow> bool" where
  "sha256_hex s \<longleftrightarrow> length s = 64 \<and> list_all is_hex_digit s"

definition requireNonEmptyMetadata :: "jstring \<Rightarrow> nat \<Rightarrow> store_error + unit" where
  "requireNonEmptyMetadata v maxLength =
     guardR (\<not> (length v = 0 \<or> maxLength < length v)) (BackendSessionConflict MetadataLength)"

definition validateSha256 :: "jstring \<Rightarrow> store_error + unit" where
  "validateSha256 v = guardR (sha256_hex v) (BackendSessionConflict BadSha256)"

text \<open>The checkpoint fields shared by the three inputs that carry a thread tail.\<close>

record checkpoint =
  cp_turn_id :: "jstring option"
  cp_turn_status :: "turn_status option"
  cp_turn_count :: int
  cp_turns_sha256 :: jstring
  cp_at :: int

definition validateCheckpointShape :: "checkpoint \<Rightarrow> store_error + unit" where
  "validateCheckpointShape c =
     bindR (guardR (is_safe_integer (cp_turn_count c) \<and> 0 \<le> cp_turn_count c)
              (BackendSessionConflict BadTurnCount)) (\<lambda>_.
     bindR (guardR (is_safe_integer (cp_at c) \<and> 0 \<le> cp_at c)
              (BackendSessionConflict BadCheckpointedAt)) (\<lambda>_.
     bindR (validateSha256 (cp_turns_sha256 c)) (\<lambda>_.
     if cp_turn_count c = 0 then
       guardR (cp_turn_id c = None \<and> cp_turn_status c = None)
         (BackendSessionConflict ZeroTurnWithTail)
     else
       (case (cp_turn_id c, cp_turn_status c) of
          (Some turn, Some _) \<Rightarrow> requireNonEmptyMetadata turn 256
        | _ \<Rightarrow> Inl (BackendSessionConflict TailMissing)))))"

record ensure_session_input =
  es_backend :: jstring
  es_sessionKey :: jstring
  es_sessionHash :: jstring
  es_cwd :: jstring
  es_cliVersion :: jstring
  es_accountType :: jstring
  es_accountSubjectSha256 :: "jstring option"
  es_accountIdentityStrength :: identity_strength
  es_requestedModel :: "jstring option"
  es_effectiveModel :: jstring
  es_modelProvider :: jstring
  es_securityConfigSha256 :: jstring
  es_featureSnapshotSha256 :: jstring
  es_checkpoint :: checkpoint

record local_session_input =
  ls_backend :: jstring
  ls_sessionKey :: jstring
  ls_sessionHash :: jstring
  ls_threadId :: jstring
  ls_cwd :: jstring
  ls_cliVersion :: jstring
  ls_requestedModel :: "jstring option"
  ls_effectiveModel :: jstring
  ls_modelProvider :: jstring
  ls_securityConfigSha256 :: jstring
  ls_featureSnapshotSha256 :: jstring
  ls_checkpoint :: checkpoint

datatype thread_tail_fence =
  FenceIdle
| FenceActive (fence_jobId: jstring) (fence_leaseId: jstring) (fence_runGeneration: int)
    (fence_turnId: jstring)

record checkpoint_input =
  ci_backend :: jstring
  ci_sessionKey :: jstring
  ci_threadId :: jstring
  ci_checkpoint :: checkpoint
  ci_fence :: thread_tail_fence

text \<open>A nullable field is checked when it is present.\<close>

definition optR :: "('a \<Rightarrow> 'e + unit) \<Rightarrow> 'a option \<Rightarrow> 'e + unit" where
  "optR f x = (case x of None \<Rightarrow> Inr () | Some a \<Rightarrow> f a)"

definition validateEnsureBackendSessionInput :: "ensure_session_input \<Rightarrow> store_error + unit" where
  "validateEnsureBackendSessionInput i =
     bindR (requireNonEmptyMetadata (es_backend i) 32) (\<lambda>_.
     bindR (requireNonEmptyMetadata (es_sessionKey i) 4096) (\<lambda>_.
     bindR (validateSha256 (es_sessionHash i)) (\<lambda>_.
     bindR (requireNonEmptyMetadata (es_cwd i) 4096) (\<lambda>_.
     bindR (requireNonEmptyMetadata (es_cliVersion i) 64) (\<lambda>_.
     bindR (requireNonEmptyMetadata (es_accountType i) 64) (\<lambda>_.
     bindR (optR validateSha256 (es_accountSubjectSha256 i)) (\<lambda>_.
     bindR (guardR (\<not> ((es_accountIdentityStrength i = StrengthSubject \<and>
                           es_accountSubjectSha256 i = None) \<or>
                         (es_accountIdentityStrength i = StrengthTypeOnly \<and>
                           es_accountSubjectSha256 i \<noteq> None)))
              (BackendSessionConflict StrengthMismatch)) (\<lambda>_.
     bindR (optR (\<lambda>m. requireNonEmptyMetadata m 256) (es_requestedModel i)) (\<lambda>_.
     bindR (requireNonEmptyMetadata (es_effectiveModel i) 256) (\<lambda>_.
     bindR (requireNonEmptyMetadata (es_modelProvider i) 128) (\<lambda>_.
     bindR (validateSha256 (es_securityConfigSha256 i)) (\<lambda>_.
     bindR (validateSha256 (es_featureSnapshotSha256 i)) (\<lambda>_.
     validateCheckpointShape (es_checkpoint i))))))))))))))"

definition validateLocalOpaqueBackendSessionInput :: "local_session_input \<Rightarrow> store_error + unit"
where
  "validateLocalOpaqueBackendSessionInput i =
     bindR (requireNonEmptyMetadata (ls_backend i) 32) (\<lambda>_.
     bindR (requireNonEmptyMetadata (ls_sessionKey i) 4096) (\<lambda>_.
     bindR (validateSha256 (ls_sessionHash i)) (\<lambda>_.
     bindR (requireNonEmptyMetadata (ls_threadId i) 256) (\<lambda>_.
     bindR (requireNonEmptyMetadata (ls_cwd i) 4096) (\<lambda>_.
     bindR (requireNonEmptyMetadata (ls_cliVersion i) 64) (\<lambda>_.
     bindR (optR (\<lambda>m. requireNonEmptyMetadata m 256) (ls_requestedModel i)) (\<lambda>_.
     bindR (requireNonEmptyMetadata (ls_effectiveModel i) 256) (\<lambda>_.
     bindR (requireNonEmptyMetadata (ls_modelProvider i) 128) (\<lambda>_.
     bindR (validateSha256 (ls_securityConfigSha256 i)) (\<lambda>_.
     bindR (validateSha256 (ls_featureSnapshotSha256 i)) (\<lambda>_.
     validateCheckpointShape (ls_checkpoint i))))))))))))"

lemma requireNonEmptyMetadata_Inr [simp]:
  "requireNonEmptyMetadata v n = Inr u \<longleftrightarrow> v \<noteq> [] \<and> length v \<le> n"
  by (auto simp: requireNonEmptyMetadata_def)

lemma validateSha256_Inr [simp]: "validateSha256 v = Inr u \<longleftrightarrow> sha256_hex v"
  by (simp add: validateSha256_def)

lemma optR_Inr_iff [simp]: "optR f x = Inr u \<longleftrightarrow> (\<forall>a. x = Some a \<longrightarrow> f a = Inr ())"
  by (cases x) (auto simp: optR_def)

end
