(* ===== verification/Json_Text.thy ===== *)
theory Json_Text
  imports Prelude
begin

text \<open>
  The part of \<open>JSON.stringify\<close> the program relies on: quoting of strings, and the objects
  that \<open>businessPayloadHash\<close> (\<open>src/src/state/store.ts\<close>) and \<open>serializeResult\<close>
  (\<open>src/src/protocol/livis.ts\<close>) build from them. A decoder is given as the specification:
  quoting followed by decoding is the identity, so both encodings are injective.
\<close>

section \<open>Quoting\<close>

definition hex_digit :: "nat \<Rightarrow> 16 word" where
  "hex_digit n = (if n < 10 then word_of_nat (0x30 + n) else word_of_nat (0x57 + n))"

definition hex4 :: "16 word \<Rightarrow> jstring" where
  "hex4 u = (let n = unat u in
     [hex_digit (n div 4096), hex_digit (n div 256 mod 16), hex_digit (n div 16 mod 16),
      hex_digit (n mod 16)])"

definition json_escape_unit :: "16 word \<Rightarrow> jstring" where
  "json_escape_unit u =
     (if u = 0x22 then [0x5C, 0x22]
      else if u = 0x5C then [0x5C, 0x5C]
      else if u = 0x08 then [0x5C, 0x62]
      else if u = 0x09 then [0x5C, 0x74]
      else if u = 0x0A then [0x5C, 0x6E]
      else if u = 0x0C then [0x5C, 0x66]
      else if u = 0x0D then [0x5C, 0x72]
      else if u < 0x20 \<or> is_high_surrogate u \<or> is_low_surrogate u then [0x5C, 0x75] @ hex4 u
      else [u])"

text \<open>Surrogate pairs are copied, lone surrogates are escaped (well-formed stringify).\<close>

fun json_escape :: "jstring \<Rightarrow> jstring" where
  "json_escape [] = []"
| "json_escape [u] = json_escape_unit u"
| "json_escape (u # v # r) =
     (if is_high_surrogate u \<and> is_low_surrogate v then u # v # json_escape r
      else json_escape_unit u @ json_escape (v # r))"

definition json_quote :: "jstring \<Rightarrow> jstring" where
  "json_quote s = 0x22 # json_escape s @ [0x22]"

definition json_nullable :: "jstring option \<Rightarrow> jstring" where
  "json_nullable x = (case x of None \<Rightarrow> js ''null'' | Some s \<Rightarrow> json_quote s)"

section \<open>Decoding, the specification of quoting\<close>

definition unhex_digit :: "16 word \<Rightarrow> nat option" where
  "unhex_digit u =
     (if 0x30 \<le> u \<and> u \<le> 0x39 then Some (unat u - 0x30)
      else if 0x61 \<le> u \<and> u \<le> 0x66 then Some (unat u - 0x57)
      else if 0x41 \<le> u \<and> u \<le> 0x46 then Some (unat u - 0x37)
      else None)"

definition unhex4 :: "16 word \<Rightarrow> 16 word \<Rightarrow> 16 word \<Rightarrow> 16 word \<Rightarrow> 16 word option" where
  "unhex4 a b c d =
     (case (unhex_digit a, unhex_digit b, unhex_digit c, unhex_digit d) of
        (Some i, Some j, Some k, Some l) \<Rightarrow> Some (word_of_nat (i * 4096 + j * 256 + k * 16 + l))
      | _ \<Rightarrow> None)"

definition json_unescape_unit :: "16 word \<Rightarrow> 16 word option" where
  "json_unescape_unit c =
     (if c = 0x22 \<or> c = 0x5C \<or> c = 0x2F then Some c
      else if c = 0x62 then Some 0x08 else if c = 0x74 then Some 0x09
      else if c = 0x6E then Some 0x0A else if c = 0x66 then Some 0x0C
      else if c = 0x72 then Some 0x0D else None)"

definition json_cons :: "16 word option \<Rightarrow> (jstring \<times> jstring) option \<Rightarrow> (jstring \<times> jstring) option" where
  "json_cons u m =
     (case (u, m) of (Some c, Some (s, r)) \<Rightarrow> Some (c # s, r) | _ \<Rightarrow> None)"

lemma json_cons_simps [simp]:
  "json_cons None m = None" "json_cons u None = None"
  "json_cons (Some c) (Some (s, r)) = Some (c # s, r)"
  by (cases u; simp add: json_cons_def)+

text \<open>Reads the inside of a quoted string up to its closing quote; returns the decoded string
  and the rest of the text. Control characters must be escaped.\<close>

fun json_read :: "jstring \<Rightarrow> (jstring \<times> jstring) option" where
  "json_read [] = None"
| "json_read (u # r) =
     (if u = 0x22 then Some ([], r)
      else if u < 0x20 then None
      else if u = 0x5C then
        (case r of
           [] \<Rightarrow> None
         | c # r' \<Rightarrow>
             if c = 0x75 then
               (case r' of
                  h1 # h2 # h3 # h4 # r'' \<Rightarrow> json_cons (unhex4 h1 h2 h3 h4) (json_read r'')
                | _ \<Rightarrow> None)
             else json_cons (json_unescape_unit c) (json_read r'))
      else json_cons (Some u) (json_read r))"

lemma unhex_hex_digit: "n < 16 \<Longrightarrow> unhex_digit (hex_digit n) = Some n"
proof -
  have "\<forall>n \<in> set [0..<16]. unhex_digit (hex_digit n) = Some n" by code_simp
  then show "n < 16 \<Longrightarrow> unhex_digit (hex_digit n) = Some n" by simp
qed

lemma hex4_digits:
  "n div 4096 * 4096 + n div 256 mod 16 * 256 + n div 16 mod 16 * 16 + n mod 16 = (n :: nat)"
proof -
  have "n div 256 = n div 16 div 16" "n div 4096 = n div 16 div 16 div 16"
    by (simp_all add: div_mult2_eq [symmetric])
  moreover have "n = n div 16 * 16 + n mod 16"
    "n div 16 = n div 16 div 16 * 16 + n div 16 mod 16"
    "n div 16 div 16 = n div 16 div 16 div 16 * 16 + n div 16 div 16 mod 16"
    by (simp_all only: div_mult_mod_eq)
  moreover have "a * 4096 + b * 256 + c * 16 + d = n"
    if "n = m * 16 + d" "m = k * 16 + c" "k = a * 16 + b" for a b c d k m :: nat
    using that by simp
  ultimately show ?thesis by metis
qed

lemma unhex4_hex4: "hex4 u = [a, b, c, d] \<Longrightarrow> unhex4 a b c d = Some u"
proof -
  define n where "n = unat u"
  assume h: "hex4 u = [a, b, c, d]"
  have lt: "n < 65536"
    using unsigned_less [of u, where 'a = nat] by (simp add: n_def)
  have "unhex_digit a = Some (n div 4096)" "unhex_digit b = Some (n div 256 mod 16)"
    "unhex_digit c = Some (n div 16 mod 16)" "unhex_digit d = Some (n mod 16)"
    using h lt by (auto simp: hex4_def Let_def n_def [symmetric] unhex_hex_digit)
  moreover have "n div 4096 * 4096 + n div 256 mod 16 * 256 + n div 16 mod 16 * 16 + n mod 16 = n"
    by (rule hex4_digits)
  ultimately show ?thesis
    by (simp add: unhex4_def n_def)
qed

lemma json_read_escape_unit:
  "json_read (json_escape_unit u @ r) = json_cons (Some u) (json_read r)"
proof -
  obtain a b c d where h: "hex4 u = [a, b, c, d]"
    by (simp add: hex4_def Let_def)
  show ?thesis
    using unhex4_hex4 [OF h]
    by (simp add: json_escape_unit_def json_unescape_unit_def h)
qed

lemma surrogate_not_special:
  "is_high_surrogate u \<or> is_low_surrogate u \<Longrightarrow> u \<noteq> 0x22 \<and> u \<noteq> 0x5C \<and> \<not> u < 0x20"
  by (auto simp: is_high_surrogate_def is_low_surrogate_def word_less_nat_alt word_le_nat_alt)

lemma json_read_escape: "json_read (json_escape s @ 0x22 # r) = Some (s, r)"
proof (induction s rule: json_escape.induct)
  case (3 u v s)
  show ?case
  proof (cases "is_high_surrogate u \<and> is_low_surrogate v")
    case True
    with 3 surrogate_not_special [of u] surrogate_not_special [of v] show ?thesis by simp
  next
    case False
    with 3 show ?thesis by (auto simp: json_read_escape_unit)
  qed
qed (simp_all add: json_read_escape_unit)

lemma json_quote_inj:
  assumes "json_quote s @ r = json_quote t @ q"
  shows "s = t" "r = q"
proof -
  from assms have "json_read (json_escape s @ 0x22 # r) = json_read (json_escape t @ 0x22 # q)"
    by (simp add: json_quote_def)
  then show "s = t" "r = q" by (simp_all add: json_read_escape)
qed

lemma json_null_not_quote [simp]: "js ''null'' @ r \<noteq> json_quote s @ q"
  by (simp add: js_def json_quote_def)

lemma json_nullable_inj:
  assumes "json_nullable x @ r = json_nullable y @ q"
  shows "x = y \<and> r = q"
proof (cases x; cases y)
  fix s t
  assume "x = Some s" "y = Some t"
  with assms show ?thesis
    using json_quote_inj [of s r t q] by (simp add: json_nullable_def)
next
  fix t
  assume "x = None" "y = Some t"
  with assms show ?thesis by (simp add: json_nullable_def)
next
  fix s
  assume "x = Some s" "y = None"
  with assms show ?thesis
    using json_null_not_quote [of q s r] by (simp add: json_nullable_def)
next
  assume "x = None" "y = None"
  with assms show ?thesis by (simp add: json_nullable_def)
qed

section \<open>The two objects\<close>

definition serializeResult :: "jstring \<Rightarrow> jstring" where
  "serializeResult text = js ''{'' @ json_quote (js ''text'') @ js '':'' @ json_quote text @ js ''}''"

definition business_payload :: "jstring \<Rightarrow> jstring option \<Rightarrow> jstring \<Rightarrow> jstring" where
  "business_payload fromNodeId fromNodeType text =
     js ''{'' @ json_quote (js ''fromNodeId'') @ js '':'' @ json_quote fromNodeId @ js '',''
       @ json_quote (js ''fromNodeType'') @ js '':'' @ json_nullable fromNodeType @ js '',''
       @ json_quote (js ''text'') @ js '':'' @ json_quote text @ js ''}''"

lemma serializeResult_inj: "serializeResult a = serializeResult b \<longleftrightarrow> a = b"
proof
  assume "serializeResult a = serializeResult b"
  then have "json_quote a @ js ''}'' = json_quote b @ js ''}''"
    by (simp add: serializeResult_def)
  then show "a = b" by (rule json_quote_inj)
qed simp

lemma business_payload_inj:
  assumes "business_payload a b c = business_payload a' b' c'"
  shows "a = a' \<and> b = b' \<and> c = c'"
proof -
  from assms have 1: "json_quote a @ (js '','' @ json_quote (js ''fromNodeType'') @ js '':''
      @ json_nullable b @ js '','' @ json_quote (js ''text'') @ js '':'' @ json_quote c @ js ''}'')
    = json_quote a' @ (js '','' @ json_quote (js ''fromNodeType'') @ js '':''
      @ json_nullable b' @ js '','' @ json_quote (js ''text'') @ js '':'' @ json_quote c' @ js ''}'')"
    by (simp add: business_payload_def)
  note a = json_quote_inj(1) [OF 1]
  from json_quote_inj(2) [OF 1] have 2: "json_nullable b @ (js '','' @ json_quote (js ''text'')
      @ js '':'' @ json_quote c @ js ''}'')
    = json_nullable b' @ (js '','' @ json_quote (js ''text'') @ js '':'' @ json_quote c' @ js ''}'')"
    by simp
  note b = conjunct1 [OF json_nullable_inj [OF 2]]
  from conjunct2 [OF json_nullable_inj [OF 2]] have "json_quote c @ js ''}'' = json_quote c' @ js ''}''"
    by simp
  then have "c = c'" by (rule json_quote_inj)
  with a b show ?thesis by simp
qed

end
