(* ===== verification/Store_Base.thy ===== *)
theory Store_Base
  imports Store_Types Json_Text
begin

text \<open>
  The statements that the methods of \<open>JobStore\<close> (\<open>src/src/state/store.ts\<close>) share: the
  constraints and triggers of schema v8, the row lookups, the append of an execution attempt
  event, the outbox insert, the quarantine inserts and the pending cancel helpers. A method
  works inside \<open>transaction\<close>; a constraint violation is the error \<open>SqliteConstraint\<close>,
  which rolls the transaction back.
\<close>

section \<open>Lookups\<close>

abbreviation job_key :: "job_row \<Rightarrow> jstring \<times> jstring" where
  "job_key j \<equiv> (j_scope_key j, j_job_id j)"

abbreviation outbox_key :: "outbox_row \<Rightarrow> jstring \<times> jstring" where
  "outbox_key r \<equiv> (o_scope_key r, o_job_id r)"

abbreviation session_key :: "session_row \<Rightarrow> jstring \<times> jstring \<times> jstring" where
  "session_key s \<equiv> (s_scope_key s, s_backend s, s_session_key s)"

abbreviation quarantine_key :: "quarantine_row \<Rightarrow> jstring \<times> jstring" where
  "quarantine_key q \<equiv> (q_scope_key q, q_session_key q)"

abbreviation pending_key :: "pending_cancel_row \<Rightarrow> jstring \<times> jstring" where
  "pending_key p \<equiv> (p_scope_key p, p_job_id p)"

definition find_job :: "jstring \<Rightarrow> jstring \<Rightarrow> db \<Rightarrow> job_row option" where
  "find_job scope jobId db = find (\<lambda>j. job_key j = (scope, jobId)) (jobs db)"

definition find_outbox :: "jstring \<Rightarrow> jstring \<Rightarrow> db \<Rightarrow> outbox_row option" where
  "find_outbox scope jobId db = find (\<lambda>r. outbox_key r = (scope, jobId)) (outbox db)"

definition find_session :: "jstring \<Rightarrow> jstring \<Rightarrow> jstring \<Rightarrow> db \<Rightarrow> session_row option" where
  "find_session scope backend sessionKey db =
     find (\<lambda>s. session_key s = (scope, backend, sessionKey)) (backend_sessions db)"

definition quarantined :: "jstring \<Rightarrow> jstring \<Rightarrow> db \<Rightarrow> bool" where
  "quarantined scope sessionKey db =
     sql_exists (\<lambda>q. quarantine_key q = (scope, sessionKey)) (session_quarantine db)"

definition rowToJob :: "db \<Rightarrow> job_row \<Rightarrow> stored_job" where
  "rowToJob db j = \<lparr>sj_row = j, sj_outbox = find_outbox (j_scope_key j) (j_job_id j) db\<rparr>"

definition get_job :: "store_cfg \<Rightarrow> jstring \<Rightarrow> db \<Rightarrow> stored_job option" where
  "get_job cfg jobId db = map_option (rowToJob db) (find_job (scopeKey cfg) jobId db)"

definition require_job :: "store_cfg \<Rightarrow> jstring \<Rightarrow> db \<Rightarrow> store_error + stored_job" where
  "require_job cfg jobId db =
     (case get_job cfg jobId db of None \<Rightarrow> Inl (JobMissing jobId) | Some j \<Rightarrow> Inr j)"

definition getBackendSession :: "store_cfg \<Rightarrow> jstring \<Rightarrow> jstring \<Rightarrow> db \<Rightarrow> session_row option" where
  "getBackendSession cfg backend sessionKey db = find_session (scopeKey cfg) backend sessionKey db"

definition getSessionQuarantine :: "store_cfg \<Rightarrow> jstring \<Rightarrow> db \<Rightarrow> quarantine_row option" where
  "getSessionQuarantine cfg sessionKey db =
     find (\<lambda>q. quarantine_key q = (scopeKey cfg, sessionKey)) (session_quarantine db)"

section \<open>Constraints and triggers of \<open>backend_sessions\<close>\<close>

definition text_between :: "nat \<Rightarrow> nat \<Rightarrow> jstring \<Rightarrow> bool" where
  "text_between lo hi s \<longleftrightarrow> lo \<le> sql_length s \<and> sql_length s \<le> hi"

definition null_or :: "('a \<Rightarrow> bool) \<Rightarrow> 'a option \<Rightarrow> bool" where
  "null_or P x = (case x of None \<Rightarrow> True | Some a \<Rightarrow> P a)"

lemma null_or_simps [simp]: "null_or P None" "null_or P (Some a) = P a"
  by (simp_all add: null_or_def)

definition session_checks :: "session_row \<Rightarrow> bool" where
  "session_checks s \<longleftrightarrow>
     text_between 1 32 (s_backend s) \<and> sha256_hex (s_session_hash s)
     \<and> null_or (text_between 1 256) (s_thread_id s)
     \<and> text_between 1 4096 (s_cwd s) \<and> text_between 1 64 (s_cli_version s)
     \<and> null_or (text_between 1 256) (s_active_turn_id s)
     \<and> (s_thread_id s \<noteq> None \<or> s_active_job_id s = None)
     \<and> ((s_active_job_id s = None \<and> s_active_lease_id s = None
           \<and> s_active_run_generation s = None \<and> s_active_turn_id s = None)
        \<or> (s_active_job_id s \<noteq> None \<and> s_active_lease_id s \<noteq> None
           \<and> (case s_active_run_generation s of None \<Rightarrow> False | Some g \<Rightarrow> 0 < g)))
     \<and> (\<not> s_recovery_required s \<or> s_active_job_id s \<noteq> None)
     \<and> null_or (text_between 1 64) (s_account_type s)
     \<and> null_or sha256_hex (s_account_subject_sha256 s)
     \<and> null_or (text_between 1 256) (s_requested_model s)
     \<and> null_or (text_between 1 256) (s_effective_model s)
     \<and> null_or (text_between 1 128) (s_model_provider s)
     \<and> null_or sha256_hex (s_security_config_sha256 s)
     \<and> null_or sha256_hex (s_feature_snapshot_sha256 s)
     \<and> null_or (text_between 1 256) (s_checkpoint_turn_id s)
     \<and> null_or (\<lambda>n. 0 \<le> n) (s_checkpoint_turn_count s)
     \<and> null_or sha256_hex (s_checkpoint_turns_sha256 s)
     \<and> null_or (\<lambda>n. 0 \<le> n) (s_checkpointed_at s)"

text \<open>The checkpoint shape and the metadata that the v8 triggers demand of a bound row.\<close>

definition checkpoint_shape :: "session_row \<Rightarrow> bool" where
  "checkpoint_shape s \<longleftrightarrow>
     s_checkpoint_turns_sha256 s \<noteq> None \<and> s_checkpointed_at s \<noteq> None
     \<and> (case s_checkpoint_turn_count s of
          None \<Rightarrow> False
        | Some n \<Rightarrow>
            (n = 0 \<longrightarrow> s_checkpoint_turn_id s = None \<and> s_checkpoint_turn_status s = None)
            \<and> (0 < n \<longrightarrow> s_checkpoint_turn_id s \<noteq> None \<and> s_checkpoint_turn_status s \<noteq> None))"

definition metadata_complete :: "session_row \<Rightarrow> bool" where
  "metadata_complete s \<longleftrightarrow>
     s_effective_model s \<noteq> None \<and> s_model_provider s \<noteq> None
     \<and> s_security_config_sha256 s \<noteq> None \<and> s_feature_snapshot_sha256 s \<noteq> None
     \<and> checkpoint_shape s
     \<and> (case s_state_ownership s of
          None \<Rightarrow> False
        | Some AccountBound \<Rightarrow>
            s_account_type s \<noteq> None
            \<and> (case s_account_identity_strength s of
                 None \<Rightarrow> False
               | Some StrengthSubject \<Rightarrow> s_account_subject_sha256 s \<noteq> None
               | Some StrengthTypeOnly \<Rightarrow> s_account_subject_sha256 s = None)
        | Some LocalStateOpaque \<Rightarrow>
            s_account_type s = None \<and> s_account_subject_sha256 s = None
            \<and> s_account_identity_strength s = None)"

definition immutable_metadata ::
  "session_row \<Rightarrow> state_ownership option \<times> jstring option \<times> jstring option
     \<times> identity_strength option \<times> jstring option \<times> jstring option \<times> jstring option
     \<times> jstring option \<times> jstring option" where
  "immutable_metadata s =
     (s_state_ownership s, s_account_type s, s_account_subject_sha256 s,
      s_account_identity_strength s, s_requested_model s, s_effective_model s,
      s_model_provider s, s_security_config_sha256 s, s_feature_snapshot_sha256 s)"

text \<open>\<open>backend_sessions_v8_metadata_*\<close> and \<open>_checkpoint_*\<close>: fire on an UPDATE that
  lists a metadata or checkpoint column.\<close>

definition metadata_update_ok :: "session_row \<Rightarrow> session_row \<Rightarrow> bool" where
  "metadata_update_ok old new \<longleftrightarrow>
     (s_state_ownership old = None \<longrightarrow> metadata_complete new)
     \<and> (s_state_ownership old \<noteq> None \<longrightarrow> immutable_metadata new = immutable_metadata old)
     \<and> (s_state_ownership new \<noteq> None \<longrightarrow> checkpoint_shape new)
     \<and> (case (s_checkpoint_turn_count old, s_checkpoint_turn_count new) of
          (Some m, Some n) \<Rightarrow>
            m \<le> n
            \<and> (m = n \<longrightarrow> s_checkpoint_turn_id new = s_checkpoint_turn_id old
                   \<and> s_checkpoint_turn_status new = s_checkpoint_turn_status old
                   \<and> s_checkpoint_turns_sha256 new = s_checkpoint_turns_sha256 old)
        | _ \<Rightarrow> True)"

definition sessions_unique :: "session_row list \<Rightarrow> bool" where
  "sessions_unique ss \<longleftrightarrow>
     distinct (map session_key ss)
     \<and> distinct (map s_session_hash ss) \<and> distinct (map s_cwd ss)
     \<and> distinct (map (\<lambda>s. (s_backend s, s_thread_id s)) (filter (\<lambda>s. s_thread_id s \<noteq> None) ss))
     \<and> distinct (map (\<lambda>s. (s_scope_key s, s_active_job_id s))
                   (filter (\<lambda>s. s_active_job_id s \<noteq> None) ss))"

definition sessions_reference_jobs :: "db \<Rightarrow> session_row list \<Rightarrow> bool" where
  "sessions_reference_jobs db ss \<longleftrightarrow>
     list_all (\<lambda>s. null_or (\<lambda>i. find_job (s_scope_key s) i db \<noteq> None) (s_active_job_id s)) ss"

definition write_sessions :: "session_row list \<Rightarrow> db \<Rightarrow> store_error + db" where
  "write_sessions ss db =
     (if list_all session_checks ss \<and> sessions_unique ss \<and> sessions_reference_jobs db ss
      then Inr (db\<lparr>backend_sessions := ss\<rparr>) else Inl SqliteConstraint)"

text \<open>An UPDATE of columns that no trigger watches.\<close>

definition update_sessions ::
  "(session_row \<Rightarrow> bool) \<Rightarrow> (session_row \<Rightarrow> session_row) \<Rightarrow> db \<Rightarrow> store_error + db" where
  "update_sessions P f db = write_sessions (sql_update P f (backend_sessions db)) db"

text \<open>An UPDATE that lists metadata or checkpoint columns.\<close>

definition update_sessions_metadata ::
  "(session_row \<Rightarrow> bool) \<Rightarrow> (session_row \<Rightarrow> session_row) \<Rightarrow> db \<Rightarrow> store_error + db" where
  "update_sessions_metadata P f db =
     (if list_all (\<lambda>s. P s \<longrightarrow> metadata_update_ok s (f s)) (backend_sessions db)
      then update_sessions P f db else Inl SqliteConstraint)"

definition insert_session :: "session_row \<Rightarrow> db \<Rightarrow> store_error + db" where
  "insert_session s db =
     (if metadata_complete s then write_sessions (backend_sessions db @ [s]) db
      else Inl SqliteConstraint)"

definition delete_sessions :: "(session_row \<Rightarrow> bool) \<Rightarrow> db \<Rightarrow> db" where
  "delete_sessions P db = db\<lparr>backend_sessions := sql_delete P (backend_sessions db)\<rparr>"

section \<open>Jobs, outbox, quarantine\<close>

definition update_jobs :: "(job_row \<Rightarrow> bool) \<Rightarrow> (job_row \<Rightarrow> job_row) \<Rightarrow> db \<Rightarrow> db" where
  "update_jobs P f db = db\<lparr>jobs := sql_update P f (jobs db)\<rparr>"

definition update_outbox :: "(outbox_row \<Rightarrow> bool) \<Rightarrow> (outbox_row \<Rightarrow> outbox_row) \<Rightarrow> db \<Rightarrow> db" where
  "update_outbox P f db = db\<lparr>outbox := sql_update P f (outbox db)\<rparr>"

definition upsertOutbox :: "store_cfg \<Rightarrow> jstring \<Rightarrow> jstring \<Rightarrow> int \<Rightarrow> db \<Rightarrow> store_error + db" where
  "upsertOutbox cfg jobId resultJson now db =
     (if find_outbox (scopeKey cfg) jobId db \<noteq> None then Inr db
      else if find_job (scopeKey cfg) jobId db = None then Inl SqliteConstraint
      else Inr (db\<lparr>outbox := outbox db @
        [\<lparr>o_scope_key = scopeKey cfg, o_job_id = jobId, o_status = Pending,
          o_result_json = resultJson, o_retry_count = 0, o_last_message_id = None,
          o_next_attempt_at = None, o_created_at = now, o_updated_at = now,
          o_delivered_at = None, o_acked_at = None\<rparr>]\<rparr>))"

text \<open>\<open>INSERT OR IGNORE INTO session_quarantine\<close>, of one row and of the sessions of the
  selected jobs.\<close>

definition insert_quarantine :: "jstring \<Rightarrow> jstring \<Rightarrow> jstring \<Rightarrow> int \<Rightarrow> db \<Rightarrow> db" where
  "insert_quarantine scope sessionKey reason now db =
     (if quarantined scope sessionKey db then db
      else db\<lparr>session_quarantine := session_quarantine db @
        [\<lparr>q_scope_key = scope, q_session_key = sessionKey, q_reason = reason,
          q_created_at = now\<rparr>]\<rparr>)"

definition quarantine_jobs :: "(job_row \<Rightarrow> bool) \<Rightarrow> jstring \<Rightarrow> int \<Rightarrow> db \<Rightarrow> db" where
  "quarantine_jobs P reason now db =
     fold (\<lambda>j. insert_quarantine (j_scope_key j) (j_session_key j) reason now)
       (filter P (jobs db)) db"

definition delete_quarantine :: "jstring \<Rightarrow> jstring \<Rightarrow> db \<Rightarrow> db" where
  "delete_quarantine scope sessionKey db =
     db\<lparr>session_quarantine :=
       sql_delete (\<lambda>q. quarantine_key q = (scope, sessionKey)) (session_quarantine db)\<rparr>"

section \<open>The execution attempt ledger\<close>

definition execution_attempt_reason_max_chars :: nat where
  "execution_attempt_reason_max_chars = 4096"

definition boundedAttemptReason :: "store_cfg \<Rightarrow> jstring option \<Rightarrow> jstring option" where
  "boundedAttemptReason cfg reason =
     (case reason of
        None \<Rightarrow> None
      | Some r \<Rightarrow>
          if length r \<le> execution_attempt_reason_max_chars then Some r
          else Some (js ''[TRUNCATED chars='' @ js_decimal (length r) @ js '' sha256=''
                 @ sha256 cfg r @ js '']''))"

definition event_checks :: "event_row \<Rightarrow> bool" where
  "event_checks e \<longleftrightarrow>
     0 < e_run_generation e \<and> 0 < e_sequence e
     \<and> text_between 1 4096 (e_session_key e) \<and> text_between 1 4096 (e_lease_id e)
     \<and> text_between 1 4096 (e_backend_execution_id e)
     \<and> null_or (text_between 1 256) (e_provider_session_id e)
     \<and> null_or (text_between 1 256) (e_provider_operation_id e)
     \<and> null_or (text_between 1 64) (e_runtime_version e)
     \<and> null_or (text_between 1 256) (e_requested_model e)
     \<and> null_or (text_between 1 256) (e_effective_model e)
     \<and> null_or (text_between 1 128) (e_model_provider e)
     \<and> null_or (text_between 1 64) (e_account_type e)
     \<and> null_or sha256_hex (e_account_subject_sha256 e)
     \<and> null_or sha256_hex (e_security_config_sha256 e)
     \<and> null_or sha256_hex (e_feature_snapshot_sha256 e)
     \<and> null_or (text_between 0 execution_attempt_reason_max_chars) (e_reason e)
     \<and> 0 \<le> e_created_at e"

definition same_attempt :: "jstring \<Rightarrow> jstring \<Rightarrow> nat \<Rightarrow> event_row \<Rightarrow> bool" where
  "same_attempt scope jobId g e \<longleftrightarrow>
     e_scope_key e = scope \<and> e_job_id e = jobId \<and> e_run_generation e = g"

definition attempt_has :: "db \<Rightarrow> jstring \<Rightarrow> jstring \<Rightarrow> nat \<Rightarrow> attempt_event_type \<Rightarrow> bool" where
  "attempt_has db scope jobId g t \<longleftrightarrow>
     sql_exists (\<lambda>e. same_attempt scope jobId g e \<and> e_event_type e = t) (attempt_events db)"

text \<open>The INSERT: CHECKs, primary key, \<open>UNIQUE(scope_key,job_id,run_generation,event_type)\<close>
  and the foreign key.\<close>

definition insert_event :: "event_row \<Rightarrow> db \<Rightarrow> store_error + db" where
  "insert_event e db =
     (if event_checks e
        \<and> \<not> sql_exists (\<lambda>x. same_attempt (e_scope_key e) (e_job_id e) (e_run_generation e) x
              \<and> (e_sequence x = e_sequence e \<or> e_event_type x = e_event_type e))
            (attempt_events db)
        \<and> find_job (e_scope_key e) (e_job_id e) db \<noteq> None
      then Inr (db\<lparr>attempt_events := attempt_events db @ [e]\<rparr>)
      else Inl SqliteConstraint)"

definition session_metadata_missing :: "session_row option \<Rightarrow> bool" where
  "session_metadata_missing so =
     (case so of
        None \<Rightarrow> True
      | Some s \<Rightarrow>
          falsy (s_thread_id s) \<or> s_cli_version s = [] \<or> falsy (s_effective_model s)
          \<or> falsy (s_model_provider s) \<or> s_state_ownership s = None
          \<or> (s_state_ownership s = Some AccountBound \<and> falsy (s_account_type s))
          \<or> (s_state_ownership s = Some LocalStateOpaque
              \<and> (s_account_type s \<noteq> None \<or> s_account_subject_sha256 s \<noteq> None))
          \<or> falsy (s_security_config_sha256 s) \<or> falsy (s_feature_snapshot_sha256 s))"

text \<open>A column of the LEFT JOINed session.\<close>

definition joined :: "(session_row \<Rightarrow> 'a option) \<Rightarrow> session_row option \<Rightarrow> 'a option" where
  "joined f so = Option.bind so f"

text \<open>\<open>providerOperationId\<close> is \<open>None\<close> when the caller leaves it undefined: the session's
  active turn is recorded then.\<close>

definition appendExecutionAttemptEventLocked ::
  "store_cfg \<Rightarrow> jstring \<Rightarrow> nat \<Rightarrow> attempt_event_type \<Rightarrow> jstring option option
     \<Rightarrow> jstring option \<Rightarrow> int \<Rightarrow> db \<Rightarrow> store_error + db" where
  "appendExecutionAttemptEventLocked cfg jobId runGeneration eventType providerOperationId reason
     createdAt db =
     (case find (\<lambda>j. job_key j = (scopeKey cfg, jobId) \<and> j_run_generation j = runGeneration)
             (jobs db) of
        None \<Rightarrow> Inl (AttemptContextMissing jobId)
      | Some j \<Rightarrow>
          if falsy (j_lease_id j) \<or> falsy (j_connector_id j)
          then Inl (AttemptContextMissing jobId)
          else
            let so = find_session (j_scope_key j) (backend_name (j_target_backend j))
                       (j_session_key j) db;
                allowsLegacy =
                  (eventType = EvInterrupted \<or> eventType = EvCancelUnknown)
                  \<and> attempt_has db (scopeKey cfg) jobId runGeneration EvLegacyActiveImported
            in if j_target_backend j \<noteq> Hermes \<and> \<not> allowsLegacy \<and> session_metadata_missing so
               then Inl (AttemptMetadataMissing jobId)
               else
                 insert_event
                   \<lparr>e_scope_key = scopeKey cfg, e_job_id = jobId, e_run_generation = runGeneration,
                    e_sequence = Suc (sql_max e_sequence
                      (same_attempt (scopeKey cfg) jobId runGeneration) (attempt_events db)),
                    e_backend = j_target_backend j, e_session_key = j_session_key j,
                    e_lease_id = the (j_lease_id j),
                    e_backend_execution_id = the (j_connector_id j),
                    e_provider_session_id =
                      (if j_target_backend j = Hermes then None else joined s_thread_id so),
                    e_provider_operation_id =
                      (case providerOperationId of
                         None \<Rightarrow> joined s_active_turn_id so | Some x \<Rightarrow> x),
                    e_runtime_version = joined (\<lambda>s. Some (s_cli_version s)) so,
                    e_requested_model = joined s_requested_model so,
                    e_effective_model = joined s_effective_model so,
                    e_model_provider = joined s_model_provider so,
                    e_state_ownership = joined s_state_ownership so,
                    e_account_type = joined s_account_type so,
                    e_account_subject_sha256 = joined s_account_subject_sha256 so,
                    e_security_config_sha256 = joined s_security_config_sha256 so,
                    e_feature_snapshot_sha256 = joined s_feature_snapshot_sha256 so,
                    e_event_type = eventType, e_reason = boundedAttemptReason cfg reason,
                    e_created_at = createdAt\<rparr> db)"

section \<open>Pending cancels\<close>

definition pending_cancel_ttl_ms :: int where
  "pending_cancel_ttl_ms = 24 * 60 * 60 * 1000"

definition pending_cancel_max_rows :: nat where
  "pending_cancel_max_rows = 4096"

definition pruneExpiredPendingCancelsLocked :: "int \<Rightarrow> db \<Rightarrow> db" where
  "pruneExpiredPendingCancelsLocked now db =
     db\<lparr>pending_cancels :=
       sql_delete (\<lambda>p. p_created_at p < now - pending_cancel_ttl_ms) (pending_cancels db)\<rparr>"

definition delete_pending :: "jstring \<Rightarrow> jstring \<Rightarrow> db \<Rightarrow> db" where
  "delete_pending scope jobId db =
     db\<lparr>pending_cancels :=
       sql_delete (\<lambda>p. pending_key p = (scope, jobId)) (pending_cancels db)\<rparr>"

definition has_pending :: "db \<Rightarrow> jstring \<Rightarrow> jstring \<Rightarrow> bool" where
  "has_pending db scope jobId =
     sql_exists (\<lambda>p. pending_key p = (scope, jobId)) (pending_cancels db)"

definition cancellable :: "job_status \<Rightarrow> bool" where
  "cancellable s \<longleftrightarrow> s \<in> {Received, Acked, Dispatching, Running}"

text \<open>The SET clause shared by \<open>requestCancel\<close> and the two consumers of intents.\<close>

definition cancel_row :: "int \<Rightarrow> job_row \<Rightarrow> job_row" where
  "cancel_row now j = j\<lparr>
     j_cancel_requested := True,
     j_status := (if j_status j \<in> {Dispatching, Running} then Cancelling else Cancelled),
     j_completed_at := (if j_status j \<in> {Received, Acked} then Some now else j_completed_at j),
     j_updated_at := now\<rparr>"

definition consumeMatchedPendingCancelLocked :: "jstring \<Rightarrow> jstring \<Rightarrow> int \<Rightarrow> db \<Rightarrow> db" where
  "consumeMatchedPendingCancelLocked scope jobId now db =
     delete_pending scope jobId
       (update_jobs
         (\<lambda>j. job_key j = (scope, jobId) \<and> cancellable (j_status j)
            \<and> has_pending db (j_scope_key j) (j_job_id j))
         (cancel_row now) db)"

definition consumeAllMatchedPendingCancelsLocked :: "store_cfg \<Rightarrow> int \<Rightarrow> db \<Rightarrow> db" where
  "consumeAllMatchedPendingCancelsLocked cfg now db =
     (let db1 = update_jobs
            (\<lambda>j. j_scope_key j = scopeKey cfg \<and> cancellable (j_status j)
               \<and> has_pending db (j_scope_key j) (j_job_id j))
            (cancel_row now) db
      in db1\<lparr>pending_cancels :=
           sql_delete (\<lambda>p. p_scope_key p = scopeKey cfg
                \<and> find_job (p_scope_key p) (p_job_id p) db1 \<noteq> None)
             (pending_cancels db1)\<rparr>)"

text \<open>Keeps the newest 4096 intents: the deleted ones come after them in the order
  \<open>created_at DESC, rowid DESC\<close>.\<close>

definition trimLegacyPendingCancelOverflowLocked :: "db \<Rightarrow> db" where
  "trimLegacyPendingCancelOverflowLocked db =
     (let overflow = drop pending_cancel_max_rows (rev (sort_key p_created_at (pending_cancels db)))
      in db\<lparr>pending_cancels := sql_delete (\<lambda>p. p \<in> set overflow) (pending_cancels db)\<rparr>)"

end
