(* ===== verification/Store_Jobs.thy ===== *)
theory Store_Jobs
  imports Store_Base
begin

text \<open>
  The job life cycle of \<open>JobStore\<close> (\<open>src/src/state/store.ts\<close>): arrival, acknowledgement,
  cancellation, the Hermes connector's attempts, restart recovery and the read queries. One
  definition per method; \<open>now\<close> is the value of \<open>Date.now()\<close> in that call.
\<close>

definition businessPayloadHash :: "store_cfg \<Rightarrow> incoming_job \<Rightarrow> jstring" where
  "businessPayloadHash cfg i =
     sha256 cfg (business_payload (in_fromNodeId i) (in_fromNodeType i) (in_text i))"

text \<open>\<open>WHERE scope_key=? AND job_id=?\<close>\<close>

abbreviation at_job :: "store_cfg \<Rightarrow> jstring \<Rightarrow> job_row \<Rightarrow> bool" where
  "at_job cfg jobId j \<equiv> job_key j = (scopeKey cfg, jobId)"

definition new_job_row :: "store_cfg \<Rightarrow> int \<Rightarrow> incoming_job \<Rightarrow> jstring \<Rightarrow> backend_kind \<Rightarrow> job_row" where
  "new_job_row cfg now i sessionKey target =
     \<lparr>j_scope_key = scopeKey cfg, j_job_id = in_jobId i, j_msg_id = in_messageId i,
      j_payload_hash = businessPayloadHash cfg i, j_target_backend = target,
      j_from_node_id = in_fromNodeId i, j_from_node_type = in_fromNodeType i,
      j_input_text = in_text i, j_raw_payload = in_rawPayload i, j_status = Received,
      j_session_key = sessionKey, j_connector_id = None, j_lease_id = None,
      j_run_generation = 0, j_error = None, j_cancel_requested = False, j_created_at = now,
      j_updated_at = now, j_completed_at = None, j_input_timestamp = in_timestamp i\<rparr>"

definition ingest_tx ::
  "store_cfg \<Rightarrow> int \<Rightarrow> incoming_job \<Rightarrow> jstring \<Rightarrow> backend_kind \<Rightarrow> bool tx" where
  "ingest_tx cfg now i sessionKey target db =
     (let db1 = pruneExpiredPendingCancelsLocked now db;
          inserted = (find_job (scopeKey cfg) (in_jobId i) db1 = None);
          db2 = (if inserted
                 then db1\<lparr>jobs := jobs db1 @ [new_job_row cfg now i sessionKey target]\<rparr>
                 else db1)
      in Inr (inserted, consumeMatchedPendingCancelLocked (scopeKey cfg) (in_jobId i) now db2))"

definition ingest ::
  "store_cfg \<Rightarrow> int \<Rightarrow> incoming_job \<Rightarrow> jstring \<Rightarrow> backend_kind \<Rightarrow> db \<Rightarrow> (bool \<times> stored_job) reply"
where
  "ingest cfg now i sessionKey target db =
     after (transaction (ingest_tx cfg now i sessionKey target) db) (\<lambda>inserted db'.
       bindR (require_job cfg (in_jobId i) db') (\<lambda>job.
         if j_payload_hash (sj_row job) \<noteq> businessPayloadHash cfg i
         then Inl (JobConflict (in_jobId i)) else Inr (inserted, job)))"

definition transition :: "store_cfg \<Rightarrow> int \<Rightarrow> jstring \<Rightarrow> job_status list \<Rightarrow> job_status
    \<Rightarrow> jstring option \<Rightarrow> db \<Rightarrow> db" where
  "transition cfg now jobId from_statuses to_status err db =
     update_jobs (\<lambda>j. at_job cfg jobId j \<and> j_status j \<in> set from_statuses)
       (\<lambda>j. j\<lparr>j_status := to_status, j_error := coalesce err (j_error j), j_updated_at := now\<rparr>) db"

definition markAcked :: "store_cfg \<Rightarrow> int \<Rightarrow> jstring \<Rightarrow> db \<Rightarrow> stored_job reply" where
  "markAcked cfg now jobId db =
     (let db' = transition cfg now jobId [Received] Acked None db
      in (require_job cfg jobId db', db'))"

section \<open>Hermes attempts\<close>

text \<open>\<open>NOT EXISTS\<close> another active job of the session, \<open>NOT EXISTS\<close> a quarantine.\<close>

definition session_busy :: "db \<Rightarrow> job_row \<Rightarrow> bool" where
  "session_busy db j \<longleftrightarrow>
     sql_exists (\<lambda>a. j_scope_key a = j_scope_key j \<and> j_session_key a = j_session_key j
        \<and> j_job_id a \<noteq> j_job_id j \<and> active_status (j_status a)) (jobs db)"

definition dispatchable :: "db \<Rightarrow> job_row \<Rightarrow> bool" where
  "dispatchable db j \<longleftrightarrow>
     waiting_status (j_status j) \<and> \<not> j_cancel_requested j \<and> \<not> session_busy db j
     \<and> \<not> quarantined (j_scope_key j) (j_session_key j) db"

definition claim_row :: "int \<Rightarrow> jstring \<Rightarrow> jstring \<Rightarrow> job_row \<Rightarrow> job_row" where
  "claim_row now connectorId leaseId j = j\<lparr>
     j_status := Dispatching, j_connector_id := Some connectorId, j_lease_id := Some leaseId,
     j_run_generation := Suc (j_run_generation j), j_updated_at := now\<rparr>"

definition claimForDispatch ::
  "store_cfg \<Rightarrow> int \<Rightarrow> jstring \<Rightarrow> jstring \<Rightarrow> jstring \<Rightarrow> db \<Rightarrow> stored_job option reply" where
  "claimForDispatch cfg now jobId connectorId leaseId db =
     after (transaction (\<lambda>db.
       let P = (\<lambda>j. at_job cfg jobId j \<and> j_target_backend j = Hermes \<and> dispatchable db j);
           db1 = update_jobs P (claim_row now connectorId leaseId) db
       in if sql_count P (jobs db) \<noteq> 1 then Inr (False, db1)
          else
            bindR (require_job cfg jobId db1) (\<lambda>job.
            bindR (appendExecutionAttemptEventLocked cfg jobId (j_run_generation (sj_row job))
                     EvReserved (Some None) None now db1) (\<lambda>db2.
            Inr (True, db2)))) db)
       (\<lambda>claimed db'. if claimed then map_sum id Some (require_job cfg jobId db') else Inr None)"

definition resetUnsentDispatch :: "store_cfg \<Rightarrow> int \<Rightarrow> jstring \<Rightarrow> jstring \<Rightarrow> db \<Rightarrow> unit reply" where
  "resetUnsentDispatch cfg now jobId leaseId db =
     transaction (\<lambda>db.
       let P = (\<lambda>j. at_job cfg jobId j \<and> j_target_backend j = Hermes
                  \<and> j_status j = Dispatching \<and> j_lease_id j = Some leaseId);
           db1 = update_jobs P (\<lambda>j. j\<lparr>j_status := Acked, j_updated_at := now\<rparr>) db
       in if sql_count P (jobs db) \<noteq> 1 then Inr ((), db1)
          else
            bindR (require_job cfg jobId db1) (\<lambda>job.
            let g = j_run_generation (sj_row job) in
            bindR (appendExecutionAttemptEventLocked cfg jobId g EvNotSent (Some None)
                     (Some (js ''connector request was proven not sent'')) now db1) (\<lambda>db2.
            let Q = (\<lambda>j. at_job cfg jobId j \<and> j_target_backend j = Hermes \<and> j_status j = Acked
                       \<and> j_lease_id j = Some leaseId \<and> j_run_generation j = g);
                db3 = update_jobs Q (\<lambda>j. j\<lparr>j_connector_id := None, j_lease_id := None\<rparr>) db2
            in if sql_count Q (jobs db2) \<noteq> 1 then Inl InconsistentCommit else Inr ((), db3)))) db"

definition markRunning ::
  "store_cfg \<Rightarrow> int \<Rightarrow> jstring \<Rightarrow> jstring \<Rightarrow> jstring \<Rightarrow> db \<Rightarrow> stored_job reply" where
  "markRunning cfg now jobId connectorId leaseId db =
     after (transaction (\<lambda>db.
       let P = (\<lambda>j. at_job cfg jobId j \<and> j_target_backend j = Hermes
                  \<and> j_status j = Dispatching \<and> j_lease_id j = Some leaseId
                  \<and> \<not> j_cancel_requested j);
           db1 = update_jobs P (\<lambda>j. j\<lparr>j_status := Running, j_connector_id := Some connectorId,
                   j_updated_at := now\<rparr>) db
       in if sql_count P (jobs db) \<noteq> 1 then Inr ((), db1)
          else
            bindR (require_job cfg jobId db1) (\<lambda>job.
            bindR (appendExecutionAttemptEventLocked cfg jobId (j_run_generation (sj_row job))
                     EvAccepted (Some None) None now db1) (\<lambda>db2.
            Inr ((), db2)))) db)
       (\<lambda>_ db'. require_job cfg jobId db')"

text \<open>\<open>status: "Succeeded" | "Failed"\<close>\<close>

fun finish_event :: "job_status \<Rightarrow> attempt_event_type" where
  "finish_event Succeeded = EvSucceeded"
| "finish_event _ = EvFailed"

definition finishWithOutbox ::
  "store_cfg \<Rightarrow> int \<Rightarrow> jstring \<Rightarrow> jstring \<Rightarrow> job_status \<Rightarrow> jstring \<Rightarrow> jstring option \<Rightarrow> db
     \<Rightarrow> stored_job reply" where
  "finishWithOutbox cfg now jobId leaseId status resultJson err db =
     after (transaction (\<lambda>db.
       let P = (\<lambda>j. at_job cfg jobId j \<and> j_lease_id j = Some leaseId
                  \<and> j_target_backend j = Hermes \<and> j_status j \<in> {Dispatching, Running}
                  \<and> \<not> j_cancel_requested j);
           db1 = update_jobs P (\<lambda>j. j\<lparr>j_status := status, j_error := err,
                   j_completed_at := Some now, j_updated_at := now\<rparr>) db
       in if sql_count P (jobs db) \<noteq> 1 then Inr ((), db1)
          else
            bindR (require_job cfg jobId db1) (\<lambda>job.
            bindR (appendExecutionAttemptEventLocked cfg jobId (j_run_generation (sj_row job))
                     (finish_event status) (Some None) err now db1) (\<lambda>db2.
            bindR (upsertOutbox cfg jobId resultJson now db2) (\<lambda>db3.
            Inr ((), db3))))) db)
       (\<lambda>_ db'. require_job cfg jobId db')"

definition finishSuccess ::
  "store_cfg \<Rightarrow> int \<Rightarrow> jstring \<Rightarrow> jstring \<Rightarrow> jstring \<Rightarrow> db \<Rightarrow> stored_job reply" where
  "finishSuccess cfg now jobId leaseId resultJson db =
     finishWithOutbox cfg now jobId leaseId Succeeded resultJson None db"

definition finishFailure ::
  "store_cfg \<Rightarrow> int \<Rightarrow> jstring \<Rightarrow> jstring \<Rightarrow> jstring \<Rightarrow> jstring \<Rightarrow> db \<Rightarrow> stored_job reply" where
  "finishFailure cfg now jobId leaseId resultJson err db =
     finishWithOutbox cfg now jobId leaseId Failed resultJson (Some err) db"

definition reject :: "store_cfg \<Rightarrow> int \<Rightarrow> jstring \<Rightarrow> jstring \<Rightarrow> jstring \<Rightarrow> db \<Rightarrow> stored_job reply" where
  "reject cfg now jobId resultJson reason db =
     after (transaction (\<lambda>db.
       let P = (\<lambda>j. at_job cfg jobId j \<and> waiting_status (j_status j));
           db1 = update_jobs P (\<lambda>j. j\<lparr>j_status := Rejected, j_error := Some reason,
                   j_completed_at := Some now, j_updated_at := now\<rparr>) db
       in if sql_count P (jobs db) \<noteq> 1 then Inr ((), db1)
          else bindR (upsertOutbox cfg jobId resultJson now db1) (\<lambda>db2. Inr ((), db2))) db)
       (\<lambda>_ db'. require_job cfg jobId db')"

section \<open>Cancellation\<close>

definition requestCancel :: "store_cfg \<Rightarrow> int \<Rightarrow> jstring \<Rightarrow> db \<Rightarrow> stored_job option reply" where
  "requestCancel cfg now jobId db =
     after (transaction (\<lambda>db.
       let db1 = pruneExpiredPendingCancelsLocked now db;
           db2 = update_jobs (\<lambda>j. at_job cfg jobId j \<and> cancellable (j_status j))
                   (cancel_row now) db1;
           here = (\<lambda>p. pending_key p = (scopeKey cfg, jobId))
       in if find_job (scopeKey cfg) jobId db2 \<noteq> None
          then Inr ((), delete_pending (scopeKey cfg) jobId db2)
          else if sql_count here (pending_cancels db2) = 1
          then Inr ((), db2\<lparr>pending_cancels :=
                 sql_update here (\<lambda>p. p\<lparr>p_created_at := now\<rparr>) (pending_cancels db2)\<rparr>)
          else if pending_cancel_max_rows \<le> length (pending_cancels db2)
          then Inl PendingCancelCapacity
          else Inr ((), db2\<lparr>pending_cancels := pending_cancels db2 @
                 [\<lparr>p_scope_key = scopeKey cfg, p_job_id = jobId, p_created_at = now\<rparr>]\<rparr>)) db)
       (\<lambda>_ db'. Inr (get_job cfg jobId db'))"

definition markCancelUnknown ::
  "store_cfg \<Rightarrow> int \<Rightarrow> jstring \<Rightarrow> jstring \<Rightarrow> jstring \<Rightarrow> db \<Rightarrow> stored_job reply" where
  "markCancelUnknown cfg now jobId leaseId reason db =
     after (transaction (\<lambda>db.
       let P = (\<lambda>j. at_job cfg jobId j \<and> j_target_backend j = Hermes
                  \<and> j_lease_id j = Some leaseId \<and> j_status j = Cancelling);
           db1 = update_jobs P (\<lambda>j. j\<lparr>j_status := CancelUnknown, j_cancel_requested := True,
                   j_error := Some reason, j_completed_at := Some now, j_updated_at := now\<rparr>) db
       in if sql_count P (jobs db) \<noteq> 1 then Inr ((), db1)
          else
            bindR (require_job cfg jobId db1) (\<lambda>job.
            bindR (appendExecutionAttemptEventLocked cfg jobId (j_run_generation (sj_row job))
                     EvCancelUnknown (Some None) (Some reason) now db1) (\<lambda>db2.
            Inr ((), quarantine_jobs (at_job cfg jobId) reason now db2)))) db)
       (\<lambda>_ db'. require_job cfg jobId db')"

definition finishHermesCancellationNotStarted ::
  "store_cfg \<Rightarrow> int \<Rightarrow> jstring \<Rightarrow> jstring \<Rightarrow> db \<Rightarrow> stored_job option reply" where
  "finishHermesCancellationNotStarted cfg now jobId leaseId db =
     after (transaction (\<lambda>db.
       let P = (\<lambda>j. at_job cfg jobId j \<and> j_target_backend j = Hermes \<and> j_status j = Cancelling
                  \<and> j_cancel_requested j \<and> j_lease_id j = Some leaseId);
           db1 = update_jobs P (\<lambda>j. j\<lparr>j_status := Cancelled, j_completed_at := Some now,
                   j_updated_at := now\<rparr>) db
       in if sql_count P (jobs db) \<noteq> 1 then Inr (False, db1)
          else
            bindR (require_job cfg jobId db1) (\<lambda>job.
            bindR (appendExecutionAttemptEventLocked cfg jobId (j_run_generation (sj_row job))
                     EvCancelledNotSent (Some None)
                     (Some (js ''Hermes connector proved execution never started'')) now db1) (\<lambda>db2.
            Inr (True, db2)))) db)
       (\<lambda>done db'. if done then map_sum id Some (require_job cfg jobId db') else Inr None)"

section \<open>Disconnects and restarts\<close>

definition markConnectorDisconnected :: "store_cfg \<Rightarrow> int \<Rightarrow> jstring \<Rightarrow> db \<Rightarrow> nat reply" where
  "markConnectorDisconnected cfg now connectorId db =
     transaction (\<lambda>db.
       let mine = (\<lambda>j. j_scope_key j = scopeKey cfg \<and> j_connector_id j = Some connectorId
                     \<and> j_target_backend j = Hermes);
           activeAttempts = filter (\<lambda>j. mine j \<and> active_status (j_status j)) (jobs db);
           db1 = quarantine_jobs (\<lambda>j. mine j \<and> active_status (j_status j))
                   (js ''connector disconnected during active execution'') now db;
           C = (\<lambda>j. mine j \<and> j_status j = Cancelling);
           cancelUnknown = sql_count C (jobs db1);
           db2 = update_jobs C (\<lambda>j. j\<lparr>j_status := CancelUnknown,
                   j_error := coalesce (j_error j)
                     (Some (js ''connector disconnected during cancellation'')),
                   j_completed_at := Some now, j_updated_at := now\<rparr>) db1;
           I = (\<lambda>j. mine j \<and> j_status j \<in> {Dispatching, Running});
           interrupted = sql_count I (jobs db2);
           db3 = update_jobs I (\<lambda>j. j\<lparr>j_status := Interrupted,
                   j_error := coalesce (j_error j) (Some (js ''connector disconnected'')),
                   j_completed_at := Some now, j_updated_at := now\<rparr>) db2;
           changed = cancelUnknown + interrupted
       in if length activeAttempts \<noteq> changed then Inl InconsistentCommit
          else
            bindR (eachR (\<lambda>a. appendExecutionAttemptEventLocked cfg (j_job_id a)
                (j_run_generation a)
                (if j_status a = Cancelling then EvCancelUnknown else EvInterrupted)
                (Some None)
                (Some (if j_status a = Cancelling
                       then js ''connector disconnected during cancellation''
                       else js ''connector disconnected'')) now) activeAttempts db3) (\<lambda>db4.
            Inr (changed, db4))) db"

record recovery_counts =
  rc_interrupted :: nat
  rc_cancelUnknown :: nat
  rc_outboxPending :: nat

definition recoverAfterRestart :: "store_cfg \<Rightarrow> int \<Rightarrow> db \<Rightarrow> recovery_counts reply" where
  "recoverAfterRestart cfg now db =
     transaction (\<lambda>db.
       let db1 = trimLegacyPendingCancelOverflowLocked
                   (consumeAllMatchedPendingCancelsLocked cfg now
                     (pruneExpiredPendingCancelsLocked now db));
           mine = (\<lambda>j. j_scope_key j = scopeKey cfg);
           activeAttempts = filter (\<lambda>j. mine j \<and> active_status (j_status j)) (jobs db1);
           db2 = quarantine_jobs (\<lambda>j. mine j \<and> active_status (j_status j))
                   (js ''daemon restarted during active execution'') now db1
       in bindR (update_sessions
              (\<lambda>s. s_scope_key s = scopeKey cfg \<and> s_active_job_id s \<noteq> None)
              (\<lambda>s. s\<lparr>s_recovery_required := True, s_updated_at := now\<rparr>) db2) (\<lambda>db3.
          let C = (\<lambda>j. mine j \<and> j_status j = Cancelling);
              cancelUnknown = sql_count C (jobs db3);
              db4 = update_jobs C (\<lambda>j. j\<lparr>j_status := CancelUnknown,
                      j_completed_at := Some now, j_updated_at := now\<rparr>) db3;
              I = (\<lambda>j. mine j \<and> j_status j \<in> {Dispatching, Running});
              interrupted = sql_count I (jobs db4);
              db5 = update_jobs I (\<lambda>j. j\<lparr>j_status := Interrupted,
                      j_completed_at := Some now, j_updated_at := now,
                      j_error := coalesce (j_error j)
                        (Some (js ''daemon restarted while connector job was active''))\<rparr>) db4
          in if length activeAttempts \<noteq> cancelUnknown + interrupted then Inl InconsistentCommit
             else
               bindR (eachR (\<lambda>a. appendExecutionAttemptEventLocked cfg (j_job_id a)
                   (j_run_generation a)
                   (if j_status a = Cancelling then EvCancelUnknown else EvInterrupted)
                   None
                   (Some (if j_status a = Cancelling
                          then js ''daemon restarted during cancellation''
                          else js ''daemon restarted during active execution'')) now)
                 activeAttempts db5) (\<lambda>db6.
               let D = (\<lambda>r. o_scope_key r = scopeKey cfg \<and> o_status r = Delivering)
               in Inr (\<lparr>rc_interrupted = interrupted, rc_cancelUnknown = cancelUnknown,
                        rc_outboxPending = sql_count D (outbox db6)\<rparr>,
                       update_outbox D (\<lambda>r. r\<lparr>o_status := Pending, o_updated_at := now\<rparr>)
                         db6)))) db"

section \<open>Queries\<close>

definition listDispatchable :: "store_cfg \<Rightarrow> backend_kind \<Rightarrow> nat \<Rightarrow> db \<Rightarrow> stored_job list" where
  "listDispatchable cfg target limit db =
     map (rowToJob db)
       (take limit (sort_key j_created_at
         (filter (\<lambda>j. j_scope_key j = scopeKey cfg \<and> j_target_backend j = target
             \<and> dispatchable db j) (jobs db))))"

definition listRecent :: "store_cfg \<Rightarrow> nat \<Rightarrow> db \<Rightarrow> stored_job list" where
  "listRecent cfg limit db =
     map (rowToJob db)
       (take limit (sort_key (\<lambda>j. - j_updated_at j)
         (filter (\<lambda>j. j_scope_key j = scopeKey cfg) (jobs db))))"

record backlog_count =
  bl_backend :: backend_kind
  bl_count :: nat
  bl_oldestCreatedAt :: int

text \<open>\<open>GROUP BY target_backend ORDER BY target_backend\<close>\<close>

definition listBackendBacklog :: "store_cfg \<Rightarrow> db \<Rightarrow> backlog_count list" where
  "listBackendBacklog cfg db =
     (let open_jobs = filter (\<lambda>j. j_scope_key j = scopeKey cfg
            \<and> (waiting_status (j_status j) \<or> active_status (j_status j))) (jobs db)
      in map (\<lambda>b. let mine = filter (\<lambda>j. j_target_backend j = b) open_jobs
                 in \<lparr>bl_backend = b, bl_count = length mine,
                     bl_oldestCreatedAt = Min (set (map j_created_at mine))\<rparr>)
           (sort (remdups (map j_target_backend open_jobs))))"

text \<open>The last \<open>limit\<close> events of a job, oldest first.\<close>

definition job_events :: "store_cfg \<Rightarrow> jstring \<Rightarrow> db \<Rightarrow> event_row list" where
  "job_events cfg jobId db =
     sort_key e_run_generation (sort_key e_sequence
       (filter (\<lambda>e. e_scope_key e = scopeKey cfg \<and> e_job_id e = jobId) (attempt_events db)))"

definition listExecutionAttemptEvents :: "store_cfg \<Rightarrow> jstring \<Rightarrow> nat \<Rightarrow> db \<Rightarrow> event_row list" where
  "listExecutionAttemptEvents cfg jobId limit db =
     rev (take limit (rev (job_events cfg jobId db)))"

definition latestExecutionAttemptEvent :: "store_cfg \<Rightarrow> jstring \<Rightarrow> db \<Rightarrow> event_row option" where
  "latestExecutionAttemptEvent cfg jobId db =
     (case rev (job_events cfg jobId db) of [] \<Rightarrow> None | e # _ \<Rightarrow> Some e)"

section \<open>Quarantine and meta data\<close>

definition listQuarantinedSessions :: "store_cfg \<Rightarrow> db \<Rightarrow> quarantine_row list" where
  "listQuarantinedSessions cfg db =
     sort_key q_created_at (filter (\<lambda>q. q_scope_key q = scopeKey cfg) (session_quarantine db))"

definition quarantineSession :: "store_cfg \<Rightarrow> int \<Rightarrow> jstring \<Rightarrow> jstring \<Rightarrow> db \<Rightarrow> bool reply" where
  "quarantineSession cfg now sessionKey reason db =
     (Inr (\<not> quarantined (scopeKey cfg) sessionKey db),
      insert_quarantine (scopeKey cfg) sessionKey reason now db)"

definition releaseSessionQuarantine :: "store_cfg \<Rightarrow> jstring \<Rightarrow> db \<Rightarrow> bool reply" where
  "releaseSessionQuarantine cfg sessionKey db =
     (Inr (sql_count (\<lambda>q. quarantine_key q = (scopeKey cfg, sessionKey))
             (session_quarantine db) = 1),
      delete_quarantine (scopeKey cfg) sessionKey db)"

definition getMeta :: "jstring \<Rightarrow> db \<Rightarrow> jstring option" where
  "getMeta key db = map_option snd (find (\<lambda>m. fst m = key) (meta db))"

definition setMeta :: "jstring \<Rightarrow> jstring \<Rightarrow> db \<Rightarrow> unit reply" where
  "setMeta key v db =
     (Inr (),
      if sql_exists (\<lambda>m. fst m = key) (meta db)
      then db\<lparr>meta := sql_update (\<lambda>m. fst m = key) (\<lambda>m. (key, v)) (meta db)\<rparr>
      else db\<lparr>meta := meta db @ [(key, v)]\<rparr>)"

end
