(* ===== verification/Store_Backend.thy ===== *)
theory Store_Backend
  imports Store_Jobs
begin

text \<open>
  The durable backend side of \<open>JobStore\<close> (\<open>src/src/state/store.ts\<close>), used by the Codex
  and Claude backends: the session binding, the thread-tail checkpoint, and the attempt life
  cycle that keeps \<open>jobs\<close>, \<open>backend_sessions\<close> and the ledger in step.
\<close>

section \<open>Session bindings\<close>

abbreviation conflictR :: "session_conflict \<Rightarrow> store_error + 'a" where
  "conflictR c \<equiv> Inl (BackendSessionConflict c)"

definition ensured_row :: "store_cfg \<Rightarrow> int \<Rightarrow> ensure_session_input \<Rightarrow> session_row" where
  "ensured_row cfg now i =
     \<lparr>s_scope_key = scopeKey cfg, s_backend = es_backend i, s_session_key = es_sessionKey i,
      s_session_hash = es_sessionHash i, s_thread_id = None, s_cwd = es_cwd i,
      s_cli_version = es_cliVersion i, s_state_ownership = Some AccountBound,
      s_account_type = Some (es_accountType i),
      s_account_subject_sha256 = es_accountSubjectSha256 i,
      s_account_identity_strength = Some (es_accountIdentityStrength i),
      s_requested_model = es_requestedModel i, s_effective_model = Some (es_effectiveModel i),
      s_model_provider = Some (es_modelProvider i),
      s_security_config_sha256 = Some (es_securityConfigSha256 i),
      s_feature_snapshot_sha256 = Some (es_featureSnapshotSha256 i),
      s_checkpoint_turn_id = cp_turn_id (es_checkpoint i),
      s_checkpoint_turn_status = cp_turn_status (es_checkpoint i),
      s_checkpoint_turn_count = Some (cp_turn_count (es_checkpoint i)),
      s_checkpoint_turns_sha256 = Some (cp_turns_sha256 (es_checkpoint i)),
      s_checkpointed_at = Some (cp_at (es_checkpoint i)),
      s_active_job_id = None, s_active_lease_id = None, s_active_run_generation = None,
      s_active_turn_id = None, s_recovery_required = False, s_created_at = now,
      s_updated_at = now\<rparr>"

text \<open>\<open>INSERT ... ON CONFLICT(scope_key,backend,session_key) DO NOTHING\<close>: the trigger and the
  CHECKs are evaluated before the conflict is looked at.\<close>

definition upsert_session :: "session_row \<Rightarrow> db \<Rightarrow> store_error + db" where
  "upsert_session s db =
     (if \<not> (metadata_complete s \<and> session_checks s) then Inl SqliteConstraint
      else if find_session (s_scope_key s) (s_backend s) (s_session_key s) db \<noteq> None then Inr db
      else insert_session s db)"

text \<open>The WHERE clause of the one-time binding of a row that predates schema v6.\<close>

definition legacy_bindable :: "session_row \<Rightarrow> bool" where
  "legacy_bindable s \<longleftrightarrow>
     s_state_ownership s = None \<and> s_account_type s = None \<and> s_account_subject_sha256 s = None
     \<and> s_account_identity_strength s = None \<and> s_requested_model s = None
     \<and> s_effective_model s = None \<and> s_model_provider s = None
     \<and> s_security_config_sha256 s = None \<and> s_feature_snapshot_sha256 s = None
     \<and> s_checkpoint_turn_id s = None \<and> s_checkpoint_turn_status s = None
     \<and> s_checkpoint_turn_count s = None \<and> s_checkpoint_turns_sha256 s = None
     \<and> s_checkpointed_at s = None \<and> s_active_job_id s = None \<and> \<not> s_recovery_required s"

definition bind_metadata :: "int \<Rightarrow> ensure_session_input \<Rightarrow> session_row \<Rightarrow> session_row" where
  "bind_metadata now i s = s\<lparr>
     s_state_ownership := Some AccountBound, s_account_type := Some (es_accountType i),
     s_account_subject_sha256 := es_accountSubjectSha256 i,
     s_account_identity_strength := Some (es_accountIdentityStrength i),
     s_requested_model := es_requestedModel i, s_effective_model := Some (es_effectiveModel i),
     s_model_provider := Some (es_modelProvider i),
     s_security_config_sha256 := Some (es_securityConfigSha256 i),
     s_feature_snapshot_sha256 := Some (es_featureSnapshotSha256 i),
     s_checkpoint_turn_id := cp_turn_id (es_checkpoint i),
     s_checkpoint_turn_status := cp_turn_status (es_checkpoint i),
     s_checkpoint_turn_count := Some (cp_turn_count (es_checkpoint i)),
     s_checkpoint_turns_sha256 := Some (cp_turns_sha256 (es_checkpoint i)),
     s_checkpointed_at := Some (cp_at (es_checkpoint i)), s_updated_at := now\<rparr>"

definition ensured_matches :: "ensure_session_input \<Rightarrow> session_row \<Rightarrow> bool" where
  "ensured_matches i s \<longleftrightarrow>
     s_session_hash s = es_sessionHash i \<and> s_cwd s = es_cwd i
     \<and> s_cli_version s = es_cliVersion i \<and> s_state_ownership s = Some AccountBound
     \<and> s_account_type s = Some (es_accountType i)
     \<and> s_account_subject_sha256 s = es_accountSubjectSha256 i
     \<and> s_account_identity_strength s = Some (es_accountIdentityStrength i)
     \<and> s_requested_model s = es_requestedModel i
     \<and> s_effective_model s = Some (es_effectiveModel i)
     \<and> s_model_provider s = Some (es_modelProvider i)
     \<and> s_security_config_sha256 s = Some (es_securityConfigSha256 i)
     \<and> s_feature_snapshot_sha256 s = Some (es_featureSnapshotSha256 i)"

abbreviation at_session :: "store_cfg \<Rightarrow> jstring \<Rightarrow> jstring \<Rightarrow> session_row \<Rightarrow> bool" where
  "at_session cfg backend sessionKey s \<equiv> session_key s = (scopeKey cfg, backend, sessionKey)"

definition ensureBackendSession ::
  "store_cfg \<Rightarrow> int \<Rightarrow> ensure_session_input \<Rightarrow> db \<Rightarrow> session_row reply" where
  "ensureBackendSession cfg now i db =
     (case validateEnsureBackendSessionInput i of
        Inl e \<Rightarrow> (Inl e, db)
      | Inr _ \<Rightarrow> transaction (\<lambda>db.
          bindR (upsert_session (ensured_row cfg now i) db) (\<lambda>db1.
          case getBackendSession cfg (es_backend i) (es_sessionKey i) db1 of
            None \<Rightarrow> conflictR PathConflict
          | Some row \<Rightarrow>
              bindR (if s_state_ownership row = None then
                       let P = (\<lambda>s. at_session cfg (es_backend i) (es_sessionKey i) s
                                  \<and> legacy_bindable s)
                       in bindR (update_sessions_metadata P (bind_metadata now i) db1) (\<lambda>db2.
                          if sql_count P (backend_sessions db1) \<noteq> 1
                          then conflictR LegacyUnbindable else Inr db2)
                     else Inr db1) (\<lambda>db2.
              case getBackendSession cfg (es_backend i) (es_sessionKey i) db2 of
                None \<Rightarrow> conflictR PathConflict
              | Some row2 \<Rightarrow>
                  if ensured_matches i row2 then Inr (row2, db2)
                  else conflictR ImmutableMismatch))) db)"

definition opaque_row :: "store_cfg \<Rightarrow> int \<Rightarrow> local_session_input \<Rightarrow> session_row" where
  "opaque_row cfg now i =
     \<lparr>s_scope_key = scopeKey cfg, s_backend = ls_backend i, s_session_key = ls_sessionKey i,
      s_session_hash = ls_sessionHash i, s_thread_id = Some (ls_threadId i), s_cwd = ls_cwd i,
      s_cli_version = ls_cliVersion i, s_state_ownership = Some LocalStateOpaque,
      s_account_type = None, s_account_subject_sha256 = None,
      s_account_identity_strength = None,
      s_requested_model = ls_requestedModel i, s_effective_model = Some (ls_effectiveModel i),
      s_model_provider = Some (ls_modelProvider i),
      s_security_config_sha256 = Some (ls_securityConfigSha256 i),
      s_feature_snapshot_sha256 = Some (ls_featureSnapshotSha256 i),
      s_checkpoint_turn_id = cp_turn_id (ls_checkpoint i),
      s_checkpoint_turn_status = cp_turn_status (ls_checkpoint i),
      s_checkpoint_turn_count = Some (cp_turn_count (ls_checkpoint i)),
      s_checkpoint_turns_sha256 = Some (cp_turns_sha256 (ls_checkpoint i)),
      s_checkpointed_at = Some (cp_at (ls_checkpoint i)),
      s_active_job_id = None, s_active_lease_id = None, s_active_run_generation = None,
      s_active_turn_id = None, s_recovery_required = False, s_created_at = now,
      s_updated_at = now\<rparr>"

definition createLocalOpaqueBackendSession ::
  "store_cfg \<Rightarrow> int \<Rightarrow> local_session_input \<Rightarrow> db \<Rightarrow> session_row reply" where
  "createLocalOpaqueBackendSession cfg now i db =
     (case validateLocalOpaqueBackendSessionInput i of
        Inl e \<Rightarrow> (Inl e, db)
      | Inr _ \<Rightarrow> transaction (\<lambda>db.
          if getSessionQuarantine cfg (ls_sessionKey i) db \<noteq> None then conflictR Quarantined
          else
            bindR (insert_session (opaque_row cfg now i) db) (\<lambda>db1.
            case getBackendSession cfg (ls_backend i) (ls_sessionKey i) db1 of
              None \<Rightarrow> conflictR AlreadyExists
            | Some row \<Rightarrow> Inr (row, db1))) db)"

definition bindBackendThread ::
  "store_cfg \<Rightarrow> int \<Rightarrow> jstring \<Rightarrow> jstring \<Rightarrow> jstring \<Rightarrow> db \<Rightarrow> session_row reply" where
  "bindBackendThread cfg now backend sessionKey threadId db =
     transaction (\<lambda>db.
       case getBackendSession cfg backend sessionKey db of
         None \<Rightarrow> Inl BackendSessionMissing
       | Some current \<Rightarrow>
           if s_state_ownership current = None then conflictR MetadataUnbound
           else if s_thread_id current = Some threadId then Inr (current, db)
           else if s_thread_id current \<noteq> None then conflictR OtherThread
           else
             let P = (\<lambda>s. at_session cfg backend sessionKey s \<and> s_thread_id s = None
                        \<and> s_state_ownership s \<noteq> None \<and> \<not> s_recovery_required s
                        \<and> \<not> quarantined (s_scope_key s) (s_session_key s) db)
             in bindR (update_sessions P
                  (\<lambda>s. s\<lparr>s_thread_id := Some threadId, s_updated_at := now\<rparr>) db) (\<lambda>db1.
                if sql_count P (backend_sessions db) \<noteq> 1 then conflictR ThreadUnbindable
                else
                  case getBackendSession cfg backend sessionKey db1 of
                    None \<Rightarrow> Inl BackendSessionMissing
                  | Some row \<Rightarrow> Inr (row, db1))) db"

section \<open>The thread-tail checkpoint\<close>

definition validateCheckpointInput :: "checkpoint_input \<Rightarrow> store_error + unit" where
  "validateCheckpointInput i =
     bindR (requireNonEmptyMetadata (ci_backend i) 32) (\<lambda>_.
     bindR (requireNonEmptyMetadata (ci_sessionKey i) 4096) (\<lambda>_.
     bindR (requireNonEmptyMetadata (ci_threadId i) 256) (\<lambda>_.
     bindR (validateCheckpointShape (ci_checkpoint i)) (\<lambda>_.
     case ci_fence i of
       FenceIdle \<Rightarrow> Inr ()
     | FenceActive jobId leaseId g turnId \<Rightarrow>
         bindR (requireNonEmptyMetadata jobId 4096) (\<lambda>_.
         bindR (requireNonEmptyMetadata leaseId 4096) (\<lambda>_.
         bindR (requireNonEmptyMetadata turnId 256) (\<lambda>_.
         bindR (guardR (is_safe_integer g \<and> 0 < g)
                  (BackendSessionConflict BadFenceGeneration)) (\<lambda>_.
         guardR (cp_turn_id (ci_checkpoint i) = Some turnId)
           (BackendSessionConflict FenceTailMismatch)))))))))"

text \<open>The four active columns against the fence; the idle fence wants all of them NULL.\<close>

definition fence_matches :: "thread_tail_fence \<Rightarrow> session_row \<Rightarrow> bool" where
  "fence_matches fence s \<longleftrightarrow>
     (case fence of
        FenceIdle \<Rightarrow> s_active_job_id s = None \<and> s_active_lease_id s = None
          \<and> s_active_run_generation s = None \<and> s_active_turn_id s = None
      | FenceActive jobId leaseId g turnId \<Rightarrow>
          s_active_job_id s = Some jobId \<and> s_active_lease_id s = Some leaseId
          \<and> map_option int (s_active_run_generation s) = Some g
          \<and> s_active_turn_id s = Some turnId)"

definition write_checkpoint :: "int \<Rightarrow> checkpoint \<Rightarrow> session_row \<Rightarrow> session_row" where
  "write_checkpoint now c s = s\<lparr>
     s_checkpoint_turn_id := cp_turn_id c, s_checkpoint_turn_status := cp_turn_status c,
     s_checkpoint_turn_count := Some (cp_turn_count c),
     s_checkpoint_turns_sha256 := Some (cp_turns_sha256 c),
     s_checkpointed_at := Some (cp_at c), s_updated_at := now\<rparr>"

definition checkpointBackendThreadTail ::
  "store_cfg \<Rightarrow> int \<Rightarrow> checkpoint_input \<Rightarrow> db \<Rightarrow> session_row reply" where
  "checkpointBackendThreadTail cfg now i db =
     (case validateCheckpointInput i of
        Inl e \<Rightarrow> (Inl e, db)
      | Inr _ \<Rightarrow> transaction (\<lambda>db.
          let c = ci_checkpoint i in
          case getBackendSession cfg (ci_backend i) (ci_sessionKey i) db of
            None \<Rightarrow> conflictR SessionMissing
          | Some current \<Rightarrow>
              if s_thread_id current \<noteq> Some (ci_threadId i) \<or> s_state_ownership current = None
              then conflictR ThreadMismatch
              else if s_recovery_required current
                  \<or> getSessionQuarantine cfg (ci_sessionKey i) db \<noteq> None
              then conflictR InRecovery
              else if \<not> fence_matches (ci_fence i) current
              then conflictR (if ci_fence i = FenceIdle then IdleHasActive
                              else ActiveFenceMismatch)
              else
                (case (s_checkpoint_turn_count current, s_checkpoint_turns_sha256 current,
                       s_checkpointed_at current) of
                   (Some count, Some sha, Some _) \<Rightarrow>
                     if cp_turn_count c < count then conflictR CountRegressed
                     else if cp_turn_count c = count then
                       (if cp_turn_id c \<noteq> s_checkpoint_turn_id current
                           \<or> cp_turn_status c \<noteq> s_checkpoint_turn_status current
                           \<or> cp_turns_sha256 c \<noteq> sha
                        then conflictR CheckpointDiffers else Inr (current, db))
                     else
                       let P = (\<lambda>s. at_session cfg (ci_backend i) (ci_sessionKey i) s
                              \<and> s_thread_id s = Some (ci_threadId i)
                              \<and> s_state_ownership s \<noteq> None \<and> \<not> s_recovery_required s
                              \<and> s_checkpoint_turn_count s = Some count
                              \<and> s_checkpoint_turn_id s = s_checkpoint_turn_id current
                              \<and> s_checkpoint_turn_status s = s_checkpoint_turn_status current
                              \<and> s_checkpoint_turns_sha256 s = Some sha
                              \<and> fence_matches (ci_fence i) s
                              \<and> \<not> quarantined (s_scope_key s) (s_session_key s) db)
                       in bindR (update_sessions_metadata P (write_checkpoint now c) db) (\<lambda>db1.
                          if sql_count P (backend_sessions db) \<noteq> 1 then conflictR CasMissed
                          else
                            case getBackendSession cfg (ci_backend i) (ci_sessionKey i) db1 of
                              None \<Rightarrow> conflictR SessionMissing
                            | Some row \<Rightarrow> Inr (row, db1))
                 | _ \<Rightarrow> conflictR CheckpointUnbound)) db)"

section \<open>Attempts\<close>

text \<open>\<open>EXISTS (SELECT 1 FROM backend_sessions ...)\<close>: the session of the job carries the
  attempt, its turn column satisfies \<open>T\<close> and it is not in recovery.\<close>

definition attempt_fenced ::
  "db \<Rightarrow> jstring \<Rightarrow> jstring \<Rightarrow> nat \<Rightarrow> (jstring option \<Rightarrow> bool) \<Rightarrow> job_row \<Rightarrow> bool" where
  "attempt_fenced db backend leaseId g T j \<longleftrightarrow>
     sql_exists (\<lambda>s. session_key s = (j_scope_key j, backend, j_session_key j)
        \<and> s_active_job_id s = Some (j_job_id j) \<and> s_active_lease_id s = Some leaseId
        \<and> s_active_run_generation s = Some g \<and> T (s_active_turn_id s)
        \<and> \<not> s_recovery_required s) (backend_sessions db)"

text \<open>The WHERE clause on \<open>backend_sessions\<close> itself.\<close>

definition carries_attempt ::
  "store_cfg \<Rightarrow> jstring \<Rightarrow> jstring \<Rightarrow> jstring \<Rightarrow> nat \<Rightarrow> (jstring option \<Rightarrow> bool) \<Rightarrow> session_row \<Rightarrow> bool"
where
  "carries_attempt cfg backend jobId leaseId g T s \<longleftrightarrow>
     s_scope_key s = scopeKey cfg \<and> s_backend s = backend
     \<and> s_active_job_id s = Some jobId \<and> s_active_lease_id s = Some leaseId
     \<and> s_active_run_generation s = Some g \<and> T (s_active_turn_id s)
     \<and> \<not> s_recovery_required s"

definition clear_attempt :: "int \<Rightarrow> session_row \<Rightarrow> session_row" where
  "clear_attempt now s = s\<lparr>
     s_active_job_id := None, s_active_lease_id := None, s_active_run_generation := None,
     s_active_turn_id := None, s_updated_at := now\<rparr>"

definition claimForBackendDispatch ::
  "store_cfg \<Rightarrow> int \<Rightarrow> jstring \<Rightarrow> jstring \<Rightarrow> jstring \<Rightarrow> jstring \<Rightarrow> db \<Rightarrow> stored_job option reply" where
  "claimForBackendDispatch cfg now jobId backend connectorId leaseId db =
     after (transaction (\<lambda>db.
       let P = (\<lambda>j. at_job cfg jobId j \<and> backend_name (j_target_backend j) = backend
              \<and> dispatchable db j
              \<and> sql_exists (\<lambda>s. session_key s = (j_scope_key j, backend, j_session_key j)
                   \<and> s_thread_id s \<noteq> None \<and> s_state_ownership s \<noteq> None
                   \<and> s_active_job_id s = None \<and> \<not> s_recovery_required s)
                 (backend_sessions db));
           db1 = update_jobs P (claim_row now connectorId leaseId) db
       in if sql_count P (jobs db) \<noteq> 1 then Inr (False, db1)
          else
            case find (\<lambda>j. at_job cfg jobId j \<and> j_lease_id j = Some leaseId
                         \<and> j_status j = Dispatching) (jobs db1) of
              None \<Rightarrow> Inl InconsistentCommit
            | Some attempt \<Rightarrow>
                let g = j_run_generation attempt;
                    R = (\<lambda>s. at_session cfg backend (j_session_key attempt) s
                          \<and> s_thread_id s \<noteq> None \<and> s_active_job_id s = None
                          \<and> \<not> s_recovery_required s)
                in bindR (update_sessions R (\<lambda>s. s\<lparr>s_active_job_id := Some jobId,
                       s_active_lease_id := Some leaseId, s_active_run_generation := Some g,
                       s_updated_at := now\<rparr>) db1) (\<lambda>db2.
                   if sql_count R (backend_sessions db1) \<noteq> 1 then Inl InconsistentCommit
                   else
                     bindR (appendExecutionAttemptEventLocked cfg jobId g EvReserved (Some None)
                              None now db2) (\<lambda>db3. Inr (True, db3)))) db)
       (\<lambda>claimed db'. if claimed then map_sum id Some (require_job cfg jobId db') else Inr None)"

definition resetUnsentBackendDispatch ::
  "store_cfg \<Rightarrow> int \<Rightarrow> jstring \<Rightarrow> jstring \<Rightarrow> jstring \<Rightarrow> nat \<Rightarrow> db \<Rightarrow> bool reply" where
  "resetUnsentBackendDispatch cfg now jobId backend leaseId g db =
     transaction (\<lambda>db.
       let P = (\<lambda>j. at_job cfg jobId j \<and> j_status j = Dispatching
                  \<and> backend_name (j_target_backend j) = backend \<and> j_lease_id j = Some leaseId
                  \<and> j_run_generation j = g
                  \<and> attempt_fenced db backend leaseId g (\<lambda>t. t = None) j);
           db1 = update_jobs P (\<lambda>j. j\<lparr>j_status := Acked, j_updated_at := now\<rparr>) db
       in if sql_count P (jobs db) \<noteq> 1 then Inr (False, db1)
          else
            bindR (appendExecutionAttemptEventLocked cfg jobId g EvNotSent (Some None)
                     (Some (js ''backend request was proven not sent'')) now db1) (\<lambda>db2.
            let Q = (\<lambda>j. at_job cfg jobId j \<and> j_status j = Acked
                       \<and> backend_name (j_target_backend j) = backend
                       \<and> j_lease_id j = Some leaseId \<and> j_run_generation j = g);
                db3 = update_jobs Q (\<lambda>j. j\<lparr>j_connector_id := None, j_lease_id := None\<rparr>) db2
            in if sql_count Q (jobs db2) \<noteq> 1 then Inl InconsistentCommit
               else
                 let S = carries_attempt cfg backend jobId leaseId g (\<lambda>t. t = None)
                 in bindR (update_sessions S (clear_attempt now) db3) (\<lambda>db4.
                    if sql_count S (backend_sessions db3) \<noteq> 1 then Inl InconsistentCommit
                    else Inr (True, db4)))) db"

definition finishUnsentBackendCancellation ::
  "store_cfg \<Rightarrow> int \<Rightarrow> jstring \<Rightarrow> jstring \<Rightarrow> jstring \<Rightarrow> nat \<Rightarrow> db \<Rightarrow> stored_job option reply" where
  "finishUnsentBackendCancellation cfg now jobId backend leaseId g db =
     after (transaction (\<lambda>db.
       let P = (\<lambda>j. at_job cfg jobId j \<and> j_status j = Cancelling
                  \<and> backend_name (j_target_backend j) = backend \<and> j_cancel_requested j
                  \<and> j_lease_id j = Some leaseId \<and> j_run_generation j = g
                  \<and> attempt_fenced db backend leaseId g (\<lambda>t. t = None) j);
           db1 = update_jobs P (\<lambda>j. j\<lparr>j_status := Cancelled, j_completed_at := Some now,
                   j_updated_at := now\<rparr>) db
       in if sql_count P (jobs db) \<noteq> 1 then Inr (False, db1)
          else
            bindR (appendExecutionAttemptEventLocked cfg jobId g EvCancelledNotSent (Some None)
                     (Some (js ''cancel won before backend request left daemon'')) now db1) (\<lambda>db2.
            let S = carries_attempt cfg backend jobId leaseId g (\<lambda>t. t = None)
            in bindR (update_sessions S (clear_attempt now) db2) (\<lambda>db3.
               if sql_count S (backend_sessions db2) \<noteq> 1 then Inl InconsistentCommit
               else Inr (True, db3)))) db)
       (\<lambda>done db'. if done then map_sum id Some (require_job cfg jobId db') else Inr None)"

definition markBackendRunning ::
  "store_cfg \<Rightarrow> int \<Rightarrow> jstring \<Rightarrow> jstring \<Rightarrow> jstring \<Rightarrow> nat \<Rightarrow> jstring \<Rightarrow> db
     \<Rightarrow> stored_job option reply" where
  "markBackendRunning cfg now jobId backend leaseId g turnId db =
     after (transaction (\<lambda>db.
       let P = (\<lambda>j. at_job cfg jobId j \<and> j_status j = Dispatching
                  \<and> backend_name (j_target_backend j) = backend \<and> j_lease_id j = Some leaseId
                  \<and> j_run_generation j = g \<and> \<not> j_cancel_requested j
                  \<and> attempt_fenced db backend leaseId g (\<lambda>t. t = None) j);
           db1 = update_jobs P (\<lambda>j. j\<lparr>j_status := Running, j_updated_at := now\<rparr>) db;
           bind_turn = (\<lambda>s. s\<lparr>s_active_turn_id := Some turnId, s_updated_at := now\<rparr>)
       in if sql_count P (jobs db) \<noteq> 1 then
            let C = (\<lambda>s. carries_attempt cfg backend jobId leaseId g (\<lambda>t. t = None) s
                  \<and> sql_exists (\<lambda>j. j_scope_key j = s_scope_key s
                       \<and> Some (j_job_id j) = s_active_job_id s \<and> j_status j = Cancelling
                       \<and> backend_name (j_target_backend j) = backend
                       \<and> j_lease_id j = s_active_lease_id s
                       \<and> Some (j_run_generation j) = s_active_run_generation s
                       \<and> j_cancel_requested j) (jobs db1))
            in bindR (update_sessions C bind_turn db1) (\<lambda>db2.
               if sql_count C (backend_sessions db1) = 1 then
                 bindR (appendExecutionAttemptEventLocked cfg jobId g EvAccepted
                          (Some (Some turnId)) None now db2) (\<lambda>db3. Inr (True, db3))
               else
                 Inr (sql_exists (\<lambda>j. at_job cfg jobId j \<and> j_status j \<in> {Running, Cancelling}
                        \<and> backend_name (j_target_backend j) = backend
                        \<and> j_lease_id j = Some leaseId \<and> j_run_generation j = g
                        \<and> attempt_fenced db2 backend leaseId g (\<lambda>t. t = Some turnId) j)
                      (jobs db2), db2))
          else
            let S = carries_attempt cfg backend jobId leaseId g (\<lambda>t. t = None)
            in bindR (update_sessions S bind_turn db1) (\<lambda>db2.
               if sql_count S (backend_sessions db1) \<noteq> 1 then Inl InconsistentCommit
               else
                 bindR (appendExecutionAttemptEventLocked cfg jobId g EvAccepted
                          (Some (Some turnId)) None now db2) (\<lambda>db3. Inr (True, db3)))) db)
       (\<lambda>done db'. if done then map_sum id Some (require_job cfg jobId db') else Inr None)"

text \<open>\<open>INSERT OR IGNORE INTO session_quarantine SELECT ... JOIN backend_sessions\<close>, the join
  being on the attempt's own session.\<close>

definition finishBackendWithOutbox ::
  "store_cfg \<Rightarrow> int \<Rightarrow> jstring \<Rightarrow> jstring \<Rightarrow> jstring \<Rightarrow> nat \<Rightarrow> jstring \<Rightarrow> job_status \<Rightarrow> jstring
     \<Rightarrow> jstring option \<Rightarrow> jstring option \<Rightarrow> db \<Rightarrow> stored_job option reply" where
  "finishBackendWithOutbox cfg now jobId backend leaseId g turnId status resultJson err
     quarantineReason db =
     after (transaction (\<lambda>db.
       let P = (\<lambda>j. at_job cfg jobId j \<and> j_status j = Running
                  \<and> backend_name (j_target_backend j) = backend \<and> j_lease_id j = Some leaseId
                  \<and> j_run_generation j = g \<and> \<not> j_cancel_requested j
                  \<and> attempt_fenced db backend leaseId g (\<lambda>t. t = Some turnId) j);
           db1 = update_jobs P (\<lambda>j. j\<lparr>j_status := status, j_error := err,
                   j_completed_at := Some now, j_updated_at := now\<rparr>) db
       in if sql_count P (jobs db) \<noteq> 1 then Inr (False, db1)
          else
            bindR (appendExecutionAttemptEventLocked cfg jobId g (finish_event status)
                     (Some (Some turnId)) err now db1) (\<lambda>db2.
            bindR (upsertOutbox cfg jobId resultJson now db2) (\<lambda>db3.
            bindR (case quarantineReason of
                     None \<Rightarrow> Inr db3
                   | Some reason \<Rightarrow>
                       let J = (\<lambda>j. at_job cfg jobId j
                             \<and> backend_name (j_target_backend j) = backend
                             \<and> j_lease_id j = Some leaseId \<and> j_run_generation j = g
                             \<and> attempt_fenced db3 backend leaseId g (\<lambda>t. t = Some turnId) j);
                           db4 = quarantine_jobs J reason now db3
                       in if sql_exists (\<lambda>j. at_job cfg jobId j
                               \<and> quarantined (scopeKey cfg) (j_session_key j) db4) (jobs db4)
                          then Inr db4 else Inl InconsistentCommit) (\<lambda>db4.
            let S = carries_attempt cfg backend jobId leaseId g (\<lambda>t. t = Some turnId)
            in bindR (update_sessions S
                  (\<lambda>s. (clear_attempt now s)\<lparr>s_recovery_required := False\<rparr>) db4) (\<lambda>db5.
               if sql_count S (backend_sessions db4) \<noteq> 1 then Inl InconsistentCommit
               else Inr (True, db5)))))) db)
       (\<lambda>done db'. if done then map_sum id Some (require_job cfg jobId db') else Inr None)"

definition finishBackendSuccess ::
  "store_cfg \<Rightarrow> int \<Rightarrow> jstring \<Rightarrow> jstring \<Rightarrow> jstring \<Rightarrow> nat \<Rightarrow> jstring \<Rightarrow> jstring \<Rightarrow> db
     \<Rightarrow> stored_job option reply" where
  "finishBackendSuccess cfg now jobId backend leaseId g turnId resultJson db =
     finishBackendWithOutbox cfg now jobId backend leaseId g turnId Succeeded resultJson None None db"

definition finishBackendFailure ::
  "store_cfg \<Rightarrow> int \<Rightarrow> jstring \<Rightarrow> jstring \<Rightarrow> jstring \<Rightarrow> nat \<Rightarrow> jstring \<Rightarrow> jstring \<Rightarrow> jstring \<Rightarrow> db
     \<Rightarrow> stored_job option reply" where
  "finishBackendFailure cfg now jobId backend leaseId g turnId resultJson err db =
     finishBackendWithOutbox cfg now jobId backend leaseId g turnId Failed resultJson (Some err)
       None db"

definition finishBackendCredentialFailure ::
  "store_cfg \<Rightarrow> int \<Rightarrow> jstring \<Rightarrow> jstring \<Rightarrow> jstring \<Rightarrow> nat \<Rightarrow> jstring \<Rightarrow> jstring \<Rightarrow> jstring
     \<Rightarrow> jstring \<Rightarrow> db \<Rightarrow> stored_job option reply" where
  "finishBackendCredentialFailure cfg now jobId backend leaseId g turnId resultJson err
     quarantineReason db =
     (if js_blank quarantineReason then (Inl EmptyQuarantineReason, db)
      else finishBackendWithOutbox cfg now jobId backend leaseId g turnId Failed resultJson
        (Some err) (Some quarantineReason) db)"

section \<open>Recovery\<close>

text \<open>\<open>active_turn_id IS ? OR (active_turn_id IS NULL AND ? IS NOT NULL)\<close>\<close>

definition turn_compatible :: "jstring option \<Rightarrow> jstring option \<Rightarrow> bool" where
  "turn_compatible turnId t \<longleftrightarrow> t = turnId \<or> (t = None \<and> turnId \<noteq> None)"

fun recovery_event :: "job_status \<Rightarrow> attempt_event_type" where
  "recovery_event CancelUnknown = EvCancelUnknown"
| "recovery_event _ = EvInterrupted"

definition markBackendRecoveryTerminal ::
  "store_cfg \<Rightarrow> int \<Rightarrow> jstring \<Rightarrow> jstring \<Rightarrow> jstring \<Rightarrow> nat \<Rightarrow> jstring option \<Rightarrow> job_status
     \<Rightarrow> jstring \<Rightarrow> db \<Rightarrow> stored_job option reply" where
  "markBackendRecoveryTerminal cfg now jobId backend leaseId g turnId status reason db =
     after (transaction (\<lambda>db.
       let P = (\<lambda>j. at_job cfg jobId j
                  \<and> (if status = CancelUnknown then j_status j = Cancelling
                     else j_status j \<in> {Dispatching, Running})
                  \<and> backend_name (j_target_backend j) = backend \<and> j_lease_id j = Some leaseId
                  \<and> j_run_generation j = g
                  \<and> attempt_fenced db backend leaseId g (turn_compatible turnId) j);
           db1 = update_jobs P (\<lambda>j. j\<lparr>j_status := status,
                   j_cancel_requested := (status = CancelUnknown \<or> j_cancel_requested j),
                   j_error := coalesce (j_error j) (Some reason),
                   j_completed_at := Some now, j_updated_at := now\<rparr>) db
       in if sql_count P (jobs db) \<noteq> 1 then Inr (False, db1)
          else
            bindR (appendExecutionAttemptEventLocked cfg jobId g (recovery_event status)
                     (Some turnId) (Some reason) now db1) (\<lambda>db2.
            let db3 = quarantine_jobs (at_job cfg jobId) reason now db2;
                S = carries_attempt cfg backend jobId leaseId g (turn_compatible turnId)
            in bindR (update_sessions S (\<lambda>s. s\<lparr>
                   s_active_turn_id := coalesce (s_active_turn_id s) turnId,
                   s_recovery_required := True, s_updated_at := now\<rparr>) db3) (\<lambda>db4.
               if sql_count S (backend_sessions db3) \<noteq> 1 then Inl InconsistentCommit
               else Inr (True, db4)))) db)
       (\<lambda>done db'. if done then map_sum id Some (require_job cfg jobId db') else Inr None)"

definition markBackendCancelUnknown ::
  "store_cfg \<Rightarrow> int \<Rightarrow> jstring \<Rightarrow> jstring \<Rightarrow> jstring \<Rightarrow> nat \<Rightarrow> jstring option \<Rightarrow> jstring \<Rightarrow> db
     \<Rightarrow> stored_job option reply" where
  "markBackendCancelUnknown cfg now jobId backend leaseId g turnId reason db =
     markBackendRecoveryTerminal cfg now jobId backend leaseId g turnId CancelUnknown reason db"

definition markBackendInterrupted ::
  "store_cfg \<Rightarrow> int \<Rightarrow> jstring \<Rightarrow> jstring \<Rightarrow> jstring \<Rightarrow> nat \<Rightarrow> jstring option \<Rightarrow> jstring \<Rightarrow> db
     \<Rightarrow> stored_job option reply" where
  "markBackendInterrupted cfg now jobId backend leaseId g turnId reason db =
     markBackendRecoveryTerminal cfg now jobId backend leaseId g turnId Interrupted reason db"

text \<open>The join condition between a job and the session that carries its attempt.\<close>

definition session_of_attempt :: "jstring \<Rightarrow> job_row \<Rightarrow> session_row \<Rightarrow> bool" where
  "session_of_attempt backend j s \<longleftrightarrow>
     session_key s = (j_scope_key j, backend, j_session_key j)
     \<and> s_active_job_id s = Some (j_job_id j) \<and> s_active_lease_id s = j_lease_id j
     \<and> j_lease_id j \<noteq> None
     \<and> s_active_run_generation s = Some (j_run_generation j)"

definition markBackendDisconnected ::
  "store_cfg \<Rightarrow> int \<Rightarrow> jstring \<Rightarrow> jstring \<Rightarrow> jstring \<Rightarrow> db \<Rightarrow> nat reply" where
  "markBackendDisconnected cfg now backend connectorId reason db =
     transaction (\<lambda>db.
       let mine = (\<lambda>j. j_scope_key j = scopeKey cfg \<and> j_connector_id j = Some connectorId
                     \<and> backend_name (j_target_backend j) = backend);
           carried = (\<lambda>d r j. sql_exists (\<lambda>s. session_of_attempt backend j s
                        \<and> s_recovery_required s = r) (backend_sessions d));
           hit = (\<lambda>j. mine j \<and> active_status (j_status j) \<and> carried db False j);
           activeAttempts = concat (map (\<lambda>j. map (\<lambda>s. (j, s_active_turn_id s))
               (filter (\<lambda>s. session_of_attempt backend j s \<and> \<not> s_recovery_required s)
                 (backend_sessions db)))
             (filter (\<lambda>j. mine j \<and> active_status (j_status j)) (jobs db)));
           db1 = quarantine_jobs hit reason now db;
           M = (\<lambda>s. s_scope_key s = scopeKey cfg \<and> s_backend s = backend
                  \<and> \<not> s_recovery_required s
                  \<and> sql_exists (\<lambda>j. session_of_attempt backend j s \<and> mine j
                       \<and> active_status (j_status j)) (jobs db1));
           marked = sql_count M (backend_sessions db1)
       in bindR (update_sessions M
              (\<lambda>s. s\<lparr>s_recovery_required := True, s_updated_at := now\<rparr>) db1) (\<lambda>db2.
          let C = (\<lambda>j. mine j \<and> j_status j = Cancelling \<and> carried db2 True j);
              cancelUnknown = sql_count C (jobs db2);
              db3 = update_jobs C (\<lambda>j. j\<lparr>j_status := CancelUnknown, j_cancel_requested := True,
                      j_error := coalesce (j_error j) (Some reason),
                      j_completed_at := Some now, j_updated_at := now\<rparr>) db2;
              I = (\<lambda>j. mine j \<and> j_status j \<in> {Dispatching, Running} \<and> carried db3 True j);
              interrupted = sql_count I (jobs db3);
              db4 = update_jobs I (\<lambda>j. j\<lparr>j_status := Interrupted,
                      j_error := coalesce (j_error j) (Some reason),
                      j_completed_at := Some now, j_updated_at := now\<rparr>) db3;
              changed = cancelUnknown + interrupted
          in if marked \<noteq> changed \<or> length activeAttempts \<noteq> changed
             then Inl InconsistentCommit
             else
               bindR (eachR (\<lambda>(a, turn). appendExecutionAttemptEventLocked cfg (j_job_id a)
                   (j_run_generation a)
                   (if j_status a = Cancelling then EvCancelUnknown else EvInterrupted)
                   (Some turn) (Some reason) now) activeAttempts db4) (\<lambda>db5.
               Inr (changed, db5)))) db"

text \<open>The session's attempt ended: the job it names is terminal and is the same attempt.\<close>

definition recovery_releasable :: "db \<Rightarrow> session_row \<Rightarrow> bool" where
  "recovery_releasable db s \<longleftrightarrow>
     sql_exists (\<lambda>j. j_scope_key j = s_scope_key s \<and> Some (j_job_id j) = s_active_job_id s
        \<and> j_session_key j = s_session_key s
        \<and> backend_name (j_target_backend j) = s_backend s
        \<and> j_lease_id j \<noteq> None \<and> j_lease_id j = s_active_lease_id s
        \<and> Some (j_run_generation j) = s_active_run_generation s
        \<and> terminal_status (j_status j)) (jobs db)"

definition releaseBackendSessionRecovery ::
  "store_cfg \<Rightarrow> jstring \<Rightarrow> jstring \<Rightarrow> db \<Rightarrow> bool reply" where
  "releaseBackendSessionRecovery cfg backend sessionKey db =
     transaction (\<lambda>db.
       let R = (\<lambda>s. at_session cfg backend sessionKey s \<and> s_recovery_required s
                  \<and> s_active_job_id s \<noteq> None \<and> recovery_releasable db s);
           db1 = delete_sessions R db
       in if sql_count R (backend_sessions db) \<noteq> 1 then Inr (False, db1)
          else Inr (True, delete_quarantine (scopeKey cfg) sessionKey db1)) db"

record release_receipt =
  rr_released :: bool
  rr_retiredBackendSessions :: "jstring list"
  rr_releasedQuarantineWithoutBackendSession :: bool

definition not_released :: release_receipt where
  "not_released = \<lparr>rr_released = False, rr_retiredBackendSessions = [],
     rr_releasedQuarantineWithoutBackendSession = False\<rparr>"

definition releaseSessionRecoveryWithReceipt ::
  "store_cfg \<Rightarrow> jstring \<Rightarrow> db \<Rightarrow> release_receipt reply" where
  "releaseSessionRecoveryWithReceipt cfg sessionKey db =
     transaction (\<lambda>db.
       let here = (\<lambda>s. s_scope_key s = scopeKey cfg \<and> s_session_key s = sessionKey);
           sessions = filter here (backend_sessions db);
           existingBackends = sort (map s_backend sessions);
           recovering = filter s_recovery_required sessions;
           total = length recovering;
           releasable = sql_count (recovery_releasable db) recovering
       in if sql_count (\<lambda>j. j_scope_key j = scopeKey cfg \<and> j_session_key j = sessionKey
               \<and> active_status (j_status j)) (jobs db) \<noteq> 0
          then Inr (not_released, db)
          else if total = 0 then
            (if \<not> quarantined (scopeKey cfg) sessionKey db then Inr (not_released, db)
             else if sql_count (\<lambda>s. s_active_job_id s \<noteq> None \<or> s_recovery_required s)
                  sessions \<noteq> 0
             then Inr (not_released, db)
             else
               let D = (\<lambda>s. here s \<and> s_active_job_id s = None \<and> \<not> s_recovery_required s);
                   db1 = delete_sessions D db
               in if sql_count D (backend_sessions db) \<noteq> length existingBackends
                  then Inl InconsistentCommit
                  else
                    let released = (sql_count
                          (\<lambda>q. quarantine_key q = (scopeKey cfg, sessionKey))
                          (session_quarantine db1) = 1)
                    in Inr (\<lparr>rr_released = released,
                             rr_retiredBackendSessions =
                               (if released then existingBackends else []),
                             rr_releasedQuarantineWithoutBackendSession =
                               (released \<and> existingBackends = [])\<rparr>,
                            delete_quarantine (scopeKey cfg) sessionKey db1))
          else if releasable \<noteq> total then Inr (not_released, db)
          else if sql_count (\<lambda>s. s_active_job_id s \<noteq> None \<and> \<not> s_recovery_required s)
               sessions \<noteq> 0
          then Inr (not_released, db)
          else
            let D = (\<lambda>s. here s \<and> s_recovery_required s);
                db1 = delete_sessions D db
            in if sql_count D (backend_sessions db) \<noteq> total then Inl InconsistentCommit
               else Inr (\<lparr>rr_released = True,
                          rr_retiredBackendSessions = sort (map s_backend recovering),
                          rr_releasedQuarantineWithoutBackendSession = False\<rparr>,
                         delete_quarantine (scopeKey cfg) sessionKey db1)) db"

definition releaseSessionRecovery :: "store_cfg \<Rightarrow> jstring \<Rightarrow> db \<Rightarrow> bool reply" where
  "releaseSessionRecovery cfg sessionKey db =
     (let r = releaseSessionRecoveryWithReceipt cfg sessionKey db
      in (map_sum id rr_released (fst r), snd r))"

end
