(* ===== verification/Store_Outbox.thy ===== *)
theory Store_Outbox
  imports Store_Base
begin

text \<open>
  The delivery half of \<open>JobStore\<close> (\<open>src/src/state/store.ts\<close>): the durable outbox and the
  delivery attempts recorded before a result is handed to the socket.
\<close>

abbreviation at_outbox :: "store_cfg \<Rightarrow> jstring \<Rightarrow> outbox_row \<Rightarrow> bool" where
  "at_outbox cfg jobId r \<equiv> outbox_key r = (scopeKey cfg, jobId)"

text \<open>\<open>this.require(jobId).outbox\<close>\<close>

definition require_outbox :: "store_cfg \<Rightarrow> jstring \<Rightarrow> db \<Rightarrow> store_error + outbox_row option" where
  "require_outbox cfg jobId db = bindR (require_job cfg jobId db) (\<lambda>j. Inr (sj_outbox j))"

definition delivery_due :: "bool \<Rightarrow> int \<Rightarrow> outbox_row \<Rightarrow> bool" where
  "delivery_due retry now r \<longleftrightarrow>
     (retry \<and> o_status r = Delivering)
     \<or> (\<not> retry \<and> (o_status r = Pending
          \<or> (o_status r = AckFailed \<and> (case o_next_attempt_at r of
               None \<Rightarrow> False | Some t \<Rightarrow> t \<le> now))))"

text \<open>The foreign key of \<open>outbox_delivery_attempts\<close> is met by the updated outbox row; a
  repeated message id violates its primary key.\<close>

definition insert_delivery_attempt :: "delivery_attempt_row \<Rightarrow> db \<Rightarrow> store_error + db" where
  "insert_delivery_attempt d db =
     (if sql_exists (\<lambda>x. d_scope_key x = d_scope_key d \<and> d_message_id x = d_message_id d)
           (delivery_attempts db)
         \<or> find_outbox (d_scope_key d) (d_job_id d) db = None
      then Inl SqliteConstraint
      else Inr (db\<lparr>delivery_attempts := delivery_attempts db @ [d]\<rparr>))"

definition startResultDelivery ::
  "store_cfg \<Rightarrow> int \<Rightarrow> jstring \<Rightarrow> jstring \<Rightarrow> bool \<Rightarrow> db \<Rightarrow> outbox_row option reply" where
  "startResultDelivery cfg now jobId messageId retry db =
     after (transaction (\<lambda>db.
       let P = (\<lambda>r. at_outbox cfg jobId r \<and> delivery_due retry now r
              \<and> sql_exists (\<lambda>j. job_key j = outbox_key r \<and> \<not> j_cancel_requested j) (jobs db));
           db1 = update_outbox P (\<lambda>r. r\<lparr>o_status := Delivering,
                   o_last_message_id := Some messageId,
                   o_retry_count := (if o_status r = AckFailed then 0
                                     else o_retry_count r + (if retry then 1 else 0)),
                   o_next_attempt_at := None, o_delivered_at := Some now,
                   o_updated_at := now\<rparr>) db
       in if sql_count P (outbox db) \<noteq> 1 then Inr (False, db1)
          else
            bindR (insert_delivery_attempt \<lparr>d_scope_key = scopeKey cfg, d_message_id = messageId,
                     d_job_id = jobId, d_created_at = now\<rparr> db1) (\<lambda>db2.
            Inr (True, db2))) db)
       (\<lambda>changed db'. if changed then require_outbox cfg jobId db' else Inr None)"

definition resetOutboxPending ::
  "store_cfg \<Rightarrow> int \<Rightarrow> jstring \<Rightarrow> db \<Rightarrow> outbox_row option reply" where
  "resetOutboxPending cfg now jobId db =
     (let db' = update_outbox (\<lambda>r. at_outbox cfg jobId r \<and> o_status r = Delivering)
            (\<lambda>r. r\<lparr>o_status := Pending, o_next_attempt_at := None, o_updated_at := now\<rparr>) db
      in (require_outbox cfg jobId db', db'))"

text \<open>\<open>ORDER BY created_at DESC, rowid DESC LIMIT 1\<close> over the job's other attempts.\<close>

definition previous_attempt ::
  "db \<Rightarrow> outbox_row \<Rightarrow> jstring \<Rightarrow> delivery_attempt_row option" where
  "previous_attempt db r messageId =
     (case rev (sort_key d_created_at (filter (\<lambda>d. d_scope_key d = o_scope_key r
             \<and> d_job_id d = o_job_id r \<and> d_message_id d \<noteq> messageId) (delivery_attempts db))) of
        [] \<Rightarrow> None | d # _ \<Rightarrow> Some d)"

definition resetOutboxPendingAfterSendFailure ::
  "store_cfg \<Rightarrow> int \<Rightarrow> jstring \<Rightarrow> jstring \<Rightarrow> bool \<Rightarrow> db \<Rightarrow> outbox_row option reply" where
  "resetOutboxPendingAfterSendFailure cfg now jobId messageId retry db =
     after (transaction (\<lambda>db.
       let P = (\<lambda>r. at_outbox cfg jobId r \<and> o_status r = Delivering
                  \<and> o_last_message_id r = Some messageId);
           db1 = update_outbox P (\<lambda>r. r\<lparr>o_status := Pending,
                   o_retry_count := (if retry \<and> 0 < o_retry_count r then o_retry_count r - 1
                                     else o_retry_count r),
                   o_last_message_id := map_option d_message_id (previous_attempt db r messageId),
                   o_delivered_at := map_option d_created_at (previous_attempt db r messageId),
                   o_next_attempt_at := None, o_updated_at := now\<rparr>) db
       in if sql_count P (outbox db) \<noteq> 1 then Inr ((), db1)
          else Inr ((), db1\<lparr>delivery_attempts :=
                 sql_delete (\<lambda>d. d_scope_key d = scopeKey cfg \<and> d_job_id d = jobId
                   \<and> d_message_id d = messageId) (delivery_attempts db1)\<rparr>)) db)
       (\<lambda>_ db'. require_outbox cfg jobId db')"

definition has_delivery_attempt :: "db \<Rightarrow> jstring \<Rightarrow> jstring \<Rightarrow> bool" where
  "has_delivery_attempt db scope jobId =
     sql_exists (\<lambda>d. d_scope_key d = scope \<and> d_job_id d = jobId) (delivery_attempts db)"

definition markOutboxDelivered ::
  "store_cfg \<Rightarrow> int \<Rightarrow> jstring \<Rightarrow> db \<Rightarrow> outbox_row option reply" where
  "markOutboxDelivered cfg now jobId db =
     (let P = (\<lambda>r. at_outbox cfg jobId r \<and> o_status r \<in> {Pending, Delivering, AckFailed}
             \<and> has_delivery_attempt db (o_scope_key r) (o_job_id r));
          db' = update_outbox P (\<lambda>r. r\<lparr>o_status := Delivered, o_next_attempt_at := None,
                  o_acked_at := Some now, o_updated_at := now\<rparr>) db
      in (if sql_count P (outbox db) = 1 then require_outbox cfg jobId db' else Inr None, db'))"

definition findJobIdByOutboxMessageId :: "store_cfg \<Rightarrow> jstring \<Rightarrow> db \<Rightarrow> jstring option" where
  "findJobIdByOutboxMessageId cfg messageId db =
     map_option d_job_id
       (find (\<lambda>d. d_scope_key d = scopeKey cfg \<and> d_message_id d = messageId)
         (delivery_attempts db))"

definition markOutboxAckFailed ::
  "store_cfg \<Rightarrow> int \<Rightarrow> jstring \<Rightarrow> int \<Rightarrow> db \<Rightarrow> outbox_row option reply" where
  "markOutboxAckFailed cfg now jobId nextAttemptAt db =
     (let db' = update_outbox (\<lambda>r. at_outbox cfg jobId r \<and> o_status r = Delivering)
            (\<lambda>r. r\<lparr>o_status := AckFailed, o_next_attempt_at := Some nextAttemptAt,
                 o_updated_at := now\<rparr>) db
      in (require_outbox cfg jobId db', db'))"

text \<open>\<open>ORDER BY CASE WHEN o.status='Pending' THEN o.updated_at ELSE o.next_attempt_at END\<close>\<close>

definition pending_rank :: "outbox_row \<Rightarrow> int" where
  "pending_rank r = (if o_status r = Pending then o_updated_at r
     else (case o_next_attempt_at r of None \<Rightarrow> 0 | Some t \<Rightarrow> t))"

definition listPendingOutbox :: "store_cfg \<Rightarrow> nat \<Rightarrow> int \<Rightarrow> db \<Rightarrow> outbox_row list" where
  "listPendingOutbox cfg limit now db =
     take limit (sort_key pending_rank
       (List.map_filter (\<lambda>j.
          if j_scope_key j = scopeKey cfg \<and> \<not> j_cancel_requested j
          then (case find_outbox (j_scope_key j) (j_job_id j) db of
                  None \<Rightarrow> None
                | Some r \<Rightarrow> if delivery_due False now r then Some r else None)
          else None) (jobs db)))"

definition nextOutboxAttemptAt :: "store_cfg \<Rightarrow> db \<Rightarrow> int option" where
  "nextOutboxAttemptAt cfg db =
     (let ts = List.map_filter (\<lambda>r.
            if o_scope_key r = scopeKey cfg \<and> o_status r = AckFailed
               \<and> sql_exists (\<lambda>j. job_key j = outbox_key r \<and> \<not> j_cancel_requested j) (jobs db)
            then o_next_attempt_at r else None) (outbox db)
      in if ts = [] then None else Some (Min (set ts)))"

end
