(* ===== verification/Store_Invariant.thy ===== *)
theory Store_Invariant
  imports Store_Backend Store_Outbox
begin

text \<open>
  What a well-formed database is, and how the shared statements act on it. \<open>store_wf\<close> is
  the conjunction of five invariants: of the job rows, of the attempt ledger, of the backend
  sessions, of the outbox, and of the two small tables. The lemmas below say when a statement
  keeps each of them; the theories that follow apply them to the methods.
\<close>

section \<open>Definitions\<close>

definition id_ok :: "jstring option \<Rightarrow> bool" where
  "id_ok x = (case x of None \<Rightarrow> False | Some s \<Rightarrow> text_between 1 4096 s)"

text \<open>A cancellation is requested exactly in the three cancel states; an active job carries a
  full attempt.\<close>

definition job_row_ok :: "job_row \<Rightarrow> bool" where
  "job_row_ok j \<longleftrightarrow>
     (j_cancel_requested j \<longleftrightarrow> j_status j \<in> {Cancelling, Cancelled, CancelUnknown})
     \<and> (active_status (j_status j) \<longrightarrow>
          0 < j_run_generation j \<and> id_ok (j_lease_id j) \<and> id_ok (j_connector_id j)
          \<and> text_between 1 4096 (j_session_key j))"

text \<open>At most one active job per session.\<close>

definition single_active :: "job_row list \<Rightarrow> bool" where
  "single_active rows \<longleftrightarrow>
     (\<forall>j \<in> set rows. \<forall>k \<in> set rows. active_status (j_status j) \<and> active_status (j_status k)
        \<and> j_scope_key j = j_scope_key k \<and> j_session_key j = j_session_key k
        \<longrightarrow> j_job_id j = j_job_id k)"

definition jobs_wf :: "db \<Rightarrow> bool" where
  "jobs_wf db \<longleftrightarrow>
     distinct (map job_key (jobs db)) \<and> (\<forall>j \<in> set (jobs db). job_row_ok j)
     \<and> single_active (jobs db)"

definition attempt_log :: "db \<Rightarrow> jstring \<Rightarrow> jstring \<Rightarrow> nat \<Rightarrow> event_row list" where
  "attempt_log db scope jobId g = filter (same_attempt scope jobId g) (attempt_events db)"

text \<open>The events of an attempt: reserved (or imported), perhaps accepted, and one verdict when
  it is over.\<close>

definition closing :: "attempt_event_type \<Rightarrow> bool" where
  "closing t \<longleftrightarrow> t \<notin> {EvReserved, EvAccepted, EvLegacyActiveImported}"

definition open_history :: "attempt_event_type list \<Rightarrow> bool" where
  "open_history ts \<longleftrightarrow>
     ts \<in> {[EvReserved], [EvReserved, EvAccepted], [EvLegacyActiveImported],
           [EvLegacyActiveImported, EvAccepted]}"

definition closed_history :: "attempt_event_type list \<Rightarrow> bool" where
  "closed_history ts \<longleftrightarrow> ts \<noteq> [] \<and> open_history (butlast ts) \<and> closing (last ts)"

definition numbered :: "event_row list \<Rightarrow> bool" where
  "numbered es \<longleftrightarrow> map e_sequence es = [1..<Suc (length es)]"

definition event_of :: "job_row \<Rightarrow> event_row \<Rightarrow> bool" where
  "event_of j e \<longleftrightarrow>
     job_key j = (e_scope_key e, e_job_id e) \<and> 1 \<le> e_run_generation e
     \<and> e_run_generation e \<le> j_run_generation j \<and> e_backend e = j_target_backend j
     \<and> e_session_key e = j_session_key j"

definition job_log :: "db \<Rightarrow> job_row \<Rightarrow> nat \<Rightarrow> event_row list" where
  "job_log db j g = attempt_log db (j_scope_key j) (j_job_id j) g"

definition attempt_ok :: "db \<Rightarrow> job_row \<Rightarrow> nat \<Rightarrow> bool" where
  "attempt_ok db j g \<longleftrightarrow>
     numbered (job_log db j g)
     \<and> (if g = j_run_generation j \<and> active_status (j_status j)
        then open_history (map e_event_type (job_log db j g))
          \<and> (j_status j = Dispatching \<longrightarrow> EvAccepted \<notin> set (map e_event_type (job_log db j g)))
        else closed_history (map e_event_type (job_log db j g)))"

definition ledger_wf :: "db \<Rightarrow> bool" where
  "ledger_wf db \<longleftrightarrow>
     (\<forall>e \<in> set (attempt_events db). \<exists>j \<in> set (jobs db). event_of j e)
     \<and> (\<forall>j \<in> set (jobs db). \<forall>g \<in> {1..j_run_generation j}. attempt_ok db j g)"

text \<open>The turn column against the status and the ledger.\<close>

definition turn_ok :: "db \<Rightarrow> job_row \<Rightarrow> session_row \<Rightarrow> bool" where
  "turn_ok db j s \<longleftrightarrow>
     (s_active_turn_id s = None \<longrightarrow>
        EvAccepted \<notin> set (map e_event_type (job_log db j (j_run_generation j))))
     \<and> (j_status j = Running \<longrightarrow> s_active_turn_id s \<noteq> None)
     \<and> (j_status j = Dispatching \<longrightarrow> s_active_turn_id s = None)"

definition session_link :: "db \<Rightarrow> session_row \<Rightarrow> bool" where
  "session_link db s \<longleftrightarrow>
     (s_active_job_id s \<noteq> None \<longrightarrow>
       (\<exists>j \<in> set (jobs db). session_of_attempt (s_backend s) j s
          \<and> backend_name (j_target_backend j) = s_backend s
          \<and> (if s_recovery_required s then terminal_status (j_status j)
             else active_status (j_status j) \<and> turn_ok db j s)))"

definition job_link :: "db \<Rightarrow> job_row \<Rightarrow> bool" where
  "job_link db j \<longleftrightarrow>
     (active_status (j_status j) \<and> j_target_backend j \<noteq> Hermes \<longrightarrow>
       (\<exists>s \<in> set (backend_sessions db).
          session_of_attempt (backend_name (j_target_backend j)) j s \<and> \<not> s_recovery_required s))"

definition sessions_wf :: "db \<Rightarrow> bool" where
  "sessions_wf db \<longleftrightarrow>
     list_all session_checks (backend_sessions db) \<and> sessions_unique (backend_sessions db)
     \<and> (\<forall>s \<in> set (backend_sessions db). metadata_complete s
          \<and> s_backend s \<noteq> backend_name Hermes \<and> session_link db s)
     \<and> (\<forall>j \<in> set (jobs db). job_link db j)"

definition result_status :: "job_status \<Rightarrow> bool" where
  "result_status s \<longleftrightarrow> s \<in> {Succeeded, Failed, Rejected}"

definition delivery_link :: "db \<Rightarrow> outbox_row \<Rightarrow> bool" where
  "delivery_link db r \<longleftrightarrow>
     (o_status r \<noteq> Pending \<longrightarrow> has_delivery_attempt db (o_scope_key r) (o_job_id r))
     \<and> (o_status r = Delivering \<longrightarrow>
          (\<exists>d \<in> set (delivery_attempts db). d_scope_key d = o_scope_key r
             \<and> d_job_id d = o_job_id r \<and> o_last_message_id r = Some (d_message_id d)))
     \<and> (o_status r = AckFailed \<longrightarrow> o_next_attempt_at r \<noteq> None)"

definition outbox_wf :: "db \<Rightarrow> bool" where
  "outbox_wf db \<longleftrightarrow>
     distinct (map outbox_key (outbox db))
     \<and> (\<forall>r \<in> set (outbox db). \<exists>j \<in> set (jobs db). job_key j = outbox_key r
          \<and> result_status (j_status j))
     \<and> (\<forall>j \<in> set (jobs db). result_status (j_status j) \<longrightarrow>
          (\<exists>r \<in> set (outbox db). outbox_key r = job_key j))
     \<and> distinct (map (\<lambda>d. (d_scope_key d, d_message_id d)) (delivery_attempts db))
     \<and> (\<forall>d \<in> set (delivery_attempts db). \<exists>r \<in> set (outbox db).
          outbox_key r = (d_scope_key d, d_job_id d))
     \<and> (\<forall>r \<in> set (outbox db). delivery_link db r)"

definition small_wf :: "db \<Rightarrow> bool" where
  "small_wf db \<longleftrightarrow>
     distinct (map quarantine_key (session_quarantine db))
     \<and> distinct (map pending_key (pending_cancels db))
     \<and> length (pending_cancels db) \<le> pending_cancel_max_rows"

definition store_wf :: "db \<Rightarrow> bool" where
  "store_wf db \<longleftrightarrow> jobs_wf db \<and> ledger_wf db \<and> sessions_wf db \<and> outbox_wf db \<and> small_wf db"

section \<open>Histories\<close>

lemma closed_historyI: "open_history ts \<Longrightarrow> closing x \<Longrightarrow> closed_history (ts @ [x])"
  by (simp add: closed_history_def)

lemma open_history_accept:
  "open_history ts \<Longrightarrow> EvAccepted \<notin> set ts \<Longrightarrow> open_history (ts @ [EvAccepted])"
  by (auto simp: open_history_def)

lemma open_history_reserved: "open_history [EvReserved]"
  by (simp add: open_history_def)

lemma open_history_not_closing: "open_history ts \<Longrightarrow> x \<in> set ts \<Longrightarrow> \<not> closing x"
  by (auto simp: open_history_def closing_def)

lemma open_history_distinct: "open_history ts \<Longrightarrow> distinct ts \<and> ts \<noteq> []"
  by (auto simp: open_history_def)

lemma closed_historyE:
  assumes "closed_history ts"
  obtains us x where "ts = us @ [x]" "open_history us" "closing x"
  using assms unfolding closed_history_def by (cases ts rule: rev_cases) auto

lemma closed_history_distinct: "closed_history ts \<Longrightarrow> distinct ts"
  using open_history_distinct open_history_not_closing
  by (elim closed_historyE) fastforce

lemma foldr_max_snoc: "foldr max (xs @ [m]) 0 = max (foldr max xs 0) (m :: nat)"
proof (induction xs)
  case (Cons x xs)
  then show ?case by (simp only: foldr.simps append_Cons o_apply max.assoc)
qed simp

lemma foldr_max_upt: "foldr max [1..<Suc n] 0 = (n :: nat)"
proof (induction n)
  case (Suc n)
  have "[1..<Suc (Suc n)] = [1..<Suc n] @ [Suc n]" by simp
  with Suc show ?case by (simp only: foldr_max_snoc)
qed simp

lemma numbered_max: "numbered es \<Longrightarrow> filter P es' = es \<Longrightarrow> sql_max e_sequence P es' = length es"
  unfolding numbered_def sql_max_def by (simp only: foldr_max_upt)

lemma numbered_append:
  "numbered es \<Longrightarrow> e_sequence e = Suc (length es) \<Longrightarrow> numbered (es @ [e])"
  by (simp add: numbered_def)

section \<open>Frame equations of the statements\<close>

lemma update_jobs_frame [simp]:
  "outbox (update_jobs P f db) = outbox db"
  "delivery_attempts (update_jobs P f db) = delivery_attempts db"
  "session_quarantine (update_jobs P f db) = session_quarantine db"
  "pending_cancels (update_jobs P f db) = pending_cancels db"
  "backend_sessions (update_jobs P f db) = backend_sessions db"
  "attempt_events (update_jobs P f db) = attempt_events db"
  "meta (update_jobs P f db) = meta db"
  "jobs (update_jobs P f db) = sql_update P f (jobs db)"
  by (simp_all add: update_jobs_def)

lemma update_outbox_frame [simp]:
  "jobs (update_outbox P f db) = jobs db"
  "delivery_attempts (update_outbox P f db) = delivery_attempts db"
  "session_quarantine (update_outbox P f db) = session_quarantine db"
  "pending_cancels (update_outbox P f db) = pending_cancels db"
  "backend_sessions (update_outbox P f db) = backend_sessions db"
  "attempt_events (update_outbox P f db) = attempt_events db"
  "meta (update_outbox P f db) = meta db"
  "outbox (update_outbox P f db) = sql_update P f (outbox db)"
  by (simp_all add: update_outbox_def)

lemma insert_quarantine_frame [simp]:
  "jobs (insert_quarantine a b c n db) = jobs db"
  "outbox (insert_quarantine a b c n db) = outbox db"
  "delivery_attempts (insert_quarantine a b c n db) = delivery_attempts db"
  "pending_cancels (insert_quarantine a b c n db) = pending_cancels db"
  "backend_sessions (insert_quarantine a b c n db) = backend_sessions db"
  "attempt_events (insert_quarantine a b c n db) = attempt_events db"
  "meta (insert_quarantine a b c n db) = meta db"
  by (simp_all add: insert_quarantine_def)

lemma fold_insert_quarantine_frame:
  "jobs (fold (\<lambda>j. insert_quarantine (f j) (g j) c n) xs db) = jobs db \<and>
   outbox (fold (\<lambda>j. insert_quarantine (f j) (g j) c n) xs db) = outbox db \<and>
   delivery_attempts (fold (\<lambda>j. insert_quarantine (f j) (g j) c n) xs db) = delivery_attempts db \<and>
   pending_cancels (fold (\<lambda>j. insert_quarantine (f j) (g j) c n) xs db) = pending_cancels db \<and>
   backend_sessions (fold (\<lambda>j. insert_quarantine (f j) (g j) c n) xs db) = backend_sessions db \<and>
   attempt_events (fold (\<lambda>j. insert_quarantine (f j) (g j) c n) xs db) = attempt_events db \<and>
   meta (fold (\<lambda>j. insert_quarantine (f j) (g j) c n) xs db) = meta db"
  by (induction xs arbitrary: db) simp_all

lemma quarantine_jobs_frame [simp]:
  "jobs (quarantine_jobs P r n db) = jobs db"
  "outbox (quarantine_jobs P r n db) = outbox db"
  "delivery_attempts (quarantine_jobs P r n db) = delivery_attempts db"
  "pending_cancels (quarantine_jobs P r n db) = pending_cancels db"
  "backend_sessions (quarantine_jobs P r n db) = backend_sessions db"
  "attempt_events (quarantine_jobs P r n db) = attempt_events db"
  "meta (quarantine_jobs P r n db) = meta db"
  by (simp_all add: quarantine_jobs_def fold_insert_quarantine_frame)

lemma delete_quarantine_frame [simp]:
  "jobs (delete_quarantine a b db) = jobs db"
  "outbox (delete_quarantine a b db) = outbox db"
  "delivery_attempts (delete_quarantine a b db) = delivery_attempts db"
  "pending_cancels (delete_quarantine a b db) = pending_cancels db"
  "backend_sessions (delete_quarantine a b db) = backend_sessions db"
  "attempt_events (delete_quarantine a b db) = attempt_events db"
  "session_quarantine (delete_quarantine a b db)
     = sql_delete (\<lambda>q. quarantine_key q = (a, b)) (session_quarantine db)"
  by (simp_all add: delete_quarantine_def)

lemma quarantined_insert [simp]:
  "quarantined s k (insert_quarantine a b c n db) \<longleftrightarrow> quarantined s k db \<or> (s = a \<and> k = b)"
  by (auto simp: insert_quarantine_def quarantined_def)

lemma quarantined_fold:
  "quarantined s k (fold (\<lambda>j. insert_quarantine (f j) (g j) c n) xs db)
     \<longleftrightarrow> quarantined s k db \<or> (\<exists>x \<in> set xs. s = f x \<and> k = g x)"
  by (induction xs arbitrary: db) auto

lemma quarantined_quarantine_jobs:
  "quarantined s k (quarantine_jobs P r n db)
     \<longleftrightarrow> quarantined s k db
       \<or> (\<exists>j \<in> set (jobs db). P j \<and> j_scope_key j = s \<and> j_session_key j = k)"
  by (auto simp: quarantine_jobs_def quarantined_fold)

lemma delete_sessions_frame [simp]:
  "jobs (delete_sessions P db) = jobs db"
  "outbox (delete_sessions P db) = outbox db"
  "delivery_attempts (delete_sessions P db) = delivery_attempts db"
  "pending_cancels (delete_sessions P db) = pending_cancels db"
  "session_quarantine (delete_sessions P db) = session_quarantine db"
  "attempt_events (delete_sessions P db) = attempt_events db"
  "backend_sessions (delete_sessions P db) = sql_delete P (backend_sessions db)"
  by (simp_all add: delete_sessions_def)

lemma write_sessions_Inr:
  "write_sessions ss db = Inr db' \<longleftrightarrow>
     db' = db\<lparr>backend_sessions := ss\<rparr> \<and> list_all session_checks ss \<and> sessions_unique ss
     \<and> sessions_reference_jobs db ss"
  by (auto simp: write_sessions_def)

lemma update_sessions_Inr:
  "update_sessions P f db = Inr db' \<longleftrightarrow>
     db' = db\<lparr>backend_sessions := sql_update P f (backend_sessions db)\<rparr>
     \<and> list_all session_checks (sql_update P f (backend_sessions db))
     \<and> sessions_unique (sql_update P f (backend_sessions db))
     \<and> sessions_reference_jobs db (sql_update P f (backend_sessions db))"
  by (simp add: update_sessions_def write_sessions_Inr)

end
