(* ===== verification/Store_Steps.thy ===== *)
theory Store_Steps
  imports Store_Invariant
begin

text \<open>
  When a change of the tables keeps the invariant. A method replaces every job row \<open>j\<close> by
  \<open>u j\<close> and appends the events \<open>ext\<close>; \<open>attempt_step\<close> says what it may do to one job.
  The lemmas \<open>jobs_wf_map\<close>, \<open>ledger_wf_map\<close>, \<open>sessions_wf_map\<close> and \<open>outbox_wf_map\<close>
  reduce each invariant to conditions on single rows.
\<close>

section \<open>Rows that keep their identity\<close>

text \<open>The columns of a job that no statement ever sets.\<close>

definition same_identity :: "job_row \<Rightarrow> job_row \<Rightarrow> bool" where
  "same_identity j k \<longleftrightarrow>
     job_key k = job_key j \<and> j_msg_id k = j_msg_id j \<and> j_payload_hash k = j_payload_hash j
     \<and> j_target_backend k = j_target_backend j \<and> j_from_node_id k = j_from_node_id j
     \<and> j_from_node_type k = j_from_node_type j \<and> j_input_text k = j_input_text j
     \<and> j_raw_payload k = j_raw_payload j \<and> j_session_key k = j_session_key j
     \<and> j_created_at k = j_created_at j \<and> j_input_timestamp k = j_input_timestamp j"

lemma same_identity_refl [simp]: "same_identity j j"
  by (simp add: same_identity_def)

lemma same_identityD:
  assumes "same_identity j k"
  shows "j_scope_key k = j_scope_key j" "j_job_id k = j_job_id j"
    "j_target_backend k = j_target_backend j" "j_session_key k = j_session_key j"
  using assms by (auto simp: same_identity_def)

section \<open>Job rows\<close>

lemma jobs_wf_map:
  assumes wf: "jobs_wf db" and u: "jobs db' = map u (jobs db)"
    and id: "\<And>j. j \<in> set (jobs db) \<Longrightarrow> same_identity j (u j)"
    and ok: "\<And>j. j \<in> set (jobs db) \<Longrightarrow> job_row_ok (u j)"
    and act: "\<And>j k. j \<in> set (jobs db) \<Longrightarrow> k \<in> set (jobs db) \<Longrightarrow> active_status (j_status (u j)) \<Longrightarrow>
        \<not> active_status (j_status j) \<Longrightarrow> active_status (j_status (u k)) \<Longrightarrow>
        j_scope_key j = j_scope_key k \<Longrightarrow> j_session_key j = j_session_key k \<Longrightarrow> j_job_id j = j_job_id k"
  shows "jobs_wf db'"
proof -
  have "map job_key (jobs db') = map job_key (jobs db)"
    unfolding u using id by (auto simp: same_identity_def)
  then have "distinct (map job_key (jobs db'))"
    using wf by (simp add: jobs_wf_def)
  moreover have "single_active (jobs db')"
    unfolding single_active_def
  proof (intro ballI impI)
    fix j' k'
    assume "j' \<in> set (jobs db')" "k' \<in> set (jobs db')"
      and *: "active_status (j_status j') \<and> active_status (j_status k')
        \<and> j_scope_key j' = j_scope_key k' \<and> j_session_key j' = j_session_key k'"
    then obtain j k where jk: "j \<in> set (jobs db)" "j' = u j" "k \<in> set (jobs db)" "k' = u k"
      by (auto simp: u)
    note idj = same_identityD [OF id [OF jk(1)]] and idk = same_identityD [OF id [OF jk(3)]]
    have same: "active_status (j_status (u j))" "active_status (j_status (u k))"
      "j_scope_key j = j_scope_key k" "j_session_key j = j_session_key k"
      using * idj idk by (simp_all add: jk)
    have "j_job_id j = j_job_id k"
    proof (cases "active_status (j_status j) \<and> active_status (j_status k)")
      case True
      with wf same jk(1,3) show ?thesis
        unfolding jobs_wf_def single_active_def by blast
    next
      case False
      then show ?thesis
        using act [OF jk(1,3)] act [OF jk(3,1)] same by metis
    qed
    then show "j_job_id j' = j_job_id k'" using idj idk by (simp add: jk)
  qed
  ultimately show ?thesis
    using ok by (auto simp: jobs_wf_def u)
qed

lemma job_unique:
  "jobs_wf db \<Longrightarrow> j \<in> set (jobs db) \<Longrightarrow> k \<in> set (jobs db) \<Longrightarrow> j_scope_key j = j_scope_key k \<Longrightarrow>
   j_job_id j = j_job_id k \<Longrightarrow> j = k"
  unfolding jobs_wf_def by (auto intro: key_unique [of job_key])

section \<open>The ledger\<close>

definition job_part :: "event_row list \<Rightarrow> job_row \<Rightarrow> event_row list" where
  "job_part es j = filter (\<lambda>e. (e_scope_key e, e_job_id e) = job_key j) es"

definition event_types :: "db \<Rightarrow> job_row \<Rightarrow> attempt_event_type list" where
  "event_types db j = map e_event_type (job_log db j (j_run_generation j))"

text \<open>What one method may do to one job: nothing to its attempt; open the next attempt; accept
  it; close it.\<close>

definition opens :: "job_row \<Rightarrow> job_row \<Rightarrow> event_row \<Rightarrow> bool" where
  "opens j k e \<longleftrightarrow> \<not> active_status (j_status j) \<and> active_status (j_status k)
     \<and> j_run_generation k = Suc (j_run_generation j) \<and> e_event_type e = EvReserved"

definition accepts :: "db \<Rightarrow> job_row \<Rightarrow> job_row \<Rightarrow> event_row \<Rightarrow> bool" where
  "accepts db j k e \<longleftrightarrow> active_status (j_status j) \<and> active_status (j_status k)
     \<and> j_status k \<noteq> Dispatching \<and> j_run_generation k = j_run_generation j
     \<and> e_event_type e = EvAccepted \<and> EvAccepted \<notin> set (event_types db j)"

definition closes :: "job_row \<Rightarrow> job_row \<Rightarrow> event_row \<Rightarrow> bool" where
  "closes j k e \<longleftrightarrow> active_status (j_status j) \<and> \<not> active_status (j_status k)
     \<and> j_run_generation k = j_run_generation j \<and> closing (e_event_type e)"

definition rests :: "job_row \<Rightarrow> job_row \<Rightarrow> bool" where
  "rests j k \<longleftrightarrow> active_status (j_status k) = active_status (j_status j)
     \<and> j_run_generation k = j_run_generation j
     \<and> (j_status k = Dispatching \<longrightarrow> j_status j = Dispatching)"

definition attempt_step :: "db \<Rightarrow> job_row \<Rightarrow> job_row \<Rightarrow> event_row list \<Rightarrow> bool" where
  "attempt_step db j k es \<longleftrightarrow>
     (es = [] \<and> rests j k)
     \<or> (\<exists>e. es = [e] \<and> event_of k e \<and> e_run_generation e = j_run_generation k
          \<and> e_sequence e = Suc (length (job_log db j (j_run_generation k)))
          \<and> (opens j k e \<or> accepts db j k e \<or> closes j k e))"

lemma rests_refl [simp]: "rests j j"
  by (simp add: rests_def)

lemma attempt_step_refl [simp]: "attempt_step db j j []"
  by (simp add: attempt_step_def)

lemma job_log_map:
  assumes "same_identity j k" "attempt_events db' = attempt_events db @ ext"
  shows "job_log db' k g = job_log db j g @ filter (\<lambda>e. e_run_generation e = g) (job_part ext j)"
proof -
  have "filter (same_attempt (j_scope_key k) (j_job_id k) g) ext
      = filter (\<lambda>e. e_run_generation e = g) (job_part ext j)"
    using assms(1)
    unfolding job_part_def filter_filter same_attempt_def same_identity_def
    by (intro filter_cong) auto
  then show ?thesis
    using assms by (simp add: job_log_def attempt_log_def same_identity_def)
qed

lemma job_log_beyond:
  assumes "ledger_wf db" "jobs_wf db" "j \<in> set (jobs db)" "j_run_generation j < g"
  shows "job_log db j g = []"
  unfolding job_log_def attempt_log_def filter_empty_conv
proof (intro ballI notI)
  fix e assume e: "e \<in> set (attempt_events db)" "same_attempt (j_scope_key j) (j_job_id j) g e"
  then obtain k where k: "k \<in> set (jobs db)" "event_of k e"
    using assms(1) unfolding ledger_wf_def by blast
  with e have "k = j"
    using job_unique [OF assms(2) k(1) assms(3)] by (simp add: event_of_def same_attempt_def)
  with k e assms(4) show False
    by (simp add: event_of_def same_attempt_def)
qed

lemma attempt_okD:
  "ledger_wf db \<Longrightarrow> j \<in> set (jobs db) \<Longrightarrow> 1 \<le> g \<Longrightarrow> g \<le> j_run_generation j \<Longrightarrow> attempt_ok db j g"
  unfolding ledger_wf_def by simp

lemma attempt_ok_step:
  assumes wf: "ledger_wf db" "jobs_wf db" and j: "j \<in> set (jobs db)"
    and id: "same_identity j k" and ev: "attempt_events db' = attempt_events db @ ext"
    and step: "attempt_step db j k (job_part ext j)"
    and g: "1 \<le> g" "g \<le> j_run_generation k"
  shows "attempt_ok db' k g"
proof -
  note log = job_log_map [OF id ev]
  consider (rest) "job_part ext j = []" "rests j k"
    | (event) e where "job_part ext j = [e]" "event_of k e" "e_run_generation e = j_run_generation k"
        "e_sequence e = Suc (length (job_log db j (j_run_generation k)))"
        "opens j k e \<or> accepts db j k e \<or> closes j k e"
    using step unfolding attempt_step_def by blast
  then show ?thesis
  proof cases
    case rest
    then show ?thesis
      using attempt_okD [OF wf(1) j g(1)] g
      by (auto simp: attempt_ok_def log rests_def)
  next
    case event
    show ?thesis
    proof (cases "opens j k e")
      case True
      then have "job_log db j (j_run_generation k) = []"
        using job_log_beyond [OF wf j] by (simp add: opens_def)
      then show ?thesis
        using True event attempt_okD [OF wf(1) j g(1)] g
        by (cases "g = j_run_generation k")
          (auto simp: attempt_ok_def log opens_def numbered_def open_history_def)
    next
      case False
      then have gen: "j_run_generation k = j_run_generation j"
        using event(5) by (auto simp: accepts_def closes_def)
      show ?thesis
        using False event attempt_okD [OF wf(1) j g(1)] g gen
        by (auto simp: attempt_ok_def log accepts_def closes_def numbered_append event_types_def
            intro!: open_history_accept closed_historyI)
    qed
  qed
qed

lemma ledger_wf_map:
  assumes wf: "ledger_wf db" "jobs_wf db" and u: "jobs db' = map u (jobs db)"
    and ev: "attempt_events db' = attempt_events db @ ext"
    and id: "\<And>j. j \<in> set (jobs db) \<Longrightarrow> same_identity j (u j)"
    and step: "\<And>j. j \<in> set (jobs db) \<Longrightarrow> attempt_step db j (u j) (job_part ext j)"
    and own: "\<And>e. e \<in> set ext \<Longrightarrow> \<exists>j \<in> set (jobs db). (e_scope_key e, e_job_id e) = job_key j"
  shows "ledger_wf db'"
proof -
  have "\<exists>k \<in> set (jobs db'). event_of k e" if "e \<in> set (attempt_events db')" for e
  proof (cases "e \<in> set ext")
    case True
    then obtain j where j: "j \<in> set (jobs db)" "e \<in> set (job_part ext j)"
      using own [OF True] by (auto simp: job_part_def)
    with step [OF j(1)] have "event_of (u j) e"
      by (auto simp: attempt_step_def)
    with j show ?thesis by (auto simp: u)
  next
    case False
    with that wf(1) ev obtain j where j: "j \<in> set (jobs db)" "event_of j e"
      by (auto simp: ledger_wf_def)
    have "j_run_generation j \<le> j_run_generation (u j)"
      using step [OF j(1)]
      by (auto simp: attempt_step_def rests_def opens_def accepts_def closes_def)
    with j id [OF j(1)] have "event_of (u j) e"
      by (auto simp: event_of_def same_identity_def)
    with j show ?thesis by (auto simp: u)
  qed
  then show ?thesis
    using attempt_ok_step [OF wf _ id ev step]
    by (auto simp: ledger_wf_def u)
qed

section \<open>Sessions\<close>

lemma sessions_wfD:
  assumes "sessions_wf db" "s \<in> set (backend_sessions db)"
  shows "session_checks s" "metadata_complete s" "s_backend s \<noteq> backend_name Hermes"
    "session_link db s"
  using assms by (auto simp: sessions_wf_def list_all_iff)

lemma session_unique:
  "sessions_wf db \<Longrightarrow> s \<in> set (backend_sessions db) \<Longrightarrow> t \<in> set (backend_sessions db) \<Longrightarrow>
   session_key s = session_key t \<Longrightarrow> s = t"
  unfolding sessions_wf_def sessions_unique_def by (auto intro: key_unique [of session_key])

text \<open>The metadata triggers do not look at the attempt columns.\<close>

lemma metadata_complete_frame [simp]:
  "metadata_complete (s\<lparr>s_recovery_required := b\<rparr>) = metadata_complete s"
  "metadata_complete (s\<lparr>s_updated_at := n\<rparr>) = metadata_complete s"
  "metadata_complete (s\<lparr>s_active_job_id := x\<rparr>) = metadata_complete s"
  "metadata_complete (s\<lparr>s_active_lease_id := x\<rparr>) = metadata_complete s"
  "metadata_complete (s\<lparr>s_active_turn_id := x\<rparr>) = metadata_complete s"
  "metadata_complete (s\<lparr>s_active_run_generation := g\<rparr>) = metadata_complete s"
  "metadata_complete (s\<lparr>s_thread_id := x\<rparr>) = metadata_complete s"
  by (simp_all add: metadata_complete_def checkpoint_shape_def
      cong: option.case_cong state_ownership.case_cong identity_strength.case_cong)

lemma sessions_wf_map:
  assumes "sessions_wf db"
    and u: "jobs db' = map u (jobs db)" and v: "backend_sessions db' = map v (backend_sessions db)"
    and new: "list_all session_checks (backend_sessions db')" "sessions_unique (backend_sessions db')"
    and keep: "\<And>s. s \<in> set (backend_sessions db) \<Longrightarrow> metadata_complete s \<Longrightarrow>
        metadata_complete (v s) \<and> s_backend (v s) = s_backend s"
    and link: "\<And>s. s \<in> set (backend_sessions db) \<Longrightarrow> session_link db s \<Longrightarrow> session_link db' (v s)"
    and jlink: "\<And>j. j \<in> set (jobs db) \<Longrightarrow> job_link db j \<Longrightarrow> job_link db' (u j)"
  shows "sessions_wf db'"
  unfolding sessions_wf_def
proof (intro conjI ballI)
  fix s' assume "s' \<in> set (backend_sessions db')"
  then obtain s where s: "s \<in> set (backend_sessions db)" "s' = v s" by (auto simp: v)
  then show "metadata_complete s'" "s_backend s' \<noteq> backend_name Hermes" "session_link db' s'"
    using sessions_wfD [OF assms(1) s(1)] keep link by simp_all
next
  fix j' assume "j' \<in> set (jobs db')"
  then obtain j where "j \<in> set (jobs db)" "j' = u j" by (auto simp: u)
  then show "job_link db' j'"
    using assms(1) jlink by (simp add: sessions_wf_def)
qed (use new in auto)

text \<open>A job that a session may be carrying and that keeps its attempt.\<close>

definition calm :: "job_row \<Rightarrow> job_row \<Rightarrow> bool" where
  "calm j k \<longleftrightarrow> same_identity j k \<and> rests j k \<and> j_lease_id k = j_lease_id j
     \<and> (terminal_status (j_status j) \<longrightarrow> terminal_status (j_status k))
     \<and> (j_status k = Running \<longrightarrow> j_status j = Running)"

lemma calm_refl [simp]: "calm j j"
  by (simp add: calm_def)

lemma calm_attempt:
  assumes "calm j k" "session_of_attempt b j s"
  shows "session_of_attempt b k s"
proof -
  have "j_lease_id k = j_lease_id j" "j_run_generation k = j_run_generation j"
    using assms(1) by (simp_all add: calm_def rests_def)
  with assms show ?thesis
    unfolding calm_def session_of_attempt_def
    by (cases "j_lease_id j") (auto simp: same_identity_def)
qed

lemma calm_turn_ok:
  assumes "calm j k" "attempt_events db' = attempt_events db @ ext" "job_part ext j = []"
    "turn_ok db j s"
  shows "turn_ok db' k s"
  using assms job_log_map [OF _ assms(2), of j k]
  by (auto simp: turn_ok_def calm_def rests_def)

lemma session_link_calm:
  assumes "session_link db s" "jobs db' = map u (jobs db)"
    and ev: "attempt_events db' = attempt_events db @ ext"
    and calm: "\<And>j. j \<in> set (jobs db) \<Longrightarrow> session_of_attempt (s_backend s) j s \<Longrightarrow>
        backend_name (j_target_backend j) = s_backend s \<Longrightarrow> calm j (u j) \<and> job_part ext j = []"
  shows "session_link db' s"
  unfolding session_link_def
proof
  assume "s_active_job_id s \<noteq> None"
  with assms(1) obtain j where j: "j \<in> set (jobs db)" "session_of_attempt (s_backend s) j s"
    "backend_name (j_target_backend j) = s_backend s"
    "if s_recovery_required s then terminal_status (j_status j)
     else active_status (j_status j) \<and> turn_ok db j s"
    unfolding session_link_def by blast
  note c = calm [OF j(1-3)]
  have "u j \<in> set (jobs db')" using j(1) assms(2) by simp
  moreover have "session_of_attempt (s_backend s) (u j) s"
    using calm_attempt c j(2) by blast
  moreover have "backend_name (j_target_backend (u j)) = s_backend s"
    using c j(3) by (simp add: calm_def same_identity_def)
  moreover have "if s_recovery_required s then terminal_status (j_status (u j))
      else active_status (j_status (u j)) \<and> turn_ok db' (u j) s"
    using c j(4) calm_turn_ok [OF _ ev, of j "u j" s]
    by (auto simp: calm_def rests_def split: if_splits)
  ultimately show "\<exists>j \<in> set (jobs db'). session_of_attempt (s_backend s) j s
      \<and> backend_name (j_target_backend j) = s_backend s
      \<and> (if s_recovery_required s then terminal_status (j_status j)
         else active_status (j_status j) \<and> turn_ok db' j s)" by blast
qed

text \<open>No statement touched the sessions, and the jobs of the durable backends are calm.\<close>

lemma sessions_wf_calm:
  assumes wf: "sessions_wf db"
    and u: "jobs db' = map u (jobs db)" and v: "backend_sessions db' = backend_sessions db"
    and ev: "attempt_events db' = attempt_events db @ ext"
    and calm: "\<And>j. j \<in> set (jobs db) \<Longrightarrow> j_target_backend j \<noteq> Hermes \<Longrightarrow>
        calm j (u j) \<and> job_part ext j = []"
    and herm: "\<And>j. j \<in> set (jobs db) \<Longrightarrow> j_target_backend (u j) = j_target_backend j"
  shows "sessions_wf db'"
proof (rule sessions_wf_map [OF wf u, where v = id])
  show "list_all session_checks (backend_sessions db')" "sessions_unique (backend_sessions db')"
    using wf by (simp_all add: v sessions_wf_def)
next
  fix s assume s: "s \<in> set (backend_sessions db)" "session_link db s"
  have "calm j (u j) \<and> job_part ext j = []"
    if "j \<in> set (jobs db)" "backend_name (j_target_backend j) = s_backend s" for j
  proof -
    have "j_target_backend j \<noteq> Hermes"
      using sessions_wfD(3) [OF wf s(1)] that(2) by auto
    with calm that(1) show ?thesis by blast
  qed
  then show "session_link db' (id s)"
    using session_link_calm [OF s(2) u ev] by simp
next
  fix j assume j: "j \<in> set (jobs db)" "job_link db j"
  show "job_link db' (u j)"
    unfolding job_link_def
  proof
    assume a: "active_status (j_status (u j)) \<and> j_target_backend (u j) \<noteq> Hermes"
    with herm j(1) have "j_target_backend j \<noteq> Hermes" by simp
    with calm j(1) have c: "calm j (u j)" by blast
    with a j(2) \<open>j_target_backend j \<noteq> Hermes\<close> obtain s where
      "s \<in> set (backend_sessions db)"
      "session_of_attempt (backend_name (j_target_backend j)) j s" "\<not> s_recovery_required s"
      by (auto simp: job_link_def calm_def rests_def)
    with calm_attempt [OF c] herm [OF j(1)] show
      "\<exists>s \<in> set (backend_sessions db').
         session_of_attempt (backend_name (j_target_backend (u j))) (u j) s
         \<and> \<not> s_recovery_required s"
      by (auto simp: v)
  qed
qed (use v in simp_all)

text \<open>One job and its session move together.\<close>

lemma sessions_wf_move:
  assumes wf: "sessions_wf db" "jobs_wf db"
    and u: "jobs db' = map (\<lambda>j. if j = j0 then j1 else j) (jobs db)"
    and v: "backend_sessions db' = map (\<lambda>s. if s = s0 then s1 else s) (backend_sessions db)"
    and new: "list_all session_checks (backend_sessions db')" "sessions_unique (backend_sessions db')"
    and ev: "attempt_events db' = attempt_events db @ ext"
    and others: "\<And>j. j \<in> set (jobs db) \<Longrightarrow> j \<noteq> j0 \<Longrightarrow> job_part ext j = []"
    and j0: "j0 \<in> set (jobs db)" "same_identity j0 j1"
    and s0: "s0 \<in> set (backend_sessions db)"
      "session_key s0 = (j_scope_key j0, backend_name (j_target_backend j0), j_session_key j0)"
      "s_active_job_id s0 = None \<or> s_active_job_id s0 = Some (j_job_id j0)"
    and s1: "s_backend s1 = s_backend s0" "metadata_complete s0 \<Longrightarrow> metadata_complete s1"
    and idle: "s_active_job_id s1 = None \<Longrightarrow> \<not> active_status (j_status j1)"
    and busy: "s_active_job_id s1 \<noteq> None \<Longrightarrow> session_of_attempt (s_backend s0) j1 s1
        \<and> (if s_recovery_required s1 then terminal_status (j_status j1)
           else active_status (j_status j1) \<and> turn_ok db' j1 s1)"
  shows "sessions_wf db'"
proof (rule sessions_wf_map [OF wf(1) u v new])
  fix s assume s: "s \<in> set (backend_sessions db)" "session_link db s"
  show "session_link db' (if s = s0 then s1 else s)"
  proof (cases "s = s0")
    case True
    have "j1 \<in> set (jobs db')" using j0(1) by (auto simp: u)
    moreover have "backend_name (j_target_backend j1) = s_backend s1"
      using s0(2) s1(1) same_identityD [OF j0(2)] by simp
    ultimately show ?thesis
      using True busy s1(1) unfolding session_link_def by auto
  next
    case False
    have "j \<noteq> j0" if "session_of_attempt (s_backend s) j s"
      "backend_name (j_target_backend j) = s_backend s" for j
    proof
      assume "j = j0"
      with that s0(2) have "session_key s = session_key s0"
        by (simp add: session_of_attempt_def)
      with session_unique [OF wf(1) s(1) s0(1)] False show False by blast
    qed
    then have "session_link db' s"
      using others by (intro session_link_calm [OF s(2) u ev]) auto
    with False show ?thesis by simp
  qed
next
  fix j assume j: "j \<in> set (jobs db)" "job_link db j"
  show "job_link db' (if j = j0 then j1 else j)"
  proof (cases "j = j0")
    case True
    have "s1 \<in> set (backend_sessions db')" using s0(1) by (auto simp: v)
    moreover have "s_backend s0 = backend_name (j_target_backend j1)"
      using s0(2) same_identityD [OF j0(2)] by simp
    ultimately show ?thesis
      using True idle busy status_partition
      unfolding job_link_def by (cases "s_active_job_id s1 = None") (auto split: if_splits)
  next
    case False
    show ?thesis
      unfolding job_link_def if_not_P [OF False]
    proof
      assume "active_status (j_status j) \<and> j_target_backend j \<noteq> Hermes"
      with j(2) obtain s where s: "s \<in> set (backend_sessions db)"
        "session_of_attempt (backend_name (j_target_backend j)) j s" "\<not> s_recovery_required s"
        unfolding job_link_def by blast
      have "s \<noteq> s0"
      proof
        assume "s = s0"
        with s(2) s0(2,3) have "j_scope_key j = j_scope_key j0" "j_job_id j = j_job_id j0"
          by (auto simp: session_of_attempt_def)
        with job_unique [OF wf(2) j(1) j0(1)] False show False by blast
      qed
      with s show "\<exists>s \<in> set (backend_sessions db').
          session_of_attempt (backend_name (j_target_backend j)) j s \<and> \<not> s_recovery_required s"
        by (auto simp: v)
    qed
  qed
qed (use s1 in auto)

section \<open>Outbox, quarantine, pending cancels\<close>

lemma outbox_wf_map:
  assumes "outbox_wf db" "jobs db' = map u (jobs db)" "outbox db' = outbox db"
    "delivery_attempts db' = delivery_attempts db"
    and "\<And>j. j \<in> set (jobs db) \<Longrightarrow> job_key (u j) = job_key j"
    and "\<And>j. j \<in> set (jobs db) \<Longrightarrow> result_status (j_status (u j)) = result_status (j_status j)"
  shows "outbox_wf db'"
  using assms unfolding outbox_wf_def delivery_link_def has_delivery_attempt_def by auto

lemma small_wf_same:
  "small_wf db \<Longrightarrow> session_quarantine db' = session_quarantine db \<Longrightarrow>
   pending_cancels db' = pending_cancels db \<Longrightarrow> small_wf db'"
  by (simp add: small_wf_def)

lemma distinct_insert_quarantine:
  "distinct (map quarantine_key (session_quarantine db)) \<Longrightarrow>
   distinct (map quarantine_key (session_quarantine (insert_quarantine a b c n db)))"
  by (auto simp: insert_quarantine_def quarantined_def)

lemma distinct_quarantine_jobs:
  "distinct (map quarantine_key (session_quarantine db)) \<Longrightarrow>
   distinct (map quarantine_key (session_quarantine (quarantine_jobs P r n db)))"
proof -
  have "distinct (map quarantine_key (session_quarantine db)) \<Longrightarrow>
    distinct (map quarantine_key (session_quarantine
      (fold (\<lambda>j. insert_quarantine (f j) (g j) r n) xs db)))" for f g and xs :: "job_row list"
    by (induction xs arbitrary: db) (simp_all add: distinct_insert_quarantine)
  then show "distinct (map quarantine_key (session_quarantine db)) \<Longrightarrow> ?thesis"
    by (simp add: quarantine_jobs_def)
qed

lemma small_wf_quarantine:
  "small_wf db \<Longrightarrow> small_wf (quarantine_jobs P r n db)"
  "small_wf db \<Longrightarrow> small_wf (insert_quarantine a b r n db)"
  "small_wf db \<Longrightarrow> small_wf (delete_quarantine a b db)"
  by (auto simp: small_wf_def distinct_quarantine_jobs distinct_insert_quarantine
      distinct_sql_delete)

end
