(* ===== verification/Store_Moves.thy ===== *)
theory Store_Moves
  imports Store_Steps
begin

text \<open>
  The change that most methods make: one job row is updated, one event of its attempt is
  appended and, for the durable backends, the session that carries the attempt follows. The
  lemmas here turn the SQL of such a method (an UPDATE that changed one row, the lookup of the
  updated row, the append) into the hypotheses of \<open>attempt_step\<close>.
\<close>

section \<open>An UPDATE that changes one row\<close>

definition replace :: "'a \<Rightarrow> 'a \<Rightarrow> 'a list \<Rightarrow> 'a list" where
  "replace r0 r1 rs = map (\<lambda>r. if r = r0 then r1 else r) rs"

lemma in_replace: "x \<in> set (replace r0 r1 rs) \<Longrightarrow> x = r1 \<or> x \<in> set rs \<and> x \<noteq> r0"
  by (auto simp: replace_def split: if_splits)

lemma replace_in: "r0 \<in> set rs \<Longrightarrow> r1 \<in> set (replace r0 r1 rs)"
  by (auto simp: replace_def)

lemma sql_update_one:
  assumes "distinct (map k rs)" "\<And>r. P r \<Longrightarrow> k r = x" "sql_count P rs = 1"
  obtains r0 where "r0 \<in> set rs" "P r0" "k r0 = x" "\<And>f. sql_update P f rs = replace r0 (f r0) rs"
proof -
  from assms obtain r0 where r0: "r0 \<in> set rs" "P r0"
    using sql_count_1_iff [of k rs P x] by blast
  have "P r \<longleftrightarrow> r = r0" if "r \<in> set rs" for r
    using that r0 assms(1,2) key_unique [of k rs r r0] by auto
  then have "sql_update P f rs = replace r0 (f r0) rs" for f
    unfolding sql_update_def replace_def by (intro map_cong) auto
  with r0 assms(2) that show thesis by blast
qed

lemma sql_update_zero:
  assumes "distinct (map k rs)" "\<And>r. P r \<Longrightarrow> k r = x" "sql_count P rs \<noteq> 1"
  shows "sql_update P f rs = rs"
  using assms sql_count_1_iff [of k rs P x] by (intro sql_update_none) blast

lemma find_key_replace:
  assumes "distinct (map k rs)" "r0 \<in> set rs" "k r1 = k r0"
  shows "find (\<lambda>r. k r = k r0) (replace r0 r1 rs) = Some r1"
  using assms(1,2)
proof (induction rs)
  case (Cons r rs)
  show ?case
  proof (cases "r = r0")
    case True
    with assms(3) show ?thesis by (simp add: replace_def)
  next
    case False
    with Cons.prems have "k r \<noteq> k r0" by (auto simp: image_iff)
    with False Cons show ?thesis by (simp add: replace_def)
  qed
qed simp

lemma replace_replace:
  "r1 \<notin> set rs \<or> r1 = r0 \<Longrightarrow> replace r1 r2 (replace r0 r1 rs) = replace r0 r2 rs"
  by (auto simp: replace_def)

lemma distinct_replace:
  "k r1 = k r0 \<Longrightarrow> map k (replace r0 r1 rs) = map k rs"
  by (auto simp: replace_def)

text \<open>The same for the job table: after the UPDATE the key finds the new row.\<close>

lemma update_one_job:
  assumes wf: "jobs_wf db" and P: "\<And>j. P j \<Longrightarrow> at_job cfg jobId j" and c: "sql_count P (jobs db) = 1"
    and f: "\<And>j. job_key (f j) = job_key j"
  obtains j0 where "j0 \<in> set (jobs db)" "P j0" "job_key j0 = (scopeKey cfg, jobId)"
    "jobs (update_jobs P f db) = replace j0 (f j0) (jobs db)"
    "find_job (scopeKey cfg) jobId (update_jobs P f db) = Some (f j0)"
proof -
  have d: "distinct (map job_key (jobs db))" using wf by (simp add: jobs_wf_def)
  from sql_update_one [OF d P c] obtain j0 where j0: "j0 \<in> set (jobs db)" "P j0"
    "job_key j0 = (scopeKey cfg, jobId)" "\<And>f. sql_update P f (jobs db) = replace j0 (f j0) (jobs db)"
    by blast
  have "find_job (scopeKey cfg) jobId (update_jobs P f db) = Some (f j0)"
    using find_key_replace [OF d j0(1), of "f j0"] f j0(3) by (simp add: find_job_def j0(4))
  with j0 that show thesis by simp
qed

lemma at_job_unique:
  "jobs_wf db \<Longrightarrow> j \<in> set (jobs db) \<Longrightarrow> k \<in> set (jobs db) \<Longrightarrow> at_job cfg jobId j \<Longrightarrow>
   at_job cfg jobId k \<Longrightarrow> j = k"
  using job_unique [of db j k] by simp

lemma update_no_job:
  assumes "jobs_wf db" "\<And>j. P j \<Longrightarrow> at_job cfg jobId j" "sql_count P (jobs db) \<noteq> 1"
  shows "update_jobs P f db = db"
  using assms sql_update_zero [of job_key "jobs db" P "(scopeKey cfg, jobId)" f]
  by (simp add: jobs_wf_def update_jobs_def)

lemma require_job_iff:
  "require_job cfg jobId db = Inr r \<longleftrightarrow>
     (\<exists>j. find_job (scopeKey cfg) jobId db = Some j \<and> r = rowToJob db j)"
  by (auto simp: require_job_def get_job_def split: option.splits)

lemma sj_row_rowToJob [simp]: "sj_row (rowToJob db j) = j"
  by (simp add: rowToJob_def)

lemma find_job_cong: "jobs db' = jobs db \<Longrightarrow> find_job a b db' = find_job a b db"
  by (simp add: find_job_def)

section \<open>The append\<close>

definition appended :: "job_row \<Rightarrow> attempt_event_type \<Rightarrow> event_row \<Rightarrow> db \<Rightarrow> db \<Rightarrow> bool" where
  "appended j t e db db' \<longleftrightarrow>
     db' = db\<lparr>attempt_events := attempt_events db @ [e]\<rparr>
     \<and> (e_scope_key e, e_job_id e) = job_key j \<and> e_run_generation e = j_run_generation j
     \<and> e_backend e = j_target_backend j \<and> e_session_key e = j_session_key j
     \<and> j_lease_id j = Some (e_lease_id e) \<and> j_connector_id j = Some (e_backend_execution_id e)
     \<and> e_event_type e = t \<and> event_checks e
     \<and> e_sequence e = Suc (sql_max e_sequence
         (same_attempt (j_scope_key j) (j_job_id j) (j_run_generation j)) (attempt_events db))
     \<and> t \<notin> set (event_types db j)"

lemma insert_event_Inr:
  "insert_event e db = Inr db' \<longleftrightarrow>
     event_checks e
     \<and> (\<forall>x \<in> set (attempt_events db). same_attempt (e_scope_key e) (e_job_id e) (e_run_generation e) x
          \<longrightarrow> e_sequence x \<noteq> e_sequence e \<and> e_event_type x \<noteq> e_event_type e)
     \<and> find_job (e_scope_key e) (e_job_id e) db \<noteq> None
     \<and> db' = db\<lparr>attempt_events := attempt_events db @ [e]\<rparr>"
  by (auto simp: insert_event_def)

lemma append_eventE:
  assumes "appendExecutionAttemptEventLocked cfg jobId g t op reason now db = Inr db'"
    "distinct (map job_key (jobs db))" "find_job (scopeKey cfg) jobId db = Some j"
  obtains e where "appended j t e db db'" "j_run_generation j = g"
    "e_reason e = boundedAttemptReason cfg reason" "e_created_at e = now"
proof -
  from assms(1) obtain k where k:
    "find (\<lambda>j. job_key j = (scopeKey cfg, jobId) \<and> j_run_generation j = g) (jobs db) = Some k"
    unfolding appendExecutionAttemptEventLocked_def by (auto split: option.splits)
  from find_Some_in [OF k] have k': "k \<in> set (jobs db)" "job_key k = (scopeKey cfg, jobId)"
    "j_run_generation k = g" by auto
  from assms(3) have "j \<in> set (jobs db)" "job_key j = (scopeKey cfg, jobId)"
    unfolding find_job_def using find_Some_in by fastforce+
  with k' have "k = j" using key_unique [OF assms(2), of k j] by simp
  with assms(1) k obtain e where e: "insert_event e db = Inr db'" "\<not> falsy (j_lease_id j)"
    "\<not> falsy (j_connector_id j)"
    "e_scope_key e = scopeKey cfg" "e_job_id e = jobId" "e_run_generation e = g"
    "e_sequence e = Suc (sql_max e_sequence (same_attempt (scopeKey cfg) jobId g) (attempt_events db))"
    "e_backend e = j_target_backend j" "e_session_key e = j_session_key j"
    "e_lease_id e = the (j_lease_id j)" "e_backend_execution_id e = the (j_connector_id j)"
    "e_event_type e = t" "e_reason e = boundedAttemptReason cfg reason" "e_created_at e = now"
    unfolding appendExecutionAttemptEventLocked_def Let_def
    by (auto split: if_splits intro!: that simp del: joined_def)
  have "t \<notin> set (event_types db j)"
    using e(1) k' \<open>k = j\<close> e(4-6,12)
    by (auto simp: insert_event_Inr event_types_def job_log_def attempt_log_def)
  then have "appended j t e db db'"
    unfolding appended_def using e k' \<open>k = j\<close>
    by (auto simp: insert_event_Inr falsy_def split: option.splits)
  with that k' \<open>k = j\<close> e show thesis by blast
qed

lemma appendedD:
  assumes "appended j t e db db'"
  shows "db' = db\<lparr>attempt_events := attempt_events db @ [e]\<rparr>"
    "e_event_type e = t" "id_ok (j_lease_id j)" "id_ok (j_connector_id j)"
    "text_between 1 4096 (j_session_key j)" "0 < j_run_generation j"
    "t \<notin> set (event_types db j)"
  using assms by (auto simp: appended_def event_checks_def id_ok_def)

lemma event_types_cong:
  "attempt_events db' = attempt_events db \<Longrightarrow> job_key k = job_key j \<Longrightarrow>
   j_run_generation k = j_run_generation j \<Longrightarrow> event_types db' k = event_types db j"
  by (simp add: event_types_def job_log_def attempt_log_def)

text \<open>The appended event, seen from the tables before the method ran: \<open>j0\<close> is the job then,
  \<open>j1\<close> the row at the append and \<open>k\<close> the row in the end.\<close>

lemma appended_step:
  assumes wf: "ledger_wf db" "jobs_wf db" and j0: "j0 \<in> set (jobs db)"
    and id: "same_identity j0 k" "job_key j1 = job_key j0" "j_target_backend j1 = j_target_backend j0"
      "j_session_key j1 = j_session_key j0" "j_run_generation j1 = j_run_generation k"
    and app: "appended j1 t e db1 db2" and ev: "attempt_events db1 = attempt_events db"
    and move: "opens j0 k e \<or> closes j0 k e
        \<or> (active_status (j_status j0) \<and> active_status (j_status k) \<and> j_status k \<noteq> Dispatching
            \<and> j_run_generation k = j_run_generation j0 \<and> t = EvAccepted)"
  shows "attempt_step db j0 k [e]"
proof -
  let ?g = "j_run_generation k"
  have seq: "sql_max e_sequence (same_attempt (j_scope_key j0) (j_job_id j0) ?g) (attempt_events db)
      = length (job_log db j0 ?g)"
  proof (cases "opens j0 k e")
    case True
    then have "job_log db j0 ?g = []"
      using job_log_beyond [OF wf j0] by (simp add: opens_def)
    then show ?thesis
      unfolding job_log_def attempt_log_def filter_empty_conv by (simp add: sql_max_none)
  next
    case False
    then have "?g = j_run_generation j0" "0 < ?g"
      using move appendedD(6) [OF app] id by (auto simp: closes_def)
    then have "attempt_ok db j0 ?g"
      using attempt_okD [OF wf(1) j0, of ?g] by simp
    then show ?thesis
      unfolding attempt_ok_def
      by (intro numbered_max) (auto simp: job_log_def attempt_log_def)
  qed
  have "accepts db j0 k e" if "active_status (j_status j0) \<and> active_status (j_status k)
      \<and> j_status k \<noteq> Dispatching \<and> ?g = j_run_generation j0 \<and> t = EvAccepted"
    using that appendedD(2,7) [OF app] id event_types_cong [OF ev, of j1 j0]
    by (auto simp: accepts_def)
  moreover have "event_of k e"
    using app id by (auto simp: appended_def event_of_def same_identity_def event_checks_def)
  ultimately show ?thesis
    using move seq app id ev by (auto simp: attempt_step_def appended_def)
qed

section \<open>One job moves\<close>

text \<open>The hypotheses shared by the moves: row \<open>j0\<close> becomes \<open>k\<close>, event \<open>e\<close> is appended.\<close>

lemma move_wf:
  assumes wf: "ledger_wf db" "jobs_wf db" and j0: "j0 \<in> set (jobs db)"
    and u: "jobs db' = replace j0 k (jobs db)" and ev: "attempt_events db' = attempt_events db @ es"
    and id: "same_identity j0 k" and ok: "job_row_ok k"
    and step: "attempt_step db j0 k es" and own: "\<And>e. e \<in> set es \<Longrightarrow> (e_scope_key e, e_job_id e) = job_key j0"
    and idle: "active_status (j_status k) \<Longrightarrow> active_status (j_status j0) \<or> \<not> session_busy db j0"
  shows "jobs_wf db'" "ledger_wf db'" "\<And>j. j \<in> set (jobs db) \<Longrightarrow> j \<noteq> j0 \<Longrightarrow> job_part es j = []"
proof -
  let ?u = "\<lambda>j. if j = j0 then k else j"
  have u': "jobs db' = map ?u (jobs db)" using u by (simp add: replace_def)
  have part0: "job_part es j0 = es"
    unfolding job_part_def using own by (simp add: filter_id_conv)
  show other: "job_part es j = []" if "j \<in> set (jobs db)" "j \<noteq> j0" for j
    unfolding job_part_def filter_empty_conv
    using own that job_unique [OF wf(2) that(1) j0] by fastforce
  show "jobs_wf db'"
  proof (rule jobs_wf_map [OF wf(2) u'])
    fix j i assume *: "j \<in> set (jobs db)" "i \<in> set (jobs db)" "active_status (j_status (?u j))"
      "\<not> active_status (j_status j)" "active_status (j_status (?u i))"
      "j_scope_key j = j_scope_key i" "j_session_key j = j_session_key i"
    from *(3,4) have "j = j0" by (auto split: if_splits)
    with *(3,4) idle have "\<not> session_busy db j0" by auto
    with * \<open>j = j0\<close> show "j_job_id j = j_job_id i"
      by (cases "i = j0") (auto simp: session_busy_def)
  qed (use id ok wf(2) in \<open>auto simp: jobs_wf_def\<close>)
  show "ledger_wf db'"
  proof (rule ledger_wf_map [OF wf u' ev])
    show "attempt_step db j (?u j) (job_part es j)" if "j \<in> set (jobs db)" for j
      using step part0 other [OF that] by (cases "j = j0") auto
    show "\<exists>j\<in>set (jobs db). (e_scope_key e, e_job_id e) = job_key j" if "e \<in> set es" for e
      using own [OF that] j0 by blast
  qed (use id in auto)
qed

end
