(* ===== verification/Store_Order.thy ===== *)
theory Store_Order
  imports Store_Moves
begin

text \<open>
  What no method of the store ever takes back. \<open>status_step\<close> is the life cycle of a job as
  \<open>docs/ARCHITECTURE.md\<close> gives it; \<open>store_le\<close> is the order in which the store grows: jobs
  only move along the life cycle, terminal rows are frozen, the ledger is append-only and a
  result, once written, keeps its bytes.
\<close>

section \<open>The life cycle\<close>

inductive status_step :: "job_status \<Rightarrow> job_status \<Rightarrow> bool" where
  ack: "status_step Received Acked"
| reserve: "waiting_status s \<Longrightarrow> status_step s Dispatching"
| turn_down: "waiting_status s \<Longrightarrow> status_step s Rejected"
| withdraw: "waiting_status s \<Longrightarrow> status_step s Cancelled"
| not_sent: "status_step Dispatching Acked"
| accept: "status_step Dispatching Running"
| finish: "s \<in> {Dispatching, Running} \<Longrightarrow> t \<in> {Succeeded, Failed, Interrupted} \<Longrightarrow> status_step s t"
| cancel: "s \<in> {Dispatching, Running} \<Longrightarrow> status_step s Cancelling"
| cancelled: "status_step Cancelling Cancelled"
| cancel_lost: "status_step Cancelling CancelUnknown"

code_pred status_step .

inductive_cases status_step_terminalE: "status_step s t"

lemma status_step_terminal: "status_step s t \<Longrightarrow> \<not> terminal_status s"
  by (erule status_step_terminalE) (auto simp: status_partition)

lemma status_steps_terminal: "rtranclp status_step s t \<Longrightarrow> terminal_status s \<Longrightarrow> t = s"
  by (induction rule: converse_rtranclp_induct) (auto dest: status_step_terminal)

definition job_le :: "job_row \<Rightarrow> job_row \<Rightarrow> bool" where
  "job_le j k \<longleftrightarrow> same_identity j k \<and> rtranclp status_step (j_status j) (j_status k)
     \<and> j_run_generation j \<le> j_run_generation k \<and> (terminal_status (j_status j) \<longrightarrow> k = j)"

lemma job_le_refl [simp]: "job_le j j"
  by (simp add: job_le_def)

lemma job_le_trans: "job_le i j \<Longrightarrow> job_le j k \<Longrightarrow> job_le i k"
  by (auto simp: job_le_def same_identity_def)

lemma job_leI:
  "same_identity j k \<Longrightarrow> status_step (j_status j) (j_status k) \<Longrightarrow>
   j_run_generation j \<le> j_run_generation k \<Longrightarrow> job_le j k"
  by (auto simp: job_le_def dest: status_step_terminal)

lemma job_leI_same:
  "same_identity j k \<Longrightarrow> j_status k = j_status j \<Longrightarrow>
   j_run_generation j \<le> j_run_generation k \<Longrightarrow> \<not> terminal_status (j_status j) \<Longrightarrow> job_le j k"
  by (auto simp: job_le_def)

text \<open>What a status says of the sets it lies in.\<close>

lemma waiting_statusD:
  "waiting_status s \<Longrightarrow> \<not> active_status s \<and> \<not> terminal_status s \<and> \<not> result_status s"
  by (cases s) (simp_all add: result_status_def)

lemma active_statusD:
  "active_status s \<Longrightarrow> \<not> waiting_status s \<and> \<not> terminal_status s \<and> \<not> result_status s"
  by (cases s) (simp_all add: result_status_def)

section \<open>The order on databases\<close>

definition outbox_le :: "outbox_row \<Rightarrow> outbox_row \<Rightarrow> bool" where
  "outbox_le r q \<longleftrightarrow> outbox_key q = outbox_key r \<and> o_result_json q = o_result_json r
     \<and> o_created_at q = o_created_at r \<and> (o_status r = Delivered \<longrightarrow> q = r)"

lemma outbox_le_refl [simp]: "outbox_le r r"
  by (simp add: outbox_le_def)

definition store_le :: "db \<Rightarrow> db \<Rightarrow> bool" where
  "store_le db db' \<longleftrightarrow>
     (\<forall>j \<in> set (jobs db). \<exists>k \<in> set (jobs db'). job_le j k)
     \<and> (\<exists>ext. attempt_events db' = attempt_events db @ ext)
     \<and> (\<forall>r \<in> set (outbox db). \<exists>q \<in> set (outbox db'). outbox_le r q)"

lemma store_le_refl [simp]: "store_le db db"
  unfolding store_le_def using job_le_refl outbox_le_refl by fastforce

lemma outbox_le_trans: "outbox_le p q \<Longrightarrow> outbox_le q r \<Longrightarrow> outbox_le p r"
  by (auto simp: outbox_le_def)

lemma store_le_trans:
  assumes "store_le a b" "store_le b c"
  shows "store_le a c"
  unfolding store_le_def
proof (intro conjI ballI)
  fix j assume "j \<in> set (jobs a)"
  with assms obtain k l where "k \<in> set (jobs b)" "job_le j k" "l \<in> set (jobs c)" "job_le k l"
    unfolding store_le_def by blast
  then show "\<exists>k \<in> set (jobs c). job_le j k" using job_le_trans by blast
next
  show "\<exists>ext. attempt_events c = attempt_events a @ ext"
    using assms unfolding store_le_def by auto
next
  fix r assume "r \<in> set (outbox a)"
  with assms obtain q p where "q \<in> set (outbox b)" "outbox_le r q" "p \<in> set (outbox c)"
    "outbox_le q p" unfolding store_le_def by blast
  then show "\<exists>q \<in> set (outbox c). outbox_le r q" using outbox_le_trans by blast
qed

lemma store_le_map:
  assumes "jobs db' = map u (jobs db)" "attempt_events db' = attempt_events db @ ext"
    "outbox db' = map w (outbox db) @ new"
    "\<And>j. j \<in> set (jobs db) \<Longrightarrow> job_le j (u j)" "\<And>r. r \<in> set (outbox db) \<Longrightarrow> outbox_le r (w r)"
  shows "store_le db db'"
  using assms unfolding store_le_def by auto

section \<open>Moves of a job\<close>

definition good :: "db \<Rightarrow> db \<Rightarrow> bool" where
  "good db db' \<longleftrightarrow> store_wf db' \<and> store_le db db'"

lemma good_refl: "store_wf db \<Longrightarrow> good db db"
  by (simp add: good_def)

lemma good_trans: "good a b \<Longrightarrow> good b c \<Longrightarrow> good a c"
  unfolding good_def using store_le_trans by blast

lemma good_transaction:
  assumes "store_wf db" "\<And>a db'. body db = Inr (a, db') \<Longrightarrow> good db db'"
  shows "good db (snd (transaction body db))"
  by (rule snd_transaction_cases) (rule good_refl [OF assms(1)], rule assms(2))

text \<open>The jobs and the sessions of a Hermes job's move; the move of a durable backend's job
  also replaces its session.\<close>

lemma hermes_move:
  assumes wf: "store_wf db" and j0: "j0 \<in> set (jobs db)" "j_target_backend j0 = Hermes"
    and u: "jobs db' = replace j0 k (jobs db)" and ev: "attempt_events db' = attempt_events db @ es"
    and v: "backend_sessions db' = backend_sessions db"
    and id: "same_identity j0 k" and ok: "job_row_ok k"
    and step: "attempt_step db j0 k es" and own: "\<And>e. e \<in> set es \<Longrightarrow> (e_scope_key e, e_job_id e) = job_key j0"
    and idle: "active_status (j_status k) \<Longrightarrow> active_status (j_status j0) \<or> \<not> session_busy db j0"
  shows "jobs_wf db' \<and> ledger_wf db' \<and> sessions_wf db'"
proof -
  from wf have w: "ledger_wf db" "jobs_wf db" "sessions_wf db" by (auto simp: store_wf_def)
  note m = move_wf [OF w(1,2) j0(1) u ev id ok step own idle]
  have "sessions_wf db'"
  proof (rule sessions_wf_calm [OF w(3) _ v ev])
    show "jobs db' = map (\<lambda>j. if j = j0 then k else j) (jobs db)" using u by (simp add: replace_def)
  next
    fix j assume "j \<in> set (jobs db)" "j_target_backend j \<noteq> Hermes"
    with j0 m(3) show "calm j (if j = j0 then k else j) \<and> job_part es j = []" by auto
  qed (use same_identityD(3) [OF id] in simp)
  with m show ?thesis by simp
qed

lemma outbox_wf_replace:
  assumes "outbox_wf db" "jobs db' = replace j0 k (jobs db)" "outbox db' = outbox db"
    "delivery_attempts db' = delivery_attempts db" "same_identity j0 k"
    "result_status (j_status k) = result_status (j_status j0)"
  shows "outbox_wf db'"
  using assms same_identityD [OF assms(5)]
  by (intro outbox_wf_map [OF assms(1), of db' "\<lambda>j. if j = j0 then k else j"])
    (auto simp: replace_def)

text \<open>The move of a job that ends neither in nor with a result.\<close>

lemma outbox_wf_move:
  assumes "store_wf db" "jobs db' = replace j0 k (jobs db)" "outbox db' = outbox db"
    "delivery_attempts db' = delivery_attempts db" "same_identity j0 k"
    "\<not> result_status (j_status k)" "\<not> result_status (j_status j0)"
  shows "outbox_wf db'"
proof (rule outbox_wf_replace [where db = db and ?j0.0 = j0])
  show "outbox_wf db" using assms(1) by (simp add: store_wf_def)
qed (use assms in simp_all)

lemma finish_event_closing: "closing (finish_event s)"
  by (cases s) (simp_all add: closing_def)

lemma upsertOutbox_Inr:
  assumes "upsertOutbox cfg jobId res now db = Inr db'"
  obtains "find_outbox (scopeKey cfg) jobId db \<noteq> None" "db' = db"
  | r where "find_outbox (scopeKey cfg) jobId db = None" "db' = db\<lparr>outbox := outbox db @ [r]\<rparr>"
      "outbox_key r = (scopeKey cfg, jobId)" "o_status r = Pending" "o_result_json r = res"
  using assms by (fastforce simp: upsertOutbox_def split: if_splits)

lemma outbox_wf_finish:
  assumes wf: "outbox_wf db" "jobs_wf db" and j0: "j0 \<in> set (jobs db)" "job_key j0 = (scopeKey cfg, jobId)"
    and st: "\<not> result_status (j_status j0)" "result_status (j_status k)" and id: "same_identity j0 k"
    and db1: "jobs db1 = replace j0 k (jobs db)" "outbox db1 = outbox db"
      "delivery_attempts db1 = delivery_attempts db"
    and ups: "upsertOutbox cfg jobId res now db1 = Inr db'"
  obtains r where "db' = db1\<lparr>outbox := outbox db1 @ [r]\<rparr>" "outbox_key r = job_key j0"
    "o_status r = Pending" "o_result_json r = res" "outbox_wf db'"
proof -
  have none: "outbox_key r \<noteq> job_key j0" if "r \<in> set (outbox db)" for r
  proof
    assume "outbox_key r = job_key j0"
    with wf(1) that obtain j where "j \<in> set (jobs db)" "job_key j = job_key j0"
      "result_status (j_status j)" unfolding outbox_wf_def by metis
    with job_unique [OF wf(2) _ j0(1)] st(1) show False by auto
  qed
  from ups show thesis
  proof (cases rule: upsertOutbox_Inr)
    case 1
    then obtain r where "r \<in> set (outbox db)" "outbox_key r = job_key j0"
      unfolding find_outbox_def db1 using j0(2) by (auto simp: find_None_all)
    with none show ?thesis by blast
  next
    case (2 r)
    have key: "outbox_key r = job_key j0" using 2(3) j0(2) by simp
    have fresh: "outbox_key r \<notin> outbox_key ` set (outbox db)"
    proof
      assume "outbox_key r \<in> outbox_key ` set (outbox db)"
      then obtain q where "outbox_key r = outbox_key q" "q \<in> set (outbox db)" by (rule imageE)
      with none [of q] key show False by simp
    qed
    have jin: "j \<in> set (jobs db') \<longleftrightarrow> j = k \<or> j \<in> set (jobs db) \<and> j \<noteq> j0" for j
      using 2(2) db1(1) j0(1) by (auto simp: replace_def)
    note kk = same_identityD [OF id]
    have keep: "\<exists>j \<in> set (jobs db'). job_key j = outbox_key q \<and> result_status (j_status j)"
      if "q \<in> set (outbox db)" for q
    proof -
      from wf(1) that obtain j where "j \<in> set (jobs db)" "job_key j = outbox_key q"
        "result_status (j_status j)" unfolding outbox_wf_def by metis
      with st(1) jin show ?thesis by blast
    qed
    have "outbox_wf db'"
      unfolding outbox_wf_def
    proof (intro conjI)
      show "distinct (map outbox_key (outbox db'))"
        using wf(1) fresh 2(2) db1 by (simp add: outbox_wf_def)
      show "\<forall>q\<in>set (outbox db'). \<exists>j\<in>set (jobs db'). job_key j = outbox_key q \<and> result_status (j_status j)"
        using keep key kk st(2) jin 2(2) db1 by auto
      show "\<forall>j\<in>set (jobs db'). result_status (j_status j) \<longrightarrow> (\<exists>q\<in>set (outbox db'). outbox_key q = job_key j)"
        using wf(1) key kk jin 2(2) db1 by (auto simp: outbox_wf_def)
      show "distinct (map (\<lambda>d. (d_scope_key d, d_message_id d)) (delivery_attempts db'))"
        using wf(1) 2(2) db1 by (simp add: outbox_wf_def)
      show "\<forall>d\<in>set (delivery_attempts db'). \<exists>r\<in>set (outbox db'). outbox_key r = (d_scope_key d, d_job_id d)"
        using wf(1) 2(2) db1 by (auto simp: outbox_wf_def)
      show "\<forall>q\<in>set (outbox db'). delivery_link db' q"
        using wf(1) 2(2,4) db1 by (auto simp: outbox_wf_def delivery_link_def has_delivery_attempt_def)
    qed
    with 2 key db1 that show ?thesis by blast
  qed
qed

lemma store_le_replace:
  assumes "jobs db' = replace j0 k (jobs db)" "attempt_events db' = attempt_events db @ ext"
    "outbox db' = outbox db @ new" "job_le j0 k"
  shows "store_le db db'"
  using assms
  by (intro store_le_map [of db' "\<lambda>j. if j = j0 then k else j" db ext "\<lambda>r. r" new])
    (auto simp: replace_def)

text \<open>Statements on the small tables keep the invariant.\<close>

lemma store_wf_small:
  assumes "store_wf db" "small_wf db'" "jobs db' = jobs db" "outbox db' = outbox db"
    "delivery_attempts db' = delivery_attempts db" "backend_sessions db' = backend_sessions db"
    "attempt_events db' = attempt_events db"
  shows "good db db'"
proof -
  have log: "job_log db' = job_log db"
    using assms(7) by (simp add: job_log_def attempt_log_def fun_eq_iff)
  then have "attempt_ok db' = attempt_ok db" "turn_ok db' = turn_ok db"
    by (simp_all add: attempt_ok_def turn_ok_def fun_eq_iff)
  moreover from this(2) have "session_link db' = session_link db" "job_link db' = job_link db"
    using assms by (simp_all add: session_link_def job_link_def fun_eq_iff)
  moreover have "delivery_link db' = delivery_link db"
    using assms by (simp add: delivery_link_def has_delivery_attempt_def fun_eq_iff)
  ultimately have "jobs_wf db' = jobs_wf db" "ledger_wf db' = ledger_wf db"
    "sessions_wf db' = sessions_wf db" "outbox_wf db' = outbox_wf db"
    by (simp_all only: jobs_wf_def ledger_wf_def sessions_wf_def outbox_wf_def assms)
  with assms(1,2) have "store_wf db'" by (simp only: store_wf_def simp_thms)
  moreover have "store_le db db'"
    by (rule store_le_map [of db' id db "[]" id "[]"]) (simp_all add: assms)
  ultimately show ?thesis by (simp add: good_def)
qed

lemma good_quarantine:
  assumes "good db db1"
  shows "good db (quarantine_jobs P r n db1)"
proof -
  have w: "store_wf db1" using assms by (simp add: good_def)
  then have "good db1 (quarantine_jobs P r n db1)"
    by (intro store_wf_small) (simp_all add: store_wf_def small_wf_quarantine)
  with assms show ?thesis by (rule good_trans)
qed

end
