(* ===== verification/Store_Jobs_Wf.thy ===== *)
theory Store_Jobs_Wf
  imports Store_Order
begin

text \<open>
  Every method of \<open>Store_Jobs\<close> keeps the invariant and moves the store forward:
  \<open>good db (snd (method ... db))\<close>.
\<close>

section \<open>One attempt event\<close>

text \<open>A Hermes method that updates its job, appends one event and perhaps writes a result.\<close>

lemma hermes_event_good:
  assumes wf: "store_wf db" and j0: "j0 \<in> set (jobs db)" "j_target_backend j0 = Hermes"
    and k: "job_le j0 k" "job_row_ok k"
    and db1: "jobs (update_jobs P f db) = replace j0 j1 (jobs db)"
    and j1: "same_identity j0 j1" "j_run_generation j1 = j_run_generation k"
    and app: "appended j1 t e (update_jobs P f db) db2"
    and move: "opens j0 k e \<or> closes j0 k e
        \<or> (active_status (j_status j0) \<and> active_status (j_status k) \<and> j_status k \<noteq> Dispatching
            \<and> j_run_generation k = j_run_generation j0 \<and> t = EvAccepted)"
    and idle: "active_status (j_status k) \<Longrightarrow> active_status (j_status j0) \<or> \<not> session_busy db j0"
    and db': "jobs db' = replace j0 k (jobs db)" "attempt_events db' = attempt_events db2"
      "backend_sessions db' = backend_sessions db" "outbox db' = outbox db @ new"
      "outbox_wf db'" "small_wf db'"
  shows "good db db'"
proof -
  from wf have w: "ledger_wf db" "jobs_wf db" by (auto simp: store_wf_def)
  have id: "same_identity j0 k" using k(1) by (simp add: job_le_def)
  note i1 = same_identityD [OF j1(1)]
  have ev: "attempt_events db' = attempt_events db @ [e]"
    using db'(2) appendedD(1) [OF app] by simp
  have step: "attempt_step db j0 k [e]"
    by (rule appended_step [OF w j0(1) id _ _ _ j1(2) app _ move]) (use i1 in simp_all)
  have own: "(e_scope_key e', e_job_id e') = job_key j0" if "e' \<in> set [e]" for e'
    using that app i1 by (simp add: appended_def)
  have "jobs_wf db' \<and> ledger_wf db' \<and> sessions_wf db'"
    by (rule hermes_move [OF wf j0 db'(1) ev db'(3) id k(2) step own idle]) auto
  moreover have "store_le db db'"
    by (rule store_le_replace [OF db'(1) ev db'(4) k(1)])
  ultimately show ?thesis using db'(5,6) by (simp add: good_def store_wf_def)
qed

lemma hermes_plain_good:
  assumes wf: "store_wf db" and j0: "j0 \<in> set (jobs db)" "j_target_backend j0 = Hermes"
    and k: "job_le j0 (f j0)" "job_row_ok (f j0)" and f: "same_identity j0 (f j0)"
    and db1: "jobs (update_jobs P f db) = replace j0 (f j0) (jobs db)"
    and app: "appended (f j0) t e (update_jobs P f db) db2"
    and move: "opens j0 (f j0) e \<or> closes j0 (f j0) e
        \<or> (active_status (j_status j0) \<and> active_status (j_status (f j0))
            \<and> j_status (f j0) \<noteq> Dispatching
            \<and> j_run_generation (f j0) = j_run_generation j0 \<and> t = EvAccepted)"
    and idle: "active_status (j_status (f j0)) \<Longrightarrow> active_status (j_status j0) \<or> \<not> session_busy db j0"
    and st: "\<not> result_status (j_status (f j0))" "\<not> result_status (j_status j0)"
  shows "good db db2"
proof (rule hermes_event_good [OF wf j0 k db1 f refl app move idle, where new = "[]"])
  note db2 = appendedD(1) [OF app]
  show "jobs db2 = replace j0 (f j0) (jobs db)" using db1 by (simp add: db2)
  then show "outbox_wf db2"
    by (rule outbox_wf_move [OF wf]) (simp_all add: db2 f st)
  show "small_wf db2" by (rule small_wf_same [of db]) (use wf in \<open>simp_all add: db2 store_wf_def\<close>)
  show "backend_sessions db2 = backend_sessions db" "outbox db2 = outbox db @ []"
    by (simp_all add: db2)
qed simp_all

lemma hermes_result_good:
  assumes wf: "store_wf db" and j0: "j0 \<in> set (jobs db)" "j_target_backend j0 = Hermes"
    "at_job cfg jobId j0"
    and k: "job_le j0 (f j0)" "job_row_ok (f j0)" and f: "same_identity j0 (f j0)"
    and db1: "jobs (update_jobs P f db) = replace j0 (f j0) (jobs db)"
    and app: "appended (f j0) t e (update_jobs P f db) db2" and move: "closes j0 (f j0) e"
    and st: "result_status (j_status (f j0))"
    and up: "upsertOutbox cfg jobId res now db2 = Inr db'"
  shows "good db db'"
proof -
  note db2 = appendedD(1) [OF app]
  have jobs2: "jobs db2 = replace j0 (f j0) (jobs db)" using db1 by (simp add: db2)
  have act: "active_status (j_status j0)" "\<not> active_status (j_status (f j0))"
    using move by (auto simp: closes_def)
  have w: "outbox_wf db" "jobs_wf db" using wf by (auto simp: store_wf_def)
  obtain r where r: "db' = db2\<lparr>outbox := outbox db2 @ [r]\<rparr>" "outbox_wf db'"
    by (rule outbox_wf_finish [OF w j0(1,3) _ st f jobs2 _ _ up])
      (use active_statusD [OF act(1)] in \<open>auto simp: db2\<close>)
  show ?thesis
  proof (rule hermes_event_good [OF wf j0(1,2) k db1 f refl app, where new = "[r]"])
    show "jobs db' = replace j0 (f j0) (jobs db)" using jobs2 by (simp add: r(1))
    show "small_wf db'"
      by (rule small_wf_same [of db]) (use wf in \<open>simp_all add: r(1) db2 store_wf_def\<close>)
    show "backend_sessions db' = backend_sessions db" "outbox db' = outbox db @ [r]"
      by (simp_all add: db2 r(1))
  qed (use r move act in simp_all)
qed

text \<open>The shape of these methods: an UPDATE of one job, its lookup, the append, the rest.\<close>

lemma one_event_body:
  assumes wf: "jobs_wf db" and P: "\<And>j. P j \<Longrightarrow> at_job cfg jobId j"
    and f: "\<And>j. job_key (f j) = job_key j"
    and body: "(if sql_count P (jobs db) \<noteq> 1 then Inr (x, update_jobs P f db)
       else bindR (require_job cfg jobId (update_jobs P f db)) (\<lambda>job.
            bindR (appendExecutionAttemptEventLocked cfg jobId (j_run_generation (sj_row job))
                     t op reason now (update_jobs P f db)) (rest job))) = Inr (a, db')"
  obtains "db' = db" "a = x"
  | j0 e db2 where "sql_count P (jobs db) = 1" "j0 \<in> set (jobs db)" "P j0"
      "jobs (update_jobs P f db) = replace j0 (f j0) (jobs db)"
      "find_job (scopeKey cfg) jobId (update_jobs P f db) = Some (f j0)"
      "appended (f j0) t e (update_jobs P f db) db2"
      "rest (rowToJob (update_jobs P f db) (f j0)) db2 = Inr (a, db')"
proof (cases "sql_count P (jobs db) = 1")
  case False
  then show ?thesis using body update_no_job [OF wf P] that(1) by simp
next
  case True
  let ?db1 = "update_jobs P f db"
  from update_one_job [OF wf P True f] obtain j0 where j0: "j0 \<in> set (jobs db)" "P j0"
    "jobs ?db1 = replace j0 (f j0) (jobs db)" "find_job (scopeKey cfg) jobId ?db1 = Some (f j0)"
    by blast
  from body True j0(4) obtain db2 where db2:
    "appendExecutionAttemptEventLocked cfg jobId (j_run_generation (f j0)) t op reason now ?db1 = Inr db2"
    "rest (rowToJob ?db1 (f j0)) db2 = Inr (a, db')"
    by (auto simp: bindR_Inr_iff require_job_iff)
  have "distinct (map job_key (jobs ?db1))"
    unfolding j0(3) using wf distinct_replace [of job_key, OF f] by (simp add: jobs_wf_def)
  from append_eventE [OF db2(1) this j0(4)] obtain e where "appended (f j0) t e ?db1 db2" by blast
  with True j0 db2(2) that(2) show ?thesis by blast
qed

lemma claim_good:
  assumes wf: "store_wf db"
  shows "good db (snd (claimForDispatch cfg now jobId connectorId leaseId db))"
  unfolding claimForDispatch_def snd_after Let_def
proof (rule good_transaction [OF wf], erule one_event_body [rotated 3])
  show "jobs_wf db" using wf by (simp add: store_wf_def)
next
  fix j0 :: job_row and e db2 a db'
  let ?P = "\<lambda>j. at_job cfg jobId j \<and> j_target_backend j = Hermes \<and> dispatchable db j"
  let ?f = "claim_row now connectorId leaseId"
  assume *: "j0 \<in> set (jobs db)" "?P j0"
    "jobs (update_jobs ?P ?f db) = replace j0 (?f j0) (jobs db)"
    "appended (?f j0) EvReserved e (update_jobs ?P ?f db) db2" "Inr (True, db2) = Inr (a, db')"
  have id: "same_identity j0 (?f j0)" by (simp add: claim_row_def same_identity_def)
  have st: "waiting_status (j_status j0)" "\<not> j_cancel_requested j0" "\<not> session_busy db j0"
    using *(2) by (auto simp: dispatchable_def)
  note st' = waiting_statusD [OF st(1)]
  have "good db db2"
  proof (rule hermes_plain_good [OF wf *(1) _ _ _ id *(3,4)])
    show "job_le j0 (?f j0)" using st id by (intro job_leI) (auto simp: claim_row_def intro: reserve)
    show "job_row_ok (?f j0)"
      using appendedD(3-6) [OF *(4)] st by (simp add: claim_row_def job_row_ok_def)
  qed (use *(2) st st' appendedD(2) [OF *(4)] in
    \<open>auto simp: opens_def claim_row_def result_status_def\<close>)
  with *(5) show "good db db'" by simp
qed (use good_refl [OF wf] in \<open>auto simp: claim_row_def\<close>)

lemma resetUnsentDispatch_good:
  assumes wf: "store_wf db"
  shows "good db (snd (resetUnsentDispatch cfg now jobId leaseId db))"
  unfolding resetUnsentDispatch_def Let_def
proof (rule good_transaction [OF wf], erule one_event_body [rotated 3])
  show "jobs_wf db" using wf by (simp add: store_wf_def)
next
  fix j0 :: job_row and e db2 a db'
  let ?P = "\<lambda>j. at_job cfg jobId j \<and> j_target_backend j = Hermes \<and> j_status j = Dispatching
      \<and> j_lease_id j = Some leaseId"
  let ?f = "\<lambda>j. j\<lparr>j_status := Acked, j_updated_at := now\<rparr>"
  let ?db1 = "update_jobs ?P ?f db"
  let ?Q = "\<lambda>j. at_job cfg jobId j \<and> j_target_backend j = Hermes \<and> j_status j = Acked
      \<and> j_lease_id j = Some leaseId \<and> j_run_generation j = j_run_generation (sj_row (rowToJob ?db1 (?f j0)))"
  let ?h = "\<lambda>j. j\<lparr>j_connector_id := None, j_lease_id := None\<rparr>"
  assume *: "j0 \<in> set (jobs db)" "?P j0" "jobs ?db1 = replace j0 (?f j0) (jobs db)"
    "appended (?f j0) EvNotSent e ?db1 db2"
    "(if sql_count ?Q (jobs db2) \<noteq> 1 then Inl InconsistentCommit
      else Inr ((), update_jobs ?Q ?h db2)) = Inr (a, db')"
  let ?k = "?h (?f j0)"
  have db2: "db2 = ?db1\<lparr>attempt_events := attempt_events db @ [e]\<rparr>"
    using appendedD(1) [OF *(4)] by simp
  have jobs': "jobs db' = replace j0 ?k (jobs db)"
  proof -
    have "sql_update ?Q ?h (replace j0 (?f j0) (jobs db)) = replace j0 ?k (jobs db)"
      unfolding sql_update_def replace_def map_map
    proof (rule map_cong [OF refl])
      fix j assume j: "j \<in> set (jobs db)"
      have "\<not> at_job cfg jobId j" if "j \<noteq> j0"
        using at_job_unique [of db j j0 cfg jobId] j *(1,2) wf that by (auto simp: store_wf_def)
      then show "((\<lambda>r. if ?Q r then ?h r else r) \<circ> (\<lambda>r. if r = j0 then ?f j0 else r)) j
          = (if j = j0 then ?k else j)"
        using *(2) by (cases "j = j0") auto
    qed
    with *(3,5) show ?thesis by (auto simp: db2 split: if_splits)
  qed
  have frame: "attempt_events db' = attempt_events db2" "backend_sessions db' = backend_sessions db"
    "outbox db' = outbox db @ []" "delivery_attempts db' = delivery_attempts db"
    "session_quarantine db' = session_quarantine db" "pending_cancels db' = pending_cancels db"
    using *(5) by (auto simp: db2 split: if_splits)
  have id: "same_identity j0 ?k" by (simp add: same_identity_def)
  show "good db db'"
  proof (rule hermes_event_good [OF wf *(1) _ _ _ *(3) _ _ *(4), where new = "[]" and k = ?k])
    show "job_le j0 ?k" using *(2) id by (intro job_leI) (auto intro: not_sent)
    have "job_row_ok j0" using wf *(1) by (simp add: store_wf_def jobs_wf_def)
    then show "job_row_ok ?k" using *(2) by (simp add: job_row_ok_def)
    show "outbox_wf db'"
      by (rule outbox_wf_move [OF wf jobs' _ _ id])
        (use *(2) in \<open>simp_all add: frame result_status_def\<close>)
    show "small_wf db'" by (rule small_wf_same [of db]) (use wf in \<open>simp_all add: frame store_wf_def\<close>)
  qed (use *(1,2) jobs' frame appendedD(2) [OF *(4)] in
    \<open>auto simp: closes_def closing_def same_identity_def\<close>)
qed (use good_refl [OF wf] in auto)

lemma markRunning_good:
  assumes wf: "store_wf db"
  shows "good db (snd (markRunning cfg now jobId connectorId leaseId db))"
  unfolding markRunning_def snd_after Let_def
proof (rule good_transaction [OF wf], erule one_event_body [rotated 3])
  show "jobs_wf db" using wf by (simp add: store_wf_def)
next
  fix j0 :: job_row and e db2 a db'
  let ?P = "\<lambda>j. at_job cfg jobId j \<and> j_target_backend j = Hermes \<and> j_status j = Dispatching
      \<and> j_lease_id j = Some leaseId \<and> \<not> j_cancel_requested j"
  let ?f = "\<lambda>j. j\<lparr>j_status := Running, j_connector_id := Some connectorId, j_updated_at := now\<rparr>"
  assume *: "j0 \<in> set (jobs db)" "?P j0"
    "jobs (update_jobs ?P ?f db) = replace j0 (?f j0) (jobs db)"
    "appended (?f j0) EvAccepted e (update_jobs ?P ?f db) db2"
    "Inr ((), db2) = Inr (a, db')"
  have id: "same_identity j0 (?f j0)" by (simp add: same_identity_def)
  have "good db db2"
  proof (rule hermes_plain_good [OF wf *(1) _ _ _ id *(3,4)])
    show "job_le j0 (?f j0)" using *(2) id by (intro job_leI) (auto intro: accept)
    show "job_row_ok (?f j0)"
      using *(2) appendedD(3-6) [OF *(4)] by (simp add: job_row_ok_def)
  qed (use *(2) appendedD(2) [OF *(4)] in
    \<open>auto simp: closes_def closing_def result_status_def\<close>)
  with *(5) show "good db db'" by simp
qed (use good_refl [OF wf] in auto)

lemma markCancelUnknown_good:
  assumes wf: "store_wf db"
  shows "good db (snd (markCancelUnknown cfg now jobId leaseId reason db))"
  unfolding markCancelUnknown_def snd_after Let_def
proof (rule good_transaction [OF wf], erule one_event_body [rotated 3])
  show "jobs_wf db" using wf by (simp add: store_wf_def)
next
  fix j0 :: job_row and e db2 a db'
  let ?P = "\<lambda>j. at_job cfg jobId j \<and> j_target_backend j = Hermes \<and> j_lease_id j = Some leaseId
      \<and> j_status j = Cancelling"
  let ?f = "\<lambda>j. j\<lparr>j_status := CancelUnknown, j_cancel_requested := True, j_error := Some reason,
      j_completed_at := Some now, j_updated_at := now\<rparr>"
  assume *: "j0 \<in> set (jobs db)" "?P j0"
    "jobs (update_jobs ?P ?f db) = replace j0 (?f j0) (jobs db)"
    "appended (?f j0) EvCancelUnknown e (update_jobs ?P ?f db) db2"
    "Inr ((), quarantine_jobs (at_job cfg jobId) reason now db2) = Inr (a, db')"
  have id: "same_identity j0 (?f j0)" by (simp add: same_identity_def)
  have "good db db2"
  proof (rule hermes_plain_good [OF wf *(1) _ _ _ id *(3,4)])
    show "job_le j0 (?f j0)" using *(2) id by (intro job_leI) (auto intro: cancel_lost)
    show "job_row_ok (?f j0)"
      using *(2) appendedD(3-6) [OF *(4)] by (simp add: job_row_ok_def)
  qed (use *(2) appendedD(2) [OF *(4)] in
    \<open>auto simp: closes_def closing_def result_status_def\<close>)
  with *(5) show "good db db'" using good_quarantine by auto
qed (use good_refl [OF wf] in auto)

lemma finishHermesCancellationNotStarted_good:
  assumes wf: "store_wf db"
  shows "good db (snd (finishHermesCancellationNotStarted cfg now jobId leaseId db))"
  unfolding finishHermesCancellationNotStarted_def snd_after Let_def
proof (rule good_transaction [OF wf], erule one_event_body [rotated 3])
  show "jobs_wf db" using wf by (simp add: store_wf_def)
next
  fix j0 :: job_row and e db2 a db'
  let ?P = "\<lambda>j. at_job cfg jobId j \<and> j_target_backend j = Hermes \<and> j_status j = Cancelling
      \<and> j_cancel_requested j \<and> j_lease_id j = Some leaseId"
  let ?f = "\<lambda>j. j\<lparr>j_status := Cancelled, j_completed_at := Some now, j_updated_at := now\<rparr>"
  assume *: "j0 \<in> set (jobs db)" "?P j0"
    "jobs (update_jobs ?P ?f db) = replace j0 (?f j0) (jobs db)"
    "appended (?f j0) EvCancelledNotSent e (update_jobs ?P ?f db) db2"
    "Inr (True, db2) = Inr (a, db')"
  have id: "same_identity j0 (?f j0)" by (simp add: same_identity_def)
  have "good db db2"
  proof (rule hermes_plain_good [OF wf *(1) _ _ _ id *(3,4)])
    show "job_le j0 (?f j0)" using *(2) id by (intro job_leI) (auto intro: cancelled)
    show "job_row_ok (?f j0)"
      using *(2) appendedD(3-6) [OF *(4)] by (simp add: job_row_ok_def)
  qed (use *(2) appendedD(2) [OF *(4)] in
    \<open>auto simp: closes_def closing_def result_status_def\<close>)
  with *(5) show "good db db'" by simp
qed (use good_refl [OF wf] in auto)

lemma finishWithOutbox_good:
  assumes wf: "store_wf db" and st: "status = Succeeded \<or> status = Failed"
  shows "good db (snd (finishWithOutbox cfg now jobId leaseId status resultJson err db))"
  unfolding finishWithOutbox_def snd_after Let_def
proof (rule good_transaction [OF wf], erule one_event_body [rotated 3])
  show "jobs_wf db" using wf by (simp add: store_wf_def)
next
  fix j0 :: job_row and e db2 a db'
  let ?P = "\<lambda>j. at_job cfg jobId j \<and> j_lease_id j = Some leaseId \<and> j_target_backend j = Hermes
      \<and> j_status j \<in> {Dispatching, Running} \<and> \<not> j_cancel_requested j"
  let ?f = "\<lambda>j. j\<lparr>j_status := status, j_error := err, j_completed_at := Some now,
      j_updated_at := now\<rparr>"
  assume *: "j0 \<in> set (jobs db)" "?P j0"
    "jobs (update_jobs ?P ?f db) = replace j0 (?f j0) (jobs db)"
    "appended (?f j0) (finish_event status) e (update_jobs ?P ?f db) db2"
    "bindR (upsertOutbox cfg jobId resultJson now db2) (\<lambda>db3. Inr ((), db3)) = Inr (a, db')"
  have id: "same_identity j0 (?f j0)" by (simp add: same_identity_def)
  have up: "upsertOutbox cfg jobId resultJson now db2 = Inr db'"
    using *(5) by (simp add: bindR_Inr_iff)
  show "good db db'"
  proof (rule hermes_result_good [OF wf *(1) _ _ _ _ id *(3,4) _ _ up])
    show "job_le j0 (?f j0)" using *(2) id st by (intro job_leI) (auto intro: finish)
    show "job_row_ok (?f j0)" using *(2) st by (auto simp: job_row_ok_def)
  qed (use *(2) st appendedD(2) [OF *(4)] finish_event_closing [of status] in
    \<open>auto simp: closes_def result_status_def\<close>)
qed (use good_refl [OF wf] in auto)

end
