(* ===== verification/Store_Bulk.thy ===== *)
theory Store_Bulk
  imports Store_Order
begin

text \<open>
  Methods that touch many jobs at once: updates that leave the attempts alone
  (\<open>quiet_good\<close>), and the disconnects and the restart, which end the attempts of a whole set
  of jobs with one event each (\<open>bulk_wf\<close>).
\<close>

section \<open>Updates without events\<close>

definition quiet :: "job_row \<Rightarrow> job_row \<Rightarrow> bool" where
  "quiet j k \<longleftrightarrow> calm j k \<and> job_le j k \<and> job_row_ok k
     \<and> result_status (j_status k) = result_status (j_status j)"

lemma quiet_refl: "job_row_ok j \<Longrightarrow> quiet j j"
  by (simp add: quiet_def)

lemma quiet_good:
  assumes wf: "store_wf db" and u: "jobs db' = map u (jobs db)"
    and quiet: "\<And>j. j \<in> set (jobs db) \<Longrightarrow> quiet j (u j)"
    and same: "attempt_events db' = attempt_events db" "backend_sessions db' = backend_sessions db"
      "outbox db' = outbox db" "delivery_attempts db' = delivery_attempts db" and small: "small_wf db'"
  shows "good db db'"
proof -
  from wf have w: "jobs_wf db" "ledger_wf db" "sessions_wf db" "outbox_wf db"
    by (auto simp: store_wf_def)
  have id: "same_identity j (u j)" if "j \<in> set (jobs db)" for j
    using quiet [OF that] by (simp add: quiet_def calm_def)
  have ev: "attempt_events db' = attempt_events db @ []" using same by simp
  have part: "job_part [] j = []" for j by (simp add: job_part_def)
  have "jobs_wf db'"
    by (rule jobs_wf_map [OF w(1) u id]) (use quiet in \<open>auto simp: quiet_def calm_def rests_def\<close>)
  moreover have "ledger_wf db'"
    by (rule ledger_wf_map [OF w(2,1) u ev id])
      (use quiet in \<open>auto simp: part attempt_step_def quiet_def calm_def\<close>)
  moreover have "sessions_wf db'"
    by (rule sessions_wf_calm [OF w(3) u same(2) ev])
      (use quiet same_identityD(3) [OF id] in \<open>auto simp: part quiet_def\<close>)
  moreover have "outbox_wf db'"
    by (rule outbox_wf_map [OF w(4) u same(3,4)])
      (use quiet id in \<open>auto simp: quiet_def dest: same_identityD\<close>)
  moreover have "store_le db db'"
    by (rule store_le_map [OF u ev, of id "[]"]) (use quiet same in \<open>auto simp: quiet_def\<close>)
  ultimately show ?thesis using small by (simp add: good_def store_wf_def)
qed

lemma update_jobs_quiet:
  assumes wf: "store_wf db" and q: "\<And>j. j \<in> set (jobs db) \<Longrightarrow> P j \<Longrightarrow> quiet j (f j)"
  shows "good db (update_jobs P f db)"
proof (rule quiet_good [OF wf, where u = "\<lambda>j. if P j then f j else j"])
  show "quiet j (if P j then f j else j)" if "j \<in> set (jobs db)" for j
    using q wf that by (auto simp: store_wf_def jobs_wf_def quiet_refl)
  show "small_wf (update_jobs P f db)"
    by (rule small_wf_same [of db]) (use wf in \<open>simp_all add: store_wf_def\<close>)
qed (simp_all add: sql_update_def)

section \<open>One event for each of a set of jobs\<close>

text \<open>The loop over the active attempts. \<open>x\<close> ranges over the loop's list, \<open>now_row x\<close> is the
  updated row of its job.\<close>

lemma attempt_log_other:
  assumes "\<And>e. e \<in> set es \<Longrightarrow> (e_scope_key e, e_job_id e) \<noteq> job_key j"
  shows "filter (same_attempt (j_scope_key j) (j_job_id j) g) (xs @ es)
    = filter (same_attempt (j_scope_key j) (j_job_id j) g) xs"
  using assms by (auto simp: filter_empty_conv same_attempt_def)

lemma eachR_events:
  assumes "eachR (\<lambda>x. appendExecutionAttemptEventLocked cfg (jobId x) (g x) (t x) (opr x) (why x) now)
      xs (db\<lparr>attempt_events := attempt_events db @ es0\<rparr>) = Inr db'"
    and "distinct (map job_key (jobs db))" "distinct (map (\<lambda>x. job_key (row x)) xs)"
    and "\<And>x. x \<in> set xs \<Longrightarrow> find_job (scopeKey cfg) (jobId x) db = Some (row x)"
    and "\<And>x e. x \<in> set xs \<Longrightarrow> e \<in> set es0 \<Longrightarrow> (e_scope_key e, e_job_id e) \<noteq> job_key (row x)"
  shows "\<exists>es. db' = db\<lparr>attempt_events := attempt_events db @ es0 @ es\<rparr>
    \<and> list_all2 (\<lambda>x e. appended (row x) (t x) e db (db\<lparr>attempt_events := attempt_events db @ [e]\<rparr>)) xs es"
  using assms
proof (induction xs arbitrary: es0)
  case (Cons x xs)
  let ?db = "db\<lparr>attempt_events := attempt_events db @ es0\<rparr>"
  from Cons.prems(1) obtain db1 where db1:
    "appendExecutionAttemptEventLocked cfg (jobId x) (g x) (t x) (opr x) (why x) now ?db = Inr db1"
    "eachR (\<lambda>x. appendExecutionAttemptEventLocked cfg (jobId x) (g x) (t x) (opr x) (why x) now)
       xs db1 = Inr db'" by (auto simp: bindR_Inr_iff)
  have here: "distinct (map job_key (jobs ?db))" "find_job (scopeKey cfg) (jobId x) ?db = Some (row x)"
    using Cons.prems(2,4) by (simp_all add: find_job_def)
  obtain e where e: "appended (row x) (t x) e ?db db1"
    by (rule append_eventE [OF db1(1) here])
  have log: "filter (same_attempt (j_scope_key (row x)) (j_job_id (row x)) n) (attempt_events db @ es0)
      = filter (same_attempt (j_scope_key (row x)) (j_job_id (row x)) n) (attempt_events db)" for n
    using attempt_log_other [of es0 "row x" n] Cons.prems(5) by simp
  have e': "appended (row x) (t x) e db (db\<lparr>attempt_events := attempt_events db @ [e]\<rparr>)"
    using e log unfolding appended_def event_types_def job_log_def attempt_log_def sql_max_def
    by simp
  have key: "(e_scope_key e, e_job_id e) = job_key (row x)" using e by (simp add: appended_def)
  have "db1 = db\<lparr>attempt_events := attempt_events db @ (es0 @ [e])\<rparr>"
    using appendedD(1) [OF e] by simp
  moreover have "(e_scope_key e', e_job_id e') \<noteq> job_key (row y)"
    if "y \<in> set xs" "e' \<in> set (es0 @ [e])" for y e'
  proof (cases "e' = e")
    case True
    have "job_key (row x) \<noteq> job_key (row y)"
      using Cons.prems(3) imageI [OF that(1), of "\<lambda>x. job_key (row x)"] by auto
    with key True show ?thesis by simp
  qed (use that Cons.prems(5) in auto)
  ultimately obtain es where
    "db' = db\<lparr>attempt_events := attempt_events db @ (es0 @ [e]) @ es\<rparr>"
    "list_all2 (\<lambda>x e. appended (row x) (t x) e db (db\<lparr>attempt_events := attempt_events db @ [e]\<rparr>)) xs es"
    using Cons.IH [of "es0 @ [e]"] db1(2) Cons.prems(2-4) by fastforce
  with e' show ?case by (intro exI [of _ "e # es"]) simp
qed simp

lemma list_all2_right: "list_all2 R xs ys \<Longrightarrow> y \<in> set ys \<Longrightarrow> \<exists>x \<in> set xs. R x y"
  by (induction rule: list_all2_induct) auto

lemma bulk_part:
  assumes "list_all2 R xs es" "distinct (map (\<lambda>x. job_key (row x)) xs)"
    and "\<And>x e. R x e \<Longrightarrow> (e_scope_key e, e_job_id e) = job_key (row x)"
  shows "(\<forall>x \<in> set xs. \<exists>e. job_part es (row x) = [e] \<and> R x e)
    \<and> (\<forall>j. job_key j \<notin> (\<lambda>x. job_key (row x)) ` set xs \<longrightarrow> job_part es j = [])"
  using assms
proof (induction rule: list_all2_induct)
  case (Cons x xs e es)
  have key: "(e_scope_key e, e_job_id e) = job_key (row x)" using Cons by simp
  have IH: "(\<forall>x \<in> set xs. \<exists>e. job_part es (row x) = [e] \<and> R x e)
    \<and> (\<forall>j. job_key j \<notin> (\<lambda>x. job_key (row x)) ` set xs \<longrightarrow> job_part es j = [])"
    using Cons by simp
  have new: "job_key (row x) \<notin> (\<lambda>x. job_key (row x)) ` set xs" using Cons.prems(1) by simp
  have "job_part (e # es) (row y) = job_part es (row y)" if "y \<in> set xs" for y
  proof -
    have "job_key (row y) \<in> (\<lambda>x. job_key (row x)) ` set xs" using that by (rule imageI)
    with new have "job_key (row y) \<noteq> job_key (row x)" by auto
    with key show ?thesis by (auto simp: job_part_def)
  qed
  moreover have "job_part (e # es) (row x) = [e]"
    using IH new key by (auto simp: job_part_def)
  moreover have "job_part (e # es) j = job_part es j" if "job_key j \<noteq> job_key (row x)" for j
    using that key by (auto simp: job_part_def)
  ultimately show ?case using IH Cons(1) by auto
qed (simp add: job_part_def)

lemma find_job_map:
  assumes "distinct (map job_key (jobs db))" "jobs db' = map u (jobs db)"
    "\<And>j. j \<in> set (jobs db) \<Longrightarrow> job_key (u j) = job_key j" "a \<in> set (jobs db)"
  shows "find_job (j_scope_key a) (j_job_id a) db' = Some (u a)"
proof -
  have "map job_key (jobs db') = map job_key (jobs db)" using assms(2,3) by simp
  moreover have "u a \<in> set (jobs db')" using assms(2,4) by simp
  moreover have "job_key (u a) = job_key a" using assms(3,4) by simp
  ultimately show ?thesis
    using assms(1) find_key_unique [of job_key "jobs db'" "u a"] by (simp add: find_job_def)
qed

text \<open>The attempts of the jobs \<open>a x\<close> end, each with one closing event; every other job stays.\<close>

lemma bulk_wf:
  assumes wf: "ledger_wf db" "jobs_wf db" and u: "jobs db' = map u (jobs db)"
    and ev: "attempt_events db' = attempt_events db @ es"
    and app: "list_all2 (\<lambda>x e. appended (u (a x)) (t x) e dbx (dbx\<lparr>attempt_events := attempt_events dbx @ [e]\<rparr>)) xs es"
    and dbx: "attempt_events dbx = attempt_events db"
    and xs: "\<And>x. x \<in> set xs \<Longrightarrow> a x \<in> set (jobs db)" "distinct (map (\<lambda>x. job_key (a x)) xs)"
    and hit: "\<And>x. x \<in> set xs \<Longrightarrow> active_status (j_status (a x)) \<and> closing (t x)"
    and over: "\<And>x. x \<in> set xs \<Longrightarrow> \<not> active_status (j_status (u (a x)))
        \<and> j_run_generation (u (a x)) = j_run_generation (a x)"
    and le: "\<And>j. j \<in> set (jobs db) \<Longrightarrow> job_le j (u j)"
    and ok: "\<And>j. j \<in> set (jobs db) \<Longrightarrow> job_row_ok (u j)"
    and rest: "\<And>j. j \<in> set (jobs db) \<Longrightarrow> j \<notin> a ` set xs \<Longrightarrow> u j = j"
  shows "jobs_wf db'" "ledger_wf db'"
    "\<And>j. j \<in> set (jobs db) \<Longrightarrow> j \<notin> a ` set xs \<Longrightarrow> job_part es j = []"
proof -
  have id: "same_identity j (u j)" if "j \<in> set (jobs db)" for j
    using le [OF that] by (simp add: job_le_def)
  have key: "job_key (u (a x)) = job_key (a x)" if "x \<in> set xs" for x
    using same_identityD [OF id [OF xs(1) [OF that]]] by simp
  then have keys: "map (\<lambda>x. job_key (u (a x))) xs = map (\<lambda>x. job_key (a x)) xs" by simp
  have part: "(\<forall>x \<in> set xs. \<exists>e. job_part es (u (a x)) = [e]
        \<and> appended (u (a x)) (t x) e dbx (dbx\<lparr>attempt_events := attempt_events dbx @ [e]\<rparr>))
      \<and> (\<forall>j. job_key j \<notin> (\<lambda>x. job_key (u (a x))) ` set xs \<longrightarrow> job_part es j = [])"
    by (rule bulk_part [OF app]) (simp only: keys xs(2), simp add: appended_def)
  show none: "job_part es j = []" if "j \<in> set (jobs db)" "j \<notin> a ` set xs" for j
  proof -
    have "job_key j \<noteq> job_key (u (a x))" if "x \<in> set xs" for x
      using key [OF that] job_unique [OF wf(2) \<open>j \<in> set (jobs db)\<close> xs(1) [OF that]]
        \<open>j \<notin> a ` set xs\<close> that by auto
    then have "job_key j \<notin> (\<lambda>x. job_key (u (a x))) ` set xs" by auto
    with part show ?thesis by blast
  qed
  have inact: "active_status (j_status j)" if "j \<in> set (jobs db)" "active_status (j_status (u j))" for j
    using that over rest by (cases "j \<in> a ` set xs") auto
  show "jobs_wf db'"
    by (rule jobs_wf_map [OF wf(2) u id ok]) (use inact in auto)
  show "ledger_wf db'"
  proof (rule ledger_wf_map [OF wf u ev id])
    fix j assume j: "j \<in> set (jobs db)"
    show "attempt_step db j (u j) (job_part es j)"
    proof (cases "j \<in> a ` set xs")
      case False
      with j rest none show ?thesis by simp
    next
      case True
      then obtain x where x: "x \<in> set xs" "j = a x" by blast
      with part obtain e where e: "job_part es (u j) = [e]"
        "appended (u j) (t x) e dbx (dbx\<lparr>attempt_events := attempt_events dbx @ [e]\<rparr>)" by blast
      have "job_part es j = [e]"
        using e(1) key [OF x(1)] x(2) by (simp add: job_part_def)
      moreover have "attempt_step db j (u j) [e]"
        by (rule appended_step [OF wf j id [OF j] _ _ _ refl e(2) dbx])
          (use same_identityD [OF id [OF j]] hit [OF x(1)] over [OF x(1)] appendedD(2) [OF e(2)] x(2) in
            \<open>auto simp: closes_def\<close>)
      ultimately show ?thesis by simp
    qed
  next
    fix e assume "e \<in> set es"
    from list_all2_right [OF app this] obtain x where "x \<in> set xs"
      "appended (u (a x)) (t x) e dbx (dbx\<lparr>attempt_events := attempt_events dbx @ [e]\<rparr>)" by blast
    with key [of x] xs(1) [of x] show "\<exists>j\<in>set (jobs db). (e_scope_key e, e_job_id e) = job_key j"
      by (auto simp: appended_def)
  qed
qed

section \<open>Sessions that go into recovery\<close>

text \<open>The sessions selected by \<open>M\<close> are those that carry an attempt that just ended.\<close>

lemma sessions_wf_recover:
  assumes wf: "sessions_wf db" and u: "jobs db' = map u (jobs db)"
    and v: "backend_sessions db' = sql_update M (\<lambda>s. s\<lparr>s_recovery_required := True, s_updated_at := now\<rparr>)
        (backend_sessions db)"
    and new: "list_all session_checks (backend_sessions db')" "sessions_unique (backend_sessions db')"
    and ev: "attempt_events db' = attempt_events db @ es"
    and hit: "\<And>j s. j \<in> set (jobs db) \<Longrightarrow> s \<in> set (backend_sessions db) \<Longrightarrow> M s \<Longrightarrow>
        session_of_attempt (s_backend s) j s \<Longrightarrow> backend_name (j_target_backend j) = s_backend s \<Longrightarrow>
        terminal_status (j_status (u j)) \<and> same_identity j (u j) \<and> j_lease_id (u j) = j_lease_id j
        \<and> j_run_generation (u j) = j_run_generation j"
    and rest: "\<And>j s. j \<in> set (jobs db) \<Longrightarrow> s \<in> set (backend_sessions db) \<Longrightarrow> \<not> M s \<Longrightarrow>
        session_of_attempt (s_backend s) j s \<Longrightarrow> backend_name (j_target_backend j) = s_backend s \<Longrightarrow>
        (s_recovery_required s \<longleftrightarrow> terminal_status (j_status j)) \<Longrightarrow> u j = j \<and> job_part es j = []"
    and left: "\<And>j. j \<in> set (jobs db) \<Longrightarrow> active_status (j_status (u j)) \<Longrightarrow> u j = j \<and>
        (\<forall>s \<in> set (backend_sessions db). M s \<longrightarrow> \<not> session_of_attempt (s_backend s) j s)"
  shows "sessions_wf db'"
proof (rule sessions_wf_map [OF wf u, where v =
      "\<lambda>s. if M s then s\<lparr>s_recovery_required := True, s_updated_at := now\<rparr> else s"])
  show "backend_sessions db' = map (\<lambda>s. if M s then s\<lparr>s_recovery_required := True, s_updated_at := now\<rparr> else s)
      (backend_sessions db)" by (simp add: v sql_update_def)
next
  fix s assume s: "s \<in> set (backend_sessions db)" "session_link db s"
  let ?s = "s\<lparr>s_recovery_required := True, s_updated_at := now\<rparr>"
  have "session_link db' ?s" if M: "M s"
    unfolding session_link_def
  proof
    assume "s_active_job_id ?s \<noteq> None"
    with s(2) obtain j where j: "j \<in> set (jobs db)" "session_of_attempt (s_backend s) j s"
      "backend_name (j_target_backend j) = s_backend s" by (auto simp: session_link_def)
    note h = hit [OF j(1) s(1) M j(2,3)]
    have "u j \<in> set (jobs db')" using u j(1) by simp
    moreover have "session_of_attempt (s_backend ?s) (u j) ?s"
      using j(2) h same_identityD [of j "u j"] by (auto simp: session_of_attempt_def)
    moreover have "backend_name (j_target_backend (u j)) = s_backend ?s"
      using j(3) h same_identityD [of j "u j"] by auto
    ultimately show "\<exists>j\<in>set (jobs db'). session_of_attempt (s_backend ?s) j ?s
        \<and> backend_name (j_target_backend j) = s_backend ?s
        \<and> (if s_recovery_required ?s then terminal_status (j_status j)
           else active_status (j_status j) \<and> turn_ok db' j ?s)"
      using h by auto
  qed
  moreover have "session_link db' s" if M: "\<not> M s"
    unfolding session_link_def
  proof
    assume "s_active_job_id s \<noteq> None"
    with s(2) obtain j where j: "j \<in> set (jobs db)" "session_of_attempt (s_backend s) j s"
      "backend_name (j_target_backend j) = s_backend s"
      "if s_recovery_required s then terminal_status (j_status j)
       else active_status (j_status j) \<and> turn_ok db j s" unfolding session_link_def by blast
    have "s_recovery_required s \<longleftrightarrow> terminal_status (j_status j)"
      using j(4) active_statusD by (auto split: if_splits)
    from rest [OF j(1) s(1) M j(2,3) this] have uj: "u j = j" "job_part es j = []" by auto
    with j(4) have "if s_recovery_required s then terminal_status (j_status j)
        else active_status (j_status j) \<and> turn_ok db' j s"
      using calm_turn_ok [OF calm_refl ev uj(2)] by (auto split: if_splits)
    moreover have "j \<in> set (jobs db')" using u uj(1) j(1) by force
    ultimately show "\<exists>j\<in>set (jobs db'). session_of_attempt (s_backend s) j s
        \<and> backend_name (j_target_backend j) = s_backend s
        \<and> (if s_recovery_required s then terminal_status (j_status j)
           else active_status (j_status j) \<and> turn_ok db' j s)"
      using j(2,3) by blast
  qed
  ultimately show "session_link db' (if M s then ?s else s)" by simp
next
  fix j assume j: "j \<in> set (jobs db)" "job_link db j"
  show "job_link db' (u j)"
    unfolding job_link_def
  proof
    assume a: "active_status (j_status (u j)) \<and> j_target_backend (u j) \<noteq> Hermes"
    with left [OF j(1)] have uj: "u j = j"
      "\<forall>s \<in> set (backend_sessions db). M s \<longrightarrow> \<not> session_of_attempt (s_backend s) j s" by auto
    with a j(2) obtain s where s: "s \<in> set (backend_sessions db)"
      "session_of_attempt (backend_name (j_target_backend j)) j s" "\<not> s_recovery_required s"
      unfolding job_link_def by auto
    from s(2) have "s_backend s = backend_name (j_target_backend j)"
      by (simp add: session_of_attempt_def)
    with uj s(1,2) have "\<not> M s" by auto
    with s(1) have "s \<in> set (backend_sessions db')" by (auto simp: v set_sql_update)
    with s uj(1) show "\<exists>s\<in>set (backend_sessions db').
        session_of_attempt (backend_name (j_target_backend (u j))) (u j) s \<and> \<not> s_recovery_required s"
      by auto
  qed
qed (use new in auto)

section \<open>Writes to the outbox\<close>

lemma outbox_good:
  assumes wf: "store_wf db"
    and same: "jobs db' = jobs db" "backend_sessions db' = backend_sessions db"
      "attempt_events db' = attempt_events db" "session_quarantine db' = session_quarantine db"
      "pending_cancels db' = pending_cancels db"
    and rows: "outbox db' = sql_update P f (outbox db)"
    and le: "\<And>r. r \<in> set (outbox db) \<Longrightarrow> P r \<Longrightarrow> outbox_le r (f r)"
    and att: "distinct (map (\<lambda>d. (d_scope_key d, d_message_id d)) (delivery_attempts db'))"
      "\<And>d. d \<in> set (delivery_attempts db') \<Longrightarrow> \<exists>r \<in> set (outbox db). outbox_key r = (d_scope_key d, d_job_id d)"
    and link: "\<And>r. r \<in> set (outbox db) \<Longrightarrow> delivery_link db r \<Longrightarrow> delivery_link db' (if P r then f r else r)"
  shows "good db db'"
proof -
  let ?w = "\<lambda>r. if P r then f r else r"
  have w: "outbox_wf db" using wf by (simp add: store_wf_def)
  have rows': "outbox db' = map ?w (outbox db)" using rows by (simp add: sql_update_def)
  have key: "outbox_key (?w r) = outbox_key r" if "r \<in> set (outbox db)" for r
    using le [OF that] by (simp add: outbox_le_def)
  have "outbox_wf db'"
    unfolding outbox_wf_def
  proof (intro conjI ballI impI)
    have "map outbox_key (outbox db') = map outbox_key (outbox db)" unfolding rows' using key by simp
    then show "distinct (map outbox_key (outbox db'))" using w by (simp only: outbox_wf_def)
  next
    fix r' assume "r' \<in> set (outbox db')"
    then obtain r where r: "r \<in> set (outbox db)" "r' = ?w r" by (auto simp: rows')
    from w r(1) obtain j where "j \<in> set (jobs db)" "job_key j = outbox_key r" "result_status (j_status j)"
      unfolding outbox_wf_def by blast
    with r key [OF r(1)] show "\<exists>j\<in>set (jobs db'). job_key j = outbox_key r' \<and> result_status (j_status j)"
      unfolding same(1) by (intro bexI [of _ j]) simp_all
    show "delivery_link db' r'" using link r w by (simp add: outbox_wf_def)
  next
    fix j assume "j \<in> set (jobs db')" "result_status (j_status j)"
    with w same(1) obtain r where r: "r \<in> set (outbox db)" "outbox_key r = job_key j"
      unfolding outbox_wf_def by metis
    then show "\<exists>r\<in>set (outbox db'). outbox_key r = job_key j"
      unfolding rows' using key [OF r(1)] by (intro bexI [of _ "?w r"]) auto
  next
    fix d assume "d \<in> set (delivery_attempts db')"
    from att(2) [OF this] obtain r where r: "r \<in> set (outbox db)" "outbox_key r = (d_scope_key d, d_job_id d)"
      by blast
    then show "\<exists>r\<in>set (outbox db'). outbox_key r = (d_scope_key d, d_job_id d)"
      unfolding rows' using key [OF r(1)] by (intro bexI [of _ "?w r"]) auto
  qed (rule att(1))
  moreover have log: "job_log db' = job_log db"
    using same(3) by (simp add: job_log_def attempt_log_def fun_eq_iff)
  then have "attempt_ok db' = attempt_ok db" "turn_ok db' = turn_ok db"
    by (simp_all add: attempt_ok_def turn_ok_def fun_eq_iff)
  moreover from this(2) have "session_link db' = session_link db" "job_link db' = job_link db"
    using same by (simp_all add: session_link_def job_link_def fun_eq_iff)
  ultimately have "jobs_wf db' = jobs_wf db" "ledger_wf db' = ledger_wf db"
    "sessions_wf db' = sessions_wf db" "small_wf db' = small_wf db" "outbox_wf db'"
    by (simp_all only: jobs_wf_def ledger_wf_def sessions_wf_def small_wf_def same simp_thms)
  with wf have "store_wf db'" by (simp only: store_wf_def simp_thms)
  moreover have "store_le db db'"
    by (rule store_le_map [of db' id db "[]" ?w "[]"]) (use same rows' le in auto)
  ultimately show ?thesis by (simp add: good_def)
qed

text \<open>An UPDATE of the outbox alone.\<close>

lemma update_outbox_good:
  assumes wf: "store_wf db"
    and le: "\<And>r. r \<in> set (outbox db) \<Longrightarrow> P r \<Longrightarrow> outbox_le r (f r)"
    and link: "\<And>r. r \<in> set (outbox db) \<Longrightarrow> P r \<Longrightarrow> delivery_link db r \<Longrightarrow> delivery_link db (f r)"
  shows "good db (update_outbox P f db)"
proof (rule outbox_good [OF wf _ _ _ _ _ _ le])
  have eq: "delivery_link (update_outbox P f db) = delivery_link db"
    by (simp add: delivery_link_def has_delivery_attempt_def fun_eq_iff)
  show "delivery_link (update_outbox P f db) (if P r then f r else r)"
    if "r \<in> set (outbox db)" "delivery_link db r" for r
    using link that unfolding eq by simp
qed (use wf in \<open>auto simp: store_wf_def outbox_wf_def\<close>)

end
