(* ===== verification/Store_Intake_Wf.thy ===== *)
theory Store_Intake_Wf
  imports Store_Bulk
begin

text \<open>
  The methods without an attempt event, the disconnect of the Hermes connector and the restart:
  they keep the invariant and move the store forward.
\<close>

section \<open>Arrival, acknowledgement, rejection\<close>

lemma small_wf_prune: "small_wf db \<Longrightarrow> small_wf (pruneExpiredPendingCancelsLocked now db)"
  by (auto simp: small_wf_def pruneExpiredPendingCancelsLocked_def sql_delete_def
      distinct_map_filter intro: order_trans [OF length_filter_le])

lemma small_wf_delete_pending: "small_wf db \<Longrightarrow> small_wf (delete_pending a b db)"
  by (auto simp: small_wf_def delete_pending_def sql_delete_def
      distinct_map_filter intro: order_trans [OF length_filter_le])

lemma prune_good: "store_wf db \<Longrightarrow> good db (pruneExpiredPendingCancelsLocked now db)"
  by (rule store_wf_small)
    (simp_all add: store_wf_def small_wf_prune, simp_all add: pruneExpiredPendingCancelsLocked_def)

lemma delete_pending_good: "store_wf db \<Longrightarrow> good db (delete_pending a b db)"
  by (rule store_wf_small) (simp_all add: store_wf_def small_wf_delete_pending, simp_all add: delete_pending_def)

lemma cancel_row_quiet: "job_row_ok j \<Longrightarrow> cancellable (j_status j) \<Longrightarrow> quiet j (cancel_row now j)"
  by (cases "j_status j")
    (auto simp: quiet_def calm_def rests_def cancel_row_def same_identity_def job_row_ok_def
      cancellable_def result_status_def intro!: job_leI withdraw cancel)

lemma store_wf_row: "store_wf db \<Longrightarrow> j \<in> set (jobs db) \<Longrightarrow> job_row_ok j"
  by (simp add: store_wf_def jobs_wf_def)

lemma consumeMatched_good:
  assumes "store_wf db"
  shows "good db (consumeMatchedPendingCancelLocked scope jobId now db)"
proof -
  let ?db1 = "update_jobs (\<lambda>j. job_key j = (scope, jobId) \<and> cancellable (j_status j)
      \<and> has_pending db (j_scope_key j) (j_job_id j)) (cancel_row now) db"
  have g: "good db ?db1"
    by (rule update_jobs_quiet [OF assms]) (use store_wf_row [OF assms] cancel_row_quiet in blast)
  then have "good ?db1 (delete_pending scope jobId ?db1)"
    by (intro delete_pending_good) (simp add: good_def)
  with g show ?thesis
    unfolding consumeMatchedPendingCancelLocked_def by (rule good_trans)
qed

lemma single_active_snoc:
  "single_active rows \<Longrightarrow> \<not> active_status (j_status j) \<Longrightarrow> single_active (rows @ [j])"
  unfolding single_active_def
  by (simp only: set_append list.set Un_insert_right Un_empty_right) blast

lemma new_job_good:
  assumes wf: "store_wf db" and fresh: "find_job (scopeKey cfg) (in_jobId i) db = None"
  shows "good db (db\<lparr>jobs := jobs db @ [new_job_row cfg now i sessionKey target]\<rparr>)"
proof -
  let ?j = "new_job_row cfg now i sessionKey target"
  let ?db = "db\<lparr>jobs := jobs db @ [?j]\<rparr>"
  have key: "job_key j \<noteq> job_key ?j" if "j \<in> set (jobs db)" for j
    using fresh that by (auto simp: find_job_def find_None_all new_job_row_def)
  have log: "job_log ?db = job_log db" by (simp add: job_log_def attempt_log_def fun_eq_iff)
  have st: "j_status ?j = Received" "j_run_generation ?j = 0" by (simp_all add: new_job_row_def)
  have "job_key ?j \<notin> job_key ` set (jobs db)"
  proof
    assume "job_key ?j \<in> job_key ` set (jobs db)"
    then obtain k where k: "job_key ?j = job_key k" "k \<in> set (jobs db)" by (rule imageE)
    from key [OF k(2)] k(1) [symmetric] show False by (rule notE)
  qed
  then have "distinct (map job_key (jobs db) @ [job_key ?j])"
    using wf by (simp add: store_wf_def jobs_wf_def)
  moreover have "single_active (jobs db @ [?j])"
    using wf st(1) by (intro single_active_snoc) (simp_all add: store_wf_def jobs_wf_def)
  moreover have "job_row_ok ?j" by (simp add: job_row_ok_def new_job_row_def)
  ultimately have "jobs_wf ?db"
    using wf unfolding store_wf_def jobs_wf_def by simp
  moreover have "attempt_ok ?db = attempt_ok db" by (simp add: attempt_ok_def log fun_eq_iff)
  then have "ledger_wf ?db"
    using wf st by (auto simp: store_wf_def ledger_wf_def)
  moreover have "sessions_wf ?db"
    unfolding sessions_wf_def
  proof (intro conjI ballI)
    fix s assume "s \<in> set (backend_sessions ?db)"
    then have s: "s \<in> set (backend_sessions db)" by simp
    note sw = sessions_wfD [of db s, OF _ s]
    show "metadata_complete s" "s_backend s \<noteq> backend_name Hermes"
      using sw wf by (simp_all add: store_wf_def)
    have "session_link db s" using sw wf by (simp add: store_wf_def)
    moreover have "turn_ok ?db = turn_ok db" by (simp add: turn_ok_def log fun_eq_iff)
    moreover have "set (jobs db) \<subseteq> set (jobs ?db)" by auto
    ultimately show "session_link ?db s" unfolding session_link_def by (simp only:) blast
  next
    fix j assume "j \<in> set (jobs ?db)"
    then show "job_link ?db j"
      using wf st(1) by (auto simp: store_wf_def sessions_wf_def job_link_def)
  qed (use wf in \<open>simp_all add: store_wf_def sessions_wf_def\<close>)
  moreover have "outbox_wf ?db"
    using wf st
    by (auto simp: store_wf_def outbox_wf_def result_status_def delivery_link_def has_delivery_attempt_def)
  moreover have "small_wf ?db" using wf by (simp add: store_wf_def small_wf_def)
  moreover have "store_le db ?db"
    unfolding store_le_def using job_le_refl outbox_le_refl by fastforce
  ultimately show ?thesis by (simp add: good_def store_wf_def)
qed

lemma ingest_good:
  assumes wf: "store_wf db"
  shows "good db (snd (ingest cfg now i sessionKey target db))"
  unfolding ingest_def snd_after
proof (rule good_transaction [OF wf])
  fix a db'
  assume body: "ingest_tx cfg now i sessionKey target db = Inr (a, db')"
  let ?db1 = "pruneExpiredPendingCancelsLocked now db"
  let ?db2 = "if a then ?db1\<lparr>jobs := jobs ?db1 @ [new_job_row cfg now i sessionKey target]\<rparr> else ?db1"
  have g1: "good db ?db1" by (rule prune_good [OF wf])
  then have w1: "store_wf ?db1" by (simp add: good_def)
  have a: "a \<longleftrightarrow> find_job (scopeKey cfg) (in_jobId i) ?db1 = None"
    using body by (auto simp: ingest_tx_def Let_def)
  have g2: "good ?db1 ?db2"
    using new_job_good [OF w1] a good_refl [OF w1] by (cases a) simp_all
  then have "good ?db2 (consumeMatchedPendingCancelLocked (scopeKey cfg) (in_jobId i) now ?db2)"
    by (intro consumeMatched_good) (simp add: good_def)
  moreover have "db' = consumeMatchedPendingCancelLocked (scopeKey cfg) (in_jobId i) now ?db2"
    using body a by (auto simp: ingest_tx_def Let_def)
  ultimately show "good db db'" using g1 g2 good_trans by blast
qed

lemma markAcked_good: "store_wf db \<Longrightarrow> good db (snd (markAcked cfg now jobId db))"
  unfolding markAcked_def Let_def transition_def snd_conv
  by (rule update_jobs_quiet)
    (auto simp: quiet_def calm_def rests_def same_identity_def result_status_def job_row_ok_def
      dest!: store_wf_row intro!: job_leI intro: ack)

lemma reject_good:
  assumes wf: "store_wf db"
  shows "good db (snd (reject cfg now jobId resultJson reason db))"
  unfolding reject_def snd_after Let_def
proof (rule good_transaction [OF wf])
  fix a db'
  let ?P = "\<lambda>j. at_job cfg jobId j \<and> waiting_status (j_status j)"
  let ?f = "\<lambda>j. j\<lparr>j_status := Rejected, j_error := Some reason, j_completed_at := Some now,
      j_updated_at := now\<rparr>"
  let ?db1 = "update_jobs ?P ?f db"
  assume body: "(if sql_count ?P (jobs db) \<noteq> 1 then Inr ((), ?db1)
      else bindR (upsertOutbox cfg jobId resultJson now ?db1) (\<lambda>db2. Inr ((), db2))) = Inr (a, db')"
  have w: "outbox_wf db" "jobs_wf db" "ledger_wf db" "sessions_wf db"
    using wf by (auto simp: store_wf_def)
  show "good db db'"
  proof (cases "sql_count ?P (jobs db) = 1")
    case False
    then show ?thesis
      using body update_no_job [OF w(2), of ?P cfg jobId ?f] good_refl [OF wf] by simp
  next
    case True
    from update_one_job [OF w(2) _ True, of cfg jobId ?f] obtain j0 where
      j0: "j0 \<in> set (jobs db)" "?P j0" "jobs ?db1 = replace j0 (?f j0) (jobs db)" by auto
    let ?k = "?f j0"
    note st = waiting_statusD [of "j_status j0"]
    have id: "same_identity j0 ?k" by (simp add: same_identity_def)
    have le: "job_le j0 ?k" using j0(2) id by (intro job_leI) (auto intro: turn_down)
    have ok: "job_row_ok ?k"
      using store_wf_row [OF wf j0(1)] j0(2) by (auto simp: job_row_ok_def)
    have up: "upsertOutbox cfg jobId resultJson now ?db1 = Inr db'"
      using body True by (auto simp: bindR_Inr_iff)
    obtain r where r: "db' = ?db1\<lparr>outbox := outbox ?db1 @ [r]\<rparr>" "outbox_wf db'"
      by (rule outbox_wf_finish [OF w(1,2) j0(1) _ _ _ id j0(3) _ _ up])
        (use j0(2) st in \<open>auto simp: result_status_def\<close>)
    have jobs': "jobs db' = replace j0 ?k (jobs db)" using j0(3) by (simp add: r(1))
    have ev: "attempt_events db' = attempt_events db @ []" by (simp add: r(1))
    have "jobs_wf db'" "ledger_wf db'"
      using move_wf [OF w(3,2) j0(1) jobs' ev id ok] j0(2) st
      by (auto simp: attempt_step_def rests_def)
    moreover have "sessions_wf db'"
    proof (rule sessions_wf_calm [OF w(4) _ _ ev])
      show "jobs db' = map (\<lambda>j. if j = j0 then ?k else j) (jobs db)"
        using jobs' by (simp only: replace_def)
    qed (use id st j0(2) in \<open>auto simp: r(1) calm_def rests_def job_part_def\<close>)
    moreover have "small_wf db'" by (rule small_wf_same [of db]) (use wf in \<open>simp_all add: r(1) store_wf_def\<close>)
    moreover have "store_le db db'"
      by (rule store_le_replace [OF jobs' ev _ le]) (simp add: r(1))
    ultimately show ?thesis using r(2) by (simp add: good_def store_wf_def)
  qed
qed

section \<open>Cancellation before and after arrival\<close>

lemma requestCancel_good:
  assumes wf: "store_wf db"
  shows "good db (snd (requestCancel cfg now jobId db))"
  unfolding requestCancel_def snd_after Let_def
proof (rule good_transaction [OF wf])
  fix a db'
  let ?P = "\<lambda>j. at_job cfg jobId j \<and> cancellable (j_status j)"
  let ?here = "\<lambda>p. pending_key p = (scopeKey cfg, jobId)"
  let ?db1 = "pruneExpiredPendingCancelsLocked now db"
  let ?db2 = "update_jobs ?P (cancel_row now) ?db1"
  let ?p = "\<lparr>p_scope_key = scopeKey cfg, p_job_id = jobId, p_created_at = now\<rparr>"
  assume body: "(if find_job (scopeKey cfg) jobId ?db2 \<noteq> None
       then Inr ((), delete_pending (scopeKey cfg) jobId ?db2)
       else if sql_count ?here (pending_cancels ?db2) = 1
       then Inr ((), ?db2\<lparr>pending_cancels :=
              sql_update ?here (\<lambda>p. p\<lparr>p_created_at := now\<rparr>) (pending_cancels ?db2)\<rparr>)
       else if pending_cancel_max_rows \<le> length (pending_cancels ?db2)
       then Inl PendingCancelCapacity
       else Inr ((), ?db2\<lparr>pending_cancels := pending_cancels ?db2 @ [?p]\<rparr>)) = Inr (a, db')"
  have g1: "good db ?db1" by (rule prune_good [OF wf])
  then have w1: "store_wf ?db1" by (simp add: good_def)
  have g2: "good ?db1 ?db2"
    by (rule update_jobs_quiet [OF w1]) (use store_wf_row [OF w1] cancel_row_quiet in blast)
  then have w2: "store_wf ?db2" by (simp add: good_def)
  then have small: "small_wf ?db2" by (simp add: store_wf_def)
  have "good ?db2 db'"
  proof (cases "find_job (scopeKey cfg) jobId ?db2 = None")
    case False
    then show ?thesis using body delete_pending_good [OF w2] by auto
  next
    case none: True
    show ?thesis
    proof (cases "sql_count ?here (pending_cancels ?db2) = 1")
      case True
      then have db': "db' = ?db2\<lparr>pending_cancels :=
          sql_update ?here (\<lambda>p. p\<lparr>p_created_at := now\<rparr>) (pending_cancels ?db2)\<rparr>"
        using body none by simp
      have "small_wf db'"
        using small unfolding db' small_wf_def by (simp del: update_jobs_frame add: sql_update_keys)
      then show ?thesis by (intro store_wf_small [OF w2]) (simp_all add: db')
    next
      case False
      with body none have len: "length (pending_cancels ?db2) < pending_cancel_max_rows"
        and db': "db' = ?db2\<lparr>pending_cancels := pending_cancels ?db2 @ [?p]\<rparr>"
        by (auto split: if_splits)
      have "\<forall>p \<in> set (pending_cancels ?db2). \<not> ?here p"
        using False small sql_count_1_iff [of pending_key "pending_cancels ?db2" ?here]
        unfolding small_wf_def by blast
      then have "distinct (map pending_key (pending_cancels ?db2) @ [pending_key ?p])"
        using small unfolding small_wf_def by auto
      then have "small_wf db'"
        using small len unfolding db' small_wf_def by simp
      then show ?thesis by (intro store_wf_small [OF w2]) (simp_all add: db')
    qed
  qed
  with g1 g2 show "good db db'" using good_trans by blast
qed

section \<open>Disconnect of the Hermes connector\<close>

text \<open>What the disconnect and the restart do to a job, \<open>hit\<close> selecting the jobs they end.\<close>

definition end_row :: "(job_row \<Rightarrow> bool) \<Rightarrow> (job_row \<Rightarrow> job_row) \<Rightarrow> (job_row \<Rightarrow> job_row) \<Rightarrow> job_row \<Rightarrow> job_row"
where
  "end_row hit f g j = (if \<not> hit j then j else if j_status j = Cancelling then f j else g j)"

definition ends_as :: "job_status \<Rightarrow> job_row \<Rightarrow> job_row \<Rightarrow> bool" where
  "ends_as st j k \<longleftrightarrow> same_identity j k \<and> j_run_generation k = j_run_generation j
     \<and> j_lease_id k = j_lease_id j \<and> j_status k = st
     \<and> (j_cancel_requested k \<longleftrightarrow> st = CancelUnknown)"

lemma end_row_hit:
  assumes "hit j" "active_status (j_status j)"
    and "j_status j = Cancelling \<Longrightarrow> ends_as CancelUnknown j (f j)"
    and "j_status j \<in> {Dispatching, Running} \<Longrightarrow> ends_as Interrupted j (g j)"
  shows "job_le j (end_row hit f g j)" "job_row_ok (end_row hit f g j)"
    "terminal_status (j_status (end_row hit f g j))" "\<not> result_status (j_status (end_row hit f g j))"
    "j_run_generation (end_row hit f g j) = j_run_generation j"
    "j_lease_id (end_row hit f g j) = j_lease_id j"
proof -
  let ?k = "end_row hit f g j"
  have "\<exists>st. ends_as st j ?k \<and> status_step (j_status j) st \<and> st \<in> {CancelUnknown, Interrupted}"
  proof (cases "j_status j = Cancelling")
    case True
    with assms(1,3) cancel_lost show ?thesis by (auto simp: end_row_def)
  next
    case False
    with assms(2) have "j_status j \<in> {Dispatching, Running}" by (cases "j_status j") simp_all
    with assms(1,4) False finish [of "j_status j" Interrupted] show ?thesis
      by (auto simp: end_row_def)
  qed
  then obtain st where st: "ends_as st j ?k" "status_step (j_status j) st"
    "st \<in> {CancelUnknown, Interrupted}" by blast
  show "job_le j ?k" using st(1,2) by (intro job_leI) (simp_all add: ends_as_def)
  show "job_row_ok ?k" "terminal_status (j_status ?k)" "\<not> result_status (j_status ?k)"
    "j_run_generation ?k = j_run_generation j" "j_lease_id ?k = j_lease_id j"
    using st(1,3) by (auto simp: ends_as_def job_row_ok_def result_status_def)
qed

lemma two_updates:
  assumes "\<And>j. j \<in> set js0 \<Longrightarrow> C j \<Longrightarrow> hit j \<and> j_status j = Cancelling \<and> \<not> I (f j)"
    and "\<And>j. j \<in> set js0 \<Longrightarrow> I j \<Longrightarrow> hit j \<and> j_status j \<noteq> Cancelling"
    and "\<And>j. j \<in> set js0 \<Longrightarrow> hit j \<Longrightarrow> C j \<or> I j"
  shows "sql_update I g (sql_update C f js0) = map (end_row hit f g) js0"
  unfolding sql_update_def map_map end_row_def
proof (rule map_cong [OF refl])
  fix j assume j: "j \<in> set js0"
  show "((\<lambda>r. if I r then g r else r) \<circ> (\<lambda>r. if C r then f r else r)) j
      = (if \<not> hit j then j else if j_status j = Cancelling then f j else g j)"
  proof (cases "C j")
    case True
    with assms(1) [OF j] show ?thesis by simp
  next
    case False
    with assms(2,3) [OF j] have "I j = hit j" "hit j \<longrightarrow> j_status j \<noteq> Cancelling" by blast+
    with False show ?thesis by simp
  qed
qed

text \<open>The tables after the two updates (\<open>dbx\<close>) and after the loop that appends the events
  (\<open>db'\<close>).\<close>

lemma ended_wf:
  fixes a :: "'x \<Rightarrow> job_row"
  assumes wf: "store_wf db" and jx: "jobs dbx = map (end_row hit f g) (jobs db)"
    and same: "attempt_events dbx = attempt_events db" "outbox dbx = outbox db"
      "delivery_attempts dbx = delivery_attempts db"
    and loop: "eachR (\<lambda>x. appendExecutionAttemptEventLocked cfg (jobId x) (gx x) (t x) (opr x) (why x) now)
        xs dbx = Inr db'"
    and xs: "a ` set xs = {j \<in> set (jobs db). hit j}" "distinct (map (\<lambda>x. job_key (a x)) xs)"
    and cfg: "\<And>x. x \<in> set xs \<Longrightarrow> j_scope_key (a x) = scopeKey cfg \<and> jobId x = j_job_id (a x)"
    and hit: "\<And>j. j \<in> set (jobs db) \<Longrightarrow> hit j \<Longrightarrow> active_status (j_status j)"
    and t: "\<And>x. x \<in> set xs \<Longrightarrow> closing (t x)"
    and f: "\<And>j. j \<in> set (jobs db) \<Longrightarrow> hit j \<Longrightarrow> j_status j = Cancelling \<Longrightarrow> ends_as CancelUnknown j (f j)"
    and g: "\<And>j. j \<in> set (jobs db) \<Longrightarrow> hit j \<Longrightarrow> j_status j \<in> {Dispatching, Running} \<Longrightarrow> ends_as Interrupted j (g j)"
  obtains es where "db' = dbx\<lparr>attempt_events := attempt_events db @ es\<rparr>"
    "jobs_wf db'" "ledger_wf db'" "outbox_wf db'" "store_le db db'"
    "\<And>j. j \<in> set (jobs db) \<Longrightarrow> \<not> hit j \<Longrightarrow> end_row hit f g j = j \<and> job_part es j = []"
    "list_all2 (\<lambda>x e. appended (end_row hit f g (a x)) (t x) e dbx
        (dbx\<lparr>attempt_events := attempt_events dbx @ [e]\<rparr>)) xs es"
proof -
  let ?u = "end_row hit f g"
  have w: "jobs_wf db" "ledger_wf db" "outbox_wf db" using wf by (auto simp: store_wf_def)
  have d: "distinct (map job_key (jobs db))" using w(1) by (simp add: jobs_wf_def)
  have out: "?u j = j" if "\<not> hit j" for j using that by (simp add: end_row_def)
  have h: "job_le j (?u j)" "job_row_ok (?u j)" "\<not> active_status (j_status (?u j))"
    "\<not> result_status (j_status (?u j))" "j_run_generation (?u j) = j_run_generation j"
    if "j \<in> set (jobs db)" "hit j" for j
    using end_row_hit [of hit j f g, OF that(2) hit [OF that] f [OF that] g [OF that]]
    by (auto simp: status_partition)
  have le: "job_le j (?u j)" "job_row_ok (?u j)" if "j \<in> set (jobs db)" for j
    using h(1,2) [OF that] out [of j] store_wf_row [OF wf that] by (cases "hit j"; simp)+
  have key: "job_key (?u j) = job_key j" if "j \<in> set (jobs db)" for j
    using le(1) [OF that] by (simp add: job_le_def same_identity_def)
  have ax: "a x \<in> set (jobs db) \<and> hit (a x)" if "x \<in> set xs" for x
    using xs(1) that by blast
  have keyx: "map (\<lambda>x. job_key (?u (a x))) xs = map (\<lambda>x. job_key (a x)) xs"
    using ax key by simp
  have dx: "distinct (map job_key (jobs dbx))"
  proof -
    have "map job_key (jobs dbx) = map job_key (jobs db)" unfolding jx using key by simp
    with d show ?thesis by (simp only:)
  qed
  have found: "find_job (scopeKey cfg) (jobId x) dbx = Some (?u (a x))" if "x \<in> set xs" for x
    using find_job_map [OF d jx key, of "a x"] ax [OF that] cfg [OF that] by simp
  have loop': "eachR (\<lambda>x. appendExecutionAttemptEventLocked cfg (jobId x) (gx x) (t x) (opr x) (why x) now)
      xs (dbx\<lparr>attempt_events := attempt_events dbx @ []\<rparr>) = Inr db'" using loop by simp
  from eachR_events [OF loop' dx _ found] keyx xs(2) obtain es where
    es: "db' = dbx\<lparr>attempt_events := attempt_events dbx @ [] @ es\<rparr>"
    "list_all2 (\<lambda>x e. appended (?u (a x)) (t x) e dbx (dbx\<lparr>attempt_events := attempt_events dbx @ [e]\<rparr>)) xs es"
    by auto
  have jobs': "jobs db' = map ?u (jobs db)" and ev': "attempt_events db' = attempt_events db @ es"
    using es(1) jx same by simp_all
  have rest: "j \<notin> a ` set xs \<longleftrightarrow> \<not> hit j" if "j \<in> set (jobs db)" for j
    using xs(1) that by auto
  have p: "a x \<in> set (jobs db)" "active_status (j_status (a x)) \<and> closing (t x)"
    "\<not> active_status (j_status (?u (a x))) \<and> j_run_generation (?u (a x)) = j_run_generation (a x)"
    if "x \<in> set xs" for x
    using ax [OF that] h [of "a x"] hit [of "a x"] t [OF that] by simp_all
  have same_row: "?u j = j" if "j \<in> set (jobs db)" "j \<notin> a ` set xs" for j
    using that rest out by simp
  note b = bulk_wf [OF w(2,1) jobs' ev' es(2) same(1) p(1) xs(2) p(2,3) le same_row]
  have b': "jobs_wf db'" "ledger_wf db'" by (rule b(1,2); assumption)+
  have part: "job_part es j = []" if "j \<in> set (jobs db)" "j \<notin> a ` set xs" for j
    by (rule b(3); (assumption | rule that))
  have ow: "outbox_wf db'"
  proof (rule outbox_wf_map [OF w(3) jobs'])
    show "result_status (j_status (?u j)) = result_status (j_status j)" if "j \<in> set (jobs db)" for j
      using h(4) [OF that] hit [OF that] active_statusD out [of j] by (cases "hit j") auto
  qed (use key es(1) same in simp_all)
  have sl: "store_le db db'"
    by (rule store_le_map [OF jobs' ev', of id "[]"]) (use le es(1) same in simp_all)
  have quiet: "end_row hit f g j = j \<and> job_part es j = []" if "j \<in> set (jobs db)" "\<not> hit j" for j
    using part [OF that(1)] rest [OF that(1)] that(2) out by blast
  have "db' = dbx\<lparr>attempt_events := attempt_events db @ es\<rparr>" using es(1) same(1) by simp
  from this b'(1,2) ow sl quiet es(2) show thesis by (rule that)
qed

lemma markConnectorDisconnected_good:
  assumes wf: "store_wf db"
  shows "good db (snd (markConnectorDisconnected cfg now connectorId db))"
  unfolding markConnectorDisconnected_def Let_def
proof (rule good_transaction [OF wf], goal_cases)
  case (1 a db')
  let ?mine = "\<lambda>j. j_scope_key j = scopeKey cfg \<and> j_connector_id j = Some connectorId
      \<and> j_target_backend j = Hermes"
  let ?hit = "\<lambda>j. ?mine j \<and> active_status (j_status j)"
  let ?f = "\<lambda>j. j\<lparr>j_status := CancelUnknown, j_error := coalesce (j_error j)
      (Some (js ''connector disconnected during cancellation'')), j_completed_at := Some now, j_updated_at := now\<rparr>"
  let ?g = "\<lambda>j. j\<lparr>j_status := Interrupted, j_error := coalesce (j_error j) (Some (js ''connector disconnected'')),
      j_completed_at := Some now, j_updated_at := now\<rparr>"
  let ?db1 = "quarantine_jobs ?hit (js ''connector disconnected during active execution'') now db"
  let ?db3 = "update_jobs (\<lambda>j. ?mine j \<and> j_status j \<in> {Dispatching, Running}) ?g
      (update_jobs (\<lambda>j. ?mine j \<and> j_status j = Cancelling) ?f ?db1)"
  let ?t = "\<lambda>a. if j_status a = Cancelling then EvCancelUnknown else EvInterrupted"
  from 1 have loop: "eachR (\<lambda>a. appendExecutionAttemptEventLocked cfg (j_job_id a) (j_run_generation a)
        (?t a) (Some None) (Some (if j_status a = Cancelling
           then js ''connector disconnected during cancellation'' else js ''connector disconnected'')) now)
      (filter ?hit (jobs db)) ?db3 = Inr db'"
    by (auto simp: bindR_Inr_iff split: if_splits)
  have w: "jobs_wf db" "sessions_wf db" "small_wf db" using wf by (auto simp: store_wf_def)
  have jobs3: "jobs ?db3 = map (end_row ?hit ?f ?g) (jobs db)"
    unfolding update_jobs_frame quarantine_jobs_frame
    by (rule two_updates) (auto elim: active_status.elims)
  obtain es where es: "db' = ?db3\<lparr>attempt_events := attempt_events db @ es\<rparr>"
    "jobs_wf db'" "ledger_wf db'" "outbox_wf db'" "store_le db db'"
    "\<And>j. j \<in> set (jobs db) \<Longrightarrow> \<not> ?hit j \<Longrightarrow> end_row ?hit ?f ?g j = j \<and> job_part es j = []"
  proof (rule ended_wf [OF wf jobs3 _ _ _ loop, where a = "\<lambda>j. j"], goal_cases)
    case 5
    then show ?case using w(1) by (simp add: jobs_wf_def distinct_map_filter)
  qed (use store_wf_row [OF wf] in \<open>auto simp: closing_def ends_as_def same_identity_def job_row_ok_def\<close>)
  have ev': "attempt_events db' = attempt_events db @ es" by (simp add: es(1))
  have jobs': "jobs db' = map (end_row ?hit ?f ?g) (jobs db)" using jobs3 by (simp add: es(1))
  have "sessions_wf db'"
  proof (rule sessions_wf_calm [OF w(2) jobs' _ ev'])
    show "j_target_backend (end_row ?hit ?f ?g j) = j_target_backend j" for j
      by (simp add: end_row_def)
  qed (use es(6) in \<open>auto simp: es(1)\<close>)
  moreover have "small_wf db'"
    by (rule small_wf_same [of ?db1]) (simp_all add: es(1) small_wf_quarantine w(3))
  ultimately show ?case using es(2-5) by (simp add: good_def store_wf_def)
qed

section \<open>Restart\<close>

lemma consumeAll_good:
  assumes wf: "store_wf db"
  shows "good db (consumeAllMatchedPendingCancelsLocked cfg now db)"
proof -
  let ?P = "\<lambda>j. j_scope_key j = scopeKey cfg \<and> cancellable (j_status j)
      \<and> has_pending db (j_scope_key j) (j_job_id j)"
  let ?db1 = "update_jobs ?P (cancel_row now) db"
  have g: "good db ?db1"
    by (rule update_jobs_quiet [OF wf]) (use store_wf_row [OF wf] cancel_row_quiet in blast)
  then have w: "store_wf ?db1" by (simp add: good_def)
  let ?D = "\<lambda>p. p_scope_key p = scopeKey cfg \<and> find_job (p_scope_key p) (p_job_id p) ?db1 \<noteq> None"
  have "small_wf (?db1\<lparr>pending_cancels := sql_delete ?D (pending_cancels ?db1)\<rparr>)"
    using w unfolding store_wf_def small_wf_def
    by (simp del: update_jobs_frame add: distinct_sql_delete)
      (simp add: sql_delete_def order_trans [OF length_filter_le])
  then have "good ?db1 (?db1\<lparr>pending_cancels := sql_delete ?D (pending_cancels ?db1)\<rparr>)"
    by (intro store_wf_small [OF w]) simp_all
  with g show ?thesis
    unfolding consumeAllMatchedPendingCancelsLocked_def Let_def by (rule good_trans)
qed

lemma trim_good:
  assumes "store_wf db"
  shows "good db (trimLegacyPendingCancelOverflowLocked db)"
proof -
  have "small_wf (trimLegacyPendingCancelOverflowLocked db)"
    using assms
    by (auto simp: trimLegacyPendingCancelOverflowLocked_def Let_def store_wf_def small_wf_def
        sql_delete_def distinct_map_filter intro: order_trans [OF length_filter_le])
  then show ?thesis
    by (intro store_wf_small [OF assms]) (simp_all add: trimLegacyPendingCancelOverflowLocked_def Let_def)
qed

lemma session_job_unique:
  assumes "session_link db s" "jobs_wf db" "j \<in> set (jobs db)" "session_of_attempt (s_backend s) j s"
  shows "if s_recovery_required s then terminal_status (j_status j)
     else active_status (j_status j) \<and> turn_ok db j s"
proof -
  have "s_active_job_id s \<noteq> None" using assms(4) by (simp add: session_of_attempt_def)
  with assms(1) obtain k where k: "k \<in> set (jobs db)" "session_of_attempt (s_backend s) k s"
    "if s_recovery_required s then terminal_status (j_status k)
     else active_status (j_status k) \<and> turn_ok db k s" unfolding session_link_def by blast
  have "k = j"
    using job_unique [OF assms(2) k(1) assms(3)] k(2) assms(4) by (auto simp: session_of_attempt_def)
  from k(3) [unfolded this] show ?thesis .
qed

lemma recoverAfterRestart_good:
  assumes wf0: "store_wf db0"
  shows "good db0 (snd (recoverAfterRestart cfg now db0))"
  unfolding recoverAfterRestart_def Let_def
proof (rule good_transaction [OF wf0], goal_cases)
  case (1 a db7)
  let ?mine = "\<lambda>j. j_scope_key j = scopeKey cfg"
  let ?hit = "\<lambda>j. ?mine j \<and> active_status (j_status j)"
  let ?f = "\<lambda>j. j\<lparr>j_status := CancelUnknown, j_completed_at := Some now, j_updated_at := now\<rparr>"
  let ?g = "\<lambda>j. j\<lparr>j_status := Interrupted, j_completed_at := Some now, j_updated_at := now,
      j_error := coalesce (j_error j) (Some (js ''daemon restarted while connector job was active''))\<rparr>"
  let ?db1 = "trimLegacyPendingCancelOverflowLocked (consumeAllMatchedPendingCancelsLocked cfg now
      (pruneExpiredPendingCancelsLocked now db0))"
  define db where "db = quarantine_jobs ?hit (js ''daemon restarted during active execution'') now ?db1"
  let ?M = "\<lambda>s. s_scope_key s = scopeKey cfg \<and> s_active_job_id s \<noteq> None"
  let ?t = "\<lambda>a. if j_status a = Cancelling then EvCancelUnknown else EvInterrupted"
  let ?D = "\<lambda>r. o_scope_key r = scopeKey cfg \<and> o_status r = Delivering"
  have "good db0 ?db1"
    using prune_good [OF wf0] consumeAll_good trim_good good_trans unfolding good_def by metis
  then have g0: "good db0 db" unfolding db_def by (rule good_quarantine)
  then have wf: "store_wf db" by (simp add: good_def)
  have w: "jobs_wf db" "sessions_wf db" "small_wf db" using wf by (auto simp: store_wf_def)
  have jobs1: "jobs ?db1 = jobs db" by (simp add: db_def)
  from 1 obtain db3 db6 where upd: "update_sessions ?M
        (\<lambda>s. s\<lparr>s_recovery_required := True, s_updated_at := now\<rparr>) db = Inr db3"
    and loop: "eachR (\<lambda>a. appendExecutionAttemptEventLocked cfg (j_job_id a) (j_run_generation a) (?t a) None
        (Some (if j_status a = Cancelling then js ''daemon restarted during cancellation''
          else js ''daemon restarted during active execution'')) now)
       (filter ?hit (jobs db)) (update_jobs (\<lambda>j. ?mine j \<and> j_status j \<in> {Dispatching, Running}) ?g
         (update_jobs (\<lambda>j. ?mine j \<and> j_status j = Cancelling) ?f db3)) = Inr db6"
    and db7: "db7 = update_outbox ?D (\<lambda>r. r\<lparr>o_status := Pending, o_updated_at := now\<rparr>) db6"
    unfolding jobs1 db_def [symmetric] by (auto simp: bindR_Inr_iff split: if_splits)
  let ?db5 = "update_jobs (\<lambda>j. ?mine j \<and> j_status j \<in> {Dispatching, Running}) ?g
      (update_jobs (\<lambda>j. ?mine j \<and> j_status j = Cancelling) ?f db3)"
  note s3 = upd [unfolded update_sessions_Inr]
  have db3: "jobs db3 = jobs db" "attempt_events db3 = attempt_events db" "outbox db3 = outbox db"
    "delivery_attempts db3 = delivery_attempts db" "session_quarantine db3 = session_quarantine db"
    "pending_cancels db3 = pending_cancels db" "backend_sessions db3 = sql_update ?M
       (\<lambda>s. s\<lparr>s_recovery_required := True, s_updated_at := now\<rparr>) (backend_sessions db)"
    using s3 by simp_all
  have jobs5: "jobs ?db5 = map (end_row ?hit ?f ?g) (jobs db)"
    unfolding update_jobs_frame db3(1) by (rule two_updates) (auto elim: active_status.elims)
  obtain es where es: "db6 = ?db5\<lparr>attempt_events := attempt_events db @ es\<rparr>"
    "jobs_wf db6" "ledger_wf db6" "outbox_wf db6" "store_le db db6"
    "\<And>j. j \<in> set (jobs db) \<Longrightarrow> \<not> ?hit j \<Longrightarrow> end_row ?hit ?f ?g j = j \<and> job_part es j = []"
  proof (rule ended_wf [OF wf jobs5 _ _ _ loop, where a = "\<lambda>j. j"], goal_cases)
    case 5
    then show ?case using w(1) by (simp add: jobs_wf_def distinct_map_filter)
  qed (use store_wf_row [OF wf] in \<open>auto simp: db3 closing_def ends_as_def same_identity_def job_row_ok_def\<close>)
  have jobs6: "jobs db6 = map (end_row ?hit ?f ?g) (jobs db)" using jobs5 by (simp add: es(1))
  have ev6: "attempt_events db6 = attempt_events db @ es" by (simp add: es(1))
  have ses6: "backend_sessions db6 = backend_sessions db3" by (simp add: es(1))
  have over: "terminal_status (j_status (end_row ?hit ?f ?g j)) \<and> same_identity j (end_row ?hit ?f ?g j)
      \<and> j_lease_id (end_row ?hit ?f ?g j) = j_lease_id j
      \<and> j_run_generation (end_row ?hit ?f ?g j) = j_run_generation j"
    if "active_status (j_status j) \<and> ?mine j \<or> terminal_status (j_status j)" for j
    using that by (cases "j_status j") (auto simp: end_row_def same_identity_def)
  have "sessions_wf db6"
  proof (rule sessions_wf_recover [OF w(2) jobs6 ses6 [unfolded db3(7)] _ _ ev6])
    fix j s assume j: "j \<in> set (jobs db)" "s \<in> set (backend_sessions db)" "?M s"
      "session_of_attempt (s_backend s) j s"
    have "if s_recovery_required s then terminal_status (j_status j)
        else active_status (j_status j) \<and> turn_ok db j s"
      by (rule session_job_unique [OF sessions_wfD(4) [OF w(2) j(2)] w(1) j(1,4)])
    then show "terminal_status (j_status (end_row ?hit ?f ?g j)) \<and> same_identity j (end_row ?hit ?f ?g j)
        \<and> j_lease_id (end_row ?hit ?f ?g j) = j_lease_id j
        \<and> j_run_generation (end_row ?hit ?f ?g j) = j_run_generation j"
      using j(3,4) by (intro over) (auto simp: session_of_attempt_def split: if_splits)
  next
    fix j s assume j: "j \<in> set (jobs db)" "\<not> ?M s" "session_of_attempt (s_backend s) j s"
    then have "\<not> ?hit j" by (auto simp: session_of_attempt_def)
    with es(6) j(1) show "end_row ?hit ?f ?g j = j \<and> job_part es j = []" by blast
  next
    fix j assume j: "j \<in> set (jobs db)" "active_status (j_status (end_row ?hit ?f ?g j))"
    have nhit: "\<not> ?hit j" using over [of j] j(2) active_statusD by blast
    then have "end_row ?hit ?f ?g j = j" using es(6) j(1) by blast
    moreover have "\<not> session_of_attempt (s_backend s) j s" if "?M s" for s
      using nhit j(2) that calculation by (auto simp: session_of_attempt_def)
    ultimately show "end_row ?hit ?f ?g j = j \<and>
        (\<forall>s\<in>set (backend_sessions db). ?M s \<longrightarrow> \<not> session_of_attempt (s_backend s) j s)" by blast
  qed (use s3 in \<open>simp_all add: ses6\<close>)
  moreover have "small_wf db6"
    by (rule small_wf_same [OF w(3)]) (simp_all add: es(1) db3)
  ultimately have g6: "good db db6" using es(2-5) by (simp add: good_def store_wf_def)
  then have "store_wf db6" by (simp add: good_def)
  then have "good db6 db7"
    unfolding db7 by (rule update_outbox_good) (auto simp: outbox_le_def delivery_link_def)
  with g0 g6 show ?case using good_trans by blast
qed

end
