(* ===== verification/Store_Backend_Wf.thy ===== *)
theory Store_Backend_Wf
  imports Store_Intake_Wf
begin

text \<open>
  The attempts of the durable backends keep the invariant: the job, the ledger and the session
  that carries the attempt move together.
\<close>

section \<open>A job, its session and one event\<close>

lemma active_session_unique:
  assumes "sessions_wf db" "s \<in> set (backend_sessions db)" "t \<in> set (backend_sessions db)"
    "s_scope_key s = s_scope_key t" "s_active_job_id s = Some x" "s_active_job_id t = Some x"
  shows "s = t"
proof -
  let ?ss = "filter (\<lambda>s. s_active_job_id s \<noteq> None) (backend_sessions db)"
  have "distinct (map (\<lambda>s. (s_scope_key s, s_active_job_id s)) ?ss)"
    using assms(1) by (simp add: sessions_wf_def sessions_unique_def)
  then show ?thesis
    using key_unique [of "\<lambda>s. (s_scope_key s, s_active_job_id s)" ?ss s t] assms by simp
qed

lemma sql_update_single:
  assumes "sql_count P rs = 1"
  obtains r0 where "r0 \<in> set rs" "P r0" "\<And>f. sql_update P f rs = replace r0 (f r0) rs"
proof -
  from assms obtain r0 where r0: "filter P rs = [r0]"
    unfolding sql_count_def by (cases "filter P rs") auto
  have "P r \<longleftrightarrow> r = r0" if "r \<in> set rs" for r
  proof -
    have "r \<in> set (filter P rs) \<longleftrightarrow> r = r0" unfolding r0 by simp
    with that show ?thesis by simp
  qed
  moreover have "r0 \<in> set (filter P rs)" unfolding r0 by simp
  ultimately show thesis
    using that [of r0] by (auto simp: sql_update_def replace_def)
qed

lemma update_session_single:
  assumes "update_sessions S h db = Inr db'" "sql_count S (backend_sessions db) = 1"
  obtains s0 where "s0 \<in> set (backend_sessions db)" "S s0"
    "db' = db\<lparr>backend_sessions := replace s0 (h s0) (backend_sessions db)\<rparr>"
    "list_all session_checks (replace s0 (h s0) (backend_sessions db))"
    "sessions_unique (replace s0 (h s0) (backend_sessions db))"
  using assms(1) sql_update_single [OF assms(2)] unfolding update_sessions_Inr by metis

lemma fence_session:
  assumes wf: "store_wf db" and f: "attempt_fenced db b l g T j0"
    and s0: "s0 \<in> set (backend_sessions db)" "s_scope_key s0 = j_scope_key j0"
      "s_active_job_id s0 = Some (j_job_id j0)"
  shows "session_key s0 = (j_scope_key j0, b, j_session_key j0)"
    "s_active_lease_id s0 = Some l" "s_active_run_generation s0 = Some g" "T (s_active_turn_id s0)"
proof -
  from f obtain s where s: "s \<in> set (backend_sessions db)"
    "session_key s = (j_scope_key j0, b, j_session_key j0)" "s_active_job_id s = Some (j_job_id j0)"
    "s_active_lease_id s = Some l" "s_active_run_generation s = Some g" "T (s_active_turn_id s)"
    unfolding attempt_fenced_def sql_exists_iff by blast
  have "s = s0"
    by (rule active_session_unique [OF _ s(1) s0(1) _ s(3) s0(3)])
      (use wf s(2) s0(2) in \<open>simp_all add: store_wf_def\<close>)
  with s show "session_key s0 = (j_scope_key j0, b, j_session_key j0)"
    "s_active_lease_id s0 = Some l" "s_active_run_generation s0 = Some g" "T (s_active_turn_id s0)"
    by simp_all
qed

lemma backend_event_good:
  assumes wf: "store_wf db" and j0: "j0 \<in> set (jobs db)"
    and k: "job_le j0 k" "job_row_ok k"
    and j1: "same_identity j0 j1" "j_run_generation j1 = j_run_generation k"
    and app: "appended j1 t e db1 db2" and db1: "attempt_events db1 = attempt_events db"
    and move: "opens j0 k e \<or> closes j0 k e
        \<or> (active_status (j_status j0) \<and> active_status (j_status k) \<and> j_status k \<noteq> Dispatching
            \<and> j_run_generation k = j_run_generation j0 \<and> t = EvAccepted)"
    and idle: "active_status (j_status k) \<Longrightarrow> active_status (j_status j0) \<or> \<not> session_busy db j0"
    and s0: "s0 \<in> set (backend_sessions db)"
      "session_key s0 = (j_scope_key j0, backend_name (j_target_backend j0), j_session_key j0)"
      "s_active_job_id s0 = None \<or> s_active_job_id s0 = Some (j_job_id j0)"
    and s1: "s_backend s1 = s_backend s0" "metadata_complete s0 \<Longrightarrow> metadata_complete s1"
    and idle1: "s_active_job_id s1 = None \<Longrightarrow> \<not> active_status (j_status k)"
    and busy1: "s_active_job_id s1 \<noteq> None \<Longrightarrow> session_of_attempt (s_backend s0) k s1
        \<and> (if s_recovery_required s1 then terminal_status (j_status k)
           else active_status (j_status k) \<and> turn_ok db' k s1)"
    and db': "jobs db' = replace j0 k (jobs db)" "attempt_events db' = attempt_events db2"
      "backend_sessions db' = replace s0 s1 (backend_sessions db)"
      "list_all session_checks (backend_sessions db')" "sessions_unique (backend_sessions db')"
      "outbox db' = outbox db @ new" "outbox_wf db'" "small_wf db'"
  shows "good db db'"
proof -
  from wf have w: "ledger_wf db" "jobs_wf db" "sessions_wf db" by (auto simp: store_wf_def)
  have id: "same_identity j0 k" using k(1) by (simp add: job_le_def)
  note i1 = same_identityD [OF j1(1)]
  have ev: "attempt_events db' = attempt_events db @ [e]"
    using db'(2) appendedD(1) [OF app] db1 by simp
  have step: "attempt_step db j0 k [e]"
    by (rule appended_step [OF w(1,2) j0 id _ _ _ j1(2) app db1 move]) (use i1 in simp_all)
  have own: "(e_scope_key e', e_job_id e') = job_key j0" if "e' \<in> set [e]" for e'
    using that app i1 by (simp add: appended_def)
  note m = move_wf [OF w(1,2) j0 db'(1) ev id k(2) step own idle]
  have m1: "jobs_wf db'" "ledger_wf db'" by (rule m(1,2); assumption)+
  have m3: "job_part [e] j = []" if "j \<in> set (jobs db)" "j \<noteq> j0" for j
    by (rule m(3); (assumption | rule that))
  have "sessions_wf db'"
    by (rule sessions_wf_move [OF w(3,2) _ _ db'(4,5) ev m3 j0 id s0 s1 idle1 busy1])
      (use db' in \<open>simp_all add: replace_def\<close>)
  moreover have "store_le db db'"
    by (rule store_le_replace [OF db'(1) ev db'(6) k(1)])
  ultimately show ?thesis using m1 db'(7,8) by (simp add: good_def store_wf_def)
qed

lemma backend_event_body:
  assumes wf: "jobs_wf db" and P: "\<And>j. P j \<Longrightarrow> at_job cfg jobId j"
    and f: "\<And>j. job_key (f j) = job_key j"
    and body: "(if sql_count P (jobs db) \<noteq> 1 then Inr (x, update_jobs P f db)
       else bindR (appendExecutionAttemptEventLocked cfg jobId g t op reason now (update_jobs P f db))
              rest) = Inr (a, db')"
  obtains "db' = db" "a = x"
  | j0 e db2 where "j0 \<in> set (jobs db)" "P j0"
      "jobs (update_jobs P f db) = replace j0 (f j0) (jobs db)"
      "appended (f j0) t e (update_jobs P f db) db2" "j_run_generation (f j0) = g"
      "rest db2 = Inr (a, db')"
proof (cases "sql_count P (jobs db) = 1")
  case False
  then show ?thesis using body update_no_job [OF wf P] that(1) by simp
next
  case True
  let ?db1 = "update_jobs P f db"
  from update_one_job [OF wf P True f] obtain j0 where j0: "j0 \<in> set (jobs db)" "P j0"
    "jobs ?db1 = replace j0 (f j0) (jobs db)" "find_job (scopeKey cfg) jobId ?db1 = Some (f j0)"
    by blast
  from body True obtain db2 where db2:
    "appendExecutionAttemptEventLocked cfg jobId g t op reason now ?db1 = Inr db2"
    "rest db2 = Inr (a, db')"
    by (auto simp: bindR_Inr_iff)
  have "distinct (map job_key (jobs ?db1))"
    unfolding j0(3) using wf distinct_replace [of job_key, OF f] by (simp add: jobs_wf_def)
  from append_eventE [OF db2(1) this j0(4)] obtain e where
    "appended (f j0) t e ?db1 db2" "j_run_generation (f j0) = g" by blast
  with j0 db2(2) that(2) show ?thesis by blast
qed

section \<open>Cancelling an attempt that was never sent\<close>

lemma carries_session:
  assumes wf: "store_wf db" and j0: "at_job cfg jobId j0" "attempt_fenced db b l g T' j0"
    and s0: "s0 \<in> set (backend_sessions db)" "carries_attempt cfg b jobId l g T s0"
    and b: "backend_name (j_target_backend j0) = b"
  shows "session_key s0 = (j_scope_key j0, backend_name (j_target_backend j0), j_session_key j0)"
    "s_active_job_id s0 = Some (j_job_id j0)" "s_active_lease_id s0 = Some l"
    "s_active_run_generation s0 = Some g" "T' (s_active_turn_id s0)" "\<not> s_recovery_required s0"
  using fence_session [OF wf j0(2) s0(1)] s0(2) j0(1) b by (simp_all add: carries_attempt_def)

lemma finishUnsentBackendCancellation_good:
  assumes wf: "store_wf db"
  shows "good db (snd (finishUnsentBackendCancellation cfg now jobId backend leaseId g db))"
  unfolding finishUnsentBackendCancellation_def snd_after Let_def
proof (rule good_transaction [OF wf], erule backend_event_body [rotated 3])
  show "jobs_wf db" using wf by (simp add: store_wf_def)
next
  fix j0 :: job_row and e db2 a db'
  let ?P = "\<lambda>j. at_job cfg jobId j \<and> j_status j = Cancelling
      \<and> backend_name (j_target_backend j) = backend \<and> j_cancel_requested j
      \<and> j_lease_id j = Some leaseId \<and> j_run_generation j = g
      \<and> attempt_fenced db backend leaseId g (\<lambda>t. t = None) j"
  let ?f = "\<lambda>j. j\<lparr>j_status := Cancelled, j_completed_at := Some now, j_updated_at := now\<rparr>"
  let ?S = "carries_attempt cfg backend jobId leaseId g (\<lambda>t. t = None)"
  assume *: "j0 \<in> set (jobs db)" "?P j0"
    "jobs (update_jobs ?P ?f db) = replace j0 (?f j0) (jobs db)"
    "appended (?f j0) EvCancelledNotSent e (update_jobs ?P ?f db) db2"
    "bindR (update_sessions ?S (clear_attempt now) db2) (\<lambda>db3.
       if sql_count ?S (backend_sessions db2) \<noteq> 1 then Inl InconsistentCommit
       else Inr (True, db3)) = Inr (a, db')"
  note db2 = appendedD(1) [OF *(4)]
  from *(5) have upd: "update_sessions ?S (clear_attempt now) db2 = Inr db'"
    "sql_count ?S (backend_sessions db2) = 1" by (auto simp: bindR_Inr_iff split: if_splits)
  obtain s0 where s0: "s0 \<in> set (backend_sessions db)" "?S s0"
    "db' = db2\<lparr>backend_sessions := replace s0 (clear_attempt now s0) (backend_sessions db)\<rparr>"
    "list_all session_checks (replace s0 (clear_attempt now s0) (backend_sessions db))"
    "sessions_unique (replace s0 (clear_attempt now s0) (backend_sessions db))"
    by (rule update_session_single [OF upd]) (simp add: db2)
  have fence: "at_job cfg jobId j0" "attempt_fenced db backend leaseId g (\<lambda>t. t = None) j0"
    "backend_name (j_target_backend j0) = backend" using *(2) by blast+
  note link = carries_session [OF wf fence(1,2) s0(1,2) fence(3)]
  have id: "same_identity j0 (?f j0)" by (simp add: same_identity_def)
  have jobs': "jobs db' = replace j0 (?f j0) (jobs db)" using *(3) by (simp add: s0(3) db2)
  have frame: "outbox db' = outbox db @ []" "delivery_attempts db' = delivery_attempts db"
    "attempt_events db' = attempt_events db2"
    "backend_sessions db' = replace s0 (clear_attempt now s0) (backend_sessions db)"
    by (simp_all add: s0(3) db2)
  show "good db db'"
  proof (rule backend_event_good [OF wf *(1) _ _ id refl *(4) _ _ _ s0(1) link(1) _ _ _ _ _ jobs' frame(3,4) _ _ frame(1)])
    show "job_le j0 (?f j0)" using *(2) id by (intro job_leI) (auto intro: cancelled)
    show "job_row_ok (?f j0)" using *(2) by (simp add: job_row_ok_def)
    show "outbox_wf db'"
      by (rule outbox_wf_move [OF wf jobs' _ frame(2) id])
        (use *(2) frame in \<open>auto simp: result_status_def\<close>)
    show "small_wf db'" by (rule small_wf_same [of db]) (use wf in \<open>simp_all add: s0(3) db2 store_wf_def\<close>)
    show "opens j0 (?f j0) e \<or> closes j0 (?f j0) e
        \<or> (active_status (j_status j0) \<and> active_status (j_status (?f j0)) \<and> j_status (?f j0) \<noteq> Dispatching
            \<and> j_run_generation (?f j0) = j_run_generation j0 \<and> EvCancelledNotSent = EvAccepted)"
      using *(2) appendedD(2) [OF *(4)] by (simp add: closes_def closing_def)
  qed (use link s0(4,5) in \<open>simp_all add: frame clear_attempt_def\<close>)
qed (use good_refl [OF wf] in auto)

section \<open>Claim\<close>

lemma claimForBackendDispatch_good:
  assumes wf: "store_wf db"
  shows "good db (snd (claimForBackendDispatch cfg now jobId backend connectorId leaseId db))"
  unfolding claimForBackendDispatch_def snd_after Let_def
proof (rule good_transaction [OF wf], goal_cases)
  case (1 a db')
  let ?P = "\<lambda>j. at_job cfg jobId j \<and> backend_name (j_target_backend j) = backend \<and> dispatchable db j
      \<and> sql_exists (\<lambda>s. session_key s = (j_scope_key j, backend, j_session_key j)
           \<and> s_thread_id s \<noteq> None \<and> s_state_ownership s \<noteq> None
           \<and> s_active_job_id s = None \<and> \<not> s_recovery_required s) (backend_sessions db)"
  let ?f = "claim_row now connectorId leaseId"
  let ?db1 = "update_jobs ?P ?f db"
  have w: "jobs_wf db" "sessions_wf db" using wf by (auto simp: store_wf_def)
  have d: "distinct (map job_key (jobs db))" using w(1) by (simp add: jobs_wf_def)
  show ?case
  proof (cases "sql_count ?P (jobs db) = 1")
    case False
    then show ?thesis
      using 1 update_no_job [OF w(1), of ?P cfg jobId ?f] good_refl [OF wf] by simp
  next
    case True
    obtain j0 where j0: "j0 \<in> set (jobs db)" "?P j0" "jobs ?db1 = replace j0 (?f j0) (jobs db)"
      "find_job (scopeKey cfg) jobId ?db1 = Some (?f j0)"
      by (rule update_one_job [OF w(1) _ True, where f = ?f]) (auto simp: claim_row_def)
    let ?k = "?f j0"
    have st: "waiting_status (j_status j0)" "\<not> j_cancel_requested j0" "\<not> session_busy db j0"
      using j0(2) by (auto simp: dispatchable_def)
    have id: "same_identity j0 ?k" by (simp add: claim_row_def same_identity_def)
    let ?found = "find (\<lambda>j. at_job cfg jobId j \<and> j_lease_id j = Some leaseId \<and> j_status j = Dispatching)
        (jobs ?db1)"
    let ?R = "\<lambda>x s. at_session cfg backend (j_session_key x) s \<and> s_thread_id s \<noteq> None
        \<and> s_active_job_id s = None \<and> \<not> s_recovery_required s"
    let ?h = "\<lambda>x s. s\<lparr>s_active_job_id := Some jobId, s_active_lease_id := Some leaseId,
        s_active_run_generation := Some (j_run_generation x), s_updated_at := now\<rparr>"
    from 1 True obtain x where found: "?found = Some x" by (auto split: option.splits)
    have d1: "distinct (map job_key (jobs ?db1))"
      unfolding j0(3) using d distinct_replace [of job_key ?k j0] id by (simp add: same_identity_def)
    have "x \<in> set (jobs ?db1)" "at_job cfg jobId x" using find_Some_in [OF found] by auto
    moreover have "?k \<in> set (jobs ?db1)" "at_job cfg jobId ?k"
      using find_Some_in [OF j0(4) [unfolded find_job_def]] by auto
    ultimately have x: "x = ?k" using key_unique [OF d1, of x ?k] by simp
    from 1 True found x obtain db2 where db2: "update_sessions (?R ?k) (?h ?k) ?db1 = Inr db2"
      "sql_count (?R ?k) (backend_sessions ?db1) = 1"
      "appendExecutionAttemptEventLocked cfg jobId (j_run_generation ?k) EvReserved (Some None) None now db2
        = Inr db'"
      by (auto simp: bindR_Inr_iff split: if_splits)
    obtain s0 where s0: "s0 \<in> set (backend_sessions db)" "?R ?k s0"
      "db2 = ?db1\<lparr>backend_sessions := replace s0 (?h ?k s0) (backend_sessions db)\<rparr>"
      "list_all session_checks (replace s0 (?h ?k s0) (backend_sessions db))"
      "sessions_unique (replace s0 (?h ?k s0) (backend_sessions db))"
      by (rule update_session_single [OF db2(1,2)]) simp
    have jobs2: "jobs db2 = jobs ?db1" by (simp add: s0(3))
    have find2: "find_job (scopeKey cfg) jobId db2 = Some ?k"
      using j0(4) by (simp add: find_job_def jobs2)
    obtain e where e: "appended ?k EvReserved e db2 db'"
      by (rule append_eventE [OF db2(3) _ find2]) (simp only: jobs2 d1)
    note db' = appendedD(1) [OF e]
    have key: "session_key s0 = (j_scope_key j0, backend_name (j_target_backend j0), j_session_key j0)"
      using s0(2) j0(2) by (simp add: claim_row_def)
    have turn: "s_active_turn_id s0 = None"
      using sessions_wfD(1) [OF w(2) s0(1)] s0(2) by (auto simp: session_checks_def)
    have frame: "jobs db' = replace j0 ?k (jobs db)" "outbox db' = outbox db @ []"
      "delivery_attempts db' = delivery_attempts db" "attempt_events db2 = attempt_events db"
      "backend_sessions db' = replace s0 (?h ?k s0) (backend_sessions db)"
      using j0(3) by (simp_all add: db' s0(3))
    have "job_log db' ?k (j_run_generation ?k) = [e]"
    proof -
      have "job_log db j0 (Suc (j_run_generation j0)) = []"
        by (rule job_log_beyond) (use wf j0(1) in \<open>auto simp: store_wf_def\<close>)
      then show ?thesis
        using e by (simp add: db' s0(3) job_log_def attempt_log_def claim_row_def appended_def
            same_attempt_def)
    qed
    then have turn_ok: "turn_ok db' ?k (?h ?k s0)"
      using appendedD(2) [OF e] turn by (simp add: turn_ok_def claim_row_def)
    show ?thesis
    proof (rule backend_event_good [OF wf j0(1) _ _ id refl e frame(4) _ _ s0(1) key _ _ _ _ _ frame(1) refl frame(5) _ _ frame(2)])
      show "job_le j0 ?k" using st id by (intro job_leI) (auto simp: claim_row_def intro: reserve)
      show "job_row_ok ?k"
        using appendedD(3-6) [OF e] st by (simp add: claim_row_def job_row_ok_def)
      show "outbox_wf db'"
        by (rule outbox_wf_move [OF wf frame(1) _ frame(3) id])
          (use st waiting_statusD frame in \<open>auto simp: result_status_def claim_row_def\<close>)
      show "small_wf db'"
        by (rule small_wf_same [of db]) (use wf in \<open>simp_all add: db' s0(3) store_wf_def\<close>)
      show "opens j0 ?k e \<or> closes j0 ?k e
        \<or> (active_status (j_status j0) \<and> active_status (j_status ?k) \<and> j_status ?k \<noteq> Dispatching
            \<and> j_run_generation ?k = j_run_generation j0 \<and> EvReserved = EvAccepted)"
        using waiting_statusD [OF st(1)] appendedD(2) [OF e] by (simp add: opens_def claim_row_def)
      show "session_of_attempt (s_backend s0) ?k (?h ?k s0)
        \<and> (if s_recovery_required (?h ?k s0) then terminal_status (j_status ?k)
           else active_status (j_status ?k) \<and> turn_ok db' ?k (?h ?k s0))"
        using turn_ok key s0(2) j0(2) by (simp add: session_of_attempt_def claim_row_def)
    qed (use st s0(2,4,5) in \<open>simp_all add: frame\<close>)
  qed
qed

section \<open>Proven not sent\<close>

lemma update_replaced:
  assumes wf: "jobs_wf db" and j0: "j0 \<in> set (jobs db)" "at_job cfg jobId j0"
    and k: "Q k" and Q: "\<And>j. Q j \<Longrightarrow> at_job cfg jobId j"
  shows "sql_update Q h (replace j0 k (jobs db)) = replace j0 (h k) (jobs db)"
  unfolding sql_update_def replace_def map_map
proof (rule map_cong [OF refl])
  fix j assume j: "j \<in> set (jobs db)"
  have "\<not> Q j" if "j \<noteq> j0"
    using at_job_unique [OF wf j j0(1) _ j0(2)] Q that by blast
  with k show "((\<lambda>r. if Q r then h r else r) \<circ> (\<lambda>r. if r = j0 then k else r)) j
      = (if j = j0 then h k else j)"
    by (cases "j = j0") simp_all
qed

lemma resetUnsentBackendDispatch_good:
  assumes wf: "store_wf db"
  shows "good db (snd (resetUnsentBackendDispatch cfg now jobId backend leaseId g db))"
  unfolding resetUnsentBackendDispatch_def Let_def
proof (rule good_transaction [OF wf], erule backend_event_body [rotated 3])
  show "jobs_wf db" using wf by (simp add: store_wf_def)
next
  fix j0 :: job_row and e db2 a db'
  let ?P = "\<lambda>j. at_job cfg jobId j \<and> j_status j = Dispatching
      \<and> backend_name (j_target_backend j) = backend \<and> j_lease_id j = Some leaseId
      \<and> j_run_generation j = g \<and> attempt_fenced db backend leaseId g (\<lambda>t. t = None) j"
  let ?f = "\<lambda>j. j\<lparr>j_status := Acked, j_updated_at := now\<rparr>"
  let ?Q = "\<lambda>j. at_job cfg jobId j \<and> j_status j = Acked
      \<and> backend_name (j_target_backend j) = backend
      \<and> j_lease_id j = Some leaseId \<and> j_run_generation j = g"
  let ?h = "\<lambda>j. j\<lparr>j_connector_id := None, j_lease_id := None\<rparr>"
  let ?S = "carries_attempt cfg backend jobId leaseId g (\<lambda>t. t = None)"
  assume *: "j0 \<in> set (jobs db)" "?P j0"
    "jobs (update_jobs ?P ?f db) = replace j0 (?f j0) (jobs db)"
    "appended (?f j0) EvNotSent e (update_jobs ?P ?f db) db2"
    "(if sql_count ?Q (jobs db2) \<noteq> 1 then Inl InconsistentCommit
      else bindR (update_sessions ?S (clear_attempt now) (update_jobs ?Q ?h db2)) (\<lambda>db4.
        if sql_count ?S (backend_sessions (update_jobs ?Q ?h db2)) \<noteq> 1 then Inl InconsistentCommit
        else Inr (True, db4))) = Inr (a, db')"
  let ?db3 = "update_jobs ?Q ?h db2"
  let ?k = "?h (?f j0)"
  note db2 = appendedD(1) [OF *(4)]
  have jobs3: "jobs ?db3 = replace j0 ?k (jobs db)"
    using update_replaced [of db j0 cfg jobId ?Q "?f j0" ?h] wf *(1-3) by (simp add: db2 store_wf_def)
  from *(5) have upd: "update_sessions ?S (clear_attempt now) ?db3 = Inr db'"
    "sql_count ?S (backend_sessions ?db3) = 1" by (auto simp: bindR_Inr_iff split: if_splits)
  obtain s0 where s0: "s0 \<in> set (backend_sessions db)" "?S s0"
    "db' = ?db3\<lparr>backend_sessions := replace s0 (clear_attempt now s0) (backend_sessions db)\<rparr>"
    "list_all session_checks (replace s0 (clear_attempt now s0) (backend_sessions db))"
    "sessions_unique (replace s0 (clear_attempt now s0) (backend_sessions db))"
    by (rule update_session_single [OF upd]) (simp add: db2)
  have fence: "at_job cfg jobId j0" "attempt_fenced db backend leaseId g (\<lambda>t. t = None) j0"
    "backend_name (j_target_backend j0) = backend" using *(2) by blast+
  note link = carries_session [OF wf fence(1,2) s0(1,2) fence(3)]
  have id: "same_identity j0 ?k" "same_identity j0 (?f j0)" by (simp_all add: same_identity_def)
  have frame: "outbox db' = outbox db @ []" "delivery_attempts db' = delivery_attempts db"
    "attempt_events db' = attempt_events db2" "jobs db' = replace j0 ?k (jobs db)"
    "backend_sessions db' = replace s0 (clear_attempt now s0) (backend_sessions db)"
    "session_quarantine db' = session_quarantine db" "pending_cancels db' = pending_cancels db"
    using jobs3 by (simp_all add: s0(3) db2)
  show "good db db'"
  proof (rule backend_event_good [OF wf *(1) _ _ id(2) _ *(4) _ _ _ s0(1) link(1) _ _ _ _ _ frame(4,3,5) _ _ frame(1)])
    show "job_le j0 ?k" using *(2) id by (intro job_leI) (auto intro: not_sent)
    show "job_row_ok ?k" using store_wf_row [OF wf *(1)] *(2) by (simp add: job_row_ok_def)
    show "outbox_wf db'"
      by (rule outbox_wf_move [OF wf frame(4) _ frame(2) id(1)])
        (use *(2) frame in \<open>auto simp: result_status_def\<close>)
    show "small_wf db'" by (rule small_wf_same [of db]) (use wf frame in \<open>simp_all add: store_wf_def\<close>)
    show "opens j0 ?k e \<or> closes j0 ?k e
        \<or> (active_status (j_status j0) \<and> active_status (j_status ?k) \<and> j_status ?k \<noteq> Dispatching
            \<and> j_run_generation ?k = j_run_generation j0 \<and> EvNotSent = EvAccepted)"
      using *(2) appendedD(2) [OF *(4)] by (simp add: closes_def closing_def)
  qed (use link s0(4,5) in \<open>simp_all add: frame clear_attempt_def\<close>)
qed (use good_refl [OF wf] in auto)

section \<open>Recovery verdicts\<close>

lemma markBackendRecoveryTerminal_good:
  assumes wf: "store_wf db" and st: "status = CancelUnknown \<or> status = Interrupted"
  shows "good db (snd (markBackendRecoveryTerminal cfg now jobId backend leaseId g turnId status reason db))"
  unfolding markBackendRecoveryTerminal_def snd_after Let_def
proof (rule good_transaction [OF wf], erule backend_event_body [rotated 3])
  show "jobs_wf db" using wf by (simp add: store_wf_def)
next
  fix j0 :: job_row and e db2 a db'
  let ?P = "\<lambda>j. at_job cfg jobId j
      \<and> (if status = CancelUnknown then j_status j = Cancelling else j_status j \<in> {Dispatching, Running})
      \<and> backend_name (j_target_backend j) = backend \<and> j_lease_id j = Some leaseId
      \<and> j_run_generation j = g \<and> attempt_fenced db backend leaseId g (turn_compatible turnId) j"
  let ?f = "\<lambda>j. j\<lparr>j_status := status, j_cancel_requested := (status = CancelUnknown \<or> j_cancel_requested j),
      j_error := coalesce (j_error j) (Some reason), j_completed_at := Some now, j_updated_at := now\<rparr>"
  let ?S = "carries_attempt cfg backend jobId leaseId g (turn_compatible turnId)"
  let ?h = "\<lambda>s. s\<lparr>s_active_turn_id := coalesce (s_active_turn_id s) turnId,
      s_recovery_required := True, s_updated_at := now\<rparr>"
  assume *: "j0 \<in> set (jobs db)" "?P j0"
    "jobs (update_jobs ?P ?f db) = replace j0 (?f j0) (jobs db)"
    "appended (?f j0) (recovery_event status) e (update_jobs ?P ?f db) db2"
    "bindR (update_sessions ?S ?h (quarantine_jobs (at_job cfg jobId) reason now db2)) (\<lambda>db4.
       if sql_count ?S (backend_sessions (quarantine_jobs (at_job cfg jobId) reason now db2)) \<noteq> 1
       then Inl InconsistentCommit else Inr (True, db4)) = Inr (a, db')"
    "j_run_generation (?f j0) = g"
  let ?db3 = "quarantine_jobs (at_job cfg jobId) reason now db2"
  let ?k = "?f j0"
  note db2 = appendedD(1) [OF *(4)]
  from *(5) have upd: "update_sessions ?S ?h ?db3 = Inr db'" "sql_count ?S (backend_sessions ?db3) = 1"
    by (auto simp: bindR_Inr_iff split: if_splits)
  obtain s0 where s0: "s0 \<in> set (backend_sessions db)" "?S s0"
    "db' = ?db3\<lparr>backend_sessions := replace s0 (?h s0) (backend_sessions db)\<rparr>"
    "list_all session_checks (replace s0 (?h s0) (backend_sessions db))"
    "sessions_unique (replace s0 (?h s0) (backend_sessions db))"
    by (rule update_session_single [OF upd]) (simp add: db2)
  have fence: "at_job cfg jobId j0" "attempt_fenced db backend leaseId g (turn_compatible turnId) j0"
    "backend_name (j_target_backend j0) = backend" using *(2) by blast+
  note link = carries_session [OF wf fence(1,2) s0(1,2) fence(3)]
  have id: "same_identity j0 ?k" by (simp add: same_identity_def)
  have frame: "outbox db' = outbox db @ []" "delivery_attempts db' = delivery_attempts db"
    "attempt_events db' = attempt_events db2" "jobs db' = replace j0 ?k (jobs db)"
    "backend_sessions db' = replace s0 (?h s0) (backend_sessions db)"
    using *(3) by (simp_all add: s0(3) db2)
  have "small_wf db2" by (rule small_wf_same [of db]) (use wf in \<open>simp_all add: db2 store_wf_def\<close>)
  then have small3: "small_wf ?db3" by (rule small_wf_quarantine)
  have act: "active_status (j_status j0)" using *(2) by (auto split: if_splits)
  have lease: "j_lease_id j0 = Some leaseId" using *(2) by blast
  have ends: "status_step (j_status j0) status"
    using *(2) st by (auto intro: cancel_lost finish split: if_splits)
  have ev: "closing (recovery_event status)" using st by (auto simp: closing_def)
  show "good db db'"
  proof (rule backend_event_good [OF wf *(1) _ _ id refl *(4) _ _ _ s0(1) link(1) _ _ _ _ _ frame(4,3,5) _ _ frame(1)])
    show "job_le j0 ?k" using ends id by (intro job_leI) simp_all
    show "job_row_ok ?k"
      using store_wf_row [OF wf *(1)] *(2) st by (auto simp: job_row_ok_def split: if_splits)
    show "outbox_wf db'"
      by (rule outbox_wf_move [OF wf frame(4) _ frame(2) id])
        (use active_statusD [OF act] st frame in \<open>auto simp: result_status_def\<close>)
    show "small_wf db'" by (rule small_wf_same [OF small3]) (simp_all add: s0(3))
    show "opens j0 ?k e \<or> closes j0 ?k e
        \<or> (active_status (j_status j0) \<and> active_status (j_status ?k) \<and> j_status ?k \<noteq> Dispatching
            \<and> j_run_generation ?k = j_run_generation j0 \<and> recovery_event status = EvAccepted)"
      using act ev st appendedD(2) [OF *(4)] by (auto simp: closes_def)
    show "session_of_attempt (s_backend s0) ?k (?h s0)
        \<and> (if s_recovery_required (?h s0) then terminal_status (j_status ?k)
           else active_status (j_status ?k) \<and> turn_ok db' ?k (?h s0))"
      using link st lease *(6) by (auto simp: session_of_attempt_def)
  qed (use link s0(4,5) st in \<open>auto simp: frame db2\<close>)
qed (use good_refl [OF wf] in auto)

section \<open>Acceptance\<close>

lemma distinct_sessions: "sessions_wf db \<Longrightarrow> distinct (backend_sessions db)"
  by (simp add: sessions_wf_def sessions_unique_def distinct_map)

text \<open>At most one session carries an attempt, so an UPDATE of it changes one row or none.\<close>

lemma carried_at_most_one:
  assumes wf: "sessions_wf db" and C: "\<And>s. C s \<Longrightarrow> s_scope_key s = sc \<and> s_active_job_id s = Some x"
    and c: "sql_count C (backend_sessions db) \<noteq> 1"
  shows "sql_update C h (backend_sessions db) = backend_sessions db"
proof (rule sql_update_none)
  fix s assume s: "s \<in> set (backend_sessions db)"
  show "\<not> C s"
  proof
    assume "C s"
    have "C r = (r = s)" if "r \<in> set (backend_sessions db)" for r
      using active_session_unique [OF wf that s] C \<open>C s\<close> by auto
    then have "filter C (backend_sessions db) = filter (\<lambda>r. r = s) (backend_sessions db)"
      by (intro filter_cong) simp_all
    moreover have "sql_count (\<lambda>r. r = s) (backend_sessions db) = 1"
      using sql_count_1_iff [of id "backend_sessions db" "\<lambda>r. r = s" s] distinct_sessions [OF wf] s
      by simp
    ultimately show False using c by (simp add: sql_count_def)
  qed
qed

text \<open>Both ways to accept: the job was Dispatching and becomes Running, or it is Cancelling and
  stays so. \<open>db2\<close> is the database with the turn bound.\<close>

lemma accept_good:
  assumes wf: "store_wf db" and j0: "j0 \<in> set (jobs db)" "active_status (j_status j0)"
    and k: "job_le j0 k" "job_row_ok k" "active_status (j_status k)" "j_status k \<noteq> Dispatching"
      "j_run_generation k = j_run_generation j0" "j_lease_id k = Some l"
    and s0: "s0 \<in> set (backend_sessions db)"
      "session_key s0 = (j_scope_key j0, backend_name (j_target_backend j0), j_session_key j0)"
      "s_active_job_id s0 = Some (j_job_id j0)" "s_active_lease_id s0 = Some l"
      "s_active_run_generation s0 = Some (j_run_generation j0)" "\<not> s_recovery_required s0"
    and s1: "s1 = s0\<lparr>s_active_turn_id := Some turn, s_updated_at := now\<rparr>"
    and db2: "jobs db2 = replace j0 k (jobs db)" "attempt_events db2 = attempt_events db"
      "backend_sessions db2 = replace s0 s1 (backend_sessions db)"
      "list_all session_checks (backend_sessions db2)" "sessions_unique (backend_sessions db2)"
      "outbox db2 = outbox db" "delivery_attempts db2 = delivery_attempts db"
      "session_quarantine db2 = session_quarantine db" "pending_cancels db2 = pending_cancels db"
    and app: "appended k EvAccepted e db2 db'"
  shows "good db db'"
proof -
  note db' = appendedD(1) [OF app]
  have id: "same_identity j0 k" using k(1) by (simp add: job_le_def)
  note i = same_identityD [OF id]
  have jobs': "jobs db' = replace j0 k (jobs db)" using db2(1) by (simp add: db')
  have "\<not> result_status (j_status k)" "\<not> result_status (j_status j0)"
    using active_statusD k(3) j0(2) by auto
  then have ob: "outbox_wf db'"
    by (intro outbox_wf_move [OF wf jobs' _ _ id]) (simp_all add: db' db2)
  have small: "small_wf db'" by (rule small_wf_same [of db]) (use wf in \<open>simp_all add: db' db2 store_wf_def\<close>)
  show ?thesis
  proof (rule backend_event_good [OF wf j0(1) k(1,2) id refl app db2(2) _ _ s0(1,2) _ _ _ _ _ jobs' refl _ _ _ _ ob small, where new = "[]"])
    show "session_of_attempt (s_backend s0) k s1
        \<and> (if s_recovery_required s1 then terminal_status (j_status k)
           else active_status (j_status k) \<and> turn_ok db' k s1)"
      using s0 k i by (simp add: s1 session_of_attempt_def turn_ok_def)
  qed (use j0 k s0 db2 in \<open>simp_all add: s1 db'\<close>)
qed

lemma markBackendRunning_good:
  assumes wf: "store_wf db"
  shows "good db (snd (markBackendRunning cfg now jobId backend leaseId g turnId db))"
  unfolding markBackendRunning_def snd_after Let_def
proof (rule good_transaction [OF wf], goal_cases)
  case (1 a db')
  let ?P = "\<lambda>j. at_job cfg jobId j \<and> j_status j = Dispatching
      \<and> backend_name (j_target_backend j) = backend \<and> j_lease_id j = Some leaseId
      \<and> j_run_generation j = g \<and> \<not> j_cancel_requested j
      \<and> attempt_fenced db backend leaseId g (\<lambda>t. t = None) j"
  let ?f = "\<lambda>j. j\<lparr>j_status := Running, j_updated_at := now\<rparr>"
  let ?db1 = "update_jobs ?P ?f db"
  let ?h = "\<lambda>s. s\<lparr>s_active_turn_id := Some turnId, s_updated_at := now\<rparr>"
  let ?S = "carries_attempt cfg backend jobId leaseId g (\<lambda>t. t = None)"
  have w: "jobs_wf db" "sessions_wf db" using wf by (auto simp: store_wf_def)
  have d: "distinct (map job_key (jobs db))" using w(1) by (simp add: jobs_wf_def)
  show ?case
  proof (cases "sql_count ?P (jobs db) = 1")
    case True
    obtain j0 where j0: "j0 \<in> set (jobs db)" "?P j0" "jobs ?db1 = replace j0 (?f j0) (jobs db)"
      "find_job (scopeKey cfg) jobId ?db1 = Some (?f j0)"
      by (rule update_one_job [OF w(1) _ True, where f = ?f]) auto
    let ?k = "?f j0"
    from 1 True obtain db2 where db2: "update_sessions ?S ?h ?db1 = Inr db2"
      "sql_count ?S (backend_sessions ?db1) = 1"
      "appendExecutionAttemptEventLocked cfg jobId g EvAccepted (Some (Some turnId)) None now db2 = Inr db'"
      by (auto simp: bindR_Inr_iff split: if_splits)
    obtain s0 where s0: "s0 \<in> set (backend_sessions db)" "?S s0"
      "db2 = ?db1\<lparr>backend_sessions := replace s0 (?h s0) (backend_sessions db)\<rparr>"
      "list_all session_checks (replace s0 (?h s0) (backend_sessions db))"
      "sessions_unique (replace s0 (?h s0) (backend_sessions db))"
      by (rule update_session_single [OF db2(1,2)]) simp
    have fence: "at_job cfg jobId j0" "attempt_fenced db backend leaseId g (\<lambda>t. t = None) j0"
      "backend_name (j_target_backend j0) = backend" using j0(2) by blast+
    note link = carries_session [OF wf fence(1,2) s0(1,2) fence(3)]
    have d2: "distinct (map job_key (jobs db2))"
      using d distinct_replace [of job_key ?k j0] j0(3) by (simp add: s0(3))
    have find2: "find_job (scopeKey cfg) jobId db2 = Some ?k"
      using j0(4) by (simp add: find_job_def s0(3))
    obtain e where e: "appended ?k EvAccepted e db2 db'"
      by (rule append_eventE [OF db2(3) d2 find2])
    have id: "same_identity j0 ?k" by (simp add: same_identity_def)
    show ?thesis
    proof (rule accept_good [OF wf j0(1) _ _ _ _ _ _ _ s0(1) link(1,2,3) _ link(6) refl _ _ _ _ _ _ _ _ _ e])
      show "job_le j0 ?k" using j0(2) id by (intro job_leI) (auto intro: accept)
      show "job_row_ok ?k" using store_wf_row [OF wf j0(1)] j0(2) by (auto simp: job_row_ok_def)
    qed (use j0(2,3) link s0(4,5) in \<open>simp_all add: s0(3)\<close>)
  next
    case False
    then have "?db1 = db" using update_no_job [OF w(1), of ?P cfg jobId ?f] by simp
    let ?C = "\<lambda>s. ?S s \<and> sql_exists (\<lambda>j. j_scope_key j = s_scope_key s
        \<and> Some (j_job_id j) = s_active_job_id s \<and> j_status j = Cancelling
        \<and> backend_name (j_target_backend j) = backend \<and> j_lease_id j = s_active_lease_id s
        \<and> Some (j_run_generation j) = s_active_run_generation s \<and> j_cancel_requested j) (jobs db)"
    have "\<exists>db2. update_sessions ?C ?h db = Inr db2
      \<and> (sql_count ?C (backend_sessions db) = 1 \<longrightarrow> appendExecutionAttemptEventLocked cfg jobId g EvAccepted
            (Some (Some turnId)) None now db2 = Inr db')
      \<and> (sql_count ?C (backend_sessions db) \<noteq> 1 \<longrightarrow> db' = db2)"
      using 1 unfolding \<open>?db1 = db\<close> if_P [OF False] bindR_Inr_iff
      by (elim exE conjE) (auto simp: bindR_Inr_iff simp del: sql_exists_iff split: if_splits)
    then obtain db2 where upd: "update_sessions ?C ?h db = Inr db2"
      and app0: "sql_count ?C (backend_sessions db) = 1 \<Longrightarrow> appendExecutionAttemptEventLocked cfg jobId g
          EvAccepted (Some (Some turnId)) None now db2 = Inr db'"
      and rest: "sql_count ?C (backend_sessions db) \<noteq> 1 \<Longrightarrow> db' = db2" by blast
    show ?thesis
    proof (cases "sql_count ?C (backend_sessions db) = 1")
      case False
      have "sql_update ?C ?h (backend_sessions db) = backend_sessions db"
        by (rule carried_at_most_one [OF w(2) _ False, of "scopeKey cfg" jobId])
          (simp add: carries_attempt_def)
      then have "db2 = db" using upd by (simp add: update_sessions_Inr)
      with rest [OF False] show ?thesis using good_refl [OF wf] by simp
    next
      case True
      obtain s0 where s0: "s0 \<in> set (backend_sessions db)" "?C s0"
        "db2 = db\<lparr>backend_sessions := replace s0 (?h s0) (backend_sessions db)\<rparr>"
        "list_all session_checks (replace s0 (?h s0) (backend_sessions db))"
        "sessions_unique (replace s0 (?h s0) (backend_sessions db))"
        by (rule update_session_single [OF upd True])
      from s0(2) obtain j0 where j0: "j0 \<in> set (jobs db)" "j_scope_key j0 = scopeKey cfg" "j_job_id j0 = jobId"
        "j_status j0 = Cancelling" "backend_name (j_target_backend j0) = backend"
        "j_lease_id j0 = Some leaseId" "j_run_generation j0 = g" "j_cancel_requested j0"
        by (auto simp: carries_attempt_def)
      have c: "s_scope_key s0 = scopeKey cfg" "s_backend s0 = backend" "s_active_job_id s0 = Some jobId"
        "s_active_lease_id s0 = Some leaseId" "s_active_run_generation s0 = Some g" "\<not> s_recovery_required s0"
        using s0(2) by (auto simp: carries_attempt_def)
      have "session_link db s0" by (rule sessions_wfD(4) [OF w(2) s0(1)])
      with c obtain j where j: "j \<in> set (jobs db)" "session_of_attempt backend j s0"
        unfolding session_link_def by auto
      have "j = j0"
        using job_unique [OF w(1) j(1) j0(1)] j(2) c j0 by (simp add: session_of_attempt_def)
      with j(2) have key: "session_key s0 = (j_scope_key j0, backend_name (j_target_backend j0), j_session_key j0)"
        using j0(5) by (simp add: session_of_attempt_def)
      have find2: "find_job (scopeKey cfg) jobId db2 = Some j0"
        using find_key_unique [OF d j0(1)] j0(2,3) by (simp add: find_job_def s0(3))
      obtain e where e: "appended j0 EvAccepted e db2 db'"
        by (rule append_eventE [OF app0 [OF True] _ find2]) (simp add: s0(3) d)
      show ?thesis
        by (rule accept_good [OF wf j0(1) _ job_le_refl store_wf_row [OF wf j0(1)] _ _ refl j0(6) s0(1) key _ c(4) _ c(6) refl [of "?h s0"] _ _ _ _ _ _ _ _ _ e])
          (use j0 c s0(4,5) in \<open>simp_all add: s0(3) replace_def\<close>)
    qed
  qed
qed

section \<open>Results\<close>

lemma outbox_wf_same:
  "outbox_wf db \<Longrightarrow> jobs db' = jobs db \<Longrightarrow> outbox db' = outbox db \<Longrightarrow>
   delivery_attempts db' = delivery_attempts db \<Longrightarrow> outbox_wf db'"
  by (rule outbox_wf_map [where u = id]) simp_all

lemma finishBackendWithOutbox_good:
  assumes wf: "store_wf db" and st: "status = Succeeded \<or> status = Failed"
  shows "good db (snd (finishBackendWithOutbox cfg now jobId backend leaseId g turnId status
    resultJson err quarantineReason db))"
  unfolding finishBackendWithOutbox_def snd_after Let_def
proof (rule good_transaction [OF wf], erule backend_event_body [rotated 3])
  show "jobs_wf db" using wf by (simp add: store_wf_def)
next
  fix j0 :: job_row and e db2 a db'
  let ?P = "\<lambda>j. at_job cfg jobId j \<and> j_status j = Running
      \<and> backend_name (j_target_backend j) = backend \<and> j_lease_id j = Some leaseId
      \<and> j_run_generation j = g \<and> \<not> j_cancel_requested j
      \<and> attempt_fenced db backend leaseId g (\<lambda>t. t = Some turnId) j"
  let ?f = "\<lambda>j. j\<lparr>j_status := status, j_error := err, j_completed_at := Some now, j_updated_at := now\<rparr>"
  let ?S = "carries_attempt cfg backend jobId leaseId g (\<lambda>t. t = Some turnId)"
  let ?h = "\<lambda>s. (clear_attempt now s)\<lparr>s_recovery_required := False\<rparr>"
  let ?J = "\<lambda>db3 j. at_job cfg jobId j \<and> backend_name (j_target_backend j) = backend
      \<and> j_lease_id j = Some leaseId \<and> j_run_generation j = g
      \<and> attempt_fenced db3 backend leaseId g (\<lambda>t. t = Some turnId) j"
  let ?k = "?f j0"
  assume *: "j0 \<in> set (jobs db)" "?P j0"
    "jobs (update_jobs ?P ?f db) = replace j0 (?f j0) (jobs db)"
    "appended (?f j0) (finish_event status) e (update_jobs ?P ?f db) db2"
  assume "bindR (upsertOutbox cfg jobId resultJson now db2) (\<lambda>db3.
      bindR (case quarantineReason of None \<Rightarrow> Inr db3
        | Some reason \<Rightarrow> if sql_exists (\<lambda>j. at_job cfg jobId j
              \<and> quarantined (scopeKey cfg) (j_session_key j) (quarantine_jobs (?J db3) reason now db3))
              (jobs (quarantine_jobs (?J db3) reason now db3))
            then Inr (quarantine_jobs (?J db3) reason now db3) else Inl InconsistentCommit) (\<lambda>db4.
      bindR (update_sessions ?S ?h db4) (\<lambda>db5.
        if sql_count ?S (backend_sessions db4) \<noteq> 1 then Inl InconsistentCommit else Inr (True, db5))))
     = Inr (a, db')"
  then obtain db3 db4 where up: "upsertOutbox cfg jobId resultJson now db2 = Inr db3"
    and db4: "db4 = db3 \<or> (\<exists>reason. db4 = quarantine_jobs (?J db3) reason now db3)"
    and upd: "update_sessions ?S ?h db4 = Inr db'" "sql_count ?S (backend_sessions db4) = 1"
    by (auto simp: bindR_Inr_iff split: if_splits option.splits)
  note db2 = appendedD(1) [OF *(4)]
  have w: "outbox_wf db" "jobs_wf db" using wf by (auto simp: store_wf_def)
  have id: "same_identity j0 ?k" by (simp add: same_identity_def)
  have jobs2: "jobs db2 = replace j0 ?k (jobs db)" using *(3) by (simp add: db2)
  have fence: "at_job cfg jobId j0" "attempt_fenced db backend leaseId g (\<lambda>t. t = Some turnId) j0"
    "backend_name (j_target_backend j0) = backend" using *(2) by blast+
  obtain r where r: "db3 = db2\<lparr>outbox := outbox db2 @ [r]\<rparr>" "outbox_wf db3"
    by (rule outbox_wf_finish [OF w *(1) _ _ _ id jobs2 _ _ up])
      (use *(2) st in \<open>auto simp: db2 result_status_def\<close>)
  have small3: "small_wf db3"
    by (rule small_wf_same [of db]) (use wf in \<open>simp_all add: r(1) db2 store_wf_def\<close>)
  have f4: "jobs db4 = jobs db3" "outbox db4 = outbox db3" "delivery_attempts db4 = delivery_attempts db3"
    "attempt_events db4 = attempt_events db3" "backend_sessions db4 = backend_sessions db"
    "small_wf db4"
    using db4 small_wf_quarantine(1) [OF small3] small3 by (auto simp: r(1) db2)
  obtain s0 where s0: "s0 \<in> set (backend_sessions db)" "?S s0"
    "db' = db4\<lparr>backend_sessions := replace s0 (?h s0) (backend_sessions db)\<rparr>"
    "list_all session_checks (replace s0 (?h s0) (backend_sessions db))"
    "sessions_unique (replace s0 (?h s0) (backend_sessions db))"
    by (rule update_session_single [OF upd]) (simp add: f4)
  note link = carries_session [OF wf fence(1,2) s0(1,2) fence(3)]
  have frame: "outbox db' = outbox db @ [r]" "attempt_events db' = attempt_events db2"
    "jobs db' = replace j0 ?k (jobs db)"
    "backend_sessions db' = replace s0 (?h s0) (backend_sessions db)"
    using f4 jobs2 by (simp_all add: s0(3) r(1) db2)
  have ob: "outbox_wf db'" by (rule outbox_wf_same [OF r(2)]) (simp_all add: s0(3) f4)
  have small: "small_wf db'" by (rule small_wf_same [OF f4(6)]) (simp_all add: s0(3))
  show "good db db'"
  proof (rule backend_event_good [OF wf *(1) _ _ id refl *(4) _ _ _ s0(1) link(1) _ _ _ _ _ frame(3,2,4) _ _ frame(1) ob small])
    show "job_le j0 ?k" using *(2) id st by (intro job_leI) (auto intro: finish)
    show "job_row_ok ?k" using *(2) st by (auto simp: job_row_ok_def)
    show "opens j0 ?k e \<or> closes j0 ?k e
        \<or> (active_status (j_status j0) \<and> active_status (j_status ?k) \<and> j_status ?k \<noteq> Dispatching
            \<and> j_run_generation ?k = j_run_generation j0 \<and> finish_event status = EvAccepted)"
      using *(2) st appendedD(2) [OF *(4)] finish_event_closing [of status] by (auto simp: closes_def)
  qed (use link s0(4,5) st in \<open>auto simp: frame clear_attempt_def\<close>)
qed (use good_refl [OF wf] in auto)

section \<open>Disconnect of a durable backend\<close>

lemma concat_map_filter: "concat (map (\<lambda>x. if P x then [x] else []) xs) = filter P xs"
  by (induction xs) simp_all

text \<open>The join of a job with the sessions that carry its attempt has at most one row.\<close>

lemma attempt_join:
  assumes wf: "sessions_wf db"
  shows "map fst (concat (map (\<lambda>j. map (\<lambda>s. (j, s_active_turn_id s))
      (filter (\<lambda>s. session_of_attempt b j s \<and> \<not> s_recovery_required s) (backend_sessions db))) js0))
    = filter (\<lambda>j. \<exists>s \<in> set (backend_sessions db). session_of_attempt b j s \<and> \<not> s_recovery_required s) js0"
proof -
  let ?F = "\<lambda>j. filter (\<lambda>s. session_of_attempt b j s \<and> \<not> s_recovery_required s) (backend_sessions db)"
  let ?ex = "\<lambda>j. \<exists>s \<in> set (backend_sessions db). session_of_attempt b j s \<and> \<not> s_recovery_required s"
  have one: "map (\<lambda>s. j) (?F j) = (if ?ex j then [j] else [])" for j
  proof (cases "?F j")
    case Nil
    then have "\<not> ?ex j" unfolding filter_empty_conv by blast
    with Nil show ?thesis by simp
  next
    case (Cons s ss)
    have "s' = s" if "s' \<in> set (?F j)" for s'
    proof -
      have "s \<in> set (?F j)" unfolding Cons by simp
      with that show ?thesis
        by (intro active_session_unique [OF wf, where x = "j_job_id j"]) (auto simp: session_of_attempt_def)
    qed
    then have "set ss \<subseteq> {s}" unfolding Cons by auto
    moreover have "distinct (s # ss)"
      using distinct_filter [OF distinct_sessions [OF wf]] Cons by metis
    ultimately have "ss = []" by (cases ss) auto
    moreover have "s \<in> set (?F j)" unfolding Cons by simp
    then have "?ex j" by auto
    ultimately show ?thesis using Cons by simp
  qed
  have "map fst (concat (map (\<lambda>j. map (\<lambda>s. (j, s_active_turn_id s)) (?F j)) js0))
      = concat (map (\<lambda>j. map (\<lambda>s. j) (?F j)) js0)"
    by (simp add: map_concat comp_def)
  also have "\<dots> = filter ?ex js0" unfolding one by (rule concat_map_filter)
  finally show ?thesis .
qed

lemma markBackendDisconnected_good:
  assumes wf: "store_wf db"
  shows "good db (snd (markBackendDisconnected cfg now backend connectorId reason db))"
  unfolding markBackendDisconnected_def Let_def
proof (rule good_transaction [OF wf], goal_cases)
  case (1 a db')
  let ?mine = "\<lambda>j. j_scope_key j = scopeKey cfg \<and> j_connector_id j = Some connectorId
      \<and> backend_name (j_target_backend j) = backend"
  let ?carried = "\<lambda>d r j. sql_exists (\<lambda>s. session_of_attempt backend j s \<and> s_recovery_required s = r)
      (backend_sessions d)"
  let ?hit = "\<lambda>j. ?mine j \<and> active_status (j_status j) \<and> ?carried db False j"
  let ?f = "\<lambda>j. j\<lparr>j_status := CancelUnknown, j_cancel_requested := True,
      j_error := coalesce (j_error j) (Some reason), j_completed_at := Some now, j_updated_at := now\<rparr>"
  let ?g = "\<lambda>j. j\<lparr>j_status := Interrupted, j_error := coalesce (j_error j) (Some reason),
      j_completed_at := Some now, j_updated_at := now\<rparr>"
  let ?v = "\<lambda>s. s\<lparr>s_recovery_required := True, s_updated_at := now\<rparr>"
  let ?db1 = "quarantine_jobs ?hit reason now db"
  let ?M = "\<lambda>s. s_scope_key s = scopeKey cfg \<and> s_backend s = backend \<and> \<not> s_recovery_required s
      \<and> sql_exists (\<lambda>j. session_of_attempt backend j s \<and> ?mine j \<and> active_status (j_status j)) (jobs db)"
  let ?xs = "concat (map (\<lambda>j. map (\<lambda>s. (j, s_active_turn_id s))
      (filter (\<lambda>s. session_of_attempt backend j s \<and> \<not> s_recovery_required s) (backend_sessions db)))
      (filter (\<lambda>j. ?mine j \<and> active_status (j_status j)) (jobs db)))"
  let ?t = "\<lambda>x. if j_status (fst x) = Cancelling then EvCancelUnknown else EvInterrupted"
  let ?db4 = "\<lambda>d. update_jobs (\<lambda>j. ?mine j \<and> j_status j \<in> {Dispatching, Running} \<and> ?carried d True j) ?g
      (update_jobs (\<lambda>j. ?mine j \<and> j_status j = Cancelling \<and> ?carried d True j) ?f d)"
  have w: "jobs_wf db" "sessions_wf db" "small_wf db" using wf by (auto simp: store_wf_def)
  have d: "distinct (map job_key (jobs db))" using w(1) by (simp add: jobs_wf_def)
  from 1 obtain db2 where upd: "update_sessions ?M ?v ?db1 = Inr db2"
    and loop: "eachR (\<lambda>x. appendExecutionAttemptEventLocked cfg (j_job_id (fst x)) (j_run_generation (fst x))
        (?t x) (Some (snd x)) (Some reason) now) ?xs (?db4 db2) = Inr db'"
    by (auto simp: bindR_Inr_iff case_prod_beta' split: if_splits simp del: sql_exists_iff)
  note s2 = upd [unfolded update_sessions_Inr]
  have f2: "jobs db2 = jobs db" "attempt_events db2 = attempt_events db" "outbox db2 = outbox db"
    "delivery_attempts db2 = delivery_attempts db" "session_quarantine db2 = session_quarantine ?db1"
    "pending_cancels db2 = pending_cancels db"
    "backend_sessions db2 = sql_update ?M ?v (backend_sessions db)"
    using s2 by simp_all
  have att: "session_of_attempt b j (?v s) = session_of_attempt b j s" for b j s
    by (simp add: session_of_attempt_def)
  have carried: "?carried db2 True j = ?carried db False j"
    if j: "j \<in> set (jobs db)" "?mine j" "active_status (j_status j)" for j
  proof
    assume "?carried db2 True j"
    then obtain s' where s': "s' \<in> set (sql_update ?M ?v (backend_sessions db))"
      "session_of_attempt backend j s'" "s_recovery_required s'" by (auto simp: f2(7))
    from s'(1) show "?carried db False j"
    proof (cases rule: in_sql_updateE)
      case (1 s)
      have "s_backend s = backend" using s'(2) 1 by (simp add: session_of_attempt_def)
      with 1 s' have "terminal_status (j_status j)"
        using session_job_unique [OF sessions_wfD(4) [OF w(2) 1(1)] w(1) j(1)] by simp
      with j(3) active_statusD show ?thesis by blast
    next
      case (2 s)
      then show ?thesis using s'(2) att by auto
    qed
  next
    assume "?carried db False j"
    then obtain s where s: "s \<in> set (backend_sessions db)" "session_of_attempt backend j s"
      "\<not> s_recovery_required s" by auto
    have "s_scope_key s = scopeKey cfg" "s_backend s = backend"
      using s(2) j(2) by (auto simp: session_of_attempt_def)
    with s j have "?M s" unfolding sql_exists_iff by blast
    with s(1) have "?v s \<in> set (backend_sessions db2)" unfolding f2(7) set_sql_update by blast
    moreover have "session_of_attempt backend j (?v s) \<and> s_recovery_required (?v s) = True"
      using s(2) att by simp
    ultimately show "?carried db2 True j" unfolding sql_exists_iff by blast
  qed
  have jobs4: "jobs (?db4 db2) = map (end_row ?hit ?f ?g) (jobs db)"
    unfolding update_jobs_frame f2(1)
  proof (rule two_updates)
    fix j assume j: "j \<in> set (jobs db)"
    show "?hit j \<and> j_status j = Cancelling
        \<and> \<not> (?mine (?f j) \<and> j_status (?f j) \<in> {Dispatching, Running} \<and> ?carried db2 True (?f j))"
      if "?mine j \<and> j_status j = Cancelling \<and> ?carried db2 True j"
      using carried [OF j] that by auto
    show "?hit j \<and> j_status j \<noteq> Cancelling"
      if "?mine j \<and> j_status j \<in> {Dispatching, Running} \<and> ?carried db2 True j"
      using carried [OF j] that by auto
    show "?mine j \<and> j_status j = Cancelling \<and> ?carried db2 True j
        \<or> ?mine j \<and> j_status j \<in> {Dispatching, Running} \<and> ?carried db2 True j"
      if "?hit j"
      using carried [OF j] that by (auto elim: active_status.elims)
  qed
  have fst_xs: "map fst ?xs = filter ?hit (jobs db)"
    unfolding attempt_join [OF w(2)] filter_filter by (intro filter_cong) auto
  have keys_xs: "map (\<lambda>x. job_key (fst x)) ?xs = map job_key (filter ?hit (jobs db))"
    unfolding fst_xs [symmetric] map_map comp_def by (rule refl)
  have set_xs: "fst ` set ?xs = {j \<in> set (jobs db). ?hit j}"
    using arg_cong [OF fst_xs, of set] by simp
  obtain es where es: "db' = (?db4 db2)\<lparr>attempt_events := attempt_events db @ es\<rparr>"
    "jobs_wf db'" "ledger_wf db'" "outbox_wf db'" "store_le db db'"
    "\<And>j. j \<in> set (jobs db) \<Longrightarrow> \<not> ?hit j \<Longrightarrow> end_row ?hit ?f ?g j = j \<and> job_part es j = []"
  proof (rule ended_wf [OF wf jobs4 _ _ _ loop set_xs], goal_cases)
    case 4
    show ?case unfolding keys_xs using d by (simp add: distinct_map_filter)
  next
    case (5 x)
    from imageI [OF 5(2), of fst] have "fst x \<in> {j \<in> set (jobs db). ?hit j}" unfolding set_xs .
    then show ?case by simp
  qed (use store_wf_row [OF wf] in \<open>auto simp: f2 closing_def ends_as_def same_identity_def job_row_ok_def\<close>)
  have jobs': "jobs db' = map (end_row ?hit ?f ?g) (jobs db)" using jobs4 by (simp add: es(1))
  have ev': "attempt_events db' = attempt_events db @ es" by (simp add: es(1))
  have ses': "backend_sessions db' = sql_update ?M ?v (backend_sessions db)" by (simp add: es(1) f2(7))
  have over: "terminal_status (j_status (end_row ?hit ?f ?g j)) \<and> same_identity j (end_row ?hit ?f ?g j)
      \<and> j_lease_id (end_row ?hit ?f ?g j) = j_lease_id j
      \<and> j_run_generation (end_row ?hit ?f ?g j) = j_run_generation j" if "?hit j" for j
    using that by (simp add: end_row_def same_identity_def)
  have marked: "?hit j" if "j \<in> set (jobs db)" "s \<in> set (backend_sessions db)" "?M s"
    "session_of_attempt (s_backend s) j s" for j s
  proof -
    from that(3) obtain j' where j': "j' \<in> set (jobs db)" "session_of_attempt backend j' s" "?mine j'"
      "active_status (j_status j')" by auto
    have "j = j'"
      using job_unique [OF w(1) that(1) j'(1)] that(4) j'(2) by (simp add: session_of_attempt_def)
    with j' that(2,3) show ?thesis by auto
  qed
  have "sessions_wf db'"
  proof (rule sessions_wf_recover [OF w(2) jobs' ses' _ _ ev'])
    fix j s assume "j \<in> set (jobs db)" "s \<in> set (backend_sessions db)" "?M s"
      "session_of_attempt (s_backend s) j s"
    then show "terminal_status (j_status (end_row ?hit ?f ?g j)) \<and> same_identity j (end_row ?hit ?f ?g j)
        \<and> j_lease_id (end_row ?hit ?f ?g j) = j_lease_id j
        \<and> j_run_generation (end_row ?hit ?f ?g j) = j_run_generation j"
      by (intro over marked)
  next
    fix j s assume j: "j \<in> set (jobs db)" "s \<in> set (backend_sessions db)" "\<not> ?M s"
      "session_of_attempt (s_backend s) j s"
    have "\<not> ?hit j"
    proof
      assume h: "?hit j"
      then obtain s2 where s2: "s2 \<in> set (backend_sessions db)" "session_of_attempt backend j s2"
        "\<not> s_recovery_required s2" by auto
      have "s2 = s"
        by (rule active_session_unique [OF w(2) s2(1) j(2), of "j_job_id j"])
          (use s2(2) j(4) in \<open>simp_all add: session_of_attempt_def\<close>)
      with s2 have s: "session_of_attempt backend j s" "\<not> s_recovery_required s" by simp_all
      then have "s_scope_key s = scopeKey cfg" "s_backend s = backend"
        using h by (auto simp: session_of_attempt_def)
      with s h j(1) have "?M s" unfolding sql_exists_iff by blast
      with j(3) show False by blast
    qed
    then show "end_row ?hit ?f ?g j = j \<and> job_part es j = []" using es(6) j(1) by blast
  next
    fix j assume j: "j \<in> set (jobs db)" "active_status (j_status (end_row ?hit ?f ?g j))"
    then have nh: "\<not> ?hit j" using over [of j] active_statusD by blast
    then have "end_row ?hit ?f ?g j = j" using es(6) j(1) by blast
    with marked [OF j(1)] nh show "end_row ?hit ?f ?g j = j \<and>
        (\<forall>s\<in>set (backend_sessions db). ?M s \<longrightarrow> \<not> session_of_attempt (s_backend s) j s)" by blast
  qed (use s2 in \<open>simp_all add: ses'\<close>)
  moreover have "small_wf db'"
    by (rule small_wf_same [OF small_wf_quarantine(1) [OF w(3)], of _ ?hit reason now])
      (simp_all add: es(1) f2)
  ultimately show ?case using es(2-5) by (simp add: good_def store_wf_def)
qed

end
