(* ===== verification/Store_Sessions_Wf.thy ===== *)
theory Store_Sessions_Wf
  imports Store_Backend_Wf
begin

text \<open>
  The session bindings of the durable backends, their checkpoint, their release after recovery,
  and the quarantine calls keep the invariant.
\<close>

lemma session_write_good:
  assumes wf: "store_wf db"
    and same: "jobs db' = jobs db" "attempt_events db' = attempt_events db" "outbox db' = outbox db"
      "delivery_attempts db' = delivery_attempts db" and small: "small_wf db'"
    and new: "list_all session_checks (backend_sessions db')" "sessions_unique (backend_sessions db')"
    and rows: "\<And>s. s \<in> set (backend_sessions db') \<Longrightarrow>
        metadata_complete s \<and> s_backend s \<noteq> backend_name Hermes \<and> session_link db s"
    and held: "\<And>s. s \<in> set (backend_sessions db) \<Longrightarrow> s_active_job_id s \<noteq> None \<Longrightarrow>
        \<not> s_recovery_required s \<Longrightarrow> \<exists>s' \<in> set (backend_sessions db'). \<not> s_recovery_required s'
          \<and> (\<forall>b j. session_of_attempt b j s \<longrightarrow> session_of_attempt b j s')"
  shows "good db db'"
proof -
  have "job_log db' = job_log db" using same by (simp add: job_log_def attempt_log_def fun_eq_iff)
  then have eq: "attempt_ok db' = attempt_ok db" "turn_ok db' = turn_ok db"
    by (simp_all add: attempt_ok_def turn_ok_def fun_eq_iff)
  then have link: "session_link db' = session_link db"
    using same by (simp add: session_link_def fun_eq_iff)
  have "job_link db' j" if "j \<in> set (jobs db)" for j
    unfolding job_link_def
  proof
    assume "active_status (j_status j) \<and> j_target_backend j \<noteq> Hermes"
    moreover have "job_link db j" using wf that by (simp add: store_wf_def sessions_wf_def)
    ultimately obtain s where s: "s \<in> set (backend_sessions db)"
      "session_of_attempt (backend_name (j_target_backend j)) j s" "\<not> s_recovery_required s"
      unfolding job_link_def by blast
    then have "s_active_job_id s \<noteq> None" by (simp add: session_of_attempt_def)
    from held [OF s(1) this s(3)] s(2) show "\<exists>s\<in>set (backend_sessions db').
        session_of_attempt (backend_name (j_target_backend j)) j s \<and> \<not> s_recovery_required s" by blast
  qed
  then have "sessions_wf db'"
    using new rows link by (simp add: sessions_wf_def same)
  moreover have "jobs_wf db' = jobs_wf db" "ledger_wf db' = ledger_wf db"
    by (simp_all only: jobs_wf_def ledger_wf_def same eq)
  moreover have "outbox_wf db'"
    by (rule outbox_wf_same [of db]) (use wf same in \<open>simp_all add: store_wf_def\<close>)
  moreover have "store_le db db'"
    by (rule store_le_map [of db' id db "[]" id "[]"]) (simp_all add: same)
  ultimately show ?thesis using wf small by (simp add: good_def store_wf_def)
qed

lemma write_sessions_frame:
  assumes "write_sessions ss db = Inr db'"
  shows "jobs db' = jobs db" "attempt_events db' = attempt_events db" "outbox db' = outbox db"
    "delivery_attempts db' = delivery_attempts db" "session_quarantine db' = session_quarantine db"
    "pending_cancels db' = pending_cancels db" "backend_sessions db' = ss"
    "list_all session_checks ss" "sessions_unique ss"
  using assms by (simp_all add: write_sessions_Inr)

text \<open>An UPDATE that leaves the attempt columns alone.\<close>

lemma session_update_good:
  assumes wf: "store_wf db" and upd: "update_sessions P f db = Inr db'"
    and f: "\<And>s. s \<in> set (backend_sessions db) \<Longrightarrow> P s \<Longrightarrow> metadata_complete s \<Longrightarrow> metadata_complete (f s)"
    and keep: "\<And>s. session_key (f s) = session_key s \<and> s_active_job_id (f s) = s_active_job_id s
        \<and> s_active_lease_id (f s) = s_active_lease_id s
        \<and> s_active_run_generation (f s) = s_active_run_generation s
        \<and> s_active_turn_id (f s) = s_active_turn_id s
        \<and> s_recovery_required (f s) = s_recovery_required s"
  shows "good db db'"
proof -
  have w: "sessions_wf db" "small_wf db" using wf by (auto simp: store_wf_def)
  note fr = write_sessions_frame [OF upd [unfolded update_sessions_def]]
  have att: "session_of_attempt b j (f s) = session_of_attempt b j s" for b j s
    using keep [of s] by (simp add: session_of_attempt_def)
  show ?thesis
  proof (rule session_write_good [OF wf fr(1-4)])
    show "small_wf db'" by (rule small_wf_same [OF w(2) fr(5,6)])
  next
    fix s' assume "s' \<in> set (backend_sessions db')"
    then have "s' \<in> set (sql_update P f (backend_sessions db))" by (simp only: fr(7))
    then show "metadata_complete s' \<and> s_backend s' \<noteq> backend_name Hermes \<and> session_link db s'"
    proof (cases rule: in_sql_updateE)
      case (1 s)
      then show ?thesis using sessions_wfD(2-4) [OF w(1) 1(1)] by simp
    next
      case (2 s)
      note k = sessions_wfD(2-4) [OF w(1) 2(1)]
      have "session_link db (f s)"
        using k(3) keep [of s] by (simp only: session_link_def att turn_ok_def) auto
      then show ?thesis using k f [OF 2(1,2)] keep [of s] by (simp add: 2(3))
    qed
  next
    fix s assume s: "s \<in> set (backend_sessions db)" "\<not> s_recovery_required s"
    show "\<exists>s'\<in>set (backend_sessions db'). \<not> s_recovery_required s'
        \<and> (\<forall>b j. session_of_attempt b j s \<longrightarrow> session_of_attempt b j s')"
    proof (cases "P s")
      case True
      with s have "f s \<in> set (backend_sessions db')" unfolding fr(7) set_sql_update by blast
      with s att keep [of s] show ?thesis by (intro bexI [of _ "f s"]) simp_all
    next
      case False
      with s have "s \<in> set (backend_sessions db')" unfolding fr(7) set_sql_update by blast
      with s show ?thesis by blast
    qed
  qed (use fr(7-9) in simp_all)
qed

lemma insert_session_good:
  assumes wf: "store_wf db" and ins: "insert_session s db = Inr db'"
    and s: "s_active_job_id s = None" "s_backend s \<noteq> backend_name Hermes"
  shows "good db db'"
proof -
  have w: "sessions_wf db" "small_wf db" using wf by (auto simp: store_wf_def)
  from ins have mc: "metadata_complete s" and wr: "write_sessions (backend_sessions db @ [s]) db = Inr db'"
    by (simp_all add: insert_session_def split: if_splits)
  note fr = write_sessions_frame [OF wr]
  have link: "session_link db s" using s(1) by (simp add: session_link_def)
  show ?thesis
  proof (rule session_write_good [OF wf fr(1-4)])
    show "small_wf db'" by (rule small_wf_same [OF w(2) fr(5,6)])
    show "metadata_complete t \<and> s_backend t \<noteq> backend_name Hermes \<and> session_link db t"
      if "t \<in> set (backend_sessions db')" for t
    proof (cases "t = s")
      case True
      then show ?thesis using mc s(2) link by simp
    next
      case False
      with that have "t \<in> set (backend_sessions db)" by (simp add: fr(7))
      from sessions_wfD(2-4) [OF w(1) this] show ?thesis by simp
    qed
    show "\<exists>s'\<in>set (backend_sessions db'). \<not> s_recovery_required s'
        \<and> (\<forall>b j. session_of_attempt b j t \<longrightarrow> session_of_attempt b j s')"
      if "t \<in> set (backend_sessions db)" "\<not> s_recovery_required t" for t
      using that by (auto simp: fr(7))
  qed (use fr(7-9) in simp_all)
qed

lemma find_session_in:
  assumes "getBackendSession cfg b k db = Some s"
  shows "s \<in> set (backend_sessions db)" "session_key s = (scopeKey cfg, b, k)"
  using assms find_Some_in unfolding getBackendSession_def find_session_def by fastforce+

lemma bound_ownership: "metadata_complete s \<Longrightarrow> s_state_ownership s \<noteq> None"
  by (cases "s_state_ownership s") (simp_all add: metadata_complete_def)

lemma ensureBackendSession_good:
  assumes wf: "store_wf db" and b: "es_backend i \<noteq> backend_name Hermes"
  shows "good db (snd (ensureBackendSession cfg now i db))"
proof (cases "validateEnsureBackendSessionInput i")
  case (Inl e)
  then show ?thesis using good_refl [OF wf] by (simp add: ensureBackendSession_def)
next
  case (Inr v)
  show ?thesis
    unfolding ensureBackendSession_def Inr sum.case Let_def
  proof (rule good_transaction [OF wf], goal_cases)
    case (1 a db')
    then obtain db1 where up: "upsert_session (ensured_row cfg now i) db = Inr db1"
      by (auto simp: bindR_Inr_iff)
    have g: "good db db1"
    proof (cases "find_session (scopeKey cfg) (es_backend i) (es_sessionKey i) db = None")
      case True
      then have "insert_session (ensured_row cfg now i) db = Inr db1"
        using up by (simp add: upsert_session_def ensured_row_def split: if_splits)
      then show ?thesis by (rule insert_session_good [OF wf]) (use b in \<open>simp_all add: ensured_row_def\<close>)
    next
      case False
      then have "db1 = db" using up by (auto simp: upsert_session_def ensured_row_def split: if_splits)
      then show ?thesis using good_refl [OF wf] by simp
    qed
    then have w1: "sessions_wf db1" by (simp add: good_def store_wf_def)
    from 1 up obtain row where row: "getBackendSession cfg (es_backend i) (es_sessionKey i) db1 = Some row"
      by (auto simp: bindR_Inr_iff split: option.splits)
    have "s_state_ownership row \<noteq> None"
      using bound_ownership sessions_wfD(2) [OF w1 find_session_in(1) [OF row]] by blast
    with 1 up row have "db' = db1"
      by (auto simp: bindR_Inr_iff split: option.splits if_splits)
    with g show ?case by simp
  qed
qed

lemma createLocalOpaqueBackendSession_good:
  assumes wf: "store_wf db" and b: "ls_backend i \<noteq> backend_name Hermes"
  shows "good db (snd (createLocalOpaqueBackendSession cfg now i db))"
proof (cases "validateLocalOpaqueBackendSessionInput i")
  case (Inl e)
  then show ?thesis using good_refl [OF wf] by (simp add: createLocalOpaqueBackendSession_def)
next
  case (Inr v)
  show ?thesis
    unfolding createLocalOpaqueBackendSession_def Inr sum.case Let_def
  proof (rule good_transaction [OF wf], goal_cases)
    case (1 a db')
    then have "insert_session (opaque_row cfg now i) db = Inr db'"
      by (auto simp: bindR_Inr_iff split: if_splits option.splits)
    then show ?case by (rule insert_session_good [OF wf]) (use b in \<open>simp_all add: opaque_row_def\<close>)
  qed
qed

lemma bindBackendThread_good:
  assumes wf: "store_wf db"
  shows "good db (snd (bindBackendThread cfg now backend sessionKey threadId db))"
  unfolding bindBackendThread_def Let_def
proof (rule good_transaction [OF wf], goal_cases)
  case (1 a db')
  let ?P = "\<lambda>s. at_session cfg backend sessionKey s \<and> s_thread_id s = None
      \<and> s_state_ownership s \<noteq> None \<and> \<not> s_recovery_required s
      \<and> \<not> quarantined (s_scope_key s) (s_session_key s) db"
  let ?f = "\<lambda>s. s\<lparr>s_thread_id := Some threadId, s_updated_at := now\<rparr>"
  from 1 consider "db' = db" | "update_sessions ?P ?f db = Inr db'"
    by (auto simp: bindR_Inr_iff split: option.splits if_splits)
  then show ?case
  proof cases
    case 2
    then show ?thesis by (rule session_update_good [OF wf]) simp_all
  qed (use good_refl [OF wf] in simp)
qed

lemma metadata_update_complete:
  assumes "metadata_update_ok s s'" "metadata_complete s"
  shows "metadata_complete s'"
proof -
  have m: "immutable_metadata s' = immutable_metadata s"
    using assms bound_ownership [OF assms(2)] by (simp add: metadata_update_ok_def)
  then have "s_state_ownership s' \<noteq> None"
    using bound_ownership [OF assms(2)] by (simp add: immutable_metadata_def)
  then have "checkpoint_shape s'" using assms(1) by (simp add: metadata_update_ok_def)
  with m assms(2) show ?thesis
    unfolding immutable_metadata_def metadata_complete_def
    by (simp cong: option.case_cong state_ownership.case_cong identity_strength.case_cong)
qed

lemma checkpointBackendThreadTail_good:
  assumes wf: "store_wf db"
  shows "good db (snd (checkpointBackendThreadTail cfg now i db))"
proof (cases "validateCheckpointInput i")
  case (Inl e)
  then show ?thesis using good_refl [OF wf] by (simp add: checkpointBackendThreadTail_def)
next
  case (Inr v)
  show ?thesis
    unfolding checkpointBackendThreadTail_def Inr sum.case Let_def
  proof (rule good_transaction [OF wf], goal_cases)
    case (1 a db')
    then have "db' = db \<or> (\<exists>P. update_sessions_metadata P (write_checkpoint now (ci_checkpoint i)) db = Inr db')"
      by (auto simp: bindR_Inr_iff split: option.splits if_splits)
    then show ?case
    proof
      assume "\<exists>P. update_sessions_metadata P (write_checkpoint now (ci_checkpoint i)) db = Inr db'"
      then obtain P where P: "\<forall>s \<in> set (backend_sessions db). P s \<longrightarrow>
            metadata_update_ok s (write_checkpoint now (ci_checkpoint i) s)"
        "update_sessions P (write_checkpoint now (ci_checkpoint i)) db = Inr db'"
        by (auto simp: update_sessions_metadata_def list_all_iff split: if_splits)
      have "metadata_complete (write_checkpoint now (ci_checkpoint i) s)"
        if "s \<in> set (backend_sessions db)" "P s" "metadata_complete s" for s
        using P(1) that metadata_update_complete by blast
      then show ?thesis
        by (rule session_update_good [OF wf P(2)]) (simp_all add: write_checkpoint_def)
    qed (use good_refl [OF wf] in simp)
  qed
qed

section \<open>Release\<close>

lemma distinct_filter_swap:
  "distinct (map f (filter Q xs)) \<Longrightarrow> distinct (map f (filter Q (filter R xs)))"
proof -
  have "filter Q (filter R xs) = filter R (filter Q xs)" by (induction xs) simp_all
  then show "distinct (map f (filter Q xs)) \<Longrightarrow> ?thesis"
    using distinct_map_filter [of f "filter Q xs" R] by (simp only:)
qed

lemma delete_sessions_good:
  assumes wf: "store_wf db"
    and D: "\<And>s. s \<in> set (backend_sessions db) \<Longrightarrow> D s \<Longrightarrow> s_active_job_id s = None \<or> s_recovery_required s"
  shows "good db (delete_sessions D db)"
proof -
  have w: "sessions_wf db" "small_wf db" using wf by (auto simp: store_wf_def)
  have u: "sessions_unique (sql_delete D ss)" if "sessions_unique ss" for ss
    using that unfolding sessions_unique_def sql_delete_def
    by (elim conjE, intro conjI)
      ((rule distinct_map_filter, assumption)+, (rule distinct_filter_swap, assumption)+)
  show ?thesis
  proof (rule session_write_good [OF wf])
    show "sessions_unique (backend_sessions (delete_sessions D db))"
      using w(1) u by (simp add: sessions_wf_def)
    show "metadata_complete s \<and> s_backend s \<noteq> backend_name Hermes \<and> session_link db s"
      if "s \<in> set (backend_sessions (delete_sessions D db))" for s
      using that sessions_wfD(2-4) [OF w(1), of s] by simp
    show "\<exists>s'\<in>set (backend_sessions (delete_sessions D db)). \<not> s_recovery_required s'
        \<and> (\<forall>b j. session_of_attempt b j s \<longrightarrow> session_of_attempt b j s')"
      if "s \<in> set (backend_sessions db)" "s_active_job_id s \<noteq> None" "\<not> s_recovery_required s" for s
    proof (rule bexI [of _ s])
      show "s \<in> set (backend_sessions (delete_sessions D db))" using that D [of s] by auto
    qed (use that in simp)
    show "small_wf (delete_sessions D db)" by (rule small_wf_same [OF w(2)]) simp_all
  qed (use w(1) in \<open>auto simp: sessions_wf_def list_all_iff\<close>)
qed

lemma delete_quarantine_good: "store_wf db \<Longrightarrow> good db (delete_quarantine a b db)"
  by (rule store_wf_small) (simp_all add: store_wf_def small_wf_quarantine)

lemma delete_both_good:
  assumes "store_wf db"
    and "\<And>s. s \<in> set (backend_sessions db) \<Longrightarrow> D s \<Longrightarrow> s_active_job_id s = None \<or> s_recovery_required s"
  shows "good db (delete_quarantine a b (delete_sessions D db))"
proof -
  have g: "good db (delete_sessions D db)" by (rule delete_sessions_good [OF assms])
  then have "good (delete_sessions D db) (delete_quarantine a b (delete_sessions D db))"
    by (intro delete_quarantine_good) (simp add: good_def)
  with g show ?thesis by (rule good_trans)
qed

lemma releaseBackendSessionRecovery_good:
  assumes wf: "store_wf db"
  shows "good db (snd (releaseBackendSessionRecovery cfg backend sessionKey db))"
  unfolding releaseBackendSessionRecovery_def Let_def
proof (rule good_transaction [OF wf], goal_cases)
  case (1 a db')
  let ?R = "\<lambda>s. at_session cfg backend sessionKey s \<and> s_recovery_required s
      \<and> s_active_job_id s \<noteq> None \<and> recovery_releasable db s"
  from 1 consider "db' = delete_sessions ?R db"
    | "db' = delete_quarantine (scopeKey cfg) sessionKey (delete_sessions ?R db)"
    by (auto split: if_splits)
  then show ?case
  proof cases
    case 1
    show ?thesis unfolding 1 by (rule delete_sessions_good [OF wf]) simp
  next
    case 2
    show ?thesis unfolding 2 by (rule delete_both_good [OF wf]) simp
  qed
qed

lemma releaseSessionRecoveryWithReceipt_good:
  assumes wf: "store_wf db"
  shows "good db (snd (releaseSessionRecoveryWithReceipt cfg sessionKey db))"
  unfolding releaseSessionRecoveryWithReceipt_def Let_def
proof (rule good_transaction [OF wf], goal_cases)
  case (1 a db')
  let ?here = "\<lambda>s. s_scope_key s = scopeKey cfg \<and> s_session_key s = sessionKey"
  from 1 consider "db' = db"
    | "db' = delete_quarantine (scopeKey cfg) sessionKey (delete_sessions
        (\<lambda>s. ?here s \<and> s_active_job_id s = None \<and> \<not> s_recovery_required s) db)"
    | "db' = delete_quarantine (scopeKey cfg) sessionKey (delete_sessions
        (\<lambda>s. ?here s \<and> s_recovery_required s) db)"
    by (auto split: if_splits)
  then show ?case
  proof cases
    case 1
    show ?thesis unfolding 1 by (rule good_refl [OF wf])
  next
    case 2
    show ?thesis unfolding 2 by (rule delete_both_good [OF wf]) simp
  next
    case 3
    show ?thesis unfolding 3 by (rule delete_both_good [OF wf]) simp
  qed
qed

lemma releaseSessionRecovery_good:
  "store_wf db \<Longrightarrow> good db (snd (releaseSessionRecovery cfg sessionKey db))"
  unfolding releaseSessionRecovery_def Let_def snd_conv
  by (rule releaseSessionRecoveryWithReceipt_good)

section \<open>Quarantine and meta data\<close>

lemma quarantineSession_good: "store_wf db \<Longrightarrow> good db (snd (quarantineSession cfg now k reason db))"
  unfolding quarantineSession_def snd_conv
  by (rule store_wf_small) (simp_all add: store_wf_def small_wf_quarantine)

lemma releaseSessionQuarantine_good: "store_wf db \<Longrightarrow> good db (snd (releaseSessionQuarantine cfg k db))"
  unfolding releaseSessionQuarantine_def snd_conv by (rule delete_quarantine_good)

lemma setMeta_good: "store_wf db \<Longrightarrow> good db (snd (setMeta k v db))"
  by (rule store_wf_small) (auto simp: setMeta_def store_wf_def small_wf_def)

end
