(* ===== verification/Store_Outbox_Wf.thy ===== *)
theory Store_Outbox_Wf
  imports Store_Bulk
begin

text \<open>
  The delivery methods keep the invariant and move the store forward: a result's bytes never
  change, a delivered result stays delivered, and a result is only in delivery or delivered when
  an attempt was recorded for it.
\<close>

lemma store_wf_att:
  "store_wf db \<Longrightarrow> distinct (map (\<lambda>d. (d_scope_key d, d_message_id d)) (delivery_attempts db))"
  "store_wf db \<Longrightarrow> d \<in> set (delivery_attempts db) \<Longrightarrow>
     \<exists>r \<in> set (outbox db). outbox_key r = (d_scope_key d, d_job_id d)"
  "store_wf db \<Longrightarrow> distinct (map outbox_key (outbox db))"
  by (auto simp: store_wf_def outbox_wf_def)

lemma outbox_unique:
  "store_wf db \<Longrightarrow> r \<in> set (outbox db) \<Longrightarrow> q \<in> set (outbox db) \<Longrightarrow> outbox_key r = outbox_key q \<Longrightarrow> r = q"
  using key_unique [OF store_wf_att(3)] by blast

lemma resetOutboxPending_good:
  "store_wf db \<Longrightarrow> good db (snd (resetOutboxPending cfg now jobId db))"
  unfolding resetOutboxPending_def Let_def snd_conv
  by (rule update_outbox_good) (auto simp: outbox_le_def delivery_link_def)

lemma markOutboxAckFailed_good:
  "store_wf db \<Longrightarrow> good db (snd (markOutboxAckFailed cfg now jobId next db))"
  unfolding markOutboxAckFailed_def Let_def snd_conv
  by (rule update_outbox_good) (auto simp: outbox_le_def delivery_link_def)

lemma markOutboxDelivered_good:
  "store_wf db \<Longrightarrow> good db (snd (markOutboxDelivered cfg now jobId db))"
  unfolding markOutboxDelivered_def Let_def snd_conv
  by (rule update_outbox_good)
    (auto simp: outbox_le_def delivery_link_def simp del: has_delivery_attempt_def)

lemma startResultDelivery_good:
  assumes wf: "store_wf db"
  shows "good db (snd (startResultDelivery cfg now jobId messageId retry db))"
  unfolding startResultDelivery_def snd_after Let_def
proof (rule good_transaction [OF wf], goal_cases)
  case (1 a db')
  let ?P = "\<lambda>r. at_outbox cfg jobId r \<and> delivery_due retry now r
      \<and> sql_exists (\<lambda>j. job_key j = outbox_key r \<and> \<not> j_cancel_requested j) (jobs db)"
  let ?f = "\<lambda>r. r\<lparr>o_status := Delivering, o_last_message_id := Some messageId,
      o_retry_count := (if o_status r = AckFailed then 0 else o_retry_count r + (if retry then 1 else 0)),
      o_next_attempt_at := None, o_delivered_at := Some now, o_updated_at := now\<rparr>"
  let ?db1 = "update_outbox ?P ?f db"
  let ?d = "\<lparr>d_scope_key = scopeKey cfg, d_message_id = messageId, d_job_id = jobId, d_created_at = now\<rparr>"
  show ?case
  proof (cases "sql_count ?P (outbox db) = 1")
    case False
    with 1 have "db' = ?db1" by simp
    moreover have "?db1 = db"
      using sql_update_zero [OF store_wf_att(3) [OF wf], of ?P "(scopeKey cfg, jobId)" ?f] False
      by (simp add: update_outbox_def)
    ultimately show ?thesis using good_refl [OF wf] by simp
  next
    case True
    from sql_update_one [OF store_wf_att(3) [OF wf] _ True, of "(scopeKey cfg, jobId)"] obtain r0 where
      r0: "r0 \<in> set (outbox db)" "outbox_key r0 = (scopeKey cfg, jobId)" by auto
    from 1 True have ins: "insert_delivery_attempt ?d ?db1 = Inr db'" by (simp add: bindR_Inr_iff)
    have new: "\<forall>x \<in> set (delivery_attempts db). (d_scope_key x, d_message_id x) \<noteq> (scopeKey cfg, messageId)"
      and db': "db' = ?db1\<lparr>delivery_attempts := delivery_attempts db @ [?d]\<rparr>"
      using ins by (auto simp: insert_delivery_attempt_def split: if_splits)
    show ?thesis
    proof (rule outbox_good [OF wf, where P = ?P and f = ?f])
      show "distinct (map (\<lambda>d. (d_scope_key d, d_message_id d)) (delivery_attempts db'))"
        using store_wf_att(1) [OF wf] new by (auto simp: db')
      show "\<exists>r\<in>set (outbox db). outbox_key r = (d_scope_key d, d_job_id d)"
        if "d \<in> set (delivery_attempts db')" for d
        using that store_wf_att(2) [OF wf, of d] r0 by (auto simp: db')
      show "delivery_link db' (if ?P r then ?f r else r)" if "delivery_link db r" for r
        using that by (auto simp: db' delivery_link_def has_delivery_attempt_def)
    qed (auto simp: db' outbox_le_def delivery_due_def)
  qed
qed

lemma previous_attempt_in:
  "previous_attempt db r m = Some d \<Longrightarrow>
   d \<in> set (delivery_attempts db) \<and> d_scope_key d = o_scope_key r \<and> d_job_id d = o_job_id r
   \<and> d_message_id d \<noteq> m"
proof -
  let ?ds = "filter (\<lambda>d. d_scope_key d = o_scope_key r \<and> d_job_id d = o_job_id r
      \<and> d_message_id d \<noteq> m) (delivery_attempts db)"
  assume "previous_attempt db r m = Some d"
  then have "d \<in> set (rev (sort_key d_created_at ?ds))"
    unfolding previous_attempt_def by (cases "rev (sort_key d_created_at ?ds)") simp_all
  then show ?thesis by simp
qed

lemma resetOutboxPendingAfterSendFailure_good:
  assumes wf: "store_wf db"
  shows "good db (snd (resetOutboxPendingAfterSendFailure cfg now jobId messageId retry db))"
  unfolding resetOutboxPendingAfterSendFailure_def snd_after Let_def
proof (rule good_transaction [OF wf], goal_cases)
  case (1 a db')
  let ?P = "\<lambda>r. at_outbox cfg jobId r \<and> o_status r = Delivering \<and> o_last_message_id r = Some messageId"
  let ?f = "\<lambda>r. r\<lparr>o_status := Pending,
      o_retry_count := (if retry \<and> 0 < o_retry_count r then o_retry_count r - 1 else o_retry_count r),
      o_last_message_id := map_option d_message_id (previous_attempt db r messageId),
      o_delivered_at := map_option d_created_at (previous_attempt db r messageId),
      o_next_attempt_at := None, o_updated_at := now\<rparr>"
  let ?X = "\<lambda>d. d_scope_key d = scopeKey cfg \<and> d_job_id d = jobId \<and> d_message_id d = messageId"
  show ?case
  proof (cases "sql_count ?P (outbox db) = 1")
    case False
    with 1 have "db' = update_outbox ?P ?f db" by simp
    moreover have "update_outbox ?P ?f db = db"
      using sql_update_zero [OF store_wf_att(3) [OF wf], of ?P "(scopeKey cfg, jobId)" ?f] False
      by (simp add: update_outbox_def)
    ultimately show ?thesis using good_refl [OF wf] by simp
  next
    case True
    from sql_update_one [OF store_wf_att(3) [OF wf] _ True, of "(scopeKey cfg, jobId)"] obtain r0 where
      r0: "r0 \<in> set (outbox db)" "?P r0" by auto
    from 1 True have db': "db' = (update_outbox ?P ?f db)\<lparr>delivery_attempts := sql_delete ?X (delivery_attempts db)\<rparr>"
      by simp
    show ?thesis
    proof (rule outbox_good [OF wf, where P = ?P and f = ?f])
      show "distinct (map (\<lambda>d. (d_scope_key d, d_message_id d)) (delivery_attempts db'))"
        using distinct_sql_delete [OF store_wf_att(1) [OF wf]] by (simp add: db')
      show "\<exists>r\<in>set (outbox db). outbox_key r = (d_scope_key d, d_job_id d)"
        if "d \<in> set (delivery_attempts db')" for d
        using that store_wf_att(2) [OF wf, of d] by (simp add: db')
      show "delivery_link db' (if ?P r then ?f r else r)"
        if r: "r \<in> set (outbox db)" "delivery_link db r" for r
      proof (cases "?P r")
        case True
        then show ?thesis by (simp add: delivery_link_def)
      next
        case False
        have "outbox_key r \<noteq> (scopeKey cfg, jobId)"
          using False r0 outbox_unique [OF wf r(1) r0(1)] by auto
        then show ?thesis
          using r(2) False by (auto simp: db' delivery_link_def has_delivery_attempt_def)
      qed
    qed (auto simp: db' outbox_le_def)
  qed
qed

end
