(* ===== verification/Growing_System.thy ===== *)
theory Growing_System
  imports Main
begin

text \<open>
  The contract of a state machine that keeps an invariant and only ever moves forward in an
  order, and what every run of such a machine has. The job store is an instance
  (\<open>Store_Machine\<close>).
\<close>

locale safe_system =
  fixes start :: "'s \<Rightarrow> bool" and step :: "'s \<Rightarrow> 's \<Rightarrow> bool" and ok :: "'s \<Rightarrow> bool"
  assumes start_ok: "start s \<Longrightarrow> ok s"
    and step_ok: "ok s \<Longrightarrow> step s t \<Longrightarrow> ok t"
begin

lemma run_ok: "rtranclp step s t \<Longrightarrow> ok s \<Longrightarrow> ok t"
  by (induction rule: rtranclp_induct) (auto intro: step_ok)

lemma reached_ok: "start s \<Longrightarrow> rtranclp step s t \<Longrightarrow> ok t"
  using run_ok start_ok by blast

end

locale growing_system = safe_system start step ok
  for start :: "'s \<Rightarrow> bool" and step :: "'s \<Rightarrow> 's \<Rightarrow> bool" and ok :: "'s \<Rightarrow> bool" +
  fixes le :: "'s \<Rightarrow> 's \<Rightarrow> bool"
  assumes le_refl: "le s s"
    and le_trans: "le s t \<Longrightarrow> le t u \<Longrightarrow> le s u"
    and step_le: "ok s \<Longrightarrow> step s t \<Longrightarrow> le s t"
begin

lemma run_le: "rtranclp step s t \<Longrightarrow> ok s \<Longrightarrow> le s t"
proof (induction rule: rtranclp_induct)
  case base
  show ?case by (rule le_refl)
next
  case (step t u)
  then show ?case using le_trans step_le run_ok by blast
qed

lemma reached_le: "start s \<Longrightarrow> rtranclp step s t \<Longrightarrow> rtranclp step t u \<Longrightarrow> le t u"
  using run_le reached_ok by blast

end

end
