(* ===== verification/Store_Machine.thy ===== *)
theory Store_Machine
  imports Store_Jobs_Wf Store_Sessions_Wf Store_Outbox_Wf Growing_System
begin

text \<open>
  The job store as a state machine: any sequence of calls of the methods of \<open>JobStore\<close>
  (\<open>src/src/state/store.ts\<close>), by any number of store instances (scopes, clocks) on one
  database file that schema v8 created empty. Its properties are at the end.
\<close>

section \<open>Calls\<close>

datatype store_op =
  OpRecover
| OpIngest incoming_job jstring backend_kind
| OpMarkAcked jstring
| OpEnsureSession ensure_session_input
| OpCreateSession local_session_input
| OpBindThread jstring jstring jstring
| OpCheckpoint checkpoint_input
| OpClaimBackend jstring jstring jstring jstring
| OpResetUnsentBackend jstring jstring jstring nat
| OpCancelUnsentBackend jstring jstring jstring nat
| OpBackendRunning jstring jstring jstring nat jstring
| OpBackendSuccess jstring jstring jstring nat jstring jstring
| OpBackendFailure jstring jstring jstring nat jstring jstring jstring
| OpBackendCredentialFailure jstring jstring jstring nat jstring jstring jstring jstring
| OpBackendCancelUnknown jstring jstring jstring nat "jstring option" jstring
| OpBackendInterrupted jstring jstring jstring nat "jstring option" jstring
| OpBackendDisconnected jstring jstring jstring
| OpReleaseBackend jstring jstring
| OpReleaseRecovery jstring
| OpClaim jstring jstring jstring
| OpResetUnsent jstring jstring
| OpRunning jstring jstring jstring
| OpSuccess jstring jstring jstring
| OpFailure jstring jstring jstring jstring
| OpReject jstring jstring jstring
| OpCancel jstring
| OpCancelUnknown jstring jstring jstring
| OpCancelNotStarted jstring jstring
| OpDisconnected jstring
| OpStartDelivery jstring jstring bool
| OpResetPending jstring
| OpSendFailed jstring jstring bool
| OpDelivered jstring
| OpAckFailed jstring int
| OpQuarantine jstring jstring
| OpReleaseQuarantine jstring
| OpSetMeta jstring jstring

text \<open>A call throws or returns; the value it returns is left to the methods' own lemmas.\<close>

definition ran :: "'a reply \<Rightarrow> store_error option \<times> db" where
  "ran r = (case fst r of Inl e \<Rightarrow> Some e | Inr _ \<Rightarrow> None, snd r)"

fun call :: "store_cfg \<Rightarrow> int \<Rightarrow> store_op \<Rightarrow> db \<Rightarrow> store_error option \<times> db" where
  "call c n OpRecover db = ran (recoverAfterRestart c n db)"
| "call c n (OpIngest i k t) db = ran (ingest c n i k t db)"
| "call c n (OpMarkAcked j) db = ran (markAcked c n j db)"
| "call c n (OpEnsureSession i) db = ran (ensureBackendSession c n i db)"
| "call c n (OpCreateSession i) db = ran (createLocalOpaqueBackendSession c n i db)"
| "call c n (OpBindThread b k t) db = ran (bindBackendThread c n b k t db)"
| "call c n (OpCheckpoint i) db = ran (checkpointBackendThreadTail c n i db)"
| "call c n (OpClaimBackend j b x l) db = ran (claimForBackendDispatch c n j b x l db)"
| "call c n (OpResetUnsentBackend j b l g) db = ran (resetUnsentBackendDispatch c n j b l g db)"
| "call c n (OpCancelUnsentBackend j b l g) db = ran (finishUnsentBackendCancellation c n j b l g db)"
| "call c n (OpBackendRunning j b l g t) db = ran (markBackendRunning c n j b l g t db)"
| "call c n (OpBackendSuccess j b l g t r) db = ran (finishBackendSuccess c n j b l g t r db)"
| "call c n (OpBackendFailure j b l g t r e) db = ran (finishBackendFailure c n j b l g t r e db)"
| "call c n (OpBackendCredentialFailure j b l g t r e q) db =
     ran (finishBackendCredentialFailure c n j b l g t r e q db)"
| "call c n (OpBackendCancelUnknown j b l g t r) db = ran (markBackendCancelUnknown c n j b l g t r db)"
| "call c n (OpBackendInterrupted j b l g t r) db = ran (markBackendInterrupted c n j b l g t r db)"
| "call c n (OpBackendDisconnected b x r) db = ran (markBackendDisconnected c n b x r db)"
| "call c n (OpReleaseBackend b k) db = ran (releaseBackendSessionRecovery c b k db)"
| "call c n (OpReleaseRecovery k) db = ran (releaseSessionRecoveryWithReceipt c k db)"
| "call c n (OpClaim j x l) db = ran (claimForDispatch c n j x l db)"
| "call c n (OpResetUnsent j l) db = ran (resetUnsentDispatch c n j l db)"
| "call c n (OpRunning j x l) db = ran (markRunning c n j x l db)"
| "call c n (OpSuccess j l r) db = ran (finishSuccess c n j l r db)"
| "call c n (OpFailure j l r e) db = ran (finishFailure c n j l r e db)"
| "call c n (OpReject j r e) db = ran (reject c n j r e db)"
| "call c n (OpCancel j) db = ran (requestCancel c n j db)"
| "call c n (OpCancelUnknown j l r) db = ran (markCancelUnknown c n j l r db)"
| "call c n (OpCancelNotStarted j l) db = ran (finishHermesCancellationNotStarted c n j l db)"
| "call c n (OpDisconnected x) db = ran (markConnectorDisconnected c n x db)"
| "call c n (OpStartDelivery j m r) db = ran (startResultDelivery c n j m r db)"
| "call c n (OpResetPending j) db = ran (resetOutboxPending c n j db)"
| "call c n (OpSendFailed j m r) db = ran (resetOutboxPendingAfterSendFailure c n j m r db)"
| "call c n (OpDelivered j) db = ran (markOutboxDelivered c n j db)"
| "call c n (OpAckFailed j t) db = ran (markOutboxAckFailed c n j t db)"
| "call c n (OpQuarantine k r) db = ran (quarantineSession c n k r db)"
| "call c n (OpReleaseQuarantine k) db = ran (releaseSessionQuarantine c k db)"
| "call c n (OpSetMeta k v) db = ran (setMeta k v db)"

definition exec :: "store_cfg \<Rightarrow> int \<Rightarrow> store_op \<Rightarrow> db \<Rightarrow> db" where
  "exec cfg now x db = snd (call cfg now x db)"

definition thrown :: "store_cfg \<Rightarrow> int \<Rightarrow> store_op \<Rightarrow> db \<Rightarrow> store_error option" where
  "thrown cfg now x db = fst (call cfg now x db)"

lemma ran_simps [simp]:
  "snd (ran r) = snd r" "fst (ran r) = Some e \<longleftrightarrow> fst r = Inl e" "fst (ran r) = None \<longleftrightarrow> (\<exists>a. fst r = Inr a)"
  by (auto simp: ran_def split: sum.splits)

text \<open>The callers bind sessions for the durable backends only: \<open>"codex"\<close> and \<open>"claude"\<close>.\<close>

fun admissible :: "store_op \<Rightarrow> bool" where
  "admissible (OpEnsureSession i) \<longleftrightarrow> es_backend i \<noteq> backend_name Hermes"
| "admissible (OpCreateSession i) \<longleftrightarrow> ls_backend i \<noteq> backend_name Hermes"
| "admissible _ \<longleftrightarrow> True"

inductive store_step :: "db \<Rightarrow> db \<Rightarrow> bool" where
  call: "admissible x \<Longrightarrow> store_step db (exec cfg now x db)"

inductive_cases store_stepE: "store_step db db'"

lemmas method_good =
  recoverAfterRestart_good ingest_good markAcked_good bindBackendThread_good
  checkpointBackendThreadTail_good claimForBackendDispatch_good resetUnsentBackendDispatch_good
  finishUnsentBackendCancellation_good markBackendRunning_good markBackendDisconnected_good
  releaseBackendSessionRecovery_good releaseSessionRecoveryWithReceipt_good claim_good
  resetUnsentDispatch_good markRunning_good reject_good requestCancel_good markCancelUnknown_good
  finishHermesCancellationNotStarted_good markConnectorDisconnected_good startResultDelivery_good
  resetOutboxPending_good resetOutboxPendingAfterSendFailure_good markOutboxDelivered_good
  markOutboxAckFailed_good quarantineSession_good releaseSessionQuarantine_good setMeta_good

lemma exec_good:
  assumes "store_wf db" "admissible x"
  shows "good db (exec cfg now x db)"
  using assms
  by (cases x)
    (simp_all add: exec_def method_good ensureBackendSession_good createLocalOpaqueBackendSession_good
      finishSuccess_def finishFailure_def finishWithOutbox_good finishBackendSuccess_def
      finishBackendFailure_def finishBackendCredentialFailure_def finishBackendWithOutbox_good
      markBackendCancelUnknown_def markBackendInterrupted_def markBackendRecoveryTerminal_good good_refl)

lemma store_wf_fresh: "store_wf fresh_db"
  by (simp add: store_wf_def fresh_db_def jobs_wf_def single_active_def ledger_wf_def sessions_wf_def
      sessions_unique_def outbox_wf_def small_wf_def)

interpretation store: growing_system "\<lambda>db. db = fresh_db" store_step store_wf store_le
proof unfold_locales
  fix s t
  assume "store_wf s" "store_step s t"
  then have "good s t" by (auto elim!: store_stepE intro: exec_good)
  then show "store_wf t" "store_le s t" by (simp_all add: good_def)
qed (auto simp: store_wf_fresh intro: store_le_trans)

abbreviation reachable :: "db \<Rightarrow> bool" where
  "reachable db \<equiv> rtranclp store_step fresh_db db"

lemma reachable_wf: "reachable db \<Longrightarrow> store_wf db"
  using store.reached_ok by blast

lemma reachable_exec: "reachable db \<Longrightarrow> admissible x \<Longrightarrow> reachable (exec cfg now x db)"
  using rtranclp.rtrancl_into_rtrancl store_step.call by metis

end
