(* ===== verification/Store_Examples.thy ===== *)
theory Store_Examples
  imports Store_Machine
begin

text \<open>
  Two concrete runs of the store, used by the witnesses: a Hermes job that is claimed, run,
  finished and delivered, and a Claude job on a bound session that is claimed and accepted.
  Every stage is written out and proved to be the state the calls compute.
\<close>

definition demo_cfg :: store_cfg where
  "demo_cfg = \<lparr>scopeKey = js ''s'', sha256 = (\<lambda>_. replicate 64 0x61)\<rparr>"

definition demo_job :: incoming_job where
  "demo_job = \<lparr>in_jobId = js ''j'', in_messageId = js ''m'', in_fromNodeId = js ''n'',
     in_fromNodeType = None, in_text = js ''t'', in_timestamp = 7, in_rawPayload = js ''p''\<rparr>"

definition demo_row :: "backend_kind \<Rightarrow> job_row" where
  "demo_row b = \<lparr>j_scope_key = js ''s'', j_job_id = js ''j'', j_msg_id = js ''m'',
     j_payload_hash = replicate 64 0x61, j_target_backend = b, j_from_node_id = js ''n'',
     j_from_node_type = None, j_input_text = js ''t'', j_raw_payload = js ''p'',
     j_status = Received, j_session_key = js ''k'', j_connector_id = None, j_lease_id = None,
     j_run_generation = 0, j_error = None, j_cancel_requested = False, j_created_at = 10,
     j_updated_at = 10, j_completed_at = None, j_input_timestamp = 7\<rparr>"

definition demo_claimed :: "backend_kind \<Rightarrow> job_row" where
  "demo_claimed b = (demo_row b)\<lparr>j_status := Dispatching, j_connector_id := Some (js ''c''),
     j_lease_id := Some (js ''l''), j_run_generation := 1, j_updated_at := 11\<rparr>"

section \<open>A Hermes job\<close>

definition demo_event :: "nat \<Rightarrow> attempt_event_type \<Rightarrow> int \<Rightarrow> event_row" where
  "demo_event n t at = \<lparr>e_scope_key = js ''s'', e_job_id = js ''j'', e_run_generation = 1,
     e_sequence = n, e_backend = Hermes, e_session_key = js ''k'', e_lease_id = js ''l'',
     e_backend_execution_id = js ''c'', e_provider_session_id = None, e_provider_operation_id = None,
     e_runtime_version = None, e_requested_model = None, e_effective_model = None,
     e_model_provider = None, e_state_ownership = None, e_account_type = None,
     e_account_subject_sha256 = None, e_security_config_sha256 = None,
     e_feature_snapshot_sha256 = None, e_event_type = t, e_reason = None, e_created_at = at\<rparr>"

definition demo_received :: db where
  "demo_received = fresh_db\<lparr>jobs := [demo_row Hermes]\<rparr>"

definition demo_dispatching :: db where
  "demo_dispatching = fresh_db\<lparr>jobs := [demo_claimed Hermes],
     attempt_events := [demo_event 1 EvReserved 11]\<rparr>"

definition demo_running :: db where
  "demo_running = fresh_db\<lparr>jobs := [(demo_claimed Hermes)\<lparr>j_status := Running, j_updated_at := 12\<rparr>],
     attempt_events := [demo_event 1 EvReserved 11, demo_event 2 EvAccepted 12]\<rparr>"

definition demo_finished_row :: job_row where
  "demo_finished_row = (demo_claimed Hermes)\<lparr>j_status := Succeeded, j_completed_at := Some 13,
     j_updated_at := 13\<rparr>"

definition demo_outbox :: outbox_row where
  "demo_outbox = \<lparr>o_scope_key = js ''s'', o_job_id = js ''j'', o_status = Pending,
     o_result_json = js ''r'', o_retry_count = 0, o_last_message_id = None,
     o_next_attempt_at = None, o_created_at = 13, o_updated_at = 13, o_delivered_at = None,
     o_acked_at = None\<rparr>"

definition demo_succeeded :: db where
  "demo_succeeded = fresh_db\<lparr>jobs := [demo_finished_row], outbox := [demo_outbox],
     attempt_events := [demo_event 1 EvReserved 11, demo_event 2 EvAccepted 12,
       demo_event 3 EvSucceeded 13]\<rparr>"

definition demo_delivered :: db where
  "demo_delivered = demo_succeeded\<lparr>outbox := [demo_outbox\<lparr>o_status := Delivered,
     o_last_message_id := Some (js ''d''), o_updated_at := 15, o_delivered_at := Some 14,
     o_acked_at := Some 15\<rparr>],
     delivery_attempts := [\<lparr>d_scope_key = js ''s'', d_message_id = js ''d'', d_job_id = js ''j'',
       d_created_at = 14\<rparr>]\<rparr>"

lemma demo_step1: "exec demo_cfg 10 (OpIngest demo_job (js ''k'') Hermes) fresh_db = demo_received"
  by code_simp

lemma demo_step2:
  "exec demo_cfg 11 (OpClaim (js ''j'') (js ''c'') (js ''l'')) demo_received = demo_dispatching"
  by code_simp

lemma demo_step3:
  "exec demo_cfg 12 (OpRunning (js ''j'') (js ''c'') (js ''l'')) demo_dispatching = demo_running"
  by code_simp

lemma demo_step4:
  "exec demo_cfg 13 (OpSuccess (js ''j'') (js ''l'') (js ''r'')) demo_running = demo_succeeded"
  by code_simp

lemma demo_step5:
  "exec demo_cfg 15 (OpDelivered (js ''j'')) (exec demo_cfg 14
     (OpStartDelivery (js ''j'') (js ''d'') False) demo_succeeded) = demo_delivered"
  by code_simp

lemma demo_reachable:
  "reachable demo_received" "reachable demo_dispatching" "reachable demo_running"
  "reachable demo_succeeded" "reachable demo_delivered"
proof -
  show 1: "reachable demo_received"
    unfolding demo_step1 [symmetric] by (rule reachable_exec) simp_all
  show 2: "reachable demo_dispatching"
    unfolding demo_step2 [symmetric] by (rule reachable_exec [OF 1]) simp
  show 3: "reachable demo_running"
    unfolding demo_step3 [symmetric] by (rule reachable_exec [OF 2]) simp
  show 4: "reachable demo_succeeded"
    unfolding demo_step4 [symmetric] by (rule reachable_exec [OF 3]) simp
  show "reachable demo_delivered"
    unfolding demo_step5 [symmetric]
    by (rule reachable_exec [OF reachable_exec [OF 4]]) simp_all
qed

lemma demo_onward:
  "rtranclp store_step demo_running demo_succeeded" "rtranclp store_step demo_succeeded demo_delivered"
proof -
  show "rtranclp store_step demo_running demo_succeeded"
    unfolding demo_step4 [symmetric] by (intro r_into_rtranclp store_step.call) simp
  have "store_step demo_succeeded (exec demo_cfg 14 (OpStartDelivery (js ''j'') (js ''d'') False) demo_succeeded)"
    by (rule store_step.call) simp
  then show "rtranclp store_step demo_succeeded demo_delivered"
    unfolding demo_step5 [symmetric]
    by (rule converse_rtranclp_into_rtranclp) (intro r_into_rtranclp store_step.call, simp)
qed

section \<open>A Claude job\<close>

definition demo_session_input :: local_session_input where
  "demo_session_input = \<lparr>ls_backend = js ''claude'', ls_sessionKey = js ''k'',
     ls_sessionHash = replicate 64 0x61, ls_threadId = js ''h'', ls_cwd = js ''w'',
     ls_cliVersion = js ''v'', ls_requestedModel = None, ls_effectiveModel = js ''e'',
     ls_modelProvider = js ''p'', ls_securityConfigSha256 = replicate 64 0x61,
     ls_featureSnapshotSha256 = replicate 64 0x61,
     ls_checkpoint = \<lparr>cp_turn_id = None, cp_turn_status = None, cp_turn_count = 0,
       cp_turns_sha256 = replicate 64 0x61, cp_at = 9\<rparr>\<rparr>"

definition demo_bound :: session_row where
  "demo_bound = opaque_row demo_cfg 9 demo_session_input"

definition demo_claude :: db where
  "demo_claude = fresh_db\<lparr>jobs := [demo_row Claude], backend_sessions := [demo_bound]\<rparr>"

definition demo_claude_event :: "nat \<Rightarrow> attempt_event_type \<Rightarrow> jstring option \<Rightarrow> int \<Rightarrow> event_row" where
  "demo_claude_event n t turn at = (demo_event n t at)\<lparr>e_backend := Claude,
     e_provider_session_id := Some (js ''h''), e_provider_operation_id := turn,
     e_runtime_version := Some (js ''v''), e_effective_model := Some (js ''e''),
     e_model_provider := Some (js ''p''), e_state_ownership := Some LocalStateOpaque,
     e_security_config_sha256 := Some (replicate 64 0x61),
     e_feature_snapshot_sha256 := Some (replicate 64 0x61)\<rparr>"

definition demo_carrying :: session_row where
  "demo_carrying = demo_bound\<lparr>s_active_job_id := Some (js ''j''), s_active_lease_id := Some (js ''l''),
     s_active_run_generation := Some 1, s_updated_at := 11\<rparr>"

definition demo_claude_claimed :: db where
  "demo_claude_claimed = fresh_db\<lparr>jobs := [demo_claimed Claude], backend_sessions := [demo_carrying],
     attempt_events := [demo_claude_event 1 EvReserved None 11]\<rparr>"

definition demo_claude_running :: db where
  "demo_claude_running = fresh_db\<lparr>jobs := [(demo_claimed Claude)\<lparr>j_status := Running, j_updated_at := 12\<rparr>],
     backend_sessions := [demo_carrying\<lparr>s_active_turn_id := Some (js ''u''), s_updated_at := 12\<rparr>],
     attempt_events := [demo_claude_event 1 EvReserved None 11,
       demo_claude_event 2 EvAccepted (Some (js ''u'')) 12]\<rparr>"

lemma demo_claude_step1:
  "exec demo_cfg 10 (OpIngest demo_job (js ''k'') Claude)
     (exec demo_cfg 9 (OpCreateSession demo_session_input) fresh_db) = demo_claude"
  by code_simp

lemma demo_claude_step2:
  "exec demo_cfg 11 (OpClaimBackend (js ''j'') (js ''claude'') (js ''c'') (js ''l'')) demo_claude
     = demo_claude_claimed"
  by code_simp

lemma demo_claude_step3:
  "exec demo_cfg 12 (OpBackendRunning (js ''j'') (js ''claude'') (js ''l'') 1 (js ''u''))
     demo_claude_claimed = demo_claude_running"
  by code_simp

lemma demo_claude_reachable:
  "reachable demo_claude" "reachable demo_claude_claimed" "reachable demo_claude_running"
proof -
  show 1: "reachable demo_claude"
    unfolding demo_claude_step1 [symmetric]
    by (rule reachable_exec [OF reachable_exec]) (simp_all add: demo_session_input_def)
  show 2: "reachable demo_claude_claimed"
    unfolding demo_claude_step2 [symmetric] by (rule reachable_exec [OF 1]) simp
  show "reachable demo_claude_running"
    unfolding demo_claude_step3 [symmetric] by (rule reachable_exec [OF 2]) simp
qed

end
