(* ===== verification/Store_Props.thy ===== *)
theory Store_Props
  imports Store_Examples
begin

text \<open>
  What every history of the job store has. \<open>reachable db\<close> says that some sequence of calls,
  by any store instances, led from the empty file to \<open>db\<close>; \<open>store_step\<close> is one more call.
  The two demo runs of \<open>Store_Examples\<close> are the witnesses.
\<close>

section \<open>Every reachable database is well formed\<close>

text \<open>A list of calls: the instance of the store, the time, and the method with its arguments.\<close>

fun calls_run :: "(store_cfg \<times> int \<times> store_op) list \<Rightarrow> db \<Rightarrow> db" where
  "calls_run [] db = db"
| "calls_run ((cfg, now, x) # calls) db = calls_run calls (exec cfg now x db)"

lemma calls_reach:
  "list_all (\<lambda>(cfg, now, x). admissible x) calls \<Longrightarrow> reachable db \<Longrightarrow> reachable (calls_run calls db)"
proof (induction calls arbitrary: db)
  case (Cons x calls)
  obtain cfg now m where x: "x = (cfg, now, m)" by (cases x)
  have "reachable (exec cfg now m db)" using Cons.prems x by (intro reachable_exec) simp_all
  then show ?case using Cons.IH Cons.prems(1) by (simp add: x)
qed simp

text \<open>C1: every sequence of calls of the store's methods on a fresh database, by any store instances,
  in which no backend session is made under the name \<open>"hermes"\<close>, leaves a well-formed database:
  the invariant of the job rows, the ledger, the sessions, the outbox and the small tables. The
  store itself takes any backend name of up to 32 characters; the callers in the repository make
  sessions for \<open>"codex"\<close> and \<open>"claude"\<close> only, and the invariant, which says so, needs it.\<close>

theorem reachable_store_wf:
  assumes "list_all (\<lambda>(cfg, now, x). admissible x) calls"
  shows "store_wf (calls_run calls fresh_db)"
  using assms by (intro reachable_wf calls_reach) simp_all

definition demo_calls :: "(store_cfg \<times> int \<times> store_op) list" where
  "demo_calls = [(demo_cfg, 9, OpCreateSession demo_session_input),
     (demo_cfg, 10, OpIngest demo_job (js ''k'') Claude),
     (demo_cfg, 11, OpClaimBackend (js ''j'') (js ''claude'') (js ''c'') (js ''l'')),
     (demo_cfg, 12, OpBackendRunning (js ''j'') (js ''claude'') (js ''l'') 1 (js ''u''))]"

theorem reachable_store_wf_witness:
  "calls_run demo_calls fresh_db = demo_claude_running \<and> store_wf demo_claude_running"
proof -
  have run: "calls_run demo_calls fresh_db = demo_claude_running"
    by (simp only: demo_calls_def calls_run.simps demo_claude_step1 demo_claude_step2 demo_claude_step3)
  have "list_all (\<lambda>(cfg, now, x). admissible x) demo_calls"
    by (simp add: demo_calls_def demo_session_input_def)
  from reachable_store_wf [OF this] show ?thesis by (simp add: run)
qed

text \<open>The restriction is not idle: the store accepts a session for Hermes, and is then outside the
  invariant.\<close>

lemma hermes_session_is_accepted:
  defines "x \<equiv> OpCreateSession (demo_session_input\<lparr>ls_backend := js ''hermes''\<rparr>)"
  shows "thrown demo_cfg 9 x fresh_db = None" "\<not> store_wf (exec demo_cfg 9 x fresh_db)"
proof -
  show "thrown demo_cfg 9 x fresh_db = None" unfolding x_def by code_simp
  have "map s_backend (backend_sessions (exec demo_cfg 9 x fresh_db)) = [backend_name Hermes]"
    unfolding x_def by code_simp
  then show "\<not> store_wf (exec demo_cfg 9 x fresh_db)"
    by (auto simp: store_wf_def sessions_wf_def)
qed

text \<open>C2: two active jobs of one scope and one session are the same job: a session never runs two
  jobs at once, whatever the backends and however the calls interleave.\<close>

theorem one_active_job_per_session:
  assumes "reachable db" "j \<in> set (jobs db)" "k \<in> set (jobs db)"
    and "active_status (j_status j)" "active_status (j_status k)"
    and "j_scope_key j = j_scope_key k" "j_session_key j = j_session_key k"
  shows "j = k"
proof -
  have "jobs_wf db" using reachable_wf [OF assms(1)] by (simp add: store_wf_def)
  then have "j_job_id j = j_job_id k"
    using assms(2-7) unfolding jobs_wf_def single_active_def by blast
  with job_unique [OF \<open>jobs_wf db\<close> assms(2,3,6)] show ?thesis .
qed

theorem one_active_job_per_session_witness:
  "demo_claimed Claude = demo_claimed Claude
   \<and> active_status (j_status (demo_claimed Claude))"
  using one_active_job_per_session [OF demo_claude_reachable(2), of "demo_claimed Claude" "demo_claimed Claude"]
  by (simp add: demo_claude_claimed_def demo_claimed_def)

section \<open>The attempt ledger\<close>

lemma closing_count:
  "open_history ts \<Longrightarrow> filter closing ts = []"
  "closed_history ts \<Longrightarrow> length (filter closing ts) = 1 \<and> closing (last ts)"
proof -
  show o: "open_history ts \<Longrightarrow> filter closing ts = []" for ts
    using open_history_not_closing by (simp add: filter_empty_conv)
  show "closed_history ts \<Longrightarrow> length (filter closing ts) = 1 \<and> closing (last ts)"
    by (elim closed_historyE) (simp add: o)
qed

text \<open>C3: the events of every attempt of a job are numbered 1, 2, ... without a gap; an attempt that
  is over has exactly one verdict, its last event, and the attempt of an active job has none yet.\<close>

theorem attempt_has_one_verdict:
  assumes "reachable db" "j \<in> set (jobs db)" "1 \<le> g" "g \<le> j_run_generation j"
  defines "log \<equiv> job_log db j g"
  shows "map e_sequence log = [1..<Suc (length log)]
    \<and> (if g = j_run_generation j \<and> active_status (j_status j)
       then log \<noteq> [] \<and> filter (closing \<circ> e_event_type) log = []
       else length (filter (closing \<circ> e_event_type) log) = 1 \<and> closing (e_event_type (last log)))"
proof -
  have "attempt_ok db j g"
    using reachable_wf [OF assms(1)] attempt_okD assms(2-4) by (simp add: store_wf_def)
  moreover have "filter (closing \<circ> e_event_type) log = [] \<longleftrightarrow> filter closing (map e_event_type log) = []"
    "length (filter (closing \<circ> e_event_type) log) = length (filter closing (map e_event_type log))"
    by (simp_all add: filter_map)
  moreover have "closed_history (map e_event_type log) \<Longrightarrow> log \<noteq> []"
    "open_history (map e_event_type log) \<Longrightarrow> log \<noteq> []"
    by (auto simp: closed_history_def open_history_def)
  ultimately show ?thesis
    using closing_count [of "map e_event_type log"]
    by (auto simp: attempt_ok_def numbered_def log_def last_map split: if_splits)
qed

theorem attempt_has_one_verdict_witness:
  "map e_event_type (job_log demo_delivered demo_finished_row 1) = [EvReserved, EvAccepted, EvSucceeded]
   \<and> length (filter (closing \<circ> e_event_type) (job_log demo_delivered demo_finished_row 1)) = 1"
proof -
  have "length (filter (closing \<circ> e_event_type) (job_log demo_delivered demo_finished_row 1)) = 1"
    using attempt_has_one_verdict [OF demo_reachable(5), of demo_finished_row 1]
    by (simp add: demo_delivered_def demo_succeeded_def demo_finished_row_def demo_claimed_def)
  moreover have "map e_event_type (job_log demo_delivered demo_finished_row 1)
      = [EvReserved, EvAccepted, EvSucceeded]" by code_simp
  ultimately show ?thesis by simp
qed

text \<open>C4: the ledger is append-only: a later state of the store has the earlier events as a prefix.\<close>

theorem ledger_append_only:
  assumes "reachable db" "rtranclp store_step db db'"
  shows "\<exists>ext. attempt_events db' = attempt_events db @ ext"
  using store.reached_le [OF refl assms] by (simp add: store_le_def)

theorem ledger_append_only_witness:
  "\<exists>ext. attempt_events demo_succeeded = attempt_events demo_running @ ext"
  using ledger_append_only [OF demo_reachable(3) demo_onward(1)] .

section \<open>The life of a job\<close>

text \<open>C5: a job that reached a terminal status (Succeeded, Failed, Rejected, Cancelled,
  CancelUnknown, Interrupted) is never changed again, in any column.\<close>

theorem terminal_jobs_are_frozen:
  assumes "reachable db" "rtranclp store_step db db'" "j \<in> set (jobs db)"
    and "terminal_status (j_status j)"
  shows "j \<in> set (jobs db')"
  using store.reached_le [OF refl assms(1,2)] assms(3,4)
  by (auto simp: store_le_def job_le_def)

theorem terminal_jobs_are_frozen_witness: "demo_finished_row \<in> set (jobs demo_delivered)"
  by (rule terminal_jobs_are_frozen [OF demo_reachable(4) demo_onward(2)])
    (simp_all add: demo_succeeded_def demo_finished_row_def)

text \<open>C6: no job is lost, its identity, payload, backend and session never change, its status only
  follows the transitions of the documented life cycle, and its attempt number never falls.\<close>

theorem jobs_follow_the_life_cycle:
  assumes "reachable db" "rtranclp store_step db db'" "j \<in> set (jobs db)"
  shows "\<exists>k \<in> set (jobs db'). same_identity j k
    \<and> rtranclp status_step (j_status j) (j_status k) \<and> j_run_generation j \<le> j_run_generation k"
  using store.reached_le [OF refl assms(1,2)] assms(3)
  unfolding store_le_def job_le_def by blast

theorem jobs_follow_the_life_cycle_witness:
  "\<exists>k \<in> set (jobs demo_succeeded). same_identity ((demo_claimed Hermes)\<lparr>j_status := Running, j_updated_at := 12\<rparr>) k
    \<and> rtranclp status_step Running (j_status k) \<and> 1 \<le> j_run_generation k"
  using jobs_follow_the_life_cycle [OF demo_reachable(3) demo_onward(1),
      of "(demo_claimed Hermes)\<lparr>j_status := Running, j_updated_at := 12\<rparr>"]
  by (simp add: demo_running_def demo_claimed_def)

section \<open>Results\<close>

text \<open>C7: a job has a result in the outbox exactly when it succeeded, failed or was rejected; a
  cancelled, interrupted or unfinished job has none.\<close>

theorem result_exactly_when_finished:
  assumes "reachable db" "j \<in> set (jobs db)"
  shows "find_outbox (j_scope_key j) (j_job_id j) db \<noteq> None
    \<longleftrightarrow> j_status j \<in> {Succeeded, Failed, Rejected}"
proof -
  have w: "outbox_wf db" "jobs_wf db" using reachable_wf [OF assms(1)] by (auto simp: store_wf_def)
  have "find_outbox (j_scope_key j) (j_job_id j) db \<noteq> None
      \<longleftrightarrow> (\<exists>r \<in> set (outbox db). outbox_key r = job_key j)"
    by (auto simp: find_outbox_def find_None_all)
  also have "\<dots> \<longleftrightarrow> result_status (j_status j)"
  proof
    assume "\<exists>r \<in> set (outbox db). outbox_key r = job_key j"
    then obtain r k where "outbox_key r = job_key j" "k \<in> set (jobs db)" "job_key k = outbox_key r"
      "result_status (j_status k)" using w(1) unfolding outbox_wf_def by blast
    with job_unique [OF w(2) _ assms(2), of k] show "result_status (j_status j)" by simp
  next
    assume "result_status (j_status j)"
    then show "\<exists>r \<in> set (outbox db). outbox_key r = job_key j"
      using w(1) assms(2) unfolding outbox_wf_def by blast
  qed
  finally show ?thesis by (simp add: result_status_def)
qed

theorem result_exactly_when_finished_witness:
  "find_outbox (js ''s'') (js ''j'') demo_delivered \<noteq> None
   \<and> find_outbox (js ''s'') (js ''j'') demo_dispatching = None"
  using result_exactly_when_finished [OF demo_reachable(5), of demo_finished_row]
    result_exactly_when_finished [OF demo_reachable(2), of "demo_claimed Hermes"]
  by (simp add: demo_delivered_def demo_succeeded_def demo_dispatching_def demo_finished_row_def
      demo_claimed_def demo_row_def)

text \<open>C8: a result, once written, keeps its bytes and is never removed; a delivered result is final.\<close>

theorem result_bytes_are_immutable:
  assumes "reachable db" "rtranclp store_step db db'" "r \<in> set (outbox db)"
  shows "\<exists>q \<in> set (outbox db'). outbox_key q = outbox_key r \<and> o_result_json q = o_result_json r
    \<and> (o_status r = Delivered \<longrightarrow> q = r)"
  using store.reached_le [OF refl assms(1,2)] assms(3)
  unfolding store_le_def outbox_le_def by blast

theorem result_bytes_are_immutable_witness:
  "\<exists>q \<in> set (outbox demo_delivered). o_result_json q = js ''r''"
proof -
  have "demo_outbox \<in> set (outbox demo_succeeded)" by (simp add: demo_succeeded_def)
  from result_bytes_are_immutable [OF demo_reachable(4) demo_onward(2) this]
  show ?thesis by (auto simp: demo_outbox_def)
qed

text \<open>C9: a result is in delivery, delivered or failed to be acknowledged only when a delivery
  attempt was recorded for its job before the socket saw it.\<close>

theorem delivery_is_recorded_first:
  assumes "reachable db" "r \<in> set (outbox db)" "o_status r \<noteq> Pending"
  shows "has_delivery_attempt db (o_scope_key r) (o_job_id r)"
  using reachable_wf [OF assms(1)] assms(2,3)
  by (simp add: store_wf_def outbox_wf_def delivery_link_def)

theorem delivery_is_recorded_first_witness:
  "has_delivery_attempt demo_delivered (js ''s'') (js ''j'')"
  using delivery_is_recorded_first [OF demo_reachable(5), of "hd (outbox demo_delivered)"]
  by (simp add: demo_delivered_def demo_outbox_def)

section \<open>Sessions and cancel intents\<close>

text \<open>C10: an active job of a durable backend is carried by exactly one session row, its own, with
  the job's lease and attempt number, and that session is not in recovery.\<close>

theorem active_job_is_carried:
  assumes "reachable db" "j \<in> set (jobs db)" "active_status (j_status j)" "j_target_backend j \<noteq> Hermes"
  shows "\<exists>!s. s \<in> set (backend_sessions db) \<and> s_scope_key s = j_scope_key j
    \<and> s_active_job_id s = Some (j_job_id j) \<and> s_backend s = backend_name (j_target_backend j)
    \<and> s_session_key s = j_session_key j \<and> s_active_lease_id s = j_lease_id j
    \<and> s_active_run_generation s = Some (j_run_generation j) \<and> \<not> s_recovery_required s"
proof -
  have w: "sessions_wf db" using reachable_wf [OF assms(1)] by (simp add: store_wf_def)
  then obtain s where s: "s \<in> set (backend_sessions db)" "\<not> s_recovery_required s"
    "session_of_attempt (backend_name (j_target_backend j)) j s"
    using assms(2-4) unfolding sessions_wf_def job_link_def by blast
  show ?thesis
  proof (rule ex1I [of _ s])
    show "s \<in> set (backend_sessions db) \<and> s_scope_key s = j_scope_key j
      \<and> s_active_job_id s = Some (j_job_id j) \<and> s_backend s = backend_name (j_target_backend j)
      \<and> s_session_key s = j_session_key j \<and> s_active_lease_id s = j_lease_id j
      \<and> s_active_run_generation s = Some (j_run_generation j) \<and> \<not> s_recovery_required s"
      using s by (simp add: session_of_attempt_def)
  next
    fix t
    assume t: "t \<in> set (backend_sessions db) \<and> s_scope_key t = j_scope_key j
      \<and> s_active_job_id t = Some (j_job_id j) \<and> s_backend t = backend_name (j_target_backend j)
      \<and> s_session_key t = j_session_key j \<and> s_active_lease_id t = j_lease_id j
      \<and> s_active_run_generation t = Some (j_run_generation j) \<and> \<not> s_recovery_required t"
    with s show "t = s"
      by (intro active_session_unique [OF w, of t s "j_job_id j"]) (auto simp: session_of_attempt_def)
  qed
qed

theorem active_job_is_carried_witness:
  "\<exists>s \<in> set (backend_sessions demo_claude_claimed). s_active_job_id s = Some (js ''j'')"
  using active_job_is_carried [OF demo_claude_reachable(2), of "demo_claimed Claude"]
  by (auto simp: demo_claude_claimed_def demo_claimed_def demo_row_def)

text \<open>C11: at most 4096 cancel intents are ever stored, one per job id, whatever cancels arrive.\<close>

theorem cancel_intents_are_bounded:
  assumes "reachable db"
  shows "length (pending_cancels db) \<le> 4096 \<and> distinct (map pending_key (pending_cancels db))"
  using reachable_wf [OF assms] by (simp add: store_wf_def small_wf_def pending_cancel_max_rows_def)

theorem cancel_intents_are_bounded_witness:
  "length (pending_cancels (exec demo_cfg 1 (OpCancel (js ''z'')) demo_received)) \<le> 4096"
  using cancel_intents_are_bounded [OF reachable_exec [OF demo_reachable(1), of "OpCancel (js ''z'')"]]
  by simp

end
