(* ===== verification/Store_Consistency.thy ===== *)
theory Store_Consistency
  imports Store_Jobs_Wf Store_Sessions_Wf
begin

text \<open>
  The methods re-check their own work ("inconsistent commit" errors: a second UPDATE must change
  the row the first one changed, the counts of a disconnect must agree). On a well-formed
  database none of these checks ever fails: \<open>fst (method ...) \<noteq> Inl InconsistentCommit\<close>.
\<close>

abbreviation consistent :: "'a reply \<Rightarrow> bool" where
  "consistent r \<equiv> fst r \<noteq> Inl InconsistentCommit"

lemma consistent_transaction:
  "(body db \<noteq> Inl InconsistentCommit) \<Longrightarrow> consistent (transaction body db)"
  by (auto simp: transaction_def split: sum.splits)

lemma consistent_after:
  assumes "consistent r" "\<And>a. k a (snd r) \<noteq> Inl InconsistentCommit"
  shows "consistent (after r k)"
  using assms by (auto simp: after_def split: sum.splits)

text \<open>The shared statements only throw other errors.\<close>

lemma require_job_consistent: "require_job cfg jobId db \<noteq> Inl InconsistentCommit"
  by (simp add: require_job_def split: option.split)

lemma append_consistent:
  "appendExecutionAttemptEventLocked cfg jobId g t opr why now db \<noteq> Inl InconsistentCommit"
  unfolding appendExecutionAttemptEventLocked_def Let_def insert_event_def
  by (simp split: option.split)

lemma update_sessions_consistent: "update_sessions P f db \<noteq> Inl InconsistentCommit"
  by (simp add: update_sessions_def write_sessions_def)

lemma upsertOutbox_consistent: "upsertOutbox cfg jobId r now db \<noteq> Inl InconsistentCommit"
  by (simp add: upsertOutbox_def)

lemma eachR_consistent:
  "(\<And>x s. f x s \<noteq> Inl e) \<Longrightarrow> eachR f xs s \<noteq> Inl e"
  by (induction xs arbitrary: s) (auto simp: bindR_Inl_iff)

lemmas statement_consistent =
  require_job_consistent append_consistent update_sessions_consistent upsertOutbox_consistent

lemma map_sum_require: "map_sum id Some (require_job cfg jobId db) \<noteq> Inl InconsistentCommit"
  using require_job_consistent [of cfg jobId db] by (cases "require_job cfg jobId db") simp_all

lemma consistent_after_opt:
  "consistent r \<Longrightarrow> consistent (after r (\<lambda>d db'. if d then map_sum id Some (require_job cfg jobId db') else Inr None))"
  by (rule consistent_after) (simp_all add: map_sum_require)

section \<open>Counts\<close>

lemma carried_count:
  assumes wf: "sessions_wf db" and C: "\<And>s. C s \<Longrightarrow> s_scope_key s = sc \<and> s_active_job_id s = Some x"
    and ex: "s \<in> set (backend_sessions db)" "C s"
  shows "sql_count C (backend_sessions db) = 1"
proof (rule ccontr)
  assume "sql_count C (backend_sessions db) \<noteq> 1"
  from carried_at_most_one [OF wf C this, of "\<lambda>s. s\<lparr>s_updated_at := s_updated_at s + 1\<rparr>"]
  have eq: "sql_update C (\<lambda>s. s\<lparr>s_updated_at := s_updated_at s + 1\<rparr>) (backend_sessions db)
      = backend_sessions db" .
  have "(if C s then s\<lparr>s_updated_at := s_updated_at s + 1\<rparr> else s) = s"
    using eq ex(1) unfolding sql_update_def by (metis (mono_tags, lifting) map_eq_conv map_ident)
  then have "s_updated_at (s\<lparr>s_updated_at := s_updated_at s + 1\<rparr>) = s_updated_at s" using ex(2) by simp
  then show False by simp
qed

lemma job_count:
  assumes "jobs_wf db" "jobs db' = replace j0 k (jobs db)" "j0 \<in> set (jobs db)" "job_key k = job_key j0"
    and "Q k" "\<And>j. Q j \<Longrightarrow> job_key j = job_key j0"
  shows "sql_count Q (jobs db') = 1"
proof -
  have "distinct (map job_key (jobs db'))"
    using assms(1) distinct_replace [of job_key k j0] assms(4) by (simp add: assms(2) jobs_wf_def)
  then show ?thesis
    using sql_count_1_iff [of job_key "jobs db'" Q "job_key j0"] assms(5,6) replace_in [OF assms(3)]
    by (auto simp: assms(2))
qed

lemma two_counts:
  assumes "\<And>j. j \<in> set js0 \<Longrightarrow> C j \<Longrightarrow> hit j \<and> \<not> I j \<and> \<not> I (f j)"
    and "\<And>j. j \<in> set js0 \<Longrightarrow> \<not> C j \<Longrightarrow> hit j = I j"
  shows "sql_count C js0 + sql_count I (sql_update C f js0) = length (filter hit js0)"
  using assms
proof (induction js0)
  case (Cons j js0)
  have IH: "sql_count C js0 + sql_count I (sql_update C f js0) = length (filter hit js0)"
    using Cons by simp
  show ?case
  proof (cases "C j")
    case True
    then have "hit j" "\<not> I (f j)" using Cons.prems(1) [of j] by simp_all
    with True IH show ?thesis by (simp add: sql_count_def)
  next
    case False
    then have "hit j = I j" using Cons.prems(2) [of j] by simp
    with False IH show ?thesis by (simp add: sql_count_def)
  qed
qed (simp add: sql_count_def)

section \<open>The methods\<close>

lemma resetUnsentDispatch_consistent:
  assumes wf: "store_wf db"
  shows "consistent (resetUnsentDispatch cfg now jobId leaseId db)"
  unfolding resetUnsentDispatch_def Let_def
proof (rule consistent_transaction, rule notI, goal_cases)
  case 1
  let ?P = "\<lambda>j. at_job cfg jobId j \<and> j_target_backend j = Hermes \<and> j_status j = Dispatching
      \<and> j_lease_id j = Some leaseId"
  let ?f = "\<lambda>j. j\<lparr>j_status := Acked, j_updated_at := now\<rparr>"
  let ?db1 = "update_jobs ?P ?f db"
  have w: "jobs_wf db" using wf by (simp add: store_wf_def)
  from 1 have c: "sql_count ?P (jobs db) = 1" by (auto split: if_splits)
  obtain j0 where j0: "j0 \<in> set (jobs db)" "?P j0" "jobs ?db1 = replace j0 (?f j0) (jobs db)"
    "find_job (scopeKey cfg) jobId ?db1 = Some (?f j0)"
    by (rule update_one_job [OF w _ c, where f = ?f]) auto
  from 1 c j0(4) obtain db2 where db2:
    "appendExecutionAttemptEventLocked cfg jobId (j_run_generation j0) EvNotSent (Some None)
       (Some (js ''connector request was proven not sent'')) now ?db1 = Inr db2"
    "sql_count (\<lambda>j. at_job cfg jobId j \<and> j_target_backend j = Hermes \<and> j_status j = Acked
       \<and> j_lease_id j = Some leaseId \<and> j_run_generation j = j_run_generation j0) (jobs db2) \<noteq> 1"
    using statement_consistent
    by (auto simp: bindR_Inl_iff require_job_iff split: if_splits)
  have d1: "distinct (map job_key (jobs ?db1))"
    unfolding j0(3) using w distinct_replace [of job_key "?f j0" j0] by (simp add: jobs_wf_def)
  obtain e where "appended (?f j0) EvNotSent e ?db1 db2" by (rule append_eventE [OF db2(1) d1 j0(4)])
  then have "jobs db2 = replace j0 (?f j0) (jobs db)" using j0(3) appendedD(1) by fastforce
  then have "sql_count (\<lambda>j. at_job cfg jobId j \<and> j_target_backend j = Hermes \<and> j_status j = Acked
       \<and> j_lease_id j = Some leaseId \<and> j_run_generation j = j_run_generation j0) (jobs db2) = 1"
    by (rule job_count [OF w _ j0(1)]) (use j0(2) in simp_all)
  with db2(2) show False by simp
qed

lemma fenced_count:
  assumes wf: "store_wf db" and j0: "at_job cfg jobId j0" "attempt_fenced db b l g T j0"
    and ses: "backend_sessions db' = backend_sessions db"
    and T': "\<And>t. T t \<Longrightarrow> T' t"
  shows "sql_count (carries_attempt cfg b jobId l g T') (backend_sessions db') = 1"
proof -
  from j0 obtain s where s: "s \<in> set (backend_sessions db)" "carries_attempt cfg b jobId l g T s"
    unfolding attempt_fenced_def carries_attempt_def sql_exists_iff by auto
  then have "carries_attempt cfg b jobId l g T' s" using T' by (simp add: carries_attempt_def)
  with s(1) show ?thesis
    unfolding ses using wf
    by (intro carried_count [of db _ "scopeKey cfg" jobId s]) (auto simp: store_wf_def carries_attempt_def)
qed

text \<open>The shape of the attempts of the durable backends, when they throw.\<close>

lemma backend_body_Inl:
  assumes wf: "jobs_wf db" and P: "\<And>j. P j \<Longrightarrow> at_job cfg jobId j"
    and f: "\<And>j. job_key (f j) = job_key j"
    and body: "(if sql_count P (jobs db) \<noteq> 1 then Inr x
       else bindR (appendExecutionAttemptEventLocked cfg jobId g t op reason now (update_jobs P f db))
              rest) = Inl InconsistentCommit"
  obtains j0 db2 e where "j0 \<in> set (jobs db)" "P j0" "jobs db2 = replace j0 (f j0) (jobs db)"
    "db2 = (update_jobs P f db)\<lparr>attempt_events := attempt_events db @ [e]\<rparr>"
    "rest db2 = Inl InconsistentCommit"
proof -
  let ?db1 = "update_jobs P f db"
  from body have c: "sql_count P (jobs db) = 1" by (auto split: if_splits)
  from update_one_job [OF wf P c f] obtain j0 where j0: "j0 \<in> set (jobs db)" "P j0"
    "jobs ?db1 = replace j0 (f j0) (jobs db)" "find_job (scopeKey cfg) jobId ?db1 = Some (f j0)"
    by blast
  from body c append_consistent obtain db2 where db2:
    "appendExecutionAttemptEventLocked cfg jobId g t op reason now ?db1 = Inr db2"
    "rest db2 = Inl InconsistentCommit"
    by (auto simp: bindR_Inl_iff)
  have "distinct (map job_key (jobs ?db1))"
    unfolding j0(3) using wf distinct_replace [of job_key, OF f] by (simp add: jobs_wf_def)
  from append_eventE [OF db2(1) this j0(4)] obtain e where "appended (f j0) t e ?db1 db2" by blast
  from appendedD(1) [OF this] have "db2 = ?db1\<lparr>attempt_events := attempt_events db @ [e]\<rparr>" by simp
  moreover from this have "jobs db2 = replace j0 (f j0) (jobs db)" using j0(3) by simp
  ultimately show thesis using that j0(1,2) db2(2) by blast
qed

lemma finishUnsentBackendCancellation_consistent:
  assumes wf: "store_wf db"
  shows "consistent (finishUnsentBackendCancellation cfg now jobId backend leaseId g db)"
  unfolding finishUnsentBackendCancellation_def Let_def
proof (intro consistent_after_opt consistent_transaction notI, erule backend_body_Inl [rotated 3], goal_cases)
  case (1 j0 db2 e)
  have "sql_count (carries_attempt cfg backend jobId leaseId g (\<lambda>t. t = None)) (backend_sessions db2) = 1"
    by (rule fenced_count [OF wf, where ?j0.0 = j0 and T = "\<lambda>t. t = None"]) (use 1(2,4) in auto)
  with 1(5) update_sessions_consistent show False by (auto simp: bindR_Inl_iff)
qed (use wf in \<open>auto simp: store_wf_def\<close>)

lemma resetUnsentBackendDispatch_consistent:
  assumes wf: "store_wf db"
  shows "consistent (resetUnsentBackendDispatch cfg now jobId backend leaseId g db)"
  unfolding resetUnsentBackendDispatch_def Let_def
proof (intro consistent_transaction notI, erule backend_body_Inl [rotated 3], goal_cases)
  case (1 j0 db2 e)
  let ?Q = "\<lambda>j. at_job cfg jobId j \<and> j_status j = Acked \<and> backend_name (j_target_backend j) = backend
      \<and> j_lease_id j = Some leaseId \<and> j_run_generation j = g"
  have w: "jobs_wf db" using wf by (simp add: store_wf_def)
  have q: "sql_count ?Q (jobs db2) = 1"
    by (rule job_count [OF w 1(3,1)]) (use 1(2) in simp_all)
  have "sql_count (carries_attempt cfg backend jobId leaseId g (\<lambda>t. t = None)) (backend_sessions db2) = 1"
    by (rule fenced_count [OF wf, where ?j0.0 = j0 and T = "\<lambda>t. t = None"]) (use 1(2,4) in auto)
  with 1(5) q update_sessions_consistent show False by (auto simp: bindR_Inl_iff)
qed (use wf in \<open>auto simp: store_wf_def\<close>)

lemma markBackendRecoveryTerminal_consistent:
  assumes wf: "store_wf db"
  shows "consistent (markBackendRecoveryTerminal cfg now jobId backend leaseId g turnId status reason db)"
  unfolding markBackendRecoveryTerminal_def Let_def
proof (intro consistent_after_opt consistent_transaction notI, erule backend_body_Inl [rotated 3], goal_cases)
  case (1 j0 db2 e)
  have "sql_count (carries_attempt cfg backend jobId leaseId g (turn_compatible turnId))
      (backend_sessions (quarantine_jobs (at_job cfg jobId) reason now db2)) = 1"
    by (rule fenced_count [OF wf, where ?j0.0 = j0 and T = "turn_compatible turnId"]) (use 1(2,4) in auto)
  with 1(5) update_sessions_consistent show False by (auto simp: bindR_Inl_iff)
qed (use wf in \<open>auto simp: store_wf_def\<close>)

lemma finishBackendWithOutbox_consistent:
  assumes wf: "store_wf db"
  shows "consistent (finishBackendWithOutbox cfg now jobId backend leaseId g turnId status resultJson err
    quarantineReason db)"
  unfolding finishBackendWithOutbox_def Let_def
proof (intro consistent_after_opt consistent_transaction notI, erule backend_body_Inl [rotated 3], goal_cases)
  case (1 j0 db2 e)
  let ?T = "\<lambda>t. t = Some turnId"
  let ?J = "\<lambda>d j. at_job cfg jobId j \<and> backend_name (j_target_backend j) = backend
      \<and> j_lease_id j = Some leaseId \<and> j_run_generation j = g \<and> attempt_fenced d backend leaseId g ?T j"
  from 1(5) upsertOutbox_consistent obtain db3 where up: "upsertOutbox cfg jobId resultJson now db2 = Inr db3"
    and rest: "bindR (case quarantineReason of None \<Rightarrow> Inr db3
        | Some reason \<Rightarrow> if sql_exists (\<lambda>j. at_job cfg jobId j
              \<and> quarantined (scopeKey cfg) (j_session_key j) (quarantine_jobs (?J db3) reason now db3))
              (jobs (quarantine_jobs (?J db3) reason now db3))
            then Inr (quarantine_jobs (?J db3) reason now db3) else Inl InconsistentCommit) (\<lambda>db4.
      bindR (update_sessions (carries_attempt cfg backend jobId leaseId g ?T)
          (\<lambda>s. (clear_attempt now s)\<lparr>s_recovery_required := False\<rparr>) db4) (\<lambda>db5.
        if sql_count (carries_attempt cfg backend jobId leaseId g ?T) (backend_sessions db4) \<noteq> 1
        then Inl InconsistentCommit else Inr (True, db5))) = Inl InconsistentCommit"
    by (auto simp: bindR_Inl_iff)
  have "jobs db3 = jobs db2 \<and> backend_sessions db3 = backend_sessions db2"
    using up by (cases rule: upsertOutbox_Inr) simp_all
  moreover have "backend_sessions db2 = backend_sessions db" by (simp add: 1(4))
  ultimately have f3: "jobs db3 = jobs db2" "backend_sessions db3 = backend_sessions db" by simp_all
  let ?k = "j0\<lparr>j_status := status, j_error := err, j_completed_at := Some now, j_updated_at := now\<rparr>"
  have k: "?k \<in> set (jobs db3)" using replace_in [OF 1(1)] by (simp add: f3 1(3))
  have "attempt_fenced db3 backend leaseId g ?T ?k = attempt_fenced db backend leaseId g ?T j0"
    by (simp add: attempt_fenced_def f3)
  with 1(2) have "?J db3 ?k" by simp
  then have q: "sql_exists (\<lambda>j. at_job cfg jobId j
      \<and> quarantined (scopeKey cfg) (j_session_key j) (quarantine_jobs (?J db3) reason now db3))
      (jobs (quarantine_jobs (?J db3) reason now db3))" for reason
    unfolding sql_exists_iff quarantine_jobs_frame quarantined_quarantine_jobs using k by blast
  have count: "sql_count (carries_attempt cfg backend jobId leaseId g ?T) (backend_sessions db4) = 1"
    if "backend_sessions db4 = backend_sessions db" for db4
    by (rule fenced_count [OF wf, where ?j0.0 = j0 and T = ?T]) (use 1(2) that in auto)
  have fin: "bindR (update_sessions (carries_attempt cfg backend jobId leaseId g ?T)
          (\<lambda>s. (clear_attempt now s)\<lparr>s_recovery_required := False\<rparr>) db4) (\<lambda>db5.
        if sql_count (carries_attempt cfg backend jobId leaseId g ?T) (backend_sessions db4) \<noteq> 1
        then Inl InconsistentCommit else Inr (True, db5)) \<noteq> Inl InconsistentCommit"
    if "backend_sessions db4 = backend_sessions db" for db4
    using count [OF that] update_sessions_consistent by (simp add: bindR_Inl_iff)
  show False
  proof (cases quarantineReason)
    case None
    from rest [unfolded None option.case bindR_simps] fin [OF f3(2)] show ?thesis by (rule notE [rotated])
  next
    case (Some reason)
    have "backend_sessions (quarantine_jobs (?J db3) reason now db3) = backend_sessions db"
      by (simp add: f3)
    from rest [unfolded Some option.case if_P [OF q] bindR_simps] fin [OF this] show ?thesis
      by (rule notE [rotated])
  qed
qed (use wf in \<open>auto simp: store_wf_def\<close>)

lemma claimForBackendDispatch_consistent:
  assumes wf: "store_wf db"
  shows "consistent (claimForBackendDispatch cfg now jobId backend connectorId leaseId db)"
  unfolding claimForBackendDispatch_def Let_def
proof (intro consistent_after_opt consistent_transaction notI, goal_cases)
  case 1
  let ?P = "\<lambda>j. at_job cfg jobId j \<and> backend_name (j_target_backend j) = backend \<and> dispatchable db j
      \<and> sql_exists (\<lambda>s. session_key s = (j_scope_key j, backend, j_session_key j)
           \<and> s_thread_id s \<noteq> None \<and> s_state_ownership s \<noteq> None
           \<and> s_active_job_id s = None \<and> \<not> s_recovery_required s) (backend_sessions db)"
  let ?f = "claim_row now connectorId leaseId"
  let ?db1 = "update_jobs ?P ?f db"
  let ?R = "\<lambda>x s. at_session cfg backend (j_session_key x) s \<and> s_thread_id s \<noteq> None
      \<and> s_active_job_id s = None \<and> \<not> s_recovery_required s"
  have w: "jobs_wf db" "sessions_wf db" using wf by (auto simp: store_wf_def)
  from 1 have c: "sql_count ?P (jobs db) = 1" by (auto split: if_splits)
  obtain j0 where j0: "j0 \<in> set (jobs db)" "?P j0" "jobs ?db1 = replace j0 (?f j0) (jobs db)"
    "find_job (scopeKey cfg) jobId ?db1 = Some (?f j0)"
    by (rule update_one_job [OF w(1) _ c, where f = ?f]) (auto simp: claim_row_def)
  have d1: "distinct (map job_key (jobs ?db1))"
    unfolding j0(3) using w(1) distinct_replace [of job_key "?f j0" j0]
    by (simp add: jobs_wf_def claim_row_def)
  have k: "?f j0 \<in> set (jobs ?db1)" "at_job cfg jobId (?f j0)"
    using find_Some_in [OF j0(4) [unfolded find_job_def]] by auto
  let ?F = "\<lambda>j. at_job cfg jobId j \<and> j_lease_id j = Some leaseId \<and> j_status j = Dispatching"
  have found: "find ?F (jobs ?db1) = Some (?f j0)"
  proof (cases "find ?F (jobs ?db1)")
    case None
    then have "\<not> ?F (?f j0)" using k(1) by (simp add: find_None_all)
    with k(2) show ?thesis by (simp add: claim_row_def)
  next
    case (Some x)
    with find_Some_in [OF Some] key_unique [OF d1, of x "?f j0"] k show ?thesis by simp
  qed
  from j0(2) obtain s where s: "s \<in> set (backend_sessions db)" "?R (?f j0) s"
    by (auto simp: claim_row_def)
  have "distinct (map session_key (backend_sessions db))"
    using w(2) by (simp add: sessions_wf_def sessions_unique_def)
  then have "sql_count (?R (?f j0)) (backend_sessions db) = 1"
    using sql_count_1_iff [of session_key "backend_sessions db" "?R (?f j0)"
        "(scopeKey cfg, backend, j_session_key (?f j0))"] s by blast
  with 1 c found update_sessions_consistent append_consistent show False
    by (auto simp: bindR_Inl_iff split: if_splits)
qed

lemma markBackendRunning_consistent:
  assumes wf: "store_wf db"
  shows "consistent (markBackendRunning cfg now jobId backend leaseId g turnId db)"
  unfolding markBackendRunning_def Let_def
proof (intro consistent_after_opt consistent_transaction notI, goal_cases)
  case 1
  let ?T = "\<lambda>t. t = None"
  let ?P = "\<lambda>j. at_job cfg jobId j \<and> j_status j = Dispatching
      \<and> backend_name (j_target_backend j) = backend \<and> j_lease_id j = Some leaseId
      \<and> j_run_generation j = g \<and> \<not> j_cancel_requested j \<and> attempt_fenced db backend leaseId g ?T j"
  show False
  proof (cases "sql_count ?P (jobs db) = 1")
    case True
    have w: "jobs_wf db" using wf by (simp add: store_wf_def)
    obtain j0 where "?P j0" by (rule sql_update_single [OF True])
    then have "sql_count (carries_attempt cfg backend jobId leaseId g ?T) (backend_sessions db) = 1"
      by (intro fenced_count [OF wf, where ?j0.0 = j0 and T = ?T]) auto
    with 1 True update_sessions_consistent append_consistent show ?thesis
      by (auto simp: bindR_Inl_iff split: if_splits)
  next
    case False
    with 1 update_sessions_consistent append_consistent show ?thesis
      by (auto simp: bindR_Inl_iff split: if_splits)
  qed
qed

lemma markConnectorDisconnected_consistent:
  "consistent (markConnectorDisconnected cfg now connectorId db)"
  unfolding markConnectorDisconnected_def Let_def
proof (intro consistent_transaction notI, goal_cases)
  case 1
  let ?mine = "\<lambda>j. j_scope_key j = scopeKey cfg \<and> j_connector_id j = Some connectorId
      \<and> j_target_backend j = Hermes"
  let ?C = "\<lambda>j. ?mine j \<and> j_status j = Cancelling"
  let ?I = "\<lambda>j. ?mine j \<and> j_status j \<in> {Dispatching, Running}"
  let ?f = "\<lambda>j. j\<lparr>j_status := CancelUnknown, j_error := coalesce (j_error j)
      (Some (js ''connector disconnected during cancellation'')), j_completed_at := Some now, j_updated_at := now\<rparr>"
  have "sql_count ?C (jobs db) + sql_count ?I (sql_update ?C ?f (jobs db))
      = length (filter (\<lambda>j. ?mine j \<and> active_status (j_status j)) (jobs db))"
    by (rule two_counts) (auto elim: active_status.elims)
  with 1 show False
    by (auto simp: bindR_Inl_iff eachR_consistent append_consistent)
qed

lemma recoverAfterRestart_consistent:
  "consistent (recoverAfterRestart cfg now db)"
  unfolding recoverAfterRestart_def Let_def
proof (intro consistent_transaction notI, goal_cases)
  case 1
  let ?mine = "\<lambda>j. j_scope_key j = scopeKey cfg"
  let ?C = "\<lambda>j. ?mine j \<and> j_status j = Cancelling"
  let ?I = "\<lambda>j. ?mine j \<and> j_status j \<in> {Dispatching, Running}"
  let ?f = "\<lambda>j. j\<lparr>j_status := CancelUnknown, j_completed_at := Some now, j_updated_at := now\<rparr>"
  let ?js = "jobs (trimLegacyPendingCancelOverflowLocked
      (consumeAllMatchedPendingCancelsLocked cfg now (pruneExpiredPendingCancelsLocked now db)))"
  have "sql_count ?C ?js + sql_count ?I (sql_update ?C ?f ?js)
      = length (filter (\<lambda>j. ?mine j \<and> active_status (j_status j)) ?js)"
    by (rule two_counts) (auto elim: active_status.elims)
  with 1 update_sessions_consistent show False
    by (auto simp: bindR_Inl_iff eachR_consistent append_consistent update_sessions_Inr split: if_splits)
qed

end
