(* ===== verification/Json_Value.thy ===== *)
theory Json_Value
  imports Json_Text
begin

text \<open>
  JSON values as the program handles them: \<open>JSON.parse\<close> and \<open>JSON.stringify\<close> of the
  language, property access and property update on objects.

  \<^item> An object is the list of its own properties in JavaScript's order: array-index keys
    ascending, then the other keys in the order of their insertion (\<open>jput\<close>).
  \<^item> A number is held as the text \<open>Number.prototype.toString\<close> gives of the double; \<open>num\<close>
    is the conversion of a literal to that text, the floating-point part of the language.
  \<^item> The reader runs on fuel; \<open>json_parse\<close> supplies \<open>2 * length s + 1\<close>, and
    \<open>parse_value_fuel\<close> shows that no further fuel changes its answer.
\<close>

datatype json =
  JNull | JBool bool | JNum jstring | JStr jstring | JArr "json list"
| JObj "(jstring \<times> json) list"

type_synonym jobject = "(jstring \<times> json) list"

section \<open>Properties of objects\<close>

definition is_digit :: "16 word \<Rightarrow> bool" where
  "is_digit u \<longleftrightarrow> 0x30 \<le> u \<and> u \<le> 0x39"

definition digits_value :: "jstring \<Rightarrow> nat" where
  "digits_value ds = foldl (\<lambda>a d. 10 * a + (unat d - 0x30)) 0 ds"

text \<open>An array index: the canonical decimal text of a number below \<open>2 ^ 32 - 1\<close>.\<close>

definition index_key :: "jstring \<Rightarrow> nat option" where
  "index_key k =
     (if k \<noteq> [] \<and> length k \<le> 10 \<and> list_all is_digit k \<and> (hd k \<noteq> 0x30 \<or> length k = 1)
         \<and> digits_value k < 4294967295
      then Some (digits_value k) else None)"

definition index_before :: "nat \<Rightarrow> jstring \<times> json \<Rightarrow> bool" where
  "index_before i p = (case index_key (fst p) of None \<Rightarrow> False | Some j \<Rightarrow> j < i)"

definition jput :: "jstring \<Rightarrow> json \<Rightarrow> jobject \<Rightarrow> jobject" where
  "jput k v kvs =
     (if k \<in> set (map fst kvs) then map (\<lambda>p. if fst p = k then (k, v) else p) kvs
      else case index_key k of
        None \<Rightarrow> kvs @ [(k, v)]
      | Some i \<Rightarrow> takeWhile (index_before i) kvs @ (k, v) # dropWhile (index_before i) kvs)"

definition js_object :: "(jstring \<times> json) list \<Rightarrow> jobject" where
  "js_object kvs = foldl (\<lambda>acc p. jput (fst p) (snd p) acc) [] kvs"

definition jget :: "jstring \<Rightarrow> jobject \<Rightarrow> json option" where
  "jget k kvs = map_of kvs k"

lemma jget_Nil [simp]: "jget k [] = None"
  by (simp add: jget_def)

lemma map_of_replace:
  "map_of (map (\<lambda>p. if fst p = k' then (k', v) else p) kvs) k =
     (if k = k' \<and> k' \<in> fst ` set kvs then Some v else if k = k' then None else map_of kvs k)"
  by (induction kvs) (auto simp del: fst_conv simp: fst_def split: prod.splits)

lemma map_of_insert:
  "k' \<notin> fst ` set kvs \<Longrightarrow>
     map_of (takeWhile P kvs @ (k', v) # dropWhile P kvs) k = (if k = k' then Some v else map_of kvs k)"
  by (induction kvs) auto

lemma jget_jput [simp]: "jget k (jput k' v kvs) = (if k = k' then Some v else jget k kvs)"
proof (cases "k' \<in> set (map fst kvs)")
  case True
  then show ?thesis
    using map_of_replace [of k' v kvs k] by (simp add: jget_def jput_def)
next
  case False
  then have "map_of (kvs @ [(k', v)]) k = (if k = k' then Some v else map_of kvs k)"
    by (induction kvs) auto
  with False show ?thesis
    by (cases "index_key k'")
      (simp_all add: jget_def jput_def map_of_insert del: map_of_append)
qed

lemma jput_other: "k \<notin> set (map fst kvs) \<Longrightarrow> index_key k = None \<Longrightarrow> jput k v kvs = kvs @ [(k, v)]"
  by (simp add: jput_def)

lemma js_object_plain:
  assumes "distinct (map fst kvs)" "\<forall>k \<in> set (map fst kvs). index_key k = None"
  shows "js_object kvs = kvs"
proof -
  have "foldl (\<lambda>acc p. jput (fst p) (snd p) acc) acc qs = acc @ qs"
    if "distinct (map fst (acc @ qs))" "\<forall>k \<in> set (map fst qs). index_key k = None" for acc qs
    using that
  proof (induction qs arbitrary: acc)
    case (Cons p qs)
    then show ?case using jput_other [of "fst p" acc "snd p"] by simp
  qed simp
  from this [of "[]" kvs] assms show ?thesis
    by (simp add: js_object_def)
qed

section \<open>\<open>JSON.stringify\<close>\<close>

fun commas :: "jstring list \<Rightarrow> jstring" where
  "commas [] = []"
| "commas [x] = x"
| "commas (x # y # r) = x @ 0x2C # commas (y # r)"

fun json_stringify :: "json \<Rightarrow> jstring" where
  "json_stringify JNull = js ''null''"
| "json_stringify (JBool b) = (if b then js ''true'' else js ''false'')"
| "json_stringify (JNum t) =
     (if t = js ''Infinity'' \<or> t = js ''-Infinity'' then js ''null'' else t)"
| "json_stringify (JStr s) = json_quote s"
| "json_stringify (JArr vs) = 0x5B # commas (map json_stringify vs) @ [0x5D]"
| "json_stringify (JObj kvs) =
     0x7B # commas (map (\<lambda>(k, v). json_quote k @ 0x3A # json_stringify v) kvs) @ [0x7D]"

section \<open>\<open>JSON.parse\<close>\<close>

definition is_json_space :: "16 word \<Rightarrow> bool" where
  "is_json_space u \<longleftrightarrow> u = 0x20 \<or> u = 0x09 \<or> u = 0x0A \<or> u = 0x0D"

definition skip_ws :: "jstring \<Rightarrow> jstring" where
  "skip_ws s = dropWhile is_json_space s"

text \<open>The number grammar: integer part, fraction and exponent.\<close>

definition lex_int :: "jstring \<Rightarrow> (jstring \<times> jstring) option" where
  "lex_int s =
     (case s of
        [] \<Rightarrow> None
      | d # r \<Rightarrow>
          if d = 0x30 then Some ([d], r)
          else if is_digit d then Some (takeWhile is_digit s, dropWhile is_digit s)
          else None)"

definition lex_digits :: "jstring \<Rightarrow> (jstring \<times> jstring) option" where
  "lex_digits s =
     (if takeWhile is_digit s = [] then None
      else Some (takeWhile is_digit s, dropWhile is_digit s))"

definition lex_frac :: "jstring \<Rightarrow> (jstring \<times> jstring) option" where
  "lex_frac s =
     (case s of
        [] \<Rightarrow> Some ([], [])
      | d # r \<Rightarrow> if d = 0x2E then map_option (apfst ((#) d)) (lex_digits r) else Some ([], s))"

definition lex_exp :: "jstring \<Rightarrow> (jstring \<times> jstring) option" where
  "lex_exp s =
     (case s of
        [] \<Rightarrow> Some ([], [])
      | d # r \<Rightarrow>
          if d = 0x65 \<or> d = 0x45 then
            (case r of
               [] \<Rightarrow> None
             | c # r' \<Rightarrow>
                 if c = 0x2B \<or> c = 0x2D then map_option (apfst (\<lambda>t. d # c # t)) (lex_digits r')
                 else map_option (apfst ((#) d)) (lex_digits r))
          else Some ([], s))"

definition lex_then ::
  "(jstring \<times> jstring) option \<Rightarrow> (jstring \<Rightarrow> (jstring \<times> jstring) option) \<Rightarrow> (jstring \<times> jstring) option" where
  "lex_then m k = (case m of None \<Rightarrow> None | Some (t, r) \<Rightarrow> map_option (apfst ((@) t)) (k r))"

definition json_lexeme :: "jstring \<Rightarrow> (jstring \<times> jstring) option" where
  "json_lexeme s =
     (let (sign, r) = (case s of [] \<Rightarrow> ([], s) | c # r \<Rightarrow> if c = 0x2D then ([c], r) else ([], s))
      in lex_then (lex_then (lex_then (Some (sign, r)) lex_int) lex_frac) lex_exp)"

fun parse_value :: "(jstring \<Rightarrow> jstring) \<Rightarrow> nat \<Rightarrow> jstring \<Rightarrow> (json \<times> jstring) option"
  and parse_elems :: "(jstring \<Rightarrow> jstring) \<Rightarrow> nat \<Rightarrow> jstring \<Rightarrow> (json list \<times> jstring) option"
  and parse_members ::
    "(jstring \<Rightarrow> jstring) \<Rightarrow> nat \<Rightarrow> jstring \<Rightarrow> ((jstring \<times> json) list \<times> jstring) option" where
  "parse_value num 0 s = None"
| "parse_value num (Suc n) s =
     (case skip_ws s of
        [] \<Rightarrow> None
      | c # r \<Rightarrow>
          if c = 0x7B then
            (case skip_ws r of
               [] \<Rightarrow> None
             | d # r' \<Rightarrow>
                 if d = 0x7D then Some (JObj [], r')
                 else map_option (apfst (\<lambda>kvs. JObj (js_object kvs))) (parse_members num n (d # r')))
          else if c = 0x5B then
            (case skip_ws r of
               [] \<Rightarrow> None
             | d # r' \<Rightarrow>
                 if d = 0x5D then Some (JArr [], r')
                 else map_option (apfst JArr) (parse_elems num n (d # r')))
          else if c = 0x22 then map_option (apfst JStr) (json_read r)
          else if take 4 (c # r) = js ''null'' then Some (JNull, drop 4 (c # r))
          else if take 4 (c # r) = js ''true'' then Some (JBool True, drop 4 (c # r))
          else if take 5 (c # r) = js ''false'' then Some (JBool False, drop 5 (c # r))
          else map_option (apfst (\<lambda>t. JNum (num t))) (json_lexeme (c # r)))"
| "parse_elems num 0 s = None"
| "parse_elems num (Suc n) s =
     (case parse_value num n s of
        None \<Rightarrow> None
      | Some (v, r) \<Rightarrow>
          (case skip_ws r of
             [] \<Rightarrow> None
           | c # r' \<Rightarrow>
               if c = 0x5D then Some ([v], r')
               else if c = 0x2C then map_option (apfst ((#) v)) (parse_elems num n r')
               else None))"
| "parse_members num 0 s = None"
| "parse_members num (Suc n) s =
     (case skip_ws s of
        [] \<Rightarrow> None
      | q # r \<Rightarrow>
          if q \<noteq> 0x22 then None
          else (case json_read r of
             None \<Rightarrow> None
           | Some (k, r1) \<Rightarrow>
               (case skip_ws r1 of
                  [] \<Rightarrow> None
                | c # r2 \<Rightarrow>
                    if c \<noteq> 0x3A then None
                    else (case parse_value num n r2 of
                       None \<Rightarrow> None
                     | Some (v, r3) \<Rightarrow>
                         (case skip_ws r3 of
                            [] \<Rightarrow> None
                          | d # r4 \<Rightarrow>
                              if d = 0x7D then Some ([(k, v)], r4)
                              else if d = 0x2C
                                then map_option (apfst ((#) (k, v))) (parse_members num n r4)
                              else None)))))"

definition json_parse :: "(jstring \<Rightarrow> jstring) \<Rightarrow> jstring \<Rightarrow> json option" where
  "json_parse num s =
     (case parse_value num (2 * length s + 1) s of
        None \<Rightarrow> None
      | Some (v, r) \<Rightarrow> if skip_ws r = [] then Some v else None)"


section \<open>Fuel\<close>

lemma length_skip_ws: "length (skip_ws s) \<le> length s"
  by (simp add: skip_ws_def length_dropWhile_le)

lemma skip_ws_Cons: "skip_ws s = c # r \<Longrightarrow> length r < length s"
  using length_skip_ws [of s] by simp

lemma json_cons_Some: "json_cons u m = Some (s, r) \<Longrightarrow> \<exists>t. m = Some (t, r)"
  by (auto simp: json_cons_def split: option.splits)

lemma json_read_shorter: "json_read s = Some (t, r) \<Longrightarrow> length r < length s"
proof (induction s arbitrary: t r rule: json_read.induct)
  case (2 u s)
  then show ?case
    by (force split: if_splits list.splits dest!: json_cons_Some)
qed simp

lemma length_dropWhile_digit: "takeWhile P s \<noteq> [] \<Longrightarrow> length (dropWhile P s) < length s"
  by (cases s) (auto simp: length_dropWhile_le less_Suc_eq_le split: if_splits)

lemma lex_shorter:
  "lex_int s = Some (t, r) \<Longrightarrow> length r < length s"
  "lex_digits s = Some (t, r) \<Longrightarrow> length r < length s"
  "lex_frac s = Some (t, r) \<Longrightarrow> length r \<le> length s"
  "lex_exp s = Some (t, r) \<Longrightarrow> length r \<le> length s"
proof -
  show int: "lex_int s = Some (t, r) \<Longrightarrow> length r < length s"
    by (auto simp: lex_int_def length_dropWhile_le less_Suc_eq_le split: list.splits if_splits)
  have digits: "lex_digits x = Some (t', r) \<Longrightarrow> length r < length x" for x t'
    by (auto simp: lex_digits_def length_dropWhile_digit split: if_splits)
  then show "lex_digits s = Some (t, r) \<Longrightarrow> length r < length s" .
  show "lex_frac s = Some (t, r) \<Longrightarrow> length r \<le> length s"
    by (auto simp: lex_frac_def split: list.splits if_splits dest!: digits)
  show "lex_exp s = Some (t, r) \<Longrightarrow> length r \<le> length s"
    by (auto simp: lex_exp_def split: list.splits if_splits dest!: digits)
qed

lemma lex_then_Some:
  "lex_then m k = Some (t, r) \<longleftrightarrow> (\<exists>a s b. m = Some (a, s) \<and> k s = Some (b, r) \<and> t = a @ b)"
  by (auto simp: lex_then_def split: option.splits)

lemma json_lexeme_shorter: "json_lexeme s = Some (t, r) \<Longrightarrow> length r < length s"
  by (fastforce simp: json_lexeme_def lex_then_Some split: list.splits if_splits
      dest!: lex_shorter)

lemma parse_shorter:
  "parse_value num n s = Some (v, r) \<Longrightarrow> length r < length s"
  "parse_elems num n s = Some (vs, r) \<Longrightarrow> length r < length s"
  "parse_members num n s = Some (kvs, r) \<Longrightarrow> length r < length s"
proof (induction num n s and num n s and num n s arbitrary: v r and vs r and kvs r
    rule: parse_value_parse_elems_parse_members.induct)
  case (2 num n s)
  show ?case
  proof (cases "skip_ws s")
    case Nil
    with 2 show ?thesis by simp
  next
    case (Cons c r')
    have len: "length r' < length s" by (rule skip_ws_Cons [OF Cons])
    show ?thesis
      using 2 Cons len
      by (fastforce split: list.splits if_splits dest!: skip_ws_Cons json_read_shorter
          json_lexeme_shorter)
  qed
next
  case (4 num n s)
  then show ?case
    by (fastforce split: option.splits list.splits if_splits dest!: skip_ws_Cons)
next
  case (6 num n s)
  then show ?case
    by (fastforce split: option.splits list.splits if_splits dest!: skip_ws_Cons json_read_shorter)
qed simp_all

lemma parse_fuel_step:
  "2 * length s + 1 \<le> n \<Longrightarrow> parse_value num (Suc n) s = parse_value num n s"
  "2 * length s + 2 \<le> n \<Longrightarrow> parse_elems num (Suc n) s = parse_elems num n s"
  "2 * length s + 2 \<le> n \<Longrightarrow> parse_members num (Suc n) s = parse_members num n s"
proof (induction num n s and num n s and num n s
    rule: parse_value_parse_elems_parse_members.induct)
  case (2 num n s)
  show ?case
  proof (cases "skip_ws s")
    case Nil
    then show ?thesis by simp
  next
    case (Cons c r)
    have len: "length r < length s" by (rule skip_ws_Cons [OF Cons])
    show ?thesis
    proof (cases "skip_ws r")
      case Nil
      then show ?thesis using Cons by (simp del: parse_value.simps(2) add: parse_value.simps(2))
    next
      case r: (Cons d r')
      have "length r' < length r" by (rule skip_ws_Cons [OF r])
      with len 2 have
        "c = 0x7B \<Longrightarrow> d \<noteq> 0x7D \<Longrightarrow>
           parse_members num (Suc n) (d # r') = parse_members num n (d # r')"
        "c = 0x5B \<Longrightarrow> d \<noteq> 0x5D \<Longrightarrow>
           parse_elems num (Suc n) (d # r') = parse_elems num n (d # r')"
        by (simp_all del: parse_elems.simps parse_members.simps add: Cons r)
      then show ?thesis
        unfolding parse_value.simps(2) [of num "Suc n"] parse_value.simps(2) [of num n] Cons
        by (cases "c = 0x7B"; cases "d = 0x7D"; cases "d = 0x5D")
          (simp_all add: r del: parse_elems.simps parse_members.simps)
    qed
  qed
next
  case (4 num n s)
  have "parse_value num (Suc n) s = parse_value num n s"
    using 4 by simp
  moreover have "parse_elems num (Suc n) r' = parse_elems num n r'"
    if "parse_value num n s = Some (v, r)" "skip_ws r = 0x2C # r'" for v r r'
    using 4 that parse_shorter(1) [OF that(1)] skip_ws_Cons [OF that(2)] by simp
  ultimately show ?case
    unfolding parse_elems.simps(2) [of num "Suc n"] parse_elems.simps(2) [of num n]
    by (simp split: option.splits list.splits)
next
  case (6 num n s)
  have "parse_value num (Suc n) r2 = parse_value num n r2"
    if "skip_ws s = 0x22 # r" "json_read r = Some (k, r1)" "skip_ws r1 = 0x3A # r2" for r k r1 r2
    using 6 that json_read_shorter [OF that(2)] skip_ws_Cons [OF that(1)] skip_ws_Cons [OF that(3)]
    by simp
  moreover have "parse_members num (Suc n) r4 = parse_members num n r4"
    if "skip_ws s = 0x22 # r" "json_read r = Some (k, r1)" "skip_ws r1 = 0x3A # r2"
      "parse_value num n r2 = Some (v, r3)" "skip_ws r3 = 0x2C # r4" for r k r1 r2 v r3 r4
    using 6 that json_read_shorter [OF that(2)] skip_ws_Cons [OF that(1)] skip_ws_Cons [OF that(3)]
      parse_shorter(1) [OF that(4)] skip_ws_Cons [OF that(5)]
    by simp
  ultimately show ?case
    unfolding parse_members.simps(2) [of num "Suc n"] parse_members.simps(2) [of num n]
    by (simp split: option.splits list.splits)
qed simp_all

lemma parse_value_fuel:
  "2 * length s + 1 \<le> n \<Longrightarrow> parse_value num n s = parse_value num (2 * length s + 1) s"
proof (induction n rule: dec_induct)
  case (step n)
  then show ?case using parse_fuel_step(1) [of s n num] by simp
qed simp

section \<open>Reading back what was written\<close>

text \<open>A value \<open>JSON.parse\<close> can produce: numbers in their canonical finite text, the
  properties of each object distinct and in JavaScript's order.\<close>

fun json_ok :: "(jstring \<Rightarrow> jstring) \<Rightarrow> json \<Rightarrow> bool" where
  "json_ok num (JNum t) \<longleftrightarrow> num t = t \<and> json_lexeme t = Some (t, [])"
| "json_ok num (JArr vs) \<longleftrightarrow> list_all (json_ok num) vs"
| "json_ok num (JObj kvs) \<longleftrightarrow> js_object kvs = kvs \<and> list_all (\<lambda>(k, v). json_ok num v) kvs"
| "json_ok num _ \<longleftrightarrow> True"

text \<open>What follows a number must not be read as part of it.\<close>

definition ends_number :: "jstring \<Rightarrow> bool" where
  "ends_number r \<longleftrightarrow>
     (case r of [] \<Rightarrow> True
      | u # _ \<Rightarrow> \<not> is_digit u \<and> u \<noteq> 0x2E \<and> u \<noteq> 0x65 \<and> u \<noteq> 0x45)"

lemma ends_number_simps [simp]:
  "ends_number []"
  "ends_number (0x2C # r)" "ends_number (0x5D # r)" "ends_number (0x7D # r)"
  by (simp_all add: ends_number_def is_digit_def)

lemma digits_append:
  assumes "ends_number r"
  shows "takeWhile is_digit (s @ r) = takeWhile is_digit s"
    "dropWhile is_digit (s @ r) = dropWhile is_digit s @ r"
proof -
  have "takeWhile is_digit r = [] \<and> dropWhile is_digit r = r"
    using assms by (cases r) (auto simp: ends_number_def)
  then show "takeWhile is_digit (s @ r) = takeWhile is_digit s"
    "dropWhile is_digit (s @ r) = dropWhile is_digit s @ r"
    by (induction s) auto
qed

lemma lex_append:
  assumes r: "ends_number r"
  shows "lex_int s = Some (t, q) \<Longrightarrow> lex_int (s @ r) = Some (t, q @ r)"
    "lex_digits s = Some (t, q) \<Longrightarrow> lex_digits (s @ r) = Some (t, q @ r)"
    "lex_frac s = Some (t, q) \<Longrightarrow> lex_frac (s @ r) = Some (t, q @ r)"
    "lex_exp s = Some (t, q) \<Longrightarrow> lex_exp (s @ r) = Some (t, q @ r)"
proof -
  note ext = digits_append [OF r]
  show "lex_int s = Some (t, q) \<Longrightarrow> lex_int (s @ r) = Some (t, q @ r)"
    using ext [of s] by (cases s) (auto simp: lex_int_def split: if_splits)
  have digits: "lex_digits x = Some (t', q) \<Longrightarrow> lex_digits (x @ r) = Some (t', q @ r)" for x t'
    using ext [of x] by (auto simp: lex_digits_def split: if_splits)
  then show "lex_digits s = Some (t, q) \<Longrightarrow> lex_digits (s @ r) = Some (t, q @ r)" .
  have empty: "lex_frac r = Some ([], r)" "lex_exp r = Some ([], r)"
    using r by (auto simp: lex_frac_def lex_exp_def ends_number_def split: list.splits)
  show "lex_frac s = Some (t, q) \<Longrightarrow> lex_frac (s @ r) = Some (t, q @ r)"
    using empty by (cases s) (auto simp: lex_frac_def split: if_splits dest!: digits)
  show "lex_exp s = Some (t, q) \<Longrightarrow> lex_exp (s @ r) = Some (t, q @ r)"
    using empty digits [of "tl (tl s)"] digits [of "tl s"]
    by (cases s; cases "tl s") (auto simp: lex_exp_def lex_digits_def split: if_splits)
qed

lemma json_lexeme_hd:
  "json_lexeme s = Some (t, q) \<Longrightarrow> \<exists>c s'. s = c # s' \<and> (c = 0x2D \<or> is_digit c)"
  by (cases s) (auto simp: json_lexeme_def lex_then_Some lex_int_def is_digit_def
      split: if_splits list.splits)

lemma json_lexeme_append:
  assumes "json_lexeme s = Some (t, q)" "ends_number r"
  shows "json_lexeme (s @ r) = Some (t, q @ r)"
proof -
  from json_lexeme_hd [OF assms(1)] obtain c s' where s: "s = c # s'" by blast
  show ?thesis
    using assms(1) lex_append [OF assms(2)]
    by (fastforce simp: json_lexeme_def lex_then_Some s split: if_splits)
qed

lemma skip_ws_solid: "\<not> is_json_space c \<Longrightarrow> skip_ws (c # r) = c # r"
  by (simp add: skip_ws_def)

lemma solid [simp]:
  "\<not> is_json_space 0x22" "\<not> is_json_space 0x2C" "\<not> is_json_space 0x3A" "\<not> is_json_space 0x5B"
  "\<not> is_json_space 0x5D" "\<not> is_json_space 0x7B" "\<not> is_json_space 0x7D" "\<not> is_json_space 0x2D"
  "\<not> is_json_space 0x6E" "\<not> is_json_space 0x74" "\<not> is_json_space 0x66"
  by (simp_all add: is_json_space_def)

lemma digit_solid: "is_digit c \<Longrightarrow> \<not> is_json_space c"
  by (auto simp: is_json_space_def is_digit_def word_le_nat_alt)

lemma digit_not:
  "is_digit c \<Longrightarrow> c \<notin> {0x7B, 0x5B, 0x22, 0x6E, 0x74, 0x66}"
  by (auto simp: is_digit_def word_le_nat_alt)

lemma json_lexeme_not_infinity:
  "json_lexeme (js ''Infinity'') = None" "json_lexeme (js ''-Infinity'') = None"
  by code_simp+

lemma stringify_JNum: "json_ok num (JNum t) \<Longrightarrow> json_stringify (JNum t) = t"
  using json_lexeme_not_infinity by auto

lemma lexeme_solid:
  assumes "json_lexeme t = Some (t, [])"
  shows "\<exists>c r. t = c # r \<and> \<not> is_json_space c \<and> c \<noteq> 0x5D \<and> c \<noteq> 0x7D"
proof -
  from json_lexeme_hd [OF assms] obtain c s where t: "t = c # s" "c = 0x2D \<or> is_digit c"
    by auto
  have "\<not> is_json_space c" "c \<noteq> 0x5D" "c \<noteq> 0x7D"
    using t(2) digit_solid [of c] by (auto simp: is_digit_def word_le_nat_alt)
  with t show ?thesis by simp
qed

lemma stringify_solid:
  assumes "json_ok num v"
  shows "\<exists>c r. json_stringify v = c # r \<and> \<not> is_json_space c \<and> c \<noteq> 0x5D \<and> c \<noteq> 0x7D"
proof (cases v)
  case (JNum t)
  with assms stringify_JNum [of num t] lexeme_solid [of t] show ?thesis by simp
qed (auto simp: json_quote_def js_def)

definition reads_back :: "(jstring \<Rightarrow> jstring) \<Rightarrow> json \<Rightarrow> bool" where
  "reads_back num v \<longleftrightarrow>
     (\<forall>n r. ends_number r \<longrightarrow> 2 * length (json_stringify v @ r) + 1 \<le> n
        \<longrightarrow> parse_value num n (json_stringify v @ r) = Some (v, r))"

lemma reads_backD:
  "reads_back num v \<Longrightarrow> ends_number r \<Longrightarrow> 2 * length (json_stringify v @ r) + 1 \<le> n
     \<Longrightarrow> parse_value num n (json_stringify v @ r) = Some (v, r)"
  by (simp add: reads_back_def)

lemma elems_read_back:
  assumes "vs \<noteq> []" "\<forall>v \<in> set vs. reads_back num v"
    "2 * length (commas (map json_stringify vs) @ 0x5D # r) + 2 \<le> n"
  shows "parse_elems num n (commas (map json_stringify vs) @ 0x5D # r) = Some (vs, r)"
  using assms
proof (induction vs arbitrary: n rule: induct_list012)
  case (2 v)
  then obtain m where m: "n = Suc m" by (cases n) auto
  show ?case
    using 2 reads_backD [of num v "0x5D # r" m] by (simp add: m skip_ws_solid)
next
  case (3 v w vs)
  let ?rest = "commas (map json_stringify (w # vs)) @ 0x5D # r"
  from 3 obtain m where m: "n = Suc m" by (cases n) auto
  have "parse_value num m (json_stringify v @ 0x2C # ?rest) = Some (v, 0x2C # ?rest)"
    using 3 by (intro reads_backD) (auto simp: m)
  moreover have "parse_elems num m ?rest = Some (w # vs, r)"
    using 3 by (intro "3.IH"(2)) (auto simp: m)
  ultimately show ?case
    by (simp add: m skip_ws_solid)
qed simp

lemma members_read_back:
  assumes "kvs \<noteq> []" "\<forall>(k, v) \<in> set kvs. reads_back num v"
    "2 * length (commas (map (\<lambda>(k, v). json_quote k @ 0x3A # json_stringify v) kvs) @ 0x7D # r) + 2 \<le> n"
  shows "parse_members num n
      (commas (map (\<lambda>(k, v). json_quote k @ 0x3A # json_stringify v) kvs) @ 0x7D # r) = Some (kvs, r)"
  using assms
proof (induction kvs arbitrary: n rule: induct_list012)
  case (2 p)
  obtain k v where p: "p = (k, v)" by (cases p)
  from 2 obtain m where m: "n = Suc m" by (cases n) auto
  show ?case
    using 2 reads_backD [of num v "0x7D # r" m]
    by (simp add: m p skip_ws_solid json_quote_def json_read_escape)
next
  case (3 p q kvs)
  let ?txt = "\<lambda>(k, v). json_quote k @ 0x3A # json_stringify v"
  let ?rest = "commas (map ?txt (q # kvs)) @ 0x7D # r"
  obtain k v where p: "p = (k, v)" by (cases p)
  from 3 obtain m where m: "n = Suc m" by (cases n) auto
  have "parse_value num m (json_stringify v @ 0x2C # ?rest) = Some (v, 0x2C # ?rest)"
    using 3 by (intro reads_backD) (auto simp: m p)
  moreover have "parse_members num m ?rest = Some (q # kvs, r)"
    using 3 by (intro "3.IH"(2)) (auto simp: m)
  ultimately show ?case
    by (simp add: m p skip_ws_solid json_quote_def json_read_escape)
qed simp

theorem json_reads_back: "json_ok num v \<Longrightarrow> reads_back num v"
proof (induction v)
  case (JNum t)
  show ?case
    unfolding reads_back_def
  proof (intro allI impI)
    fix n :: nat and r :: jstring
    assume r: "ends_number r" and n: "2 * length (json_stringify (JNum t) @ r) + 1 \<le> n"
    from n obtain m where m: "n = Suc m" by (cases n) auto
    from JNum json_lexeme_hd [of t t "[]"] obtain c s where c: "t = c # s" "c = 0x2D \<or> is_digit c"
      by auto
    have "json_lexeme (c # s @ r) = Some (t, r)"
      using json_lexeme_append [of t t "[]" r] JNum r by (simp add: c)
    moreover have "skip_ws (c # s @ r) = c # s @ r"
      using c digit_solid [of c] skip_ws_solid [of c] by auto
    moreover have "c \<notin> {0x7B, 0x5B, 0x22, 0x6E, 0x74, 0x66}"
      using c digit_not [of c] by auto
    ultimately show "parse_value num n (json_stringify (JNum t) @ r) = Some (JNum t, r)"
      using JNum stringify_JNum [of num t] by (simp add: m c(1) js_def)
  qed
next
  case (JStr s)
  show ?case
    unfolding reads_back_def
    by (auto simp: json_quote_def skip_ws_solid json_read_escape
        elim!: Suc_le_D [THEN exE])
next
  case (JArr vs)
  show ?case
    unfolding reads_back_def
  proof (intro allI impI)
    fix n :: nat and r :: jstring
    assume r: "ends_number r" and n: "2 * length (json_stringify (JArr vs) @ r) + 1 \<le> n"
    from n obtain m where m: "n = Suc m" by (cases n) auto
    show "parse_value num n (json_stringify (JArr vs) @ r) = Some (JArr vs, r)"
    proof (cases vs)
      case Nil
      then show ?thesis by (simp add: m skip_ws_solid)
    next
      case (Cons v ws)
      with JArr have ok: "json_ok num v" by simp
      from stringify_solid [OF ok]
      obtain c s where "json_stringify v = c # s" "\<not> is_json_space c" "c \<noteq> 0x5D" by blast
      then obtain q where c: "commas (map json_stringify vs) @ 0x5D # r = c # q"
        "\<not> is_json_space c" "c \<noteq> 0x5D"
        using Cons by (cases ws) auto
      have "parse_elems num m (c # q) = Some (vs, r)"
        unfolding c(1) [symmetric] using JArr n Cons
        by (intro elems_read_back) (auto simp: m list_all_iff)
      with c show ?thesis by (simp add: m skip_ws_solid)
    qed
  qed
next
  case (JObj kvs)
  show ?case
    unfolding reads_back_def
  proof (intro allI impI)
    fix n :: nat and r :: jstring
    let ?txt = "\<lambda>(k, v). json_quote k @ 0x3A # json_stringify v"
    assume r: "ends_number r" and n: "2 * length (json_stringify (JObj kvs) @ r) + 1 \<le> n"
    from n obtain m where m: "n = Suc m" by (cases n) auto
    show "parse_value num n (json_stringify (JObj kvs) @ r) = Some (JObj kvs, r)"
    proof (cases kvs)
      case Nil
      then show ?thesis by (simp add: m skip_ws_solid)
    next
      case (Cons p qs)
      obtain q where q: "commas (map ?txt kvs) @ 0x7D # r = 0x22 # q"
        using Cons by (cases qs; cases p) (auto simp: json_quote_def)
      have "parse_members num m (0x22 # q) = Some (kvs, r)"
        unfolding q [symmetric] using JObj n Cons
        by (intro members_read_back) (fastforce simp: m list_all_iff)+
      with q JObj show ?thesis by (simp add: m skip_ws_solid)
    qed
  qed
next
  case (JBool b)
  have "parse_value num n (json_stringify (JBool b) @ r) = Some (JBool b, r)"
    if "2 * length (json_stringify (JBool b) @ r) + 1 \<le> n" for n r
    using that by (cases n; cases b) (simp_all add: skip_ws_solid js_def)
  then show ?case by (simp add: reads_back_def)
next
  case JNull
  have "parse_value num n (json_stringify JNull @ r) = Some (JNull, r)"
    if "2 * length (json_stringify JNull @ r) + 1 \<le> n" for n r
    using that by (cases n) (simp_all add: skip_ws_solid js_def)
  then show ?case by (simp add: reads_back_def)
qed

lemma json_parse_stringify: "json_ok num v \<Longrightarrow> json_parse num (json_stringify v) = Some v"
  using reads_backD [OF json_reads_back, of num v "[]" "2 * length (json_stringify v) + 1"]
  by (simp add: json_parse_def skip_ws_def)

end
