(* ===== verification/Util.thy ===== *)
theory Util
  imports Json_Value
begin

text \<open>
  The pure helpers of \<open>src/src/util.ts\<close> that the components share: JSON objects,
  dotted versions, the loopback check and the constant-time comparison (by its result).
\<close>

section \<open>JSON objects\<close>

datatype json_error = Not_json | Not_object

definition parseJsonObject :: "(jstring \<Rightarrow> jstring) \<Rightarrow> jstring \<Rightarrow> json_error + jobject" where
  "parseJsonObject num s =
     (case json_parse num s of
        None \<Rightarrow> Inl Not_json
      | Some (JObj kvs) \<Rightarrow> Inr kvs
      | Some _ \<Rightarrow> Inl Not_object)"

lemma parseJsonObject_stringify:
  "json_ok num (JObj kvs) \<Longrightarrow> parseJsonObject num (json_stringify (JObj kvs)) = Inr kvs"
  by (simp add: parseJsonObject_def json_parse_stringify del: json_stringify.simps json_ok.simps)

definition asNonEmptyString :: "json option \<Rightarrow> jstring option" where
  "asNonEmptyString v =
     (case v of Some (JStr s) \<Rightarrow> if js_blank s then None else Some s | _ \<Rightarrow> None)"

text \<open>\<open>/^[a-f0-9]{64}$/\<close>\<close>

definition is_lower_hex :: "16 word \<Rightarrow> bool" where
  "is_lower_hex u \<longleftrightarrow> is_digit u \<or> (0x61 \<le> u \<and> u \<le> 0x66)"

definition asSha256 :: "json option \<Rightarrow> jstring option" where
  "asSha256 v =
     (case v of
        Some (JStr s) \<Rightarrow> if length s = 64 \<and> list_all is_lower_hex s then Some s else None
      | _ \<Rightarrow> None)"

section \<open>Versions\<close>

type_synonym version = "nat \<times> nat \<times> nat"

definition component :: "version \<Rightarrow> nat \<Rightarrow> nat" where
  "component v i = (if i = 0 then fst v else if i = 1 then fst (snd v) else snd (snd v))"

text \<open>One attempt of the pattern at a position: digits, dot, digits, dot, digits, and then
  neither a dash nor a digit. Each run of digits is maximal, since what follows it must not be
  a digit.\<close>

definition semver_digits :: "jstring \<Rightarrow> (nat \<times> jstring) option" where
  "semver_digits s =
     (if takeWhile is_digit s = [] then None
      else Some (digits_value (takeWhile is_digit s), dropWhile is_digit s))"

definition semver_dot :: "jstring \<Rightarrow> jstring option" where
  "semver_dot s = (case s of [] \<Rightarrow> None | c # r \<Rightarrow> if c = 0x2E then Some r else None)"

definition semver_at :: "jstring \<Rightarrow> version option" where
  "semver_at s =
     Option.bind (semver_digits s) (\<lambda>(a, s1). Option.bind (semver_dot s1) (\<lambda>s2.
     Option.bind (semver_digits s2) (\<lambda>(b, s3). Option.bind (semver_dot s3) (\<lambda>s4.
     Option.bind (semver_digits s4) (\<lambda>(c, s5).
       case s5 of [] \<Rightarrow> Some (a, b, c) | u # _ \<Rightarrow> if u = 0x2D then None else Some (a, b, c))))))"

text \<open>The leftmost match whose first digit is preceded by a non-digit.\<close>

fun semver_scan :: "jstring \<Rightarrow> version option" where
  "semver_scan [] = None"
| "semver_scan (c # r) =
     (if is_digit c then semver_scan r
      else case semver_at r of Some v \<Rightarrow> Some v | None \<Rightarrow> semver_scan r)"

definition parseSemverTriplet :: "jstring \<Rightarrow> version option" where
  "parseSemverTriplet text =
     (case semver_at text of Some v \<Rightarrow> Some v | None \<Rightarrow> semver_scan text)"

function version_at_least_from :: "nat \<Rightarrow> version \<Rightarrow> version \<Rightarrow> bool" where
  "version_at_least_from i current minimum =
     (if i < 3 then
        if component current i > component minimum i then True
        else if component current i < component minimum i then False
        else version_at_least_from (i + 1) current minimum
      else True)"
  by pat_completeness auto
termination by (relation "measure (\<lambda>(i, _, _). 3 - i)") auto

definition versionAtLeast :: "version \<Rightarrow> version \<Rightarrow> bool" where
  "versionAtLeast current minimum = version_at_least_from 0 current minimum"

function version_less_than_from :: "nat \<Rightarrow> version \<Rightarrow> version \<Rightarrow> bool" where
  "version_less_than_from i current maximumExclusive =
     (if i < 3 then
        if component current i < component maximumExclusive i then True
        else if component current i > component maximumExclusive i then False
        else version_less_than_from (i + 1) current maximumExclusive
      else False)"
  by pat_completeness auto
termination by (relation "measure (\<lambda>(i, _, _). 3 - i)") auto

definition versionLessThan :: "version \<Rightarrow> version \<Rightarrow> bool" where
  "versionLessThan current maximumExclusive = version_less_than_from 0 current maximumExclusive"

declare version_at_least_from.simps [simp del] version_less_than_from.simps [simp del]

text \<open>The loops decide the lexicographic order.\<close>

fun version_le :: "version \<Rightarrow> version \<Rightarrow> bool" where
  "version_le (a, b, c) (a', b', c') \<longleftrightarrow> a < a' \<or> a = a' \<and> (b < b' \<or> b = b' \<and> c \<le> c')"

lemma versionAtLeast_iff: "versionAtLeast v m \<longleftrightarrow> version_le m v"
  by (cases v; cases m)
    (auto simp: versionAtLeast_def component_def version_at_least_from.simps)

lemma versionLessThan_iff: "versionLessThan v m \<longleftrightarrow> \<not> version_le m v"
  by (cases v; cases m)
    (auto simp: versionLessThan_def component_def version_less_than_from.simps)

section \<open>Strings\<close>

text \<open>\<open>Buffer.from(s)\<close>: UTF-8, a lone surrogate becoming U+FFFD.\<close>

definition utf8_unit :: "16 word \<Rightarrow> nat list" where
  "utf8_unit u =
     (let n = unat u in
      if n < 0x80 then [n]
      else if n < 0x800 then [0xC0 + n div 64, 0x80 + n mod 64]
      else if is_high_surrogate u \<or> is_low_surrogate u then [0xEF, 0xBF, 0xBD]
      else [0xE0 + n div 4096, 0x80 + n div 64 mod 64, 0x80 + n mod 64])"

definition utf8_pair :: "16 word \<Rightarrow> 16 word \<Rightarrow> nat list" where
  "utf8_pair u v =
     (let n = 0x10000 + (unat u - 0xD800) * 0x400 + (unat v - 0xDC00) in
      [0xF0 + n div 262144, 0x80 + n div 4096 mod 64, 0x80 + n div 64 mod 64, 0x80 + n mod 64])"

fun utf8_bytes :: "jstring \<Rightarrow> nat list" where
  "utf8_bytes [] = []"
| "utf8_bytes [u] = utf8_unit u"
| "utf8_bytes (u # v # r) =
     (if is_high_surrogate u \<and> is_low_surrogate v then utf8_pair u v @ utf8_bytes r
      else utf8_unit u @ utf8_bytes (v # r))"

lemma length_utf8_unit:
  "length (utf8_unit u) = (if u < 0x80 then 1 else if u < 0x800 then 2 else 3)"
  by (simp add: utf8_unit_def Let_def word_less_nat_alt)

lemma length_utf8_bytes: "length (utf8_bytes s) = utf8_length s"
  by (induction s rule: utf8_bytes.induct)
    (simp_all add: length_utf8_unit utf8_pair_def Let_def)

definition safeEqual :: "jstring \<Rightarrow> jstring \<Rightarrow> bool" where
  "safeEqual left right =
     (if length (utf8_bytes left) \<noteq> length (utf8_bytes right) then False
      else utf8_bytes left = utf8_bytes right)"

lemma safeEqual_iff: "safeEqual left right \<longleftrightarrow> utf8_bytes left = utf8_bytes right"
  by (auto simp: safeEqual_def)

definition js_trim :: "jstring \<Rightarrow> jstring" where
  "js_trim s = rev (dropWhile is_js_space (rev (dropWhile is_js_space s)))"

text \<open>\<open>toLowerCase\<close> on the ASCII letters; no other character is lowered to a character of the
  three host names it is compared with.\<close>

definition ascii_lower :: "jstring \<Rightarrow> jstring" where
  "ascii_lower s = map (\<lambda>u. if 0x41 \<le> u \<and> u \<le> 0x5A then u + 0x20 else u) s"

definition isLoopbackHost :: "jstring \<Rightarrow> bool" where
  "isLoopbackHost host =
     (let normalized = ascii_lower (js_trim host)
      in normalized = js ''127.0.0.1'' \<or> normalized = js ''::1'' \<or> normalized = js ''localhost'')"

end
