(* ===== verification/Livis.thy ===== *)
theory Livis
  imports Util Store_Types
begin

text \<open>
  The LiViS wire format, \<open>src/src/protocol/livis.ts\<close>: reading of inbound messages with
  their byte limits, and the outbound envelopes.

  \<^item> An envelope is the parsed JavaScript object, the list of its properties.
  \<^item> \<open>num\<close> reads number literals and \<open>millis\<close> gives the integer the store keeps of a number
    (the floating-point part of the language); \<open>now\<close> is \<open>Date.now()\<close>, and the random
    identifiers are arguments.
  \<^item> Each \<open>throw\<close> is a constructor of \<open>livis_error\<close>, with the label the message names.
\<close>

section \<open>Limits and errors\<close>

definition RELAY_MESSAGE_TYPE_MAX_BYTES :: nat where
  "RELAY_MESSAGE_TYPE_MAX_BYTES = 64"

definition RELAY_IDENTIFIER_MAX_BYTES :: nat where
  "RELAY_IDENTIFIER_MAX_BYTES = 256"

definition RELAY_NODE_TYPE_MAX_BYTES :: nat where
  "RELAY_NODE_TYPE_MAX_BYTES = 64"

datatype livis_error =
  Missing string
| Over_bytes string nat nat
| Bad_format string
| Bad_json string json_error
| Not_send_message
| Unsupported_business "json option"
| Empty_content
| Input_too_long nat nat

definition requireBoundedString :: "json option \<Rightarrow> string \<Rightarrow> nat \<Rightarrow> livis_error + jstring" where
  "requireBoundedString value label maxBytes =
     (case value of
        Some (JStr s) \<Rightarrow>
          if utf8_length s > maxBytes then Inl (Over_bytes label (utf8_length s) maxBytes)
          else if js_blank s then Inl (Missing label)
          else Inr s
      | _ \<Rightarrow> Inl (Missing label))"

definition assertOptionalBoundedString ::
  "json option \<Rightarrow> string \<Rightarrow> nat \<Rightarrow> livis_error + unit" where
  "assertOptionalBoundedString value label maxBytes =
     (case value of
        Some (JStr s) \<Rightarrow>
          if utf8_length s > maxBytes then Inl (Over_bytes label (utf8_length s) maxBytes)
          else Inr ()
      | _ \<Rightarrow> Inr ())"

definition parse_object :: "(jstring \<Rightarrow> jstring) \<Rightarrow> jstring \<Rightarrow> string \<Rightarrow> livis_error + jobject" where
  "parse_object num s label =
     (case parseJsonObject num s of Inl e \<Rightarrow> Inl (Bad_json label e) | Inr o' \<Rightarrow> Inr o')"

text \<open>\<open>x?.key\<close> of an object or \<open>undefined\<close>, and the test that a value is absent or an object.\<close>

definition jfield :: "json option \<Rightarrow> string \<Rightarrow> json option" where
  "jfield x key = (case x of Some (JObj kvs) \<Rightarrow> jget (js key) kvs | _ \<Rightarrow> None)"

definition absent_or_object :: "json option \<Rightarrow> bool" where
  "absent_or_object x = (case x of None \<Rightarrow> True | Some (JObj _) \<Rightarrow> True | _ \<Rightarrow> False)"

section \<open>Inbound messages\<close>

definition check_bounds :: "(json option \<times> string) list \<Rightarrow> nat \<Rightarrow> livis_error + unit" where
  "check_bounds values maxBytes =
     eachR (\<lambda>(value, label) _. assertOptionalBoundedString value label maxBytes) values ()"

definition parseRelayEnvelope :: "(jstring \<Rightarrow> jstring) \<Rightarrow> jstring \<Rightarrow> livis_error + jobject" where
  "parseRelayEnvelope num raw =
     bindR (parse_object num raw ''LiViS WebSocket message'') (\<lambda>parsed.
     bindR (requireBoundedString (jget (js ''type'') parsed) ''LiViS message.type''
              RELAY_MESSAGE_TYPE_MAX_BYTES) (\<lambda>_.
     bindR (guardR (absent_or_object (jget (js ''metadata'') parsed))
              (Bad_format ''LiViS message.metadata'')) (\<lambda>_.
     bindR (guardR (absent_or_object (jget (js ''payload'') parsed))
              (Bad_format ''LiViS message.payload'')) (\<lambda>_.
     let metadata = jget (js ''metadata'') parsed; payload = jget (js ''payload'') parsed in
     bindR (check_bounds
              [(jfield metadata ''job_id'', ''LiViS metadata.job_id''),
               (jfield metadata ''msg_id'', ''LiViS metadata.msg_id''),
               (jfield metadata ''agent_id'', ''LiViS metadata.agent_id''),
               (jfield metadata ''device_id'', ''LiViS metadata.device_id''),
               (jfield payload ''ref_msg_id'', ''LiViS payload.ref_msg_id''),
               (jfield payload ''from_node_id'', ''LiViS payload.from_node_id'')]
              RELAY_IDENTIFIER_MAX_BYTES) (\<lambda>_.
     bindR (check_bounds
              [(jfield payload ''from_node_type'', ''LiViS payload.from_node_type''),
               (jfield payload ''nodeType'', ''LiViS payload.nodeType'')]
              RELAY_NODE_TYPE_MAX_BYTES) (\<lambda>_.
     Inr parsed))))))"

definition json_text :: "json option \<Rightarrow> jstring option" where
  "json_text v = (case v of Some (JStr s) \<Rightarrow> Some s | _ \<Rightarrow> None)"

definition message_data :: "(jstring \<Rightarrow> jstring) \<Rightarrow> json option \<Rightarrow> livis_error + jobject" where
  "message_data num rawData =
     (case rawData of
        Some (JStr s) \<Rightarrow> parse_object num s ''send_message.payload.data''
      | Some (JObj kvs) \<Rightarrow> Inr kvs
      | _ \<Rightarrow> Inl (Bad_format ''send_message.payload.data''))"

definition business_text :: "jobject \<Rightarrow> nat \<Rightarrow> livis_error + jstring" where
  "business_text data maxInputChars =
     bindR (assertOptionalBoundedString (jget (js ''type'') data)
              ''send_message.payload.data.type'' RELAY_MESSAGE_TYPE_MAX_BYTES) (\<lambda>_.
     if jget (js ''type'') data \<noteq> Some (JStr (js ''exec''))
     then Inl (Unsupported_business (jget (js ''type'') data))
     else (case jget (js ''content'') data of
         Some (JStr content) \<Rightarrow>
           if js_blank content then Inl Empty_content
           else if length content > maxInputChars
             then Inl (Input_too_long (length content) maxInputChars)
           else Inr content
       | _ \<Rightarrow> Inl Empty_content))"

definition parseIncomingRelayJob ::
  "(jstring \<Rightarrow> jstring) \<Rightarrow> (jstring \<Rightarrow> int) \<Rightarrow> int \<Rightarrow> jobject \<Rightarrow> nat
     \<Rightarrow> livis_error + incoming_job" where
  "parseIncomingRelayJob num millis now envelope maxInputChars =
     (let metadata = jget (js ''metadata'') envelope; payload = jget (js ''payload'') envelope in
      if jget (js ''type'') envelope \<noteq> Some (JStr (js ''send_message'')) then Inl Not_send_message
      else
        bindR (requireBoundedString (jfield metadata ''job_id'') ''send_message.metadata.job_id''
                 RELAY_IDENTIFIER_MAX_BYTES) (\<lambda>jobId.
        let messageId = (case json_text (jfield metadata ''msg_id'') of Some s \<Rightarrow> s | None \<Rightarrow> []) in
        bindR (assertOptionalBoundedString (Some (JStr messageId)) ''send_message.metadata.msg_id''
                 RELAY_IDENTIFIER_MAX_BYTES) (\<lambda>_.
        bindR (requireBoundedString (jfield payload ''from_node_id'')
                 ''send_message.payload.from_node_id'' RELAY_IDENTIFIER_MAX_BYTES) (\<lambda>fromNodeId.
        let fromNodeType = json_text (jfield payload ''from_node_type'') in
        bindR (assertOptionalBoundedString (map_option JStr fromNodeType)
                 ''send_message.payload.from_node_type'' RELAY_NODE_TYPE_MAX_BYTES) (\<lambda>_.
        bindR (message_data num (jfield payload ''data'')) (\<lambda>data.
        bindR (business_text data maxInputChars) (\<lambda>content.
        Inr \<lparr>in_jobId = jobId, in_messageId = messageId, in_fromNodeId = fromNodeId,
             in_fromNodeType = fromNodeType, in_text = content,
             in_timestamp =
               (case jfield metadata ''timestamp'' of Some (JNum t) \<Rightarrow> millis t | _ \<Rightarrow> now),
             in_rawPayload = json_stringify (JObj envelope)\<rparr>)))))))"

section \<open>Outbound envelopes\<close>

record wire_identity =
  wi_client :: jstring
  wi_nodeType :: jstring

definition js_now :: "nat \<Rightarrow> json" where
  "js_now now = JNum (js_decimal now)"

definition metadata_object :: "jstring \<Rightarrow> nat \<Rightarrow> jstring \<Rightarrow> jstring \<Rightarrow> jstring \<Rightarrow> jobject" where
  "metadata_object uuid now jobId agentId deviceId =
     [(js ''msg_id'', JStr uuid), (js ''job_id'', JStr jobId), (js ''agent_id'', JStr agentId),
      (js ''device_id'', JStr deviceId), (js ''timestamp'', js_now now)]"

definition buildConnectEnvelope ::
  "wire_identity \<Rightarrow> jstring \<Rightarrow> jstring \<Rightarrow> nat \<Rightarrow> jstring \<Rightarrow> jstring \<Rightarrow> jstring \<Rightarrow> jstring \<Rightarrow> jobject" where
  "buildConnectEnvelope wi uuid1 uuid2 now agentId deviceId nodeName accessToken =
     [(js ''type'', JStr (js ''connect'')),
      (js ''metadata'', JObj
        [(js ''msg_id'', JStr uuid1), (js ''job_id'', JStr uuid2), (js ''agent_id'', JStr agentId),
         (js ''timestamp'', js_now now)]),
      (js ''payload'', JObj
        [(js ''device_id'', JStr deviceId), (js ''node_name'', JStr nodeName),
         (js ''node_desc'', JStr (wi_nodeType wi @ js '' '' @ nodeName)),
         (js ''client'', JStr (wi_client wi)), (js ''token'', JStr accessToken)])]"

definition object_fields :: "json option \<Rightarrow> jobject" where
  "object_fields x = (case x of Some (JObj kvs) \<Rightarrow> kvs | _ \<Rightarrow> [])"

definition withWireIdentity :: "wire_identity \<Rightarrow> jobject \<Rightarrow> jobject" where
  "withWireIdentity wi envelope =
     (let metadata = object_fields (jget (js ''metadata'') envelope);
          payload = object_fields (jget (js ''payload'') envelope);
          client = (case jget (js ''client'') metadata of
              None \<Rightarrow> JStr (wi_client wi) | Some JNull \<Rightarrow> JStr (wi_client wi) | Some c \<Rightarrow> c)
      in jput (js ''payload'') (JObj (jput (js ''nodeType'') (JStr (wi_nodeType wi)) payload))
           (jput (js ''metadata'') (JObj (jput (js ''client'') client metadata)) envelope))"

definition buildHeartbeatEnvelope ::
  "wire_identity \<Rightarrow> jstring \<Rightarrow> jstring \<Rightarrow> nat \<Rightarrow> jstring \<Rightarrow> jstring \<Rightarrow> jobject" where
  "buildHeartbeatEnvelope wi uuid1 uuid2 now agentId deviceId =
     withWireIdentity wi
       [(js ''type'', JStr (js ''heartbeat'')),
        (js ''metadata'', JObj (metadata_object uuid2 now uuid1 agentId deviceId)),
        (js ''payload'', JObj [])]"

definition buildAckEnvelope ::
  "wire_identity \<Rightarrow> jstring \<Rightarrow> nat \<Rightarrow> jstring \<Rightarrow> jstring \<Rightarrow> jstring \<Rightarrow> jstring \<Rightarrow> jobject" where
  "buildAckEnvelope wi uuid now type jobId agentId deviceId =
     withWireIdentity wi
       [(js ''type'', JStr type),
        (js ''metadata'', JObj (metadata_object uuid now jobId agentId deviceId)),
        (js ''payload'', JObj [])]"

definition buildResultEnvelope ::
  "wire_identity \<Rightarrow> jstring \<Rightarrow> nat \<Rightarrow> jstring \<Rightarrow> jstring \<Rightarrow> jstring \<Rightarrow> jstring \<Rightarrow> jstring option \<Rightarrow> jobject" where
  "buildResultEnvelope wi uuid now jobId agentId deviceId resultJson messageId =
     (let envelope = withWireIdentity wi
            [(js ''type'', JStr (js ''send_result'')),
             (js ''metadata'', JObj (metadata_object uuid now jobId agentId deviceId)),
             (js ''payload'', JObj [(js ''data'', JStr resultJson)])]
      in if falsy messageId then envelope
         else jput (js ''metadata'')
                (JObj (jput (js ''msg_id'') (JStr (the messageId))
                   (object_fields (jget (js ''metadata'') envelope)))) envelope)"

definition buildTokenRefreshEnvelope ::
  "wire_identity \<Rightarrow> jstring \<Rightarrow> nat \<Rightarrow> jstring \<Rightarrow> jstring \<Rightarrow> jstring \<Rightarrow> jobject" where
  "buildTokenRefreshEnvelope wi uuid now agentId deviceId accessToken =
     withWireIdentity wi
       [(js ''type'', JStr (js ''token_refresh'')),
        (js ''metadata'', JObj (metadata_object uuid now [] agentId deviceId)),
        (js ''payload'', JObj [(js ''token'', JStr accessToken)])]"

section \<open>Acknowledgements\<close>

definition push_candidate :: "json option \<Rightarrow> jstring list \<Rightarrow> livis_error + jstring list" where
  "push_candidate value candidates =
     bindR (assertOptionalBoundedString value ''ack_send_result'' RELAY_IDENTIFIER_MAX_BYTES) (\<lambda>_.
     Inr (case json_text value of
         Some s \<Rightarrow> if s \<noteq> [] \<and> s \<notin> set candidates then candidates @ [s] else candidates
       | None \<Rightarrow> candidates))"

definition resultAckCandidates :: "jobject \<Rightarrow> livis_error + jstring list" where
  "resultAckCandidates envelope =
     (let metadata = jget (js ''metadata'') envelope; payload = jget (js ''payload'') envelope
      in eachR push_candidate
           [jfield payload ''ref_msg_id'', jfield metadata ''job_id'', jfield metadata ''msg_id''] [])"

end
