(* ===== verification/Livis_Props.thy ===== *)
theory Livis_Props
  imports Livis
begin

text \<open>
  What the wire format guarantees: an accepted job satisfies every limit, a result reaches the
  other side of the wire unchanged, and the identifiers of an acknowledgement are read in the
  documented order.
\<close>

section \<open>Inbound jobs\<close>

lemma requireBoundedString_Inr:
  "requireBoundedString value label maxBytes = Inr s \<longleftrightarrow>
     value = Some (JStr s) \<and> utf8_length s \<le> maxBytes \<and> \<not> js_blank s"
  by (auto simp: requireBoundedString_def split: option.splits json.splits)

lemma assertOptionalBoundedString_Inr:
  "assertOptionalBoundedString value label maxBytes = Inr u \<longleftrightarrow>
     (\<forall>s. value = Some (JStr s) \<longrightarrow> utf8_length s \<le> maxBytes)"
  by (auto simp: assertOptionalBoundedString_def split: option.splits json.splits)

lemma business_text_Inr:
  "business_text data maxInputChars = Inr content \<longleftrightarrow>
     jget (js ''type'') data = Some (JStr (js ''exec''))
     \<and> jget (js ''content'') data = Some (JStr content)
     \<and> \<not> js_blank content \<and> length content \<le> maxInputChars"
proof -
  have "utf8_length (js ''exec'') \<le> RELAY_MESSAGE_TYPE_MAX_BYTES" by code_simp
  then show ?thesis
    by (auto simp: business_text_def bindR_Inr_iff assertOptionalBoundedString_Inr
        split: option.splits json.splits if_splits)
qed

text \<open>The fields of a business message, as the code reads them.\<close>

definition reads_job ::
  "(jstring \<Rightarrow> jstring) \<Rightarrow> jobject \<Rightarrow> nat \<Rightarrow> incoming_job \<Rightarrow> bool" where
  "reads_job num envelope maxInputChars job \<longleftrightarrow>
     (let metadata = jget (js ''metadata'') envelope; payload = jget (js ''payload'') envelope in
      jget (js ''type'') envelope = Some (JStr (js ''send_message''))
      \<and> jfield metadata ''job_id'' = Some (JStr (in_jobId job))
      \<and> in_messageId job = (case json_text (jfield metadata ''msg_id'') of Some s \<Rightarrow> s | None \<Rightarrow> [])
      \<and> jfield payload ''from_node_id'' = Some (JStr (in_fromNodeId job))
      \<and> in_fromNodeType job = json_text (jfield payload ''from_node_type'')
      \<and> (\<exists>data. message_data num (jfield payload ''data'') = Inr data
           \<and> jget (js ''type'') data = Some (JStr (js ''exec''))
           \<and> jget (js ''content'') data = Some (JStr (in_text job)))
      \<and> in_rawPayload job = json_stringify (JObj envelope))"

definition job_within_limits :: "nat \<Rightarrow> incoming_job \<Rightarrow> bool" where
  "job_within_limits maxInputChars job \<longleftrightarrow>
     \<not> js_blank (in_jobId job) \<and> utf8_length (in_jobId job) \<le> RELAY_IDENTIFIER_MAX_BYTES
     \<and> utf8_length (in_messageId job) \<le> RELAY_IDENTIFIER_MAX_BYTES
     \<and> \<not> js_blank (in_fromNodeId job)
     \<and> utf8_length (in_fromNodeId job) \<le> RELAY_IDENTIFIER_MAX_BYTES
     \<and> (\<forall>s. in_fromNodeType job = Some s \<longrightarrow> utf8_length s \<le> RELAY_NODE_TYPE_MAX_BYTES)
     \<and> \<not> js_blank (in_text job) \<and> length (in_text job) \<le> maxInputChars"

lemma json_text_Some: "json_text v = Some s \<longleftrightarrow> v = Some (JStr s)"
  by (auto simp: json_text_def split: option.splits json.splits)

lemma parseIncomingRelayJob_Inr:
  "parseIncomingRelayJob num millis now envelope maxInputChars = Inr job \<longleftrightarrow>
     reads_job num envelope maxInputChars job \<and> job_within_limits maxInputChars job
     \<and> in_timestamp job =
         (case jfield (jget (js ''metadata'') envelope) ''timestamp'' of
            Some (JNum t) \<Rightarrow> millis t | _ \<Rightarrow> now)"
  by (cases job)
    (auto simp: parseIncomingRelayJob_def reads_job_def job_within_limits_def Let_def bindR_Inr_iff
      requireBoundedString_Inr assertOptionalBoundedString_Inr business_text_Inr)

section \<open>Decimal numbers and plain keys\<close>

lemma js_decimal_digits: "js_decimal n \<noteq> [] \<and> list_all is_digit (js_decimal n)"
proof (induction n rule: js_decimal.induct)
  case (1 n)
  have digit: "is_digit (word_of_nat (0x30 + k))" if "k < 10" for k
  proof -
    have "\<forall>k \<in> set [0..<10]. is_digit (word_of_nat (0x30 + k))" by code_simp
    with that show ?thesis by simp
  qed
  show ?case
    using 1 digit [of n] digit [of "n mod 10"] by (subst (1 2) js_decimal.simps) auto
qed

lemma js_decimal_hd: "10 \<le> n \<Longrightarrow> hd (js_decimal n) \<noteq> 0x30"
proof (induction n rule: js_decimal.induct)
  case (1 n)
  show ?case
  proof (cases "n div 10 < 10")
    case True
    have "\<forall>k \<in> set [1..<10]. (word_of_nat (0x30 + k) :: 16 word) \<noteq> 0x30" by code_simp
    with True 1 show ?thesis
      by (subst js_decimal.simps) (simp add: js_decimal.simps [of "n div 10"])
  next
    case False
    with 1 show ?thesis
      using js_decimal_digits [of "n div 10"] by (subst js_decimal.simps) auto
  qed
qed

lemma js_decimal_lexeme: "json_lexeme (js_decimal n) = Some (js_decimal n, [])"
proof (cases "n < 10")
  case True
  have "\<forall>n \<in> set [0..<10]. json_lexeme (js_decimal n) = Some (js_decimal n, [])" by code_simp
  with True show ?thesis by simp
next
  case False
  then obtain c s where s: "js_decimal n = c # s" "c \<noteq> 0x30" "is_digit c" "list_all is_digit s"
    using js_decimal_digits [of n] js_decimal_hd [of n] by (cases "js_decimal n") auto
  moreover have "c \<noteq> 0x2D" using s(3) by (auto simp: is_digit_def word_le_nat_alt)
  moreover have "takeWhile is_digit s = s" "dropWhile is_digit s = []"
    using s(4) by (auto simp: list_all_iff takeWhile_eq_all_conv)
  ultimately show ?thesis
    by (simp add: json_lexeme_def lex_then_def lex_int_def lex_frac_def lex_exp_def
        del: dropWhile_eq_Nil_conv takeWhile_eq_all_conv)
qed

lemma plain_keys [simp]:
  "index_key (js ''type'') = None" "index_key (js ''metadata'') = None"
  "index_key (js ''payload'') = None" "index_key (js ''msg_id'') = None"
  "index_key (js ''job_id'') = None" "index_key (js ''agent_id'') = None"
  "index_key (js ''device_id'') = None" "index_key (js ''timestamp'') = None"
  "index_key (js ''client'') = None" "index_key (js ''nodeType'') = None"
  "index_key (js ''data'') = None" "index_key (js ''token'') = None"
  "index_key (js ''text'') = None" "index_key (js ''node_name'') = None"
  "index_key (js ''node_desc'') = None" "index_key (js ''content'') = None"
  "index_key (js ''from_node_id'') = None" "index_key (js ''ref_msg_id'') = None"
  by code_simp+

section \<open>Results\<close>

lemma serializeResult_stringify: "serializeResult text = json_stringify (JObj [(js ''text'', JStr text)])"
  by (simp add: serializeResult_def js_def)

lemma parse_serializeResult: "parseJsonObject num (serializeResult text) = Inr [(js ''text'', JStr text)]"
  unfolding serializeResult_stringify
  by (rule parseJsonObject_stringify) (simp add: js_object_plain)

text \<open>The envelope of a result, all properties written out.\<close>

lemma buildResultEnvelope_eq:
  "mid \<noteq> [] \<Longrightarrow>
     buildResultEnvelope wi uuid now jobId agentId deviceId resultJson (Some mid) =
       [(js ''type'', JStr (js ''send_result'')),
        (js ''metadata'', JObj
           [(js ''msg_id'', JStr mid), (js ''job_id'', JStr jobId), (js ''agent_id'', JStr agentId),
            (js ''device_id'', JStr deviceId), (js ''timestamp'', js_now now),
            (js ''client'', JStr (wi_client wi))]),
        (js ''payload'', JObj [(js ''data'', JStr resultJson), (js ''nodeType'', JStr (wi_nodeType wi))])]"
  by (simp add: buildResultEnvelope_def withWireIdentity_def metadata_object_def object_fields_def
      jput_def jget_def Let_def image_iff)

lemma js_now_ok: "num (js_decimal now) = js_decimal now \<Longrightarrow> json_ok num (js_now now)"
  by (simp add: js_now_def js_decimal_lexeme)


section \<open>Properties\<close>

text \<open>C19: The daemon reads an envelope as a job exactly when its fields say so and every limit
  holds: the type is send_message, the identifiers are present, not blank and at most 256
  bytes of UTF-8, the node type is at most 64, and the data (an object, or its JSON text) is an
  exec message with a text that is not blank and not longer than maxInputChars.\<close>

theorem incoming_job_exactly_when:
  "parseIncomingRelayJob num millis now envelope maxInputChars = Inr job \<longleftrightarrow>
     reads_job num envelope maxInputChars job \<and> job_within_limits maxInputChars job
     \<and> in_timestamp job =
         (case jfield (jget (js ''metadata'') envelope) ''timestamp'' of
            Some (JNum t) \<Rightarrow> millis t | _ \<Rightarrow> now)"
  by (rule parseIncomingRelayJob_Inr)

text \<open>C20: A result crosses the wire unchanged: the text of the frame that delivers it parses
  back to the envelope that was built, whose data is a JSON text that parses to an object with
  the answer as its only property, and which carries the job and the message identifier the
  acknowledgement will refer to. The hypothesis is that reading a decimal integer and printing
  it again is the identity.\<close>

theorem result_survives_the_wire:
  assumes "num (js_decimal now) = js_decimal now" "mid \<noteq> []"
    and "envelope = buildResultEnvelope wi uuid now jobId agentId deviceId (serializeResult text) (Some mid)"
  shows "parseJsonObject num (json_stringify (JObj envelope)) = Inr envelope
    \<and> jfield (jget (js ''payload'') envelope) ''data'' = Some (JStr (serializeResult text))
    \<and> parseJsonObject num (serializeResult text) = Inr [(js ''text'', JStr text)]
    \<and> jfield (jget (js ''metadata'') envelope) ''job_id'' = Some (JStr jobId)
    \<and> jfield (jget (js ''metadata'') envelope) ''msg_id'' = Some (JStr mid)"
proof -
  have "json_ok num (JObj envelope)"
    using js_now_ok [of num now] assms
    by (simp add: buildResultEnvelope_eq js_object_plain)
  then show ?thesis
    using parse_serializeResult assms(2)
    by (simp add: parseJsonObject_stringify assms(3) buildResultEnvelope_eq jfield_def jget_def
        del: json_stringify.simps json_ok.simps)
qed

theorem result_survives_the_wire_witness:
  "parseJsonObject id (json_stringify (JObj (buildResultEnvelope
       \<lparr>wi_client = js ''livis'', wi_nodeType = js ''agent''\<rparr> (js ''u'') 1700000000000
       (js ''job-1'') (js ''agent-1'') (js ''dev-1'') (serializeResult (js ''hello'')) (Some (js ''m-1'')))))
   = Inr (buildResultEnvelope
       \<lparr>wi_client = js ''livis'', wi_nodeType = js ''agent''\<rparr> (js ''u'') 1700000000000
       (js ''job-1'') (js ''agent-1'') (js ''dev-1'') (serializeResult (js ''hello'')) (Some (js ''m-1'')))"
  using result_survives_the_wire [OF _ _ refl, of id "1700000000000" "js ''m-1''"
      "\<lparr>wi_client = js ''livis'', wi_nodeType = js ''agent''\<rparr>" "js ''u''" "js ''job-1''"
      "js ''agent-1''" "js ''dev-1''" "js ''hello''"]
  by (simp del: json_stringify.simps)

text \<open>C21: The identifiers of an acknowledgement are tried in the documented order: the message
  it refers to, then the job, then the message itself. Empty and repeated ones are left out,
  other values are ignored, and one that exceeds the limit rejects the whole message.\<close>

theorem ack_candidates_in_order:
  "resultAckCandidates envelope =
     (let xs = [jfield (jget (js ''payload'') envelope) ''ref_msg_id'',
                jfield (jget (js ''metadata'') envelope) ''job_id'',
                jfield (jget (js ''metadata'') envelope) ''msg_id''];
          ids = List.map_filter json_text xs
      in case find (\<lambda>s. utf8_length s > RELAY_IDENTIFIER_MAX_BYTES) ids of
           Some s \<Rightarrow> Inl (Over_bytes ''ack_send_result'' (utf8_length s) RELAY_IDENTIFIER_MAX_BYTES)
         | None \<Rightarrow> Inr (rev (remdups (rev (filter (\<lambda>s. s \<noteq> []) ids)))))"
proof -
  have push: "push_candidate v c =
      (case json_text v of
         Some s \<Rightarrow>
           if utf8_length s > RELAY_IDENTIFIER_MAX_BYTES
           then Inl (Over_bytes ''ack_send_result'' (utf8_length s) RELAY_IDENTIFIER_MAX_BYTES)
           else Inr (if s \<noteq> [] \<and> s \<notin> set c then c @ [s] else c)
       | None \<Rightarrow> Inr c)" for v c
    by (auto simp: push_candidate_def assertOptionalBoundedString_def json_text_def
        split: option.splits json.splits)
  show ?thesis
    by (simp add: resultAckCandidates_def push Let_def List.map_filter_simps
        split: option.split)
qed

end
