(* ===== verification/Utf8.thy ===== *)
theory Utf8
  imports Util
begin

text \<open>
  \<open>Buffer.prototype.toString("utf8")\<close>, by which the relay client reads the frames of the
  socket: every ill-formed sequence, up to the longest prefix a well-formed one could have,
  becomes one U+FFFD. It inverts \<open>utf8_bytes\<close> on strings without lone surrogates.
\<close>

definition cont :: "nat \<Rightarrow> bool" where
  "cont b \<longleftrightarrow> 0x80 \<le> b \<and> b < 0xC0"

definition second_ok :: "nat \<Rightarrow> nat \<Rightarrow> bool" where
  "second_ok a b \<longleftrightarrow>
     (if a = 0xE0 then 0xA0 \<le> b \<and> b < 0xC0
      else if a = 0xED then 0x80 \<le> b \<and> b < 0xA0
      else if a = 0xF0 then 0x90 \<le> b \<and> b < 0xC0
      else if a = 0xF4 then 0x80 \<le> b \<and> b < 0x90
      else cont b)"

definition replacement :: "16 word" where
  "replacement = 0xFFFD"

text \<open>The surrogate pair of a code point beyond the basic plane.\<close>

definition surrogates :: "nat \<Rightarrow> jstring" where
  "surrogates n = [word_of_nat (0xD800 + (n - 0x10000) div 0x400),
                   word_of_nat (0xDC00 + (n - 0x10000) mod 0x400)]"

text \<open>The units of the sequence at the front, and the bytes left.\<close>

definition decode_two :: "nat \<Rightarrow> nat list \<Rightarrow> jstring \<times> nat list" where
  "decode_two a r =
     (case r of
        b # s \<Rightarrow> if cont b then ([word_of_nat ((a - 0xC0) * 64 + (b - 0x80))], s)
                 else ([replacement], r)
      | [] \<Rightarrow> ([replacement], []))"

definition decode_three :: "nat \<Rightarrow> nat list \<Rightarrow> jstring \<times> nat list" where
  "decode_three a r =
     (case r of
        b # s \<Rightarrow>
          if \<not> second_ok a b then ([replacement], r)
          else (case s of
              x # t \<Rightarrow>
                if cont x
                then ([word_of_nat ((a - 0xE0) * 4096 + (b - 0x80) * 64 + (x - 0x80))], t)
                else ([replacement], s)
            | [] \<Rightarrow> ([replacement], []))
      | [] \<Rightarrow> ([replacement], []))"

definition decode_four :: "nat \<Rightarrow> nat list \<Rightarrow> jstring \<times> nat list" where
  "decode_four a r =
     (case r of
        b # s \<Rightarrow>
          if \<not> second_ok a b then ([replacement], r)
          else (case s of
              x # t \<Rightarrow>
                if \<not> cont x then ([replacement], s)
                else (case t of
                    y # u \<Rightarrow>
                      if cont y
                      then (surrogates ((a - 0xF0) * 262144 + (b - 0x80) * 4096
                              + (x - 0x80) * 64 + (y - 0x80)), u)
                      else ([replacement], t)
                  | [] \<Rightarrow> ([replacement], []))
            | [] \<Rightarrow> ([replacement], []))
      | [] \<Rightarrow> ([replacement], []))"

definition decode_one :: "nat \<Rightarrow> nat list \<Rightarrow> jstring \<times> nat list" where
  "decode_one a r =
     (if a < 0x80 then ([word_of_nat a], r)
      else if 0xC2 \<le> a \<and> a < 0xE0 then decode_two a r
      else if 0xE0 \<le> a \<and> a < 0xF0 then decode_three a r
      else if 0xF0 \<le> a \<and> a < 0xF5 then decode_four a r
      else ([replacement], r))"

lemma decode_one_shorter: "length (snd (decode_one a r)) \<le> length r"
  by (auto simp: decode_one_def decode_two_def decode_three_def decode_four_def split: list.split)

function utf8_decode :: "nat list \<Rightarrow> jstring" where
  "utf8_decode [] = []"
| "utf8_decode (a # r) = fst (decode_one a r) @ utf8_decode (snd (decode_one a r))"
  by pat_completeness auto
termination by (relation "measure length") (auto simp: le_imp_less_Suc decode_one_shorter)

text \<open>Well-formed strings: every surrogate belongs to a pair.\<close>

fun well_paired :: "jstring \<Rightarrow> bool" where
  "well_paired [] = True"
| "well_paired [u] = (\<not> is_high_surrogate u \<and> \<not> is_low_surrogate u)"
| "well_paired (u # v # r) =
     (if is_high_surrogate u \<and> is_low_surrogate v then well_paired r
      else \<not> is_high_surrogate u \<and> \<not> is_low_surrogate u \<and> well_paired (v # r))"

section \<open>Decoding inverts encoding\<close>

lemma decode_cons: "decode_one a r = (us, s) \<Longrightarrow> utf8_decode (a # r) = us @ utf8_decode s"
  by simp

declare utf8_decode.simps(2) [simp del]

lemma high_nat: "is_high_surrogate u \<longleftrightarrow> 0xD800 \<le> unat u \<and> unat u < 0xDC00"
  by (simp add: is_high_surrogate_def word_le_nat_alt) auto

lemma low_nat: "is_low_surrogate u \<longleftrightarrow> 0xDC00 \<le> unat u \<and> unat u < 0xE000"
  by (simp add: is_low_surrogate_def word_le_nat_alt) auto

lemma unat_16: "unat (u :: 16 word) < 65536"
  using unsigned_less [of u, where ?'a = nat] by simp

lemma two_digits:
  fixes n :: nat
  assumes "0x80 \<le> n" "n < 0x800"
  shows "0xC2 \<le> 0xC0 + n div 64" "0xC0 + n div 64 < 0xE0" "n div 64 * 64 + n mod 64 = n"
proof -
  have "2 \<le> n div 64" using assms(1) by (simp add: Suc_le_eq less_eq_div_iff_mult_less_eq)
  then show "0xC2 \<le> 0xC0 + n div 64" by simp
  have "n div 64 < 32" using assms(2) by (simp add: less_mult_imp_div_less)
  then show "0xC0 + n div 64 < 0xE0" by simp
qed simp

lemma three_digits:
  fixes n :: nat
  assumes "0x800 \<le> n" "n < 0x10000" "\<not> (0xD800 \<le> n \<and> n < 0xE000)"
  shows "0xE0 + n div 4096 < 0xF0" "second_ok (0xE0 + n div 4096) (0x80 + n div 64 mod 64)"
    "n div 4096 * 4096 + n div 64 mod 64 * 64 + n mod 64 = n"
proof -
  have a: "n div 4096 < 16" using assms(2) by (simp add: less_mult_imp_div_less)
  then show "0xE0 + n div 4096 < 0xF0" by simp
  have m: "n div 64 = n div 4096 * 64 + n div 64 mod 64"
    using div_mult_mod_eq [of "n div 64" 64] by (simp flip: div_mult2_eq)
  have n: "n = n div 64 * 64 + n mod 64" by simp
  show "n div 4096 * 4096 + n div 64 mod 64 * 64 + n mod 64 = n"
    using m n by linarith
  have lt: "n mod 64 < 64" "n div 64 mod 64 < 64" by simp_all
  have "n div 64 mod 64 < 32" if "n div 4096 = 13" using m n lt that assms(3) by linarith
  moreover have "32 \<le> n div 64 mod 64" if "n div 4096 = 0" using m n lt that assms(1) by linarith
  ultimately show "second_ok (0xE0 + n div 4096) (0x80 + n div 64 mod 64)"
    using a lt by (auto simp: second_ok_def cont_def)
qed

lemma decode_unit:
  assumes "\<not> is_high_surrogate u" "\<not> is_low_surrogate u"
  shows "utf8_decode (utf8_unit u @ r) = u # utf8_decode r"
proof -
  let ?n = "unat u"
  have plain: "\<not> (0xD800 \<le> ?n \<and> ?n < 0xE000)" using assms by (auto simp: high_nat low_nat)
  consider "?n < 0x80" | "0x80 \<le> ?n" "?n < 0x800" | "0x800 \<le> ?n" by linarith
  then show ?thesis
  proof cases
    case 1
    then have "decode_one ?n r = ([u], r)" by (simp add: decode_one_def)
    with 1 show ?thesis by (simp add: utf8_unit_def Let_def decode_cons)
  next
    case 2
    note d = two_digits [OF 2]
    have "decode_one (0xC0 + ?n div 64) ((0x80 + ?n mod 64) # r) = ([u], r)"
      using d by (simp add: decode_one_def decode_two_def cont_def)
    with 2 show ?thesis by (simp add: utf8_unit_def Let_def decode_cons)
  next
    case 3
    note d = three_digits [OF 3 unat_16 plain]
    have "decode_one (0xE0 + ?n div 4096) ((0x80 + ?n div 64 mod 64) # (0x80 + ?n mod 64) # r) = ([u], r)"
      using d by (simp add: decode_one_def decode_three_def cont_def)
    with 3 assms show ?thesis by (simp add: utf8_unit_def Let_def decode_cons)
  qed
qed

lemma four_digits:
  fixes n :: nat
  assumes "0x10000 \<le> n" "n < 0x110000"
  shows "0xF0 + n div 262144 < 0xF5" "second_ok (0xF0 + n div 262144) (0x80 + n div 4096 mod 64)"
    "n div 262144 * 262144 + n div 4096 mod 64 * 4096 + n div 64 mod 64 * 64 + n mod 64 = n"
proof -
  have a: "n div 262144 < 5" using assms(2) by (simp add: less_mult_imp_div_less)
  then show "0xF0 + n div 262144 < 0xF5" by simp
  have k: "n div 4096 = n div 262144 * 64 + n div 4096 mod 64"
    using div_mult_mod_eq [of "n div 4096" 64] by (simp flip: div_mult2_eq)
  have m: "n div 64 = n div 4096 * 64 + n div 64 mod 64"
    using div_mult_mod_eq [of "n div 64" 64] by (simp flip: div_mult2_eq)
  have n: "n = n div 64 * 64 + n mod 64" by simp
  show "n div 262144 * 262144 + n div 4096 mod 64 * 4096 + n div 64 mod 64 * 64 + n mod 64 = n"
    using k m n by linarith
  have lt: "n mod 64 < 64" "n div 64 mod 64 < 64" "n div 4096 mod 64 < 64" by simp_all
  have "n div 4096 mod 64 < 16" if "n div 262144 = 4" using k m n lt that assms(2) by linarith
  moreover have "16 \<le> n div 4096 mod 64" if "n div 262144 = 0" using k m n lt that assms(1) by linarith
  ultimately show "second_ok (0xF0 + n div 262144) (0x80 + n div 4096 mod 64)"
    using a lt by (auto simp: second_ok_def cont_def)
qed

lemma decode_four_bytes:
  assumes "0x10000 \<le> n" "n < 0x110000"
  shows "decode_one (0xF0 + n div 262144) ((0x80 + n div 4096 mod 64) # (0x80 + n div 64 mod 64)
    # (0x80 + n mod 64) # r) = (surrogates n, r)"
  using four_digits [OF assms] by (simp add: decode_one_def decode_four_def cont_def)

lemma surrogates_of:
  assumes "a < 0x400" "b < 0x400"
  shows "surrogates (0x10000 + a * 0x400 + b) = [word_of_nat (0xD800 + a), word_of_nat (0xDC00 + b)]"
  using assms by (simp add: surrogates_def)

lemma decode_pair:
  assumes "is_high_surrogate u" "is_low_surrogate v"
  shows "utf8_decode (utf8_pair u v @ r) = u # v # utf8_decode r"
proof -
  obtain a b where a: "unat u = 0xD800 + a" "a < 0x400" and b: "unat v = 0xDC00 + b" "b < 0x400"
    using assms nat_le_iff_add by (auto simp: high_nat low_nat)
  define n where "n = 0x10000 + a * 0x400 + b"
  have n: "0x10000 \<le> n" "n < 0x110000" using a b by (simp_all add: n_def)
  have "word_of_nat (0xD800 + a) = u" "word_of_nat (0xDC00 + b) = v"
    by (simp_all flip: a(1) b(1))
  then have "surrogates n = [u, v]" unfolding n_def surrogates_of [OF a(2) b(2)] by simp
  moreover have "utf8_pair u v = [0xF0 + n div 262144, 0x80 + n div 4096 mod 64,
      0x80 + n div 64 mod 64, 0x80 + n mod 64]"
    unfolding utf8_pair_def Let_def n_def a(1) b(1) by simp
  ultimately show ?thesis
    using decode_cons [OF decode_four_bytes [OF n]] by simp
qed

lemma decode_unit_last: "\<not> is_high_surrogate u \<Longrightarrow> \<not> is_low_surrogate u \<Longrightarrow> utf8_decode (utf8_unit u) = [u]"
  using decode_unit [of u "[]"] by simp

lemma utf8_inverse: "well_paired s \<Longrightarrow> utf8_decode (utf8_bytes s) = s"
proof (induction s rule: well_paired.induct)
  case (3 u v r)
  then show ?case
    by (cases "is_high_surrogate u \<and> is_low_surrogate v") (simp_all add: decode_pair decode_unit)
qed (simp_all add: decode_unit_last)

end
