(* ===== verification/Stretch.thy ===== *)
theory Stretch
  imports Prelude
begin

text \<open>
  Stretches of JavaScript code: what a method does, without interruption, from one \<open>await\<close> to
  the next. A stretch is a function on the state of a component; it returns a value, or the
  error that rejects the method's promise. \<open>keeps R m\<close> says that the states before and after
  are related by \<open>R\<close>, \<open>triple P m Q E\<close> is partial correctness with an error case.
\<close>

section \<open>Combinators\<close>

type_synonym ('s, 'e, 'a) stretch = "'s \<Rightarrow> ('e + 'a) \<times> 's"

definition ret :: "'a \<Rightarrow> ('s, 'e, 'a) stretch" where
  "ret a d = (Inr a, d)"

definition throw :: "'e \<Rightarrow> ('s, 'e, 'a) stretch" where
  "throw e d = (Inl e, d)"

definition bindA :: "('s, 'e, 'a) stretch \<Rightarrow> ('a \<Rightarrow> ('s, 'e, 'b) stretch) \<Rightarrow> ('s, 'e, 'b) stretch" where
  "bindA m k d = (case m d of (Inl e, d') \<Rightarrow> (Inl e, d') | (Inr a, d') \<Rightarrow> k a d')"

definition thenA :: "('s, 'e, 'a) stretch \<Rightarrow> ('s, 'e, 'b) stretch \<Rightarrow> ('s, 'e, 'b) stretch" where
  "thenA m k = bindA m (\<lambda>_. k)"

definition readA :: "('s \<Rightarrow> 'a) \<Rightarrow> ('s, 'e, 'a) stretch" where
  "readA f d = (Inr (f d), d)"

definition modify :: "('s \<Rightarrow> 's) \<Rightarrow> ('s, 'e, unit) stretch" where
  "modify f d = (Inr (), f d)"

definition assertA :: "bool \<Rightarrow> 'e \<Rightarrow> ('s, 'e, unit) stretch" where
  "assertA ok e = (if ok then ret () else throw e)"

text \<open>\<open>try { ... } catch (error) { ... }\<close>\<close>

definition tryA :: "('s, 'e, 'a) stretch \<Rightarrow> ('e \<Rightarrow> ('s, 'e, 'a) stretch) \<Rightarrow> ('s, 'e, 'a) stretch" where
  "tryA m h d = (case m d of (Inl e, d') \<Rightarrow> h e d' | (Inr a, d') \<Rightarrow> (Inr a, d'))"

text \<open>\<open>for (const x of xs) { ... }\<close> with a body that does not wait.\<close>

primrec eachA :: "('x \<Rightarrow> ('s, 'e, unit) stretch) \<Rightarrow> 'x list \<Rightarrow> ('s, 'e, unit) stretch" where
  "eachA f [] = ret ()"
| "eachA f (x # xs) = thenA (f x) (eachA f xs)"

text \<open>A stretch ends with the method still waiting, or with nothing more to do.\<close>

datatype flow = Suspended | Finished

section \<open>Relations between the states before and after\<close>

definition keeps :: "('s \<Rightarrow> 's \<Rightarrow> bool) \<Rightarrow> ('s, 'e, 'a) stretch \<Rightarrow> bool" where
  "keeps R m \<longleftrightarrow> (\<forall>d. R d (snd (m d)))"

lemma keepsD: "keeps R m \<Longrightarrow> R d (snd (m d))"
  by (simp add: keeps_def)

locale stretch_relation =
  fixes R :: "'s \<Rightarrow> 's \<Rightarrow> bool"
  assumes R_refl: "R d d"
    and R_trans: "R d e \<Longrightarrow> R e f \<Longrightarrow> R d f"
begin

lemma keeps_pure:
  "keeps R (ret a)" "keeps R (throw e)" "keeps R (readA f)" "keeps R (assertA ok e)"
  by (simp_all add: keeps_def ret_def throw_def readA_def assertA_def R_refl)

lemma keeps_bindA:
  assumes "keeps R m" "\<And>a. keeps R (k a)"
  shows "keeps R (bindA m k)"
  unfolding keeps_def
proof
  fix d
  obtain r d' where r: "m d = (r, d')" by (cases "m d")
  have 1: "R d d'" using keepsD [OF assms(1), of d] by (simp add: r)
  show "R d (snd (bindA m k d))"
    using 1 R_trans [OF 1 keepsD [OF assms(2)]] by (cases r) (simp_all add: bindA_def r)
qed

lemma keeps_thenA: "keeps R m \<Longrightarrow> keeps R k \<Longrightarrow> keeps R (thenA m k)"
  by (simp add: thenA_def keeps_bindA)

lemma keeps_tryA: "keeps R m \<Longrightarrow> (\<And>e. keeps R (h e)) \<Longrightarrow> keeps R (tryA m h)"
  unfolding keeps_def tryA_def
  by (auto split: prod.split sum.split) (metis R_trans snd_conv)+

lemma keeps_eachA: "(\<And>x. keeps R (f x)) \<Longrightarrow> keeps R (eachA f xs)"
  by (induction xs) (simp_all add: keeps_pure keeps_thenA)

lemma keeps_split:
  "(b \<Longrightarrow> keeps R m) \<Longrightarrow> (\<not> b \<Longrightarrow> keeps R k) \<Longrightarrow> keeps R (if b then m else k)"
  "keeps R k \<Longrightarrow> (\<And>a. keeps R (j a)) \<Longrightarrow> keeps R (case x of None \<Rightarrow> k | Some a \<Rightarrow> j a)"
  "(\<And>a b. keeps R (h a b)) \<Longrightarrow> keeps R (case p of (a, b) \<Rightarrow> h a b)"
  "(\<And>e. keeps R (f e)) \<Longrightarrow> (\<And>a. keeps R (g a)) \<Longrightarrow> keeps R (case s of Inl e \<Rightarrow> f e | Inr a \<Rightarrow> g a)"
  by (auto split: option.split prod.split sum.split)

lemmas keeps_flow = keeps_pure keeps_bindA keeps_thenA keeps_tryA keeps_eachA keeps_split

end

section \<open>Partial correctness of a stretch\<close>

text \<open>From \<open>P\<close>, the stretch ends in \<open>Q\<close> with its value, or in \<open>E\<close> with an error.\<close>

definition triple :: "('s \<Rightarrow> bool) \<Rightarrow> ('s, 'e, 'a) stretch \<Rightarrow> ('a \<Rightarrow> 's \<Rightarrow> bool) \<Rightarrow> ('s \<Rightarrow> bool) \<Rightarrow> bool"
  where
  "triple P m Q E \<longleftrightarrow>
     (\<forall>d. P d \<longrightarrow> (case fst (m d) of Inl e \<Rightarrow> E (snd (m d)) | Inr a \<Rightarrow> Q a (snd (m d))))"

lemma triple_bindA:
  assumes "triple P m Q E" "\<And>a. triple (Q a) (k a) T E"
  shows "triple P (bindA m k) T E"
  unfolding triple_def
proof (intro allI impI)
  fix d
  assume "P d"
  then have m: "case fst (m d) of Inl e \<Rightarrow> E (snd (m d)) | Inr a \<Rightarrow> Q a (snd (m d))"
    using assms(1) by (simp add: triple_def)
  obtain r d' where r: "m d = (r, d')" by (cases "m d")
  show "case fst (bindA m k d) of Inl e \<Rightarrow> E (snd (bindA m k d)) | Inr a \<Rightarrow> T a (snd (bindA m k d))"
  proof (cases r)
    case (Inl e)
    then show ?thesis using m by (simp add: bindA_def r)
  next
    case (Inr a)
    then have "bindA m k d = k a d'" by (simp add: bindA_def r)
    moreover have "Q a d'" using m Inr by (simp add: r)
    ultimately show ?thesis using assms(2) [of a] by (simp only: triple_def)
  qed
qed

lemma triple_step:
  "triple P m (\<lambda>_. P) E \<Longrightarrow> (\<And>a. triple P (k a) T E) \<Longrightarrow> triple P (bindA m k) T E"
  by (rule triple_bindA)

lemma triple_thenA: "triple P m (\<lambda>_. Q) E \<Longrightarrow> triple Q k T E \<Longrightarrow> triple P (thenA m k) T E"
  unfolding thenA_def by (rule triple_bindA)

lemma triple_if:
  "(b \<Longrightarrow> triple P m Q E) \<Longrightarrow> (\<not> b \<Longrightarrow> triple P k Q E) \<Longrightarrow> triple P (if b then m else k) Q E"
  by simp

lemma triple_pre: "triple P m Q E \<Longrightarrow> (\<And>d. P' d \<Longrightarrow> P d) \<Longrightarrow> triple P' m Q E"
  by (simp add: triple_def)

lemma triple_readA: "(\<And>d. P d \<Longrightarrow> Q (f d) d) \<Longrightarrow> triple P (readA f) Q E"
  by (simp add: triple_def readA_def)

lemma triple_modify: "(\<And>d. P d \<Longrightarrow> Q (f d)) \<Longrightarrow> triple P (modify f) (\<lambda>_. Q) E"
  by (simp add: triple_def modify_def)

lemma triple_ret: "(\<And>d. P d \<Longrightarrow> Q a d) \<Longrightarrow> triple P (ret a) Q E"
  by (simp add: triple_def ret_def)

lemma triple_throw: "(\<And>d. P d \<Longrightarrow> E d) \<Longrightarrow> triple P (throw e) Q E"
  by (simp add: triple_def throw_def)

end
