(* ===== verification/Relay_Client.thy ===== *)
theory Relay_Client
  imports Utf8 Livis Store_Outbox Stretch Complex_Main
begin

text \<open>
  The relay client, \<open>RelayClient\<close> of \<open>src/src/relay/client.ts\<close>: the connection loop with its
  backoff, the handshake, the messages of the server, token refresh, and the delivery of
  results with their acknowledgement timers.

  \<^item> A socket is named by the connection generation it was opened with; \<open>cl_sockets ! (g - 1)\<close> is
    its state.
  \<^item> As in \<open>Daemon_Types\<close>, a method is cut at its awaits: \<open>cl_waiting\<close> holds the methods that
    wait, and the environment resumes them in any order (\<open>client_event\<close>).
  \<^item> \<open>rc_clock\<close>, \<open>rc_uuid\<close>, \<open>rc_random\<close> and \<open>rc_send_fails\<close> are the readings of the clock, the
    random identifiers and numbers, and the failures of \<open>socket.send\<close>, by tick.
\<close>

section \<open>Backoff\<close>

definition js_round :: "rat \<Rightarrow> int" where
  "js_round x = \<lfloor>x + 1 / 2\<rfloor>"

text \<open>\<open>withJitter(base)\<close>, with the default ratio of a fifth and \<open>random\<close> for \<open>Math.random()\<close>.\<close>

definition withJitter :: "int \<Rightarrow> rat \<Rightarrow> int" where
  "withJitter base random =
     (let spread = of_int base * (1 / 5) in max 0 (js_round (of_int base - spread + random * spread * 2)))"

definition reconnect_wait :: "int \<Rightarrow> nat \<Rightarrow> rat \<Rightarrow> int" where
  "reconnect_wait reconnectMaxMs attempt random =
     max 1000 (withJitter (min (1000 * 2 ^ (attempt - 1)) reconnectMaxMs) random)"

definition refresh_wait :: "int \<Rightarrow> int \<Rightarrow> nat \<Rightarrow> rat \<Rightarrow> int" where
  "refresh_wait ackTimeoutMs reconnectMaxMs attempt random =
     (let base = min (min ackTimeoutMs 1000 * 2 ^ (attempt - 1)) reconnectMaxMs
      in max 1 (min reconnectMaxMs (withJitter (max 1 base) random)))"

definition resultRecoveryDelayMs :: "int \<Rightarrow> nat \<Rightarrow> int" where
  "resultRecoveryDelayMs ackTimeoutMs retryCount =
     min (5 * 60000) (ackTimeoutMs * 2 ^ min (max retryCount 1) 6)"

section \<open>Frames\<close>

datatype frame =
  Text_frame jstring
| Binary_frame "nat list"
| Fragments "nat list list"

definition relayFrameByteLength :: "frame \<Rightarrow> nat" where
  "relayFrameByteLength f =
     (case f of
        Text_frame s \<Rightarrow> utf8_length s
      | Binary_frame bs \<Rightarrow> length bs
      | Fragments parts \<Rightarrow> foldl (\<lambda>total part. total + length part) 0 parts)"

definition relayFrameText :: "frame \<Rightarrow> jstring" where
  "relayFrameText f =
     (case f of
        Text_frame s \<Rightarrow> s
      | Binary_frame bs \<Rightarrow> utf8_decode bs
      | Fragments parts \<Rightarrow> utf8_decode (concat parts))"

section \<open>State\<close>

datatype ready_state = Connecting | Open | Closing | Closed

text \<open>\<open>so_token\<close> is the access token of the connection, \<open>so_shaken\<close> is \<open>connectionHandshakeComplete\<close>; \<open>so_handshake\<close> the outcome of the handshake
  promise, \<open>None\<close> while it is pending.\<close>

record sock =
  so_token :: jstring
  so_state :: ready_state
  so_shaken :: bool
  so_handshake :: "bool option"

text \<open>A chain of messages: \<open>messageChain\<close> of the connection it was started for.\<close>

record chain =
  ch_busy :: bool
  ch_queue :: "(nat \<times> jstring) list"

datatype client_error =
  Cl_store store_error
| Cl_bad livis_error
| Cl_before_handshake jstring
| Cl_not_connected
| Cl_expired_connection
| Cl_no_job_id
| Cl_no_ack_id
| Cl_handler_failed jstring
| Cl_terminal_auth jstring
| Cl_auth jstring
| Cl_handshake_failed
| Cl_disconnected
| Cl_send_failed

text \<open>Who waits for \<open>replayOutbox\<close>.\<close>

datatype replay_caller = R_notify | R_connect nat nat | R_recovery

datatype client_wait =
  K_token nat
| K_handshake nat nat
| K_connected nat nat
| K_closed nat nat
| K_delay nat
| K_replay replay_caller "jstring list" bool
| K_incoming nat nat jobject jstring
| K_cancel nat nat jstring
| K_refresh "nat option" nat nat nat
| K_stopping

datatype refresh_timer = T_ack nat nat nat | T_retry nat nat nat

datatype run_state = Not_running | Running | Run_ended

datatype client_effect =
  Cl_send nat jobject
| Cl_close nat int
| Cl_ping nat
| Cl_accepted jobject
| Cl_on_connected
| Cl_wait int
| Cl_rejected client_error

record client =
  cl_db :: db
  cl_sockets :: "sock list"
  cl_socket :: "nat option"
  cl_generation :: nat
  cl_chains :: "chain list"
  cl_run :: run_state
  cl_aborted :: bool
  cl_terminal :: "jstring option"
  cl_handshake :: bool
  cl_heartbeat :: bool
  cl_lastPong :: int
  cl_refresh :: nat
  cl_refresh_timer :: "refresh_timer option"
  cl_recovery_timer :: bool
  cl_result_timers :: "jstring list"
  cl_tick :: nat
  cl_waiting :: "client_wait list"
  cl_log :: "client_effect list"

record relay_cfg =
  rc_store :: store_cfg
  rc_wire :: wire_identity
  rc_agentId :: jstring
  rc_deviceId :: jstring
  rc_nodeName :: jstring
  rc_maxInputChars :: nat
  rc_maxFrameBytes :: nat
  rc_reconnectMaxMs :: int
  rc_pongTimeoutMs :: int
  rc_resultAckTimeoutMs :: int
  rc_resultMaxRetries :: nat
  rc_tokenRefreshAckTimeoutMs :: int
  rc_tokenRefreshMaxFailures :: nat
  rc_num :: "jstring \<Rightarrow> jstring"
  rc_millis :: "jstring \<Rightarrow> int"
  rc_clock :: "nat \<Rightarrow> int"
  rc_uuid :: "nat \<Rightarrow> jstring"
  rc_random :: "nat \<Rightarrow> rat"
  rc_send_fails :: "nat \<Rightarrow> bool"

type_synonym 'a clact = "(client, client_error, 'a) stretch"

definition cl_emit :: "client_effect \<Rightarrow> unit clact" where
  "cl_emit x = modify (\<lambda>s. s\<lparr>cl_log := cl_log s @ [x]\<rparr>)"

definition cl_suspend :: "client_wait \<Rightarrow> flow clact" where
  "cl_suspend w = thenA (modify (\<lambda>s. s\<lparr>cl_waiting := cl_waiting s @ [w]\<rparr>)) (ret Suspended)"

text \<open>The next tick, for a reading of the environment.\<close>

definition tickC :: "nat clact" where
  "tickC = bindA (readA cl_tick) (\<lambda>n. thenA (modify (\<lambda>s. s\<lparr>cl_tick := Suc n\<rparr>)) (ret n))"

definition storeC :: "relay_cfg \<Rightarrow> (store_cfg \<Rightarrow> int \<Rightarrow> db \<Rightarrow> 'a reply) \<Rightarrow> 'a clact" where
  "storeC c f s =
     (let r = f (rc_store c) (rc_clock c (cl_tick s)) (cl_db s)
      in (case fst r of Inl e \<Rightarrow> Inl (Cl_store e) | Inr a \<Rightarrow> Inr a,
          s\<lparr>cl_db := snd r, cl_tick := Suc (cl_tick s)\<rparr>))"

definition nat_now :: "relay_cfg \<Rightarrow> nat \<Rightarrow> nat" where
  "nat_now c n = nat (rc_clock c n)"

section \<open>Sockets\<close>

definition sock_of :: "client \<Rightarrow> nat \<Rightarrow> sock option" where
  "sock_of s g = (if 1 \<le> g \<and> g \<le> length (cl_sockets s) then Some (cl_sockets s ! (g - 1)) else None)"

definition sock_state :: "client \<Rightarrow> nat \<Rightarrow> ready_state" where
  "sock_state s g = (case sock_of s g of None \<Rightarrow> Closed | Some k \<Rightarrow> so_state k)"

definition upd_sock :: "nat \<Rightarrow> (sock \<Rightarrow> sock) \<Rightarrow> client \<Rightarrow> client" where
  "upd_sock g f s =
     (case sock_of s g of None \<Rightarrow> s | Some k \<Rightarrow> s\<lparr>cl_sockets := (cl_sockets s)[g - 1 := f k]\<rparr>)"

definition isCurrentConnection :: "client \<Rightarrow> nat \<Rightarrow> bool" where
  "isCurrentConnection s g \<longleftrightarrow> cl_socket s = Some g \<and> cl_generation s = g"

definition isCurrentTokenRefresh :: "client \<Rightarrow> nat \<Rightarrow> nat \<Rightarrow> bool" where
  "isCurrentTokenRefresh s g r \<longleftrightarrow> isCurrentConnection s g \<and> cl_refresh s = r"

definition connected :: "client \<Rightarrow> bool" where
  "connected s \<longleftrightarrow> cl_handshake s
     \<and> (case cl_socket s of None \<Rightarrow> False | Some g \<Rightarrow> sock_state s g = Open)"

text \<open>\<open>socket.close(code)\<close>: the socket leaves the states in which it sends.\<close>

definition close_sock :: "nat \<Rightarrow> int \<Rightarrow> unit clact" where
  "close_sock g code =
     thenA (modify (upd_sock g (\<lambda>k. if so_state k = Closed then k else k\<lparr>so_state := Closing\<rparr>)))
       (cl_emit (Cl_close g code))"

definition close_current :: "int \<Rightarrow> unit clact" where
  "close_current code =
     bindA (readA cl_socket) (\<lambda>g. case g of None \<Rightarrow> ret () | Some g \<Rightarrow> close_sock g code)"

text \<open>\<open>socket.send(JSON.stringify(envelope))\<close> of an open socket.\<close>

definition raw_send :: "relay_cfg \<Rightarrow> nat \<Rightarrow> jobject \<Rightarrow> unit clact" where
  "raw_send c g envelope =
     bindA tickC (\<lambda>n. if rc_send_fails c n then throw Cl_send_failed else cl_emit (Cl_send g envelope))"

definition send :: "relay_cfg \<Rightarrow> jobject \<Rightarrow> unit clact" where
  "send c envelope =
     bindA (readA (\<lambda>s. (cl_socket s, case cl_socket s of None \<Rightarrow> False | Some g \<Rightarrow> sock_state s g = Open)))
       (\<lambda>(g, ok). if ok then raw_send c (the g) envelope else throw Cl_not_connected)"

definition sendOnConnection :: "relay_cfg \<Rightarrow> nat \<Rightarrow> jobject \<Rightarrow> unit clact" where
  "sendOnConnection c g envelope =
     bindA (readA (\<lambda>s. isCurrentConnection s g \<and> sock_state s g = Open))
       (\<lambda>ok. if ok then raw_send c g envelope else throw Cl_expired_connection)"

section \<open>Timers\<close>

definition stopTokenRefreshTimer :: "unit clact" where
  "stopTokenRefreshTimer = modify (\<lambda>s. s\<lparr>cl_refresh_timer := None\<rparr>)"

definition invalidateTokenRefresh :: "unit clact" where
  "invalidateTokenRefresh =
     thenA stopTokenRefreshTimer (modify (\<lambda>s. s\<lparr>cl_refresh := Suc (cl_refresh s)\<rparr>))"

definition stopHeartbeat :: "unit clact" where
  "stopHeartbeat = modify (\<lambda>s. s\<lparr>cl_heartbeat := False\<rparr>)"

definition stopOutboxRecoveryTimer :: "unit clact" where
  "stopOutboxRecoveryTimer = modify (\<lambda>s. s\<lparr>cl_recovery_timer := False\<rparr>)"

text \<open>\<open>clearResultTimers(true)\<close>: every result with a timer goes back to Pending.\<close>

definition clearResultTimers :: "relay_cfg \<Rightarrow> unit clact" where
  "clearResultTimers c =
     bindA (readA cl_result_timers) (\<lambda>jobs.
     thenA (eachA (\<lambda>jobId. thenA (storeC c (\<lambda>s now. resetOutboxPending s now jobId)) (ret ())) jobs)
       (modify (\<lambda>s. s\<lparr>cl_result_timers := []\<rparr>)))"

definition scheduleOutboxRecovery :: "relay_cfg \<Rightarrow> unit clact" where
  "scheduleOutboxRecovery c =
     thenA stopOutboxRecoveryTimer
       (bindA (readA connected) (\<lambda>ok.
        if \<not> ok then ret ()
        else bindA (readA (\<lambda>s. nextOutboxAttemptAt (rc_store c) (cl_db s))) (\<lambda>nextAt.
             case nextAt of
               None \<Rightarrow> ret ()
             | Some t \<Rightarrow>
                 bindA tickC (\<lambda>n.
                 thenA (cl_emit (Cl_wait (max 0 (t - rc_clock c n))))
                   (modify (\<lambda>s. s\<lparr>cl_recovery_timer := True\<rparr>))))))"

section \<open>Delivery of results\<close>

text \<open>The message id is stored before the result is sent; when the send fails, the attempt is
  taken back.\<close>

definition deliverResult :: "relay_cfg \<Rightarrow> jstring \<Rightarrow> bool \<Rightarrow> unit clact" where
  "deliverResult c jobId retry =
     bindA (readA connected) (\<lambda>ok.
       if \<not> ok then
         (if retry then thenA (storeC c (\<lambda>s now. resetOutboxPending s now jobId)) (ret ()) else ret ())
       else
         bindA tickC (\<lambda>n.
         let messageId = rc_uuid c n in
         bindA (storeC c (\<lambda>s now. startResultDelivery s now jobId messageId retry)) (\<lambda>started.
           case started of
             None \<Rightarrow> ret ()
           | Some row \<Rightarrow>
               thenA
                 (tryA
                   (bindA tickC (\<lambda>k.
                    send c (buildResultEnvelope (rc_wire c) (rc_uuid c k) (nat_now c k) jobId
                      (rc_agentId c) (rc_deviceId c) (o_result_json row) (Some messageId))))
                   (\<lambda>e. thenA (storeC c (\<lambda>s now.
                            resetOutboxPendingAfterSendFailure s now jobId messageId retry))
                          (thenA (close_current 1011) (throw e))))
                 (modify (\<lambda>s. s\<lparr>cl_result_timers :=
                    List.insert jobId (cl_result_timers s)\<rparr>)))))"

definition replay_batch_size :: nat where
  "replay_batch_size = 100"

text \<open>The loop body over one batch, from the first of the results left: \<open>deliverResult\<close> and the
  await; \<open>full\<close> says that the batch had the full size, so another is listed after it.\<close>

definition replay_from :: "relay_cfg \<Rightarrow> replay_caller \<Rightarrow> jstring \<Rightarrow> jstring list \<Rightarrow> bool \<Rightarrow> flow clact" where
  "replay_from c who jobId rest full =
     thenA (deliverResult c jobId False) (cl_suspend (K_replay who rest full))"

definition replay_done :: "relay_cfg \<Rightarrow> replay_caller \<Rightarrow> flow clact" where
  "replay_done c who =
     thenA (scheduleOutboxRecovery c)
       (case who of
          R_connect attempt g \<Rightarrow> cl_suspend (K_closed attempt g)
        | _ \<Rightarrow> ret Finished)"

definition replayOutbox :: "relay_cfg \<Rightarrow> replay_caller \<Rightarrow> flow clact" where
  "replayOutbox c who =
     bindA (readA connected) (\<lambda>ok.
       if \<not> ok then replay_done c who
       else
         bindA tickC (\<lambda>n.
         bindA (readA (\<lambda>s. map o_job_id (listPendingOutbox (rc_store c) replay_batch_size
                  (rc_clock c n) (cl_db s)))) (\<lambda>batch.
           case batch of
             [] \<Rightarrow> replay_done c who
           | jobId # rest \<Rightarrow> replay_from c who jobId rest (length batch = replay_batch_size))))"

definition replay_resumed :: "relay_cfg \<Rightarrow> replay_caller \<Rightarrow> jstring list \<Rightarrow> bool \<Rightarrow> flow clact" where
  "replay_resumed c who rest full =
     (case rest of
        jobId # others \<Rightarrow> replay_from c who jobId others full
      | [] \<Rightarrow> if full then replayOutbox c who else replay_done c who)"

definition notifyOutboxPending :: "relay_cfg \<Rightarrow> flow clact" where
  "notifyOutboxPending c =
     bindA (readA connected) (\<lambda>ok. if ok then replayOutbox c R_notify else ret Finished)"

text \<open>The acknowledgement timer of a result; an error of the retry closes the socket.\<close>

definition result_timer :: "relay_cfg \<Rightarrow> jstring \<Rightarrow> unit clact" where
  "result_timer c jobId =
     thenA (modify (\<lambda>s. s\<lparr>cl_result_timers := remove1 jobId (cl_result_timers s)\<rparr>))
       (bindA (readA (\<lambda>s. Option.bind (get_job (rc_store c) jobId (cl_db s)) sj_outbox)) (\<lambda>current.
        bindA (readA connected) (\<lambda>ok.
          case current of
            None \<Rightarrow> ret ()
          | Some row \<Rightarrow>
              if o_status row \<noteq> Delivering then ret ()
              else if \<not> ok
              then thenA (storeC c (\<lambda>s now. resetOutboxPending s now jobId)) (ret ())
              else if o_retry_count row < rc_resultMaxRetries c
              then tryA (deliverResult c jobId True) (\<lambda>_. close_current 1011)
              else
                bindA tickC (\<lambda>n.
                thenA (storeC c (\<lambda>s now. markOutboxAckFailed s now jobId
                         (rc_clock c n + resultRecoveryDelayMs (rc_resultAckTimeoutMs c) (o_retry_count row))))
                  (scheduleOutboxRecovery c)))))"

definition resolve_one :: "store_cfg \<Rightarrow> db \<Rightarrow> jstring \<Rightarrow> jstring option" where
  "resolve_one s db candidate =
     (if Option.bind (get_job s candidate db) sj_outbox \<noteq> None then Some candidate
      else (case findJobIdByOutboxMessageId s candidate db of
          None \<Rightarrow> None | Some mapped \<Rightarrow> if mapped = [] then None else Some mapped))"

fun resolveAckJobId :: "store_cfg \<Rightarrow> db \<Rightarrow> jstring list \<Rightarrow> jstring option" where
  "resolveAckJobId s db [] = None"
| "resolveAckJobId s db (candidate # rest) =
     (case resolve_one s db candidate of
        Some jobId \<Rightarrow> Some jobId
      | None \<Rightarrow> resolveAckJobId s db rest)"

section \<open>Token refresh\<close>

definition scheduleTokenRefreshRetry :: "relay_cfg \<Rightarrow> nat \<Rightarrow> nat \<Rightarrow> nat \<Rightarrow> unit clact" where
  "scheduleTokenRefreshRetry c g r attempt =
     bindA (readA (\<lambda>s. isCurrentTokenRefresh s g r)) (\<lambda>current.
       if \<not> current then ret ()
       else if attempt \<ge> rc_tokenRefreshMaxFailures c
       then thenA invalidateTokenRefresh (close_sock g 1012)
       else
         bindA tickC (\<lambda>n.
         thenA stopTokenRefreshTimer
           (thenA (cl_emit (Cl_wait (refresh_wait (rc_tokenRefreshAckTimeoutMs c) (rc_reconnectMaxMs c)
                      attempt (rc_random c n))))
             (modify (\<lambda>s. s\<lparr>cl_refresh_timer := Some (T_retry g r attempt)\<rparr>)))))"

text \<open>\<open>refreshRelayToken\<close> up to its await; \<open>chain\<close> is the message chain that waits for it.\<close>

definition refreshRelayToken :: "nat option \<Rightarrow> nat \<Rightarrow> nat \<Rightarrow> nat \<Rightarrow> flow clact" where
  "refreshRelayToken chain g r attempt =
     bindA (readA (\<lambda>s. isCurrentTokenRefresh s g r)) (\<lambda>current.
       if \<not> current then ret Finished else cl_suspend (K_refresh chain g r attempt))"

definition beginRelayTokenRefresh :: "nat option \<Rightarrow> nat \<Rightarrow> flow clact" where
  "beginRelayTokenRefresh chain g =
     thenA invalidateTokenRefresh
       (bindA (readA cl_refresh) (\<lambda>r. refreshRelayToken chain g r 1))"

text \<open>After \<open>await this.auth.getAccessToken(true)\<close>; a failed send counts as a failure.\<close>

definition refresh_failed :: "relay_cfg \<Rightarrow> nat \<Rightarrow> nat \<Rightarrow> nat \<Rightarrow> client_error \<Rightarrow> unit clact" where
  "refresh_failed c g r attempt e =
     bindA (readA (\<lambda>s. isCurrentTokenRefresh s g r)) (\<lambda>current.
       if \<not> current then ret ()
       else (case e of
           Cl_terminal_auth msg \<Rightarrow>
             thenA (modify (\<lambda>s. s\<lparr>cl_terminal := Some msg\<rparr>))
               (thenA invalidateTokenRefresh (close_current 1008))
         | _ \<Rightarrow> scheduleTokenRefreshRetry c g r attempt))"

definition token_arrived :: "relay_cfg \<Rightarrow> nat \<Rightarrow> nat \<Rightarrow> nat \<Rightarrow> client_error + jstring \<Rightarrow> unit clact" where
  "token_arrived c g r attempt answer =
     (case answer of
        Inl e \<Rightarrow> refresh_failed c g r attempt e
      | Inr token \<Rightarrow>
          bindA (readA (\<lambda>s. isCurrentTokenRefresh s g r)) (\<lambda>current.
            if \<not> current then ret ()
            else
              tryA
                (bindA tickC (\<lambda>n.
                 thenA (sendOnConnection c g (buildTokenRefreshEnvelope (rc_wire c) (rc_uuid c n)
                         (nat_now c n) (rc_agentId c) (rc_deviceId c) token))
                   (modify (\<lambda>s. s\<lparr>cl_refresh_timer := Some (T_ack g r attempt)\<rparr>))))
                (refresh_failed c g r attempt)))"

definition refresh_timer_fired :: "relay_cfg \<Rightarrow> refresh_timer \<Rightarrow> flow clact" where
  "refresh_timer_fired c t =
     thenA (modify (\<lambda>s. s\<lparr>cl_refresh_timer := None\<rparr>))
       (case t of
          T_ack g r attempt \<Rightarrow> thenA (scheduleTokenRefreshRetry c g r attempt) (ret Finished)
        | T_retry g r attempt \<Rightarrow> refreshRelayToken None g r (attempt + 1))"

section \<open>Messages of the server\<close>

definition ack :: "relay_cfg \<Rightarrow> nat \<Rightarrow> string \<Rightarrow> jstring \<Rightarrow> unit clact" where
  "ack c g type jobId =
     bindA tickC (\<lambda>n.
       sendOnConnection c g (buildAckEnvelope (rc_wire c) (rc_uuid c n) (nat_now c n) (js type) jobId
         (rc_agentId c) (rc_deviceId c)))"

definition envelope_type :: "jobject \<Rightarrow> jstring" where
  "envelope_type envelope = (case json_text (jget (js ''type'') envelope) of Some t \<Rightarrow> t | None \<Rightarrow> [])"

definition liftL :: "livis_error + 'a \<Rightarrow> 'a clact" where
  "liftL r = (case r of Inl e \<Rightarrow> throw (Cl_bad e) | Inr a \<Rightarrow> ret a)"

definition on_result_ack :: "relay_cfg \<Rightarrow> jobject \<Rightarrow> unit clact" where
  "on_result_ack c envelope =
     bindA (liftL (resultAckCandidates envelope)) (\<lambda>candidates.
       if candidates = [] then throw Cl_no_ack_id
       else
         bindA (readA (\<lambda>s. resolveAckJobId (rc_store c) (cl_db s) candidates)) (\<lambda>jobId.
           case jobId of
             None \<Rightarrow> ret ()
           | Some jobId \<Rightarrow>
               bindA (storeC c (\<lambda>s now. markOutboxDelivered s now jobId)) (\<lambda>delivered.
               thenA (scheduleOutboxRecovery c)
                 (case delivered of
                    Some row \<Rightarrow>
                      if o_status row = Delivered
                      then modify (\<lambda>s. s\<lparr>cl_result_timers := remove1 jobId (cl_result_timers s)\<rparr>)
                      else ret ()
                  | None \<Rightarrow> ret ()))))"

text \<open>\<open>handleEnvelope\<close> up to its first await; \<open>n\<close> is the chain of the message.\<close>

definition handleEnvelope :: "relay_cfg \<Rightarrow> nat \<Rightarrow> nat \<Rightarrow> jobject \<Rightarrow> flow clact" where
  "handleEnvelope c n g envelope =
     bindA (readA (\<lambda>s. cl_handshake s \<and> isCurrentConnection s g)) (\<lambda>ok.
       if \<not> ok then throw (Cl_before_handshake (envelope_type envelope))
       else if envelope_type envelope = js ''send_message'' then
         bindA tickC (\<lambda>k.
         bindA (liftL (parseIncomingRelayJob (rc_num c) (rc_millis c) (rc_clock c k) envelope
                  (rc_maxInputChars c))) (\<lambda>job.
           cl_suspend (K_incoming n g envelope (in_jobId job))))
       else if envelope_type envelope = js ''cancel_chat'' then
         (case jfield (jget (js ''metadata'') envelope) ''job_id'' of
            Some (JStr jobId) \<Rightarrow>
              if js_blank jobId then throw Cl_no_job_id else cl_suspend (K_cancel n g jobId)
          | _ \<Rightarrow> throw Cl_no_job_id)
       else if envelope_type envelope = js ''ack_send_result'' then
         thenA (on_result_ack c envelope) (ret Finished)
       else if envelope_type envelope = js ''token_expiring'' then beginRelayTokenRefresh (Some n) g
       else if envelope_type envelope = js ''token_refreshed'' then
         thenA invalidateTokenRefresh (ret Finished)
       else ret Finished)"

definition pong :: "relay_cfg \<Rightarrow> unit clact" where
  "pong c = bindA tickC (\<lambda>n. modify (\<lambda>s. s\<lparr>cl_lastPong := rc_clock c n\<rparr>))"

text \<open>One message at the head of a chain.\<close>

definition on_message :: "relay_cfg \<Rightarrow> nat \<Rightarrow> nat \<Rightarrow> jstring \<Rightarrow> flow clact" where
  "on_message c n g raw =
     bindA (liftL (parseRelayEnvelope (rc_num c) raw)) (\<lambda>envelope.
     bindA (readA (\<lambda>s. isCurrentConnection s g)) (\<lambda>current.
       if \<not> current then ret Finished
       else
         thenA (pong c)
           (bindA (readA (\<lambda>s. sock_of s g)) (\<lambda>k.
            if envelope_type envelope = js ''connected''
               \<and> (case k of None \<Rightarrow> False | Some k \<Rightarrow> \<not> so_shaken k)
            then
              thenA (modify (upd_sock g (\<lambda>k. k\<lparr>so_shaken := True,
                       so_handshake := (case so_handshake k of None \<Rightarrow> Some True | r \<Rightarrow> r)\<rparr>)))
                (thenA (modify (\<lambda>s. s\<lparr>cl_handshake := True\<rparr>))
                  (thenA (pong c) (ret Finished)))
            else handleEnvelope c n g envelope))))"

section \<open>The connection loop\<close>

text \<open>\<open>connectOnce\<close> after the access token has arrived, up to \<open>await handshake\<close>.\<close>

definition open_socket :: "nat \<Rightarrow> jstring \<Rightarrow> flow clact" where
  "open_socket attempt token =
     thenA (modify (\<lambda>s. s\<lparr>cl_generation := Suc (cl_generation s)\<rparr>))
       (thenA invalidateTokenRefresh
         (thenA (modify (\<lambda>s. s\<lparr>
             cl_sockets := cl_sockets s @ [\<lparr>so_token = token, so_state = Connecting, so_shaken = False,
               so_handshake = None\<rparr>],
             cl_socket := Some (cl_generation s), cl_handshake := False,
             cl_chains := cl_chains s @ [\<lparr>ch_busy = False, ch_queue = []\<rparr>]\<rparr>))
           (bindA (readA cl_generation) (\<lambda>g. cl_suspend (K_handshake attempt g)))))"

text \<open>The \<open>finally\<close> block of \<open>connectOnce\<close>.\<close>

definition close_connection :: "relay_cfg \<Rightarrow> nat \<Rightarrow> unit clact" where
  "close_connection c g =
     thenA stopHeartbeat
       (bindA (readA (\<lambda>s. isCurrentConnection s g)) (\<lambda>current.
        thenA (if current then invalidateTokenRefresh else ret ())
          (thenA stopOutboxRecoveryTimer
            (thenA (clearResultTimers c)
              (thenA (modify (\<lambda>s. if cl_socket s = Some g
                        then s\<lparr>cl_handshake := False, cl_socket := None\<rparr> else s))
                (bindA (readA (\<lambda>s. sock_state s g)) (\<lambda>st.
                 if st = Open \<or> st = Connecting then close_sock g 1000 else ret ())))))))"

text \<open>The loop test of \<open>runLoop\<close>, and what it does with the outcome of \<open>connectOnce\<close>.\<close>

definition run_again :: "nat \<Rightarrow> flow clact" where
  "run_again attempt =
     bindA (readA (\<lambda>s. \<not> cl_aborted s \<and> falsy (cl_terminal s))) (\<lambda>go.
       if go then cl_suspend (K_token attempt)
       else thenA (modify (\<lambda>s. s\<lparr>cl_run := Run_ended\<rparr>)) (ret Finished))"

definition connect_failed :: "relay_cfg \<Rightarrow> nat \<Rightarrow> client_error \<Rightarrow> flow clact" where
  "connect_failed c attempt e =
     bindA (readA cl_aborted) (\<lambda>aborted.
       if aborted then thenA (modify (\<lambda>s. s\<lparr>cl_run := Run_ended\<rparr>)) (ret Finished)
       else (case e of
           Cl_terminal_auth msg \<Rightarrow>
             thenA (modify (\<lambda>s. s\<lparr>cl_terminal := Some msg, cl_run := Run_ended\<rparr>)) (ret Finished)
         | _ \<Rightarrow>
             bindA tickC (\<lambda>n.
             thenA (cl_emit (Cl_wait (reconnect_wait (rc_reconnectMaxMs c) (Suc attempt) (rc_random c n))))
               (cl_suspend (K_delay (Suc attempt))))))"

text \<open>\<open>connectOnce\<close> ends: with an error, or since the socket closed.\<close>

definition connect_ended :: "relay_cfg \<Rightarrow> nat \<Rightarrow> nat \<Rightarrow> client_error option \<Rightarrow> flow clact" where
  "connect_ended c attempt g e =
     tryA
       (thenA (close_connection c g)
         (case e of None \<Rightarrow> run_again 0 | Some e \<Rightarrow> connect_failed c attempt e))
       (connect_failed c attempt)"

definition start_client :: "flow clact" where
  "start_client =
     bindA (readA cl_run) (\<lambda>run.
       if run \<noteq> Not_running then ret Finished
       else thenA (modify (\<lambda>s. s\<lparr>cl_aborted := False, cl_run := Running\<rparr>)) (run_again 0))"

text \<open>\<open>stop()\<close> up to \<open>await this.runPromise\<close>.\<close>

definition stop_client :: "relay_cfg \<Rightarrow> flow clact" where
  "stop_client c =
     thenA (modify (\<lambda>s. s\<lparr>cl_aborted := True\<rparr>))
       (thenA stopHeartbeat
         (thenA invalidateTokenRefresh
           (thenA stopOutboxRecoveryTimer
             (thenA (clearResultTimers c)
               (thenA (close_current 1000) (cl_suspend K_stopping))))))"

definition heartbeat :: "relay_cfg \<Rightarrow> unit clact" where
  "heartbeat c =
     bindA (readA (\<lambda>s. (cl_socket s, case cl_socket s of None \<Rightarrow> False | Some g \<Rightarrow> sock_state s g = Open)))
       (\<lambda>(g, ok).
         if \<not> ok then ret ()
         else
           bindA tickC (\<lambda>n. bindA tickC (\<lambda>k.
           bindA (readA cl_lastPong) (\<lambda>last.
             if rc_clock c n - last > rc_pongTimeoutMs c then close_sock (the g) 1000
             else
               thenA (cl_emit (Cl_ping (the g)))
                 (send c (buildHeartbeatEnvelope (rc_wire c) (rc_uuid c n) (rc_uuid c k)
                    (nat_now c n) (rc_agentId c) (rc_deviceId c)))))))"

section \<open>Reactions\<close>

text \<open>A message chain takes its next message once the last one is done.\<close>

definition chain_done :: "nat \<Rightarrow> client \<Rightarrow> client" where
  "chain_done n s =
     (if n < length (cl_chains s)
      then s\<lparr>cl_chains := (cl_chains s)[n := (cl_chains s ! n)\<lparr>ch_busy := False\<rparr>]\<rparr> else s)"

text \<open>The message is done, or waits; an error is logged.\<close>

definition run_message :: "nat \<Rightarrow> flow clact \<Rightarrow> client \<Rightarrow> client" where
  "run_message n m s =
     (case m s of
        (Inl e, s') \<Rightarrow> chain_done n (snd (cl_emit (Cl_rejected e) s'))
      | (Inr Finished, s') \<Rightarrow> chain_done n s'
      | (Inr Suspended, s') \<Rightarrow> s')"

text \<open>A stretch on behalf of the caller of \<open>replayOutbox\<close>.\<close>

definition run_replay :: "relay_cfg \<Rightarrow> replay_caller \<Rightarrow> flow clact \<Rightarrow> client \<Rightarrow> client" where
  "run_replay c who m s =
     (case m s of
        (Inl e, s') \<Rightarrow>
          (case who of
             R_notify \<Rightarrow> snd (cl_emit (Cl_rejected e) s')
           | R_connect attempt g \<Rightarrow> snd (connect_ended c attempt g (Some e) s')
           | R_recovery \<Rightarrow> snd (close_current 1011 s'))
      | (Inr _, s') \<Rightarrow> s')"

definition run_unit :: "'a clact \<Rightarrow> client \<Rightarrow> client" where
  "run_unit m s =
     (case m s of (Inl e, s') \<Rightarrow> snd (cl_emit (Cl_rejected e) s') | (Inr _, s') \<Rightarrow> s')"

datatype client_answer =
  An_done
| An_failed client_error
| An_token jstring

definition token_result :: "client_answer \<Rightarrow> (client_error + jstring) option" where
  "token_result a =
     (case a of An_token t \<Rightarrow> Some (Inr t) | An_failed e \<Rightarrow> Some (Inl e) | An_done \<Rightarrow> None)"

definition handler_result :: "client_answer \<Rightarrow> unit clact option" where
  "handler_result a =
     (case a of An_done \<Rightarrow> Some (ret ()) | An_failed e \<Rightarrow> Some (throw e) | An_token _ \<Rightarrow> None)"

text \<open>After \<open>await handshake\<close>: the promise is settled by the socket.\<close>

definition handshake_settled :: "relay_cfg \<Rightarrow> nat \<Rightarrow> nat \<Rightarrow> client \<Rightarrow> client option" where
  "handshake_settled c attempt g s =
     (case sock_of s g of
        None \<Rightarrow> None
      | Some k \<Rightarrow>
          (case so_handshake k of
             None \<Rightarrow> None
           | Some True \<Rightarrow>
               Some (run_unit
                 (thenA stopHeartbeat
                   (thenA (modify (\<lambda>s. s\<lparr>cl_heartbeat := True\<rparr>))
                     (thenA (cl_emit Cl_on_connected) (cl_suspend (K_connected attempt g))))) s)
           | Some False \<Rightarrow>
               Some (run_unit (connect_ended c attempt g (Some Cl_handshake_failed)) s)))"

definition socket_closed :: "relay_cfg \<Rightarrow> nat \<Rightarrow> nat \<Rightarrow> client \<Rightarrow> client option" where
  "socket_closed c attempt g s =
     (if sock_state s g \<noteq> Closed then None
      else Some (run_unit (connect_ended c attempt g
                   (if cl_aborted s then None else Some Cl_disconnected)) s))"

definition message_answered ::
  "relay_cfg \<Rightarrow> nat \<Rightarrow> nat \<Rightarrow> string \<Rightarrow> jstring \<Rightarrow> client_effect option \<Rightarrow> client_answer
     \<Rightarrow> client \<Rightarrow> client option" where
  "message_answered c n g type jobId note a s =
     map_option (\<lambda>m.
       run_message n
         (thenA m (thenA (case note of None \<Rightarrow> ret () | Some x \<Rightarrow> cl_emit x)
           (thenA (ack c g type jobId) (ret Finished)))) s)
       (handler_result a)"

definition resume_client :: "relay_cfg \<Rightarrow> client_wait \<Rightarrow> client_answer \<Rightarrow> client \<Rightarrow> client option" where
  "resume_client c w a s =
     (case w of
        K_token attempt \<Rightarrow>
          map_option (\<lambda>t. run_unit (case t of Inl e \<Rightarrow> connect_failed c attempt e
                                         | Inr token \<Rightarrow> open_socket attempt token) s) (token_result a)
      | K_handshake attempt g \<Rightarrow> handshake_settled c attempt g s
      | K_connected attempt g \<Rightarrow>
          map_option (\<lambda>m. run_replay c (R_connect attempt g)
            (thenA m (replayOutbox c (R_connect attempt g))) s) (handler_result a)
      | K_closed attempt g \<Rightarrow> socket_closed c attempt g s
      | K_delay attempt \<Rightarrow> Some (run_unit (run_again attempt) s)
      | K_replay who rest full \<Rightarrow> Some (run_replay c who (replay_resumed c who rest full) s)
      | K_incoming n g envelope jobId \<Rightarrow>
          message_answered c n g ''ack_send_message'' jobId (Some (Cl_accepted envelope)) a s
      | K_cancel n g jobId \<Rightarrow> message_answered c n g ''ack_cancel_chat'' jobId None a s
      | K_refresh n g r attempt \<Rightarrow>
          map_option (\<lambda>t.
            (case n of
               None \<Rightarrow> run_unit (token_arrived c g r attempt t) s
             | Some n \<Rightarrow> run_message n (thenA (token_arrived c g r attempt t) (ret Finished)) s))
            (token_result a)
      | K_stopping \<Rightarrow>
          if cl_run s = Running then None else Some (s\<lparr>cl_run := Not_running\<rparr>))"

datatype client_event =
  E_start
| E_stop
| E_notify
| E_opened nat
| E_frame nat frame
| E_pong nat
| E_closed nat
| E_error nat
| E_handshake_timeout nat
| E_chain nat
| E_result_timer jstring
| E_refresh_timer
| E_recovery_timer
| E_heartbeat
| E_resume nat client_answer

definition reject_handshake :: "sock \<Rightarrow> sock" where
  "reject_handshake k =
     (if so_shaken k then k
      else k\<lparr>so_handshake := (case so_handshake k of None \<Rightarrow> Some False | r \<Rightarrow> r)\<rparr>)"

text \<open>A frame joins the chain of the connection that is current when it arrives.\<close>

definition on_frame :: "relay_cfg \<Rightarrow> nat \<Rightarrow> frame \<Rightarrow> unit clact" where
  "on_frame c g f =
     (if relayFrameByteLength f > rc_maxFrameBytes c then close_sock g 1009
      else modify (\<lambda>s.
        let n = cl_generation s - 1 in
        if n < length (cl_chains s)
        then s\<lparr>cl_chains := (cl_chains s)[n := (cl_chains s ! n)\<lparr>ch_queue :=
               ch_queue (cl_chains s ! n) @ [(g, relayFrameText f)]\<rparr>]\<rparr>
        else s))"

definition take_message :: "relay_cfg \<Rightarrow> nat \<Rightarrow> client \<Rightarrow> client" where
  "take_message c n s =
     (if n < length (cl_chains s) \<and> \<not> ch_busy (cl_chains s ! n)
      then (case ch_queue (cl_chains s ! n) of
          [] \<Rightarrow> s
        | (g, raw) # rest \<Rightarrow>
            run_message n (on_message c n g raw)
              (s\<lparr>cl_chains := (cl_chains s)[n := \<lparr>ch_busy = True, ch_queue = rest\<rparr>]\<rparr>))
      else s)"

text \<open>The socket opens, and the connect envelope leaves it.\<close>

definition on_open :: "relay_cfg \<Rightarrow> nat \<Rightarrow> unit clact" where
  "on_open c g =
     bindA tickC (\<lambda>n. bindA tickC (\<lambda>k.
     thenA (modify (upd_sock g (\<lambda>k. k\<lparr>so_state := Open\<rparr>)))
       (bindA (readA (\<lambda>s. sock_of s g)) (\<lambda>x.
          case x of
            None \<Rightarrow> ret ()
          | Some x \<Rightarrow>
              cl_emit (Cl_send g (buildConnectEnvelope (rc_wire c) (rc_uuid c n) (rc_uuid c k)
                 (nat_now c n) (rc_agentId c) (rc_deviceId c) (rc_nodeName c) (so_token x)))))))"

fun client_happens :: "relay_cfg \<Rightarrow> client_event \<Rightarrow> client \<Rightarrow> client" where
  "client_happens c E_start s = run_unit start_client s"
| "client_happens c E_stop s = run_unit (stop_client c) s"
| "client_happens c E_notify s = run_replay c R_notify (notifyOutboxPending c) s"
| "client_happens c (E_opened g) s = (if sock_state s g = Connecting then run_unit (on_open c g) s else s)"
| "client_happens c (E_frame g f) s = (if sock_state s g = Closed then s else run_unit (on_frame c g f) s)"
| "client_happens c (E_pong g) s = run_unit (pong c) s"
| "client_happens c (E_closed g) s =
     upd_sock g (\<lambda>k. (reject_handshake k)\<lparr>so_state := Closed\<rparr>) s"
| "client_happens c (E_error g) s = upd_sock g reject_handshake s"
| "client_happens c (E_handshake_timeout g) s =
     (case sock_of s g of
        Some k \<Rightarrow>
          if so_handshake k = None
          then run_unit (close_sock g 1000) (upd_sock g (\<lambda>k. k\<lparr>so_handshake := Some False\<rparr>) s) else s
      | None \<Rightarrow> s)"
| "client_happens c (E_chain n) s = take_message c n s"
| "client_happens c (E_result_timer jobId) s =
     (if jobId \<in> set (cl_result_timers s) then run_unit (result_timer c jobId) s else s)"
| "client_happens c E_refresh_timer s =
     (case cl_refresh_timer s of Some t \<Rightarrow> run_unit (refresh_timer_fired c t) s | None \<Rightarrow> s)"
| "client_happens c E_recovery_timer s =
     (if cl_recovery_timer s
      then run_replay c R_recovery (replayOutbox c R_recovery) (s\<lparr>cl_recovery_timer := False\<rparr>) else s)"
| "client_happens c E_heartbeat s = (if cl_heartbeat s then run_unit (heartbeat c) s else s)"
| "client_happens c (E_resume i a) s =
     (if i < length (cl_waiting s)
      then (case resume_client c (cl_waiting s ! i) a
                   (s\<lparr>cl_waiting := take i (cl_waiting s) @ drop (Suc i) (cl_waiting s)\<rparr>) of
              Some s' \<Rightarrow> s' | None \<Rightarrow> s)
      else s)"

end
