(* ===== verification/Client_Stretch.thy ===== *)
theory Client_Stretch
  imports Relay_Client Store_Machine Livis_Props
begin

text \<open>
  What the relay client preserves, in the style of \<open>Daemon_Stretch\<close>: \<open>client_relation\<close> is the
  interface of a relation that ticks, admissible operations of the store, allowed effects and
  entries, and changes of sockets and timers all respect; it gives the reaction to every event
  but the acknowledgement of a message.
\<close>

definition cl_next :: "client \<Rightarrow> client" where
  "cl_next s = s\<lparr>cl_tick := Suc (cl_tick s)\<rparr>"

definition cl_with :: "db \<Rightarrow> client \<Rightarrow> client" where
  "cl_with db s = s\<lparr>cl_db := db\<rparr>"

definition cl_add_log :: "client_effect \<Rightarrow> client \<Rightarrow> client" where
  "cl_add_log x s = s\<lparr>cl_log := cl_log s @ [x]\<rparr>"

definition cl_add_waiting :: "client_wait \<Rightarrow> client \<Rightarrow> client" where
  "cl_add_waiting w s = s\<lparr>cl_waiting := cl_waiting s @ [w]\<rparr>"

text \<open>Only sockets, chains, flags and timers change.\<close>

definition wires_only :: "client \<Rightarrow> client \<Rightarrow> bool" where
  "wires_only s s' \<longleftrightarrow>
     cl_db s' = cl_db s \<and> cl_tick s' = cl_tick s \<and> cl_waiting s' = cl_waiting s \<and> cl_log s' = cl_log s"

definition message_ack :: "jobject \<Rightarrow> bool" where
  "message_ack envelope \<longleftrightarrow> envelope_type envelope = js ''ack_send_message''"

fun plain_effect :: "client_effect \<Rightarrow> bool" where
  "plain_effect (Cl_send g envelope) = (\<not> message_ack envelope)"
| "plain_effect (Cl_accepted _) = False"
| "plain_effect _ = True"

fun plain_wait :: "client_wait \<Rightarrow> bool" where
  "plain_wait (K_incoming _ _ _ _) = False"
| "plain_wait _ = True"

locale client_relation = stretch_relation R
  for R :: "client \<Rightarrow> client \<Rightarrow> bool" +
  fixes c :: relay_cfg
  assumes R_next: "R s (cl_next s)"
    and R_exec: "admissible x \<Longrightarrow>
      R s (cl_next (cl_with (exec (rc_store c) (rc_clock c (cl_tick s)) x (cl_db s)) s))"
    and R_effect: "plain_effect ef \<Longrightarrow> R s (cl_add_log ef s)"
    and R_entry: "plain_wait w \<Longrightarrow> R s (cl_add_waiting w s)"
    and R_wires: "wires_only s s' \<Longrightarrow> R s s'"
begin

lemma keeps_tickC: "keeps R tickC"
  using R_next by (simp add: keeps_def tickC_def bindA_def thenA_def readA_def modify_def ret_def cl_next_def)

lemma keeps_cl_emit: "plain_effect x \<Longrightarrow> keeps R (cl_emit x)"
  using R_effect by (simp add: keeps_def cl_emit_def modify_def cl_add_log_def)

lemma keeps_cl_suspend: "plain_wait w \<Longrightarrow> keeps R (cl_suspend w)"
  using R_entry
  by (simp add: keeps_def cl_suspend_def thenA_def bindA_def modify_def ret_def cl_add_waiting_def)

lemma keeps_wires: "(\<And>s. wires_only s (f s)) \<Longrightarrow> keeps R (modify f)"
  by (simp add: keeps_def modify_def R_wires)

lemma keeps_storeC:
  assumes "\<And>s n db. \<exists>x. admissible x \<and> snd (f s n db) = exec s n x db"
  shows "keeps R (storeC c f)"
  unfolding keeps_def
proof
  fix d :: client
  obtain x where "admissible x"
    "snd (f (rc_store c) (rc_clock c (cl_tick d)) (cl_db d))
       = exec (rc_store c) (rc_clock c (cl_tick d)) x (cl_db d)"
    using assms by blast
  then show "R d (snd (storeC c f d))"
    using R_exec [of x d] by (simp add: storeC_def Let_def cl_next_def cl_with_def)
qed

end

lemma delivery_is_exec:
  "snd (startResultDelivery s n j m r db) = exec s n (OpStartDelivery j m r) db"
  "snd (resetOutboxPending s n j db) = exec s n (OpResetPending j) db"
  "snd (resetOutboxPendingAfterSendFailure s n j m r db) = exec s n (OpSendFailed j m r) db"
  "snd (markOutboxDelivered s n j db) = exec s n (OpDelivered j) db"
  "snd (markOutboxAckFailed s n j t db) = exec s n (OpAckFailed j t) db"
  by (simp_all add: exec_def)

lemma envelope_type_put [simp]: "envelope_type (jput (js ''metadata'') v e) = envelope_type e"
  by (simp add: envelope_type_def js_def)

lemma envelope_type_wire [simp]: "envelope_type (withWireIdentity wi e) = envelope_type e"
  by (simp add: envelope_type_def withWireIdentity_def Let_def js_def)

lemma envelope_type_head [simp]: "envelope_type ((js ''type'', JStr t) # kvs) = t"
  by (simp add: envelope_type_def json_text_def jget_def)

lemma envelope_types:
  "envelope_type (buildConnectEnvelope wi u v n a d name t) = js ''connect''"
  "envelope_type (buildHeartbeatEnvelope wi u v n a d) = js ''heartbeat''"
  "envelope_type (buildAckEnvelope wi u n t j a d) = t"
  "envelope_type (buildResultEnvelope wi u n j a d r m) = js ''send_result''"
  "envelope_type (buildTokenRefreshEnvelope wi u n a d t) = js ''token_refresh''"
  by (simp_all add: buildConnectEnvelope_def buildHeartbeatEnvelope_def buildAckEnvelope_def
      buildResultEnvelope_def buildTokenRefreshEnvelope_def Let_def)

lemma plain_envelopes [simp]:
  "\<not> message_ack (buildConnectEnvelope wi u v n a d name t)"
  "\<not> message_ack (buildHeartbeatEnvelope wi u v n a d)"
  "\<not> message_ack (buildResultEnvelope wi u n j a d r m)"
  "\<not> message_ack (buildTokenRefreshEnvelope wi u n a d t)"
  by (simp_all add: message_ack_def envelope_types js_def)

lemma wires_upd_sock: "wires_only s (upd_sock g f s)"
  by (simp add: wires_only_def upd_sock_def split: option.split)

context client_relation begin

lemma keeps_deliveries:
  "keeps R (storeC c (\<lambda>s n. startResultDelivery s n j m r))"
  "keeps R (storeC c (\<lambda>s n. resetOutboxPending s n j))"
  "keeps R (storeC c (\<lambda>s n. resetOutboxPendingAfterSendFailure s n j m r))"
  "keeps R (storeC c (\<lambda>s n. markOutboxDelivered s n j))"
  by (rule keeps_storeC, rule exI, rule conjI [rotated], rule delivery_is_exec, simp)+

lemma keeps_ack_failed: "keeps R (storeC c (\<lambda>s n. markOutboxAckFailed s n j (f n)))"
  by (rule keeps_storeC, rule exI, rule conjI [rotated], rule delivery_is_exec, simp)

lemmas keeps_client = keeps_flow keeps_tickC keeps_deliveries

lemma keeps_close: "keeps R (close_sock g code)"
  unfolding close_sock_def
  by (intro keeps_client keeps_wires keeps_cl_emit wires_upd_sock) simp

lemma keeps_close_current: "keeps R (close_current code)"
  unfolding close_current_def by (intro keeps_client keeps_close)

lemma keeps_raw_send: "\<not> message_ack envelope \<Longrightarrow> keeps R (raw_send c g envelope)"
  unfolding raw_send_def by (intro keeps_client keeps_cl_emit) simp

lemma keeps_send: "\<not> message_ack envelope \<Longrightarrow> keeps R (send c envelope)"
  unfolding send_def by (intro keeps_client keeps_raw_send)

lemma keeps_sendOn: "\<not> message_ack envelope \<Longrightarrow> keeps R (sendOnConnection c g envelope)"
  unfolding sendOnConnection_def by (intro keeps_client keeps_raw_send)

lemma keeps_timers:
  "keeps R stopTokenRefreshTimer" "keeps R invalidateTokenRefresh" "keeps R stopHeartbeat"
  "keeps R stopOutboxRecoveryTimer"
  unfolding invalidateTokenRefresh_def stopTokenRefreshTimer_def stopHeartbeat_def
    stopOutboxRecoveryTimer_def
  by (intro keeps_client keeps_wires; simp add: wires_only_def)+

lemma keeps_clear: "keeps R (clearResultTimers c)"
  unfolding clearResultTimers_def
  by (intro keeps_client keeps_wires) (simp add: wires_only_def)

lemma keeps_schedule: "keeps R (scheduleOutboxRecovery c)"
  unfolding scheduleOutboxRecovery_def
  by (intro keeps_client keeps_timers keeps_cl_emit keeps_wires) (simp_all add: wires_only_def)

lemma keeps_deliver: "keeps R (deliverResult c jobId retry)"
  unfolding deliverResult_def Let_def
  by (intro keeps_client keeps_send keeps_close_current keeps_wires) (simp_all add: wires_only_def)

lemma keeps_replay_from: "keeps R (replay_from c who jobId rest full)"
  unfolding replay_from_def by (intro keeps_client keeps_deliver keeps_cl_suspend) simp

lemma keeps_replay_done: "keeps R (replay_done c who)"
  unfolding replay_done_def
  by (cases who; simp only: replay_caller.case; intro keeps_client keeps_schedule keeps_cl_suspend; simp)

lemma keeps_replay: "keeps R (replayOutbox c who)"
  unfolding replayOutbox_def
  by (intro keeps_client keeps_replay_done)
    (auto split: list.split intro: keeps_replay_done keeps_replay_from)

lemma keeps_resumed: "keeps R (replay_resumed c who rest full)"
  unfolding replay_resumed_def
  by (auto split: list.split intro: keeps_replay keeps_replay_done keeps_replay_from)

lemma keeps_result_timer: "keeps R (result_timer c jobId)"
  unfolding result_timer_def
  by (intro keeps_client keeps_ack_failed keeps_deliver keeps_close_current keeps_schedule keeps_wires)
    (simp add: wires_only_def)

lemma keeps_retry: "keeps R (scheduleTokenRefreshRetry c g r attempt)"
  unfolding scheduleTokenRefreshRetry_def
  by (intro keeps_client keeps_timers keeps_close keeps_cl_emit keeps_wires) (simp_all add: wires_only_def)

lemma keeps_refresh: "keeps R (refreshRelayToken chain g r attempt)"
  "keeps R (beginRelayTokenRefresh chain g)"
  unfolding beginRelayTokenRefresh_def refreshRelayToken_def
  by (intro keeps_client keeps_timers keeps_cl_suspend; simp)+

lemma keeps_refresh_failed: "keeps R (refresh_failed c g r attempt e)"
  unfolding refresh_failed_def
  by (cases e; simp only: client_error.case; intro keeps_client keeps_timers keeps_close_current
      keeps_retry keeps_wires; simp add: wires_only_def)

lemma keeps_token: "keeps R (token_arrived c g r attempt answer)"
  unfolding token_arrived_def
  by (intro keeps_client keeps_refresh_failed keeps_sendOn keeps_wires) (simp_all add: wires_only_def)

lemma keeps_refresh_timer: "keeps R (refresh_timer_fired c t)"
  unfolding refresh_timer_fired_def
  by (cases t; simp only: refresh_timer.case; intro keeps_client keeps_refresh keeps_retry keeps_wires;
      simp add: wires_only_def)

lemma keeps_liftL: "keeps R (liftL r)"
  unfolding liftL_def by (intro keeps_client)

lemma keeps_result_ack: "keeps R (on_result_ack c envelope)"
  unfolding on_result_ack_def
  by (intro keeps_client keeps_liftL keeps_schedule keeps_wires) (simp add: wires_only_def)

lemma keeps_pong: "keeps R (pong c)"
  unfolding pong_def by (intro keeps_client keeps_wires) (simp add: wires_only_def)

lemma keeps_connecting:
  "keeps R (open_socket attempt token)" "keeps R (close_connection c g)" "keeps R (run_again attempt)"
  unfolding open_socket_def close_connection_def run_again_def
  by (intro keeps_client keeps_timers keeps_clear keeps_close keeps_cl_suspend keeps_wires;
      simp add: wires_only_def)+

lemma keeps_connect_failed: "keeps R (connect_failed c attempt e)"
  unfolding connect_failed_def
  by (cases e; simp only: client_error.case; intro keeps_client keeps_cl_emit keeps_cl_suspend
      keeps_wires; simp add: wires_only_def)

lemma keeps_connect_ended: "keeps R (connect_ended c attempt g e)"
  unfolding connect_ended_def
  by (intro keeps_client keeps_connecting keeps_connect_failed)

lemma keeps_start_stop: "keeps R start_client" "keeps R (stop_client c)" "keeps R (heartbeat c)"
  unfolding start_client_def stop_client_def heartbeat_def
  by (intro keeps_client keeps_timers keeps_clear keeps_close keeps_close_current keeps_cl_suspend
      keeps_cl_emit keeps_send keeps_connecting keeps_wires; simp add: wires_only_def)+

end

section \<open>Messages and reactions\<close>

text \<open>The job a message names, and the entries that wait for a message to be accepted.\<close>

definition message_job :: "jobject \<Rightarrow> jstring option" where
  "message_job envelope = json_text (jfield (jget (js ''metadata'') envelope) ''job_id'')"

lemma parsed_job:
  "parseIncomingRelayJob num millis now envelope maxChars = Inr job \<Longrightarrow>
     message_job envelope = Some (in_jobId job)"
  by (simp add: parseIncomingRelayJob_Inr reads_job_def Let_def message_job_def json_text_def)

fun wait_ok :: "client_wait \<Rightarrow> bool" where
  "wait_ok (K_incoming n g envelope jobId) = (message_job envelope = Some jobId)"
| "wait_ok _ = True"

lemma plain_wait_ok: "plain_wait w \<Longrightarrow> wait_ok w"
  by (cases w) simp_all

locale message_relation = client_relation R c
  for R :: "client \<Rightarrow> client \<Rightarrow> bool" and c :: relay_cfg +
  fixes may_accept :: "client \<Rightarrow> jobject \<Rightarrow> bool"
  assumes R_incoming: "message_job envelope = Some jobId \<Longrightarrow>
      R s (cl_add_waiting (K_incoming n g envelope jobId) s)"
    and R_unwait: "R s (s\<lparr>cl_waiting := take i (cl_waiting s) @ drop (Suc i) (cl_waiting s)\<rparr>)"
    and R_accepted: "may_accept s envelope \<Longrightarrow> R s (cl_add_log (Cl_accepted envelope) s)"
    and R_ack: "Cl_accepted envelope \<in> set (cl_log s) \<Longrightarrow> message_job envelope = Some jobId \<Longrightarrow>
      R s (cl_add_log (Cl_send g (buildAckEnvelope (rc_wire c) u n (js ''ack_send_message'') jobId
        (rc_agentId c) (rc_deviceId c))) s)"
    and may_accept_unwait: "may_accept s envelope \<Longrightarrow>
      may_accept (s\<lparr>cl_waiting := ws\<rparr>) envelope"
begin

lemma keeps_cancel_ack: "keeps R (ack c g ''ack_cancel_chat'' jobId)"
  unfolding ack_def
  by (intro keeps_client keeps_sendOn) (simp add: message_ack_def envelope_types js_def)

lemma keeps_handle: "keeps R (handleEnvelope c n g envelope)"
proof -
  have "keeps R (bindA (liftL (parseIncomingRelayJob (rc_num c) (rc_millis c) t envelope
      (rc_maxInputChars c))) (\<lambda>job. cl_suspend (K_incoming n g envelope (in_jobId job))))" for t
  proof (cases "parseIncomingRelayJob (rc_num c) (rc_millis c) t envelope (rc_maxInputChars c)")
    case (Inr job)
    have "R s (snd (cl_suspend (K_incoming n g envelope (in_jobId job)) s))" for s
      using R_incoming [OF parsed_job [OF Inr]]
      by (simp add: cl_suspend_def thenA_def bindA_def modify_def ret_def cl_add_waiting_def)
    then show ?thesis by (simp add: liftL_def Inr keeps_def bindA_def ret_def)
  qed (simp add: liftL_def keeps_def bindA_def throw_def R_refl)
  then have received: "keeps R (bindA tickC (\<lambda>k. bindA (liftL (parseIncomingRelayJob (rc_num c)
      (rc_millis c) (rc_clock c k) envelope (rc_maxInputChars c)))
      (\<lambda>job. cl_suspend (K_incoming n g envelope (in_jobId job)))))"
    by (rule keeps_bindA [OF keeps_tickC])
  have cancelled: "keeps R (case jfield (jget (js ''metadata'') envelope) ''job_id'' of
      Some (JStr jobId) \<Rightarrow> if js_blank jobId then throw Cl_no_job_id else cl_suspend (K_cancel n g jobId)
    | _ \<Rightarrow> throw Cl_no_job_id)"
    by (auto split: option.split json.split intro!: keeps_flow keeps_cl_suspend)
  show ?thesis
    unfolding handleEnvelope_def
    by (rule keeps_bindA, rule keeps_pure, intro keeps_split received cancelled keeps_thenA keeps_pure
        keeps_result_ack keeps_refresh keeps_timers)
qed

lemma keeps_message: "keeps R (on_message c n g raw)"
  unfolding on_message_def
  by (intro keeps_client keeps_liftL keeps_pong keeps_handle keeps_wires wires_upd_sock)
    (simp add: wires_only_def)

lemma R_chain_done: "R s (chain_done n s)"
  by (rule R_wires) (simp add: chain_done_def wires_only_def)

lemma R_emit: "plain_effect x \<Longrightarrow> R s (snd (cl_emit x s))"
  using R_effect by (simp add: cl_emit_def modify_def cl_add_log_def)

lemma R_run_message: "R s (snd (m s)) \<Longrightarrow> R s (run_message n m s)"
proof -
  assume m: "R s (snd (m s))"
  have 1: "R s (chain_done n (snd (m s)))" by (rule R_trans [OF m R_chain_done])
  have 2: "R s (chain_done n (snd (cl_emit (Cl_rejected e) (snd (m s)))))" for e
    by (rule R_trans [OF R_trans [OF m R_emit] R_chain_done]) simp
  from m 1 2 show ?thesis
    by (auto simp: run_message_def split: prod.split sum.split flow.split)
qed

lemma R_run_unit: "R s (snd (m s)) \<Longrightarrow> R s (run_unit m s)"
proof -
  assume m: "R s (snd (m s))"
  have "R s (snd (cl_emit (Cl_rejected e) (snd (m s))))" for e
    by (rule R_trans [OF m R_emit]) simp
  with m show ?thesis by (auto simp: run_unit_def split: prod.split sum.split)
qed

lemma R_run_replay: "R s (snd (m s)) \<Longrightarrow> R s (run_replay c who m s)"
proof -
  assume m: "R s (snd (m s))"
  have "R s (snd (cl_emit (Cl_rejected e) (snd (m s))))" for e
    by (rule R_trans [OF m R_emit]) simp
  moreover have "R s (snd (connect_ended c attempt g e (snd (m s))))" for attempt g e
    by (rule R_trans [OF m keepsD [OF keeps_connect_ended]])
  moreover have "R s (snd (close_current 1011 (snd (m s))))"
    by (rule R_trans [OF m keepsD [OF keeps_close_current]])
  ultimately show ?thesis using m
    by (auto simp: run_replay_def split: prod.split sum.split replay_caller.split)
qed

lemma R_unit: "keeps R m \<Longrightarrow> R s (run_unit m s)"
  by (rule R_run_unit, erule keepsD)

lemma R_message: "keeps R m \<Longrightarrow> R s (run_message n m s)"
  by (rule R_run_message, erule keepsD)

lemma R_replay: "keeps R m \<Longrightarrow> R s (run_replay c who m s)"
  by (rule R_run_replay, erule keepsD)

text \<open>The acknowledgement of an accepted message.\<close>

lemma R_accept_message:
  assumes "may_accept s envelope" "message_job envelope = Some jobId"
  shows "R s (snd (thenA (cl_emit (Cl_accepted envelope))
    (thenA (ack c g ''ack_send_message'' jobId) (ret Finished)) s))"
proof -
  let ?s = "cl_add_log (Cl_accepted envelope) s" and ?t = "cl_next (cl_add_log (Cl_accepted envelope) s)"
  have emit: "cl_emit (Cl_accepted envelope) s = (Inr (), ?s)"
    by (simp add: cl_emit_def modify_def cl_add_log_def)
  have 1: "R s ?s" by (rule R_accepted [OF assms(1)])
  have "R ?t (snd (sendOnConnection c g (buildAckEnvelope (rc_wire c) u n (js ''ack_send_message'')
      jobId (rc_agentId c) (rc_deviceId c)) ?t))" for u n
  proof -
    let ?e = "buildAckEnvelope (rc_wire c) u n (js ''ack_send_message'') jobId (rc_agentId c) (rc_deviceId c)"
    have "R ?t (cl_next ?t)" by (rule R_next)
    moreover have "R (cl_next ?t) (cl_add_log (Cl_send g ?e) (cl_next ?t))"
      by (rule R_ack [of envelope]) (simp_all add: cl_next_def cl_add_log_def assms(2))
    ultimately have "R ?t (cl_add_log (Cl_send g ?e) (cl_next ?t))" by (rule R_trans)
    with \<open>R ?t (cl_next ?t)\<close> show ?thesis
      by (auto simp: sendOnConnection_def raw_send_def bindA_def readA_def tickC_def thenA_def
          modify_def ret_def throw_def cl_emit_def R_refl cl_next_def cl_add_log_def)
  qed
  moreover have "R s ?t" by (rule R_trans [OF 1 R_next])
  ultimately have "R s (snd (sendOnConnection c g (buildAckEnvelope (rc_wire c) u n (js ''ack_send_message'')
      jobId (rc_agentId c) (rc_deviceId c)) ?t))" for u n
    using R_trans by blast
  moreover have "ack c g ''ack_send_message'' jobId ?s = sendOnConnection c g
      (buildAckEnvelope (rc_wire c) (rc_uuid c (cl_tick ?s)) (nat_now c (cl_tick ?s))
        (js ''ack_send_message'') jobId (rc_agentId c) (rc_deviceId c)) ?t"
    by (simp add: ack_def bindA_def tickC_def thenA_def readA_def modify_def ret_def cl_next_def)
  ultimately have "R s (snd (ack c g ''ack_send_message'' jobId ?s))" by (simp only:)
  moreover have "snd (thenA (cl_emit (Cl_accepted envelope)) (thenA (ack c g ''ack_send_message'' jobId)
      (ret Finished)) s) = snd (ack c g ''ack_send_message'' jobId ?s)"
    by (simp add: thenA_def bindA_def emit ret_def split: prod.split sum.split)
  ultimately show ?thesis by (simp only:)
qed

lemma R_answered:
  assumes "message_answered c n g type jobId note a s = Some s'"
    and "R s (snd (thenA (case note of None \<Rightarrow> ret () | Some x \<Rightarrow> cl_emit x)
      (thenA (ack c g type jobId) (ret Finished)) s)) \<or> a \<noteq> An_done"
  shows "R s s'"
proof -
  let ?k = "thenA (case note of None \<Rightarrow> ret () | Some x \<Rightarrow> cl_emit x)
      (thenA (ack c g type jobId) (ret Finished))"
  have answers: "snd (thenA (ret ()) ?k s) = snd (?k s)" "snd (thenA (throw e) ?k s) = s" for e
    by (simp_all add: thenA_def bindA_def ret_def throw_def)
  show ?thesis
    using assms R_run_message [of s "thenA (ret ()) ?k" n] R_run_message [of s "thenA (throw _) ?k" n]
    by (cases a) (auto simp: message_answered_def handler_result_def answers R_refl)
qed

lemma R_resume:
  assumes "resume_client c w a s = Some s'" "wait_ok w"
    and "\<And>n g envelope jobId. w = K_incoming n g envelope jobId \<Longrightarrow> a = An_done \<Longrightarrow> may_accept s envelope"
  shows "R s s'"
proof (cases w)
  case (K_incoming n g envelope jobId)
  show ?thesis
    by (rule R_answered) (use assms K_incoming R_accept_message in \<open>auto simp: resume_client_def\<close>)
next
  case (K_cancel n g jobId)
  have "keeps R (thenA (ret ()) (thenA (ack c g ''ack_cancel_chat'' jobId) (ret Finished)))"
    by (intro keeps_client keeps_cancel_ack)
  with K_cancel assms(1) show ?thesis
    by (intro R_answered [where s' = s']) (auto simp: resume_client_def dest: keepsD)
next
  case (K_handshake attempt g)
  have "keeps R (thenA stopHeartbeat (thenA (modify (\<lambda>s. s\<lparr>cl_heartbeat := True\<rparr>))
      (thenA (cl_emit Cl_on_connected) (cl_suspend (K_connected attempt g)))))"
    by (intro keeps_client keeps_timers keeps_wires keeps_cl_emit keeps_cl_suspend)
      (simp_all add: wires_only_def)
  with K_handshake assms(1) show ?thesis
    by (auto simp: resume_client_def handshake_settled_def split: option.splits bool.splits
        intro!: R_run_unit keepsD [OF keeps_connect_ended] intro: keepsD)
next
  case K_stopping
  with assms(1) show ?thesis
    by (auto simp: resume_client_def wires_only_def split: if_splits intro!: R_wires)
next
  case (K_token attempt)
  have "keeps R (case t of Inl e \<Rightarrow> connect_failed c attempt e | Inr token \<Rightarrow> open_socket attempt token)" for t
    by (simp add: keeps_connecting keeps_connect_failed split: sum.split)
  with K_token assms(1) show ?thesis by (auto simp: resume_client_def intro: R_unit)
next
  case (K_connected attempt g)
  have "keeps R (thenA m (replayOutbox c (R_connect attempt g)))" if "handler_result a = Some m" for m
    using that by (intro keeps_client keeps_replay)
      (auto simp: handler_result_def keeps_pure split: client_answer.splits)
  with K_connected assms(1) show ?thesis by (auto simp: resume_client_def intro: R_replay)
next
  case (K_closed attempt g)
  with assms(1) show ?thesis
    by (auto simp: resume_client_def socket_closed_def split: if_splits intro: R_unit keeps_connect_ended)
next
  case (K_delay attempt)
  with assms(1) show ?thesis by (auto simp: resume_client_def intro: R_unit keeps_connecting)
next
  case (K_replay who rest full)
  with assms(1) show ?thesis by (auto simp: resume_client_def intro: R_replay keeps_resumed)
next
  case (K_refresh n g r attempt)
  have "keeps R (thenA (token_arrived c g r attempt t) (ret Finished))" for t
    by (intro keeps_client keeps_token)
  with K_refresh assms(1) show ?thesis
    by (cases n) (auto simp: resume_client_def intro: R_message R_unit keeps_token)
qed

lemma R_client_happens:
  assumes "\<And>i. i < length (cl_waiting s) \<Longrightarrow> wait_ok (cl_waiting s ! i)"
    and "\<And>i n g envelope jobId. ev = E_resume i An_done \<Longrightarrow> i < length (cl_waiting s) \<Longrightarrow>
      cl_waiting s ! i = K_incoming n g envelope jobId \<Longrightarrow> may_accept s envelope"
  shows "R s (client_happens c ev s)"
proof (cases ev)
  case (E_resume i a)
  show ?thesis
  proof (cases "i < length (cl_waiting s)")
    case True
    let ?s = "s\<lparr>cl_waiting := take i (cl_waiting s) @ drop (Suc i) (cl_waiting s)\<rparr>"
    have "R s s'" if "resume_client c (cl_waiting s ! i) a ?s = Some s'" for s'
      by (rule R_trans [OF R_unwait R_resume [OF that]])
        (use assms True E_resume may_accept_unwait in auto)
    with True show ?thesis by (auto simp: E_resume R_refl split: option.split)
  qed (simp add: E_resume R_refl)
next
  case (E_chain n)
  show ?thesis
  proof (cases "n < length (cl_chains s) \<and> \<not> ch_busy (cl_chains s ! n)")
    case True
    have "R s (s\<lparr>cl_chains := cs\<rparr>)" for cs by (rule R_wires) (simp add: wires_only_def)
    then have "R s (run_message n (on_message c n g raw) (s\<lparr>cl_chains := cs\<rparr>))" for g raw cs
      using R_trans R_run_message keepsD [OF keeps_message] by blast
    with True show ?thesis
      by (auto simp: E_chain take_message_def R_refl split: list.split)
  next
    case False
    then show ?thesis by (simp only: E_chain client_happens.simps take_message_def if_False R_refl)
  qed
next
  case (E_closed g)
  then show ?thesis by (simp add: R_wires wires_upd_sock)
next
  case (E_error g)
  then show ?thesis by (simp add: R_wires wires_upd_sock)
next
  case (E_handshake_timeout g)
  have "R s (upd_sock g f s)" for f by (rule R_wires) (rule wires_upd_sock)
  then have "R s (run_unit (close_sock g 1000) (upd_sock g f s))" for f
    using R_trans R_run_unit keepsD [OF keeps_close] by blast
  then show ?thesis by (auto simp: E_handshake_timeout R_refl split: option.split)
next
  case E_recovery_timer
  have "R s (s\<lparr>cl_recovery_timer := False\<rparr>)" by (rule R_wires) (simp add: wires_only_def)
  then have "R s (run_replay c R_recovery (replayOutbox c R_recovery) (s\<lparr>cl_recovery_timer := False\<rparr>))"
    using R_trans R_run_replay keepsD [OF keeps_replay] by blast
  then show ?thesis by (simp add: E_recovery_timer R_refl)
next
  case (E_opened g)
  have "keeps R (on_open c g)"
    unfolding on_open_def by (intro keeps_client keeps_wires wires_upd_sock keeps_cl_emit) simp
  then show ?thesis by (auto simp: E_opened R_refl intro: R_run_unit keepsD)
next
  case (E_frame g f)
  have "keeps R (on_frame c g f)"
    unfolding on_frame_def Let_def by (intro keeps_client keeps_close keeps_wires) (simp add: wires_only_def)
  then show ?thesis by (auto simp: E_frame R_refl intro: R_run_unit keepsD)
next
  case E_notify
  have "keeps R (notifyOutboxPending c)"
    unfolding notifyOutboxPending_def by (intro keeps_client keeps_replay)
  then show ?thesis by (auto simp: E_notify intro: R_run_replay keepsD)
next
  case E_start
  then show ?thesis by (simp add: R_unit keeps_start_stop)
next
  case E_stop
  then show ?thesis by (simp add: R_unit keeps_start_stop)
next
  case E_heartbeat
  then show ?thesis by (simp add: R_unit keeps_start_stop R_refl)
next
  case (E_pong g)
  then show ?thesis by (simp add: R_unit keeps_pong)
next
  case (E_result_timer jobId)
  then show ?thesis by (simp add: R_unit keeps_result_timer R_refl)
next
  case E_refresh_timer
  then show ?thesis by (simp add: R_unit keeps_refresh_timer R_refl split: option.split)
qed

end

end
