(* ===== verification/Daemon_Types.thy ===== *)
theory Daemon_Types
  imports Livis Store_Backend Store_Outbox Stretch
begin

text \<open>
  The state of \<open>RelayDaemon\<close> (\<open>src/src/daemon.ts\<close>) and the way its asynchronous methods
  are read.

  \<^item> JavaScript runs a method without interruption from one \<open>await\<close> to the next. Such a
    stretch is a function on the daemon's state (\<open>'a act\<close>); it returns a value or the error
    that rejects the method's promise.
  \<^item> At an \<open>await\<close> the rest of the method is a value of \<open>waiting\<close>, kept in \<open>dm_waiting\<close>.
    The environment resumes the entries in any order and runs other handlers in between.
  \<^item> Every reading of the clock and every random identifier is taken from the environment at
    the current tick (\<open>dc_clock\<close>, \<open>dc_uuid\<close>), so two readings in one stretch may differ.
  \<^item> What leaves the daemon (messages to the backend, calls of the relay client, promises
    settled) is appended to \<open>dm_log\<close>.
\<close>

section \<open>Events of the execution backend\<close>

text \<open>\<open>ExecutionJobEvent\<close> with the optional fields of the five job events.\<close>

record job_event =
  je_kind :: backend_kind
  je_executionId :: jstring
  je_jobId :: jstring
  je_leaseId :: jstring
  je_runGeneration :: "int option"
  je_turnId :: "jstring option"

datatype submission = Submitted | Not_sent

datatype exec_event =
  X_ready backend_kind
| X_accepted job_event
| X_result job_event jstring
| X_failed job_event jstring bool
| X_cancelled job_event bool
| X_disconnected backend_kind jstring "jstring option"

section \<open>Errors\<close>

datatype daemon_error =
  Daemon_stopping
| Proof_expired
| Upstream_closed jstring
| Bad_message livis_error
| Store_failed store_error
| Other_backend_job jstring
| Wrong_backend backend_kind
| Missing_generation jstring
| Missing_turn jstring
| Stale_attempt jstring
| Cancel_won jstring
| Unsettled jstring
| Unsafe_reset jstring
| Missing_lease jstring
| Claude_disposition
| Not_hermes
| Backend_threw jstring
| Relay_stop_failed
| Recheck_failed jstring
| Release_failed jstring
| Not_acknowledged
| Inactive_backlog "backlog_count list"

section \<open>State\<close>

datatype caller =
  C_incoming jobject | C_cancel jstring | C_connected | C_exec exec_event | C_deferred
| C_start | C_expiry | C_recheck_busy | C_recheck | C_recheck_failed

text \<open>What a method does once the stop of the relay it waits for is over.\<close>

datatype after_stop =
  Then_reject daemon_error
| Then_dispatched bool
| Then_finish
| Then_finish_anyway
| Then_check
| Then_reopen

datatype waiting =
  W_dispatch caller bool bool stored_job "stored_job list"
| W_notify_loop caller bool bool "stored_job list"
| W_notify_end caller
| W_notify_dispatch caller
| W_notify_defer caller bool
| W_cancel caller stored_job
| W_stop caller after_stop "nat option"
| W_started
| W_guard
| W_check
| W_save
| W_release "daemon_error option"

datatype effect =
  Ef_dispatch stored_job
| Ef_cancel stored_job
| Ef_result_ack jstring jstring
| Ef_reject jstring string
| Ef_notify
| Ef_relay_start
| Ef_relay_stop
| Ef_defer
| Ef_guard_release
| Ef_backend_start
| Ef_control_start
| Ef_arm_expiry int
| Ef_settled caller "daemon_error option"

text \<open>\<open>dm_stops\<close> holds the outcome of every \<open>relay.stop()\<close> that \<open>blockForUpstream\<close> issued;
  \<open>dm_block_promise\<close> is the index of the tracked one (\<open>upstreamBlockPromise\<close>).\<close>

record daemon =
  dm_db :: db
  dm_stopping :: bool
  dm_upstreamBlocked :: "jstring option"
  dm_relayStopped :: bool
  dm_block_promise :: "nat option"
  dm_stops :: "bool option list"
  dm_proofExpiresAt :: "int option"
  dm_check_running :: bool
  dm_stop_attempted :: bool
  dm_expiry_timer :: bool
  dm_ready :: bool
  dm_executionId :: "jstring option"
  dm_deferred :: nat
  dm_tick :: nat
  dm_waiting :: "waiting list"
  dm_log :: "effect list"

record daemon_cfg =
  dc_store :: store_cfg
  dc_kind :: backend_kind
  dc_sessionKey :: jstring
  dc_allowAllNodes :: bool
  dc_allowedNodeIds :: "jstring list"
  dc_unauthorizedMessage :: jstring
  dc_maxInputChars :: nat
  dc_maxOutputChars :: nat
  dc_acknowledgeProtocol :: bool
  dc_acknowledgeRemote :: bool
  dc_num :: "jstring \<Rightarrow> jstring"
  dc_millis :: "jstring \<Rightarrow> int"
  dc_clock :: "nat \<Rightarrow> int"
  dc_uuid :: "nat \<Rightarrow> jstring"

section \<open>Stretches of code\<close>

type_synonym 'a act = "(daemon, daemon_error, 'a) stretch"

definition emit :: "effect \<Rightarrow> unit act" where
  "emit x = modify (\<lambda>d. d\<lparr>dm_log := dm_log d @ [x]\<rparr>)"

text \<open>\<open>this.now()\<close> and \<open>crypto.randomUUID()\<close>.\<close>

definition nowA :: "daemon_cfg \<Rightarrow> int act" where
  "nowA c d = (Inr (dc_clock c (dm_tick d)), d\<lparr>dm_tick := Suc (dm_tick d)\<rparr>)"

definition uuidA :: "daemon_cfg \<Rightarrow> jstring act" where
  "uuidA c d = (Inr (dc_uuid c (dm_tick d)), d\<lparr>dm_tick := Suc (dm_tick d)\<rparr>)"

text \<open>A call of a method of the store, at the next reading of the clock.\<close>

definition storeA :: "daemon_cfg \<Rightarrow> (store_cfg \<Rightarrow> int \<Rightarrow> db \<Rightarrow> 'a reply) \<Rightarrow> 'a act" where
  "storeA c f d =
     (let r = f (dc_store c) (dc_clock c (dm_tick d)) (dm_db d)
      in (case fst r of Inl e \<Rightarrow> Inl (Store_failed e) | Inr a \<Rightarrow> Inr a,
          d\<lparr>dm_db := snd r, dm_tick := Suc (dm_tick d)\<rparr>))"

text \<open>\<open>catch (error) { if (error instanceof JobConflictError) ... else throw error }\<close>\<close>

definition catch_conflict :: "'a act \<Rightarrow> 'a act \<Rightarrow> 'a act" where
  "catch_conflict m h d =
     (case m d of (Inl (Store_failed (JobConflict _)), d') \<Rightarrow> h d' | r \<Rightarrow> r)"


definition suspend :: "waiting \<Rightarrow> flow act" where
  "suspend w = thenA (modify (\<lambda>d. d\<lparr>dm_waiting := dm_waiting d @ [w]\<rparr>)) (ret Suspended)"

end
