(* ===== verification/Daemon.thy ===== *)
theory Daemon
  imports Daemon_Types
begin

text \<open>
  The handlers of \<open>RelayDaemon\<close> (\<open>src/src/daemon.ts\<close>): the upstream gate, the arrival and
  cancellation of jobs, the dispatch loop and the events of the execution backend. One
  definition per method, in the order of its code; \<open>resume\<close> continues a method after an
  \<open>await\<close>.
\<close>

section \<open>Texts\<close>

definition UPSTREAM_PROOF_EXPIRED_REASON :: jstring where
  "UPSTREAM_PROOF_EXPIRED_REASON =
     js ''supported proof '' @ [0x5DF2, 0x8FC7, 0x671F, 0xFF1B, 0x5FC5, 0x987B, 0x5728, 0x7EBF,
       0x590D, 0x6838, 0x901A, 0x8FC7, 0x540E, 0x624D, 0x80FD, 0x7EE7, 0x7EED, 0x6D3E, 0x53D1]"

definition CODEX_CREDENTIAL_REJECTED_QUARANTINE_REASON :: jstring where
  "CODEX_CREDENTIAL_REJECTED_QUARANTINE_REASON =
     js ''Codex provider '' @ [0x62D2, 0x7EDD, 0x5F53, 0x524D, 0x9694, 0x79BB, 0x51ED, 0x636E,
       0xFF1B, 0x7981, 0x6B62, 0x7EE7, 0x7EED, 0x53D1, 0x9001] @ js '' turn'' @ [0xFF0C, 0x9700,
       0x4FEE, 0x590D, 0x4E13, 0x7528, 0x51ED, 0x636E, 0x5E76, 0x4EBA, 0x5DE5]
     @ js '' release session''"

fun backend_label :: "backend_kind \<Rightarrow> jstring" where
  "backend_label Hermes = js ''Hermes''"
| "backend_label Codex = js ''Codex''"
| "backend_label Claude = js ''Claude''"

fun user_label :: "backend_kind \<Rightarrow> jstring" where
  "user_label Hermes = js ''Hermes''"
| "user_label Codex = js ''Codex''"
| "user_label Claude = js ''Claude Code''"

definition try_later :: "backend_kind \<Rightarrow> jstring" where
  "try_later kind = user_label kind @ js '' '' @ [0x6682, 0x65F6, 0x65E0, 0x6CD5, 0x5B8C, 0x6210,
     0x8BE5, 0x8BF7, 0x6C42, 0xFF0C, 0x8BF7, 0x7A0D, 0x540E, 0x91CD, 0x8BD5, 0x3002]"

definition output_too_long :: "backend_kind \<Rightarrow> jstring" where
  "output_too_long kind = backend_label kind @ js '' '' @ [0x8F93, 0x51FA, 0x8D85, 0x8FC7]
     @ js '' daemon '' @ [0x4E0A, 0x9650, 0xFF0C, 0x5DF2, 0x62D2, 0x7EDD, 0x8FD4, 0x56DE, 0x3002]"

definition cancel_unproven :: "backend_kind \<Rightarrow> jstring" where
  "cancel_unproven kind = user_label kind @ js '' cancel '' @ [0x5DF2, 0x63A5, 0x53D7, 0xFF0C,
     0x4F46, 0x65E0, 0x6CD5, 0x8BC1, 0x660E, 0x8FDC, 0x7AEF, 0x6267, 0x884C, 0x5DF2, 0x7ECF,
     0x505C, 0x6B62]"

definition hermes_stop_unproven :: jstring where
  "hermes_stop_unproven = js ''Hermes /stop '' @ [0x5DF2, 0x53D1, 0x51FA, 0xFF0C, 0x4F46, 0x4E00,
     0x671F, 0x65E0, 0x6CD5, 0x8BC1, 0x660E, 0x6240, 0x6709, 0x5DE5, 0x5177, 0x7EBF, 0x7A0B,
     0x5DF2, 0x7ECF, 0x9000, 0x51FA]"

section \<open>The upstream gate\<close>

definition isUpstreamProofExpired :: "daemon_cfg \<Rightarrow> bool act" where
  "isUpstreamProofExpired c =
     bindA (nowA c) (\<lambda>now. readA (\<lambda>d.
       case dm_proofExpiresAt d of None \<Rightarrow> True | Some expires \<Rightarrow> expires \<le> now))"

text \<open>Closes the gate, and returns the stop of the relay that is under way, if one is.\<close>

definition blockForUpstream :: "jstring \<Rightarrow> nat option act" where
  "blockForUpstream reason =
     thenA (modify (\<lambda>d. if falsy (dm_upstreamBlocked d)
              then d\<lparr>dm_upstreamBlocked := Some reason, dm_relayStopped := False,
                     dm_expiry_timer := False\<rparr>
              else d))
       (bindA (readA (\<lambda>d. (dm_block_promise d, dm_relayStopped d))) (\<lambda>(promise, stopped).
        case promise of
          Some p \<Rightarrow> ret (Some p)
        | None \<Rightarrow>
            if stopped then ret None
            else thenA (emit Ef_relay_stop)
                   (thenA (modify (\<lambda>d. d\<lparr>dm_stops := dm_stops d @ [None],
                             dm_block_promise := Some (length (dm_stops d))\<rparr>))
                     (readA dm_block_promise))))"

text \<open>What follows \<open>await this.dispatchPending()\<close>: the arrival handler notifies the relay.\<close>

definition after_dispatch :: "caller \<Rightarrow> bool \<Rightarrow> flow act" where
  "after_dispatch who notify =
     (if notify then thenA (emit Ef_notify) (suspend (W_notify_end who)) else ret Finished)"

definition beginUpstreamBlock :: "jstring \<Rightarrow> bool \<Rightarrow> caller \<Rightarrow> bool \<Rightarrow> flow act" where
  "beginUpstreamBlock reason waitForRelayStop who notify =
     bindA (blockForUpstream reason) (\<lambda>stop.
       if waitForRelayStop then suspend (W_stop who (Then_dispatched notify) stop)
       else after_dispatch who notify)"

section \<open>Dispatch\<close>

definition isNodeAuthorized :: "daemon_cfg \<Rightarrow> jstring \<Rightarrow> bool" where
  "isNodeAuthorized c nodeId \<longleftrightarrow> dc_allowAllNodes c \<or> nodeId \<in> set (dc_allowedNodeIds c)"

abbreviation job_id :: "stored_job \<Rightarrow> jstring" where
  "job_id job \<equiv> j_job_id (sj_row job)"

abbreviation job_lease :: "stored_job \<Rightarrow> jstring option" where
  "job_lease job \<equiv> j_lease_id (sj_row job)"

abbreviation kind_name :: "daemon_cfg \<Rightarrow> jstring" where
  "kind_name c \<equiv> backend_name (dc_kind c)"

definition rejectNode :: "daemon_cfg \<Rightarrow> jstring \<Rightarrow> stored_job act" where
  "rejectNode c jobId =
     storeA c (\<lambda>s now. reject s now jobId (serializeResult (dc_unauthorizedMessage c))
       (js ''node not authorized''))"

definition resetUnsentExecution :: "daemon_cfg \<Rightarrow> stored_job \<Rightarrow> unit act" where
  "resetUnsentExecution c job =
     (if falsy (job_lease job) then throw (Missing_lease (job_id job))
      else let lease = the (job_lease job); g = j_run_generation (sj_row job) in
        if dc_kind c \<noteq> Hermes then
          bindA (readA (\<lambda>d. map_option (j_status \<circ> sj_row) (get_job (dc_store c) (job_id job) (dm_db d))))
            (\<lambda>current.
              if current = Some Cancelling then
                bindA (storeA c (\<lambda>s now. finishUnsentBackendCancellation s now (job_id job)
                         (kind_name c) lease g))
                  (\<lambda>cancelled. assertA (cancelled \<noteq> None) (Unsettled (job_id job)))
              else if current \<noteq> Some Dispatching then ret ()
              else
                bindA (storeA c (\<lambda>s now. resetUnsentBackendDispatch s now (job_id job)
                         (kind_name c) lease g))
                  (\<lambda>reset. assertA reset (Unsafe_reset (job_id job))))
        else storeA c (\<lambda>s now. resetUnsentDispatch s now (job_id job) lease))"

definition claim :: "daemon_cfg \<Rightarrow> jstring \<Rightarrow> jstring \<Rightarrow> jstring \<Rightarrow> stored_job option act" where
  "claim c jobId executionId leaseId =
     (if dc_kind c \<noteq> Hermes
      then storeA c (\<lambda>s now. claimForBackendDispatch s now jobId (kind_name c) executionId leaseId)
      else storeA c (\<lambda>s now. claimForDispatch s now jobId executionId leaseId))"

text \<open>The loop over the candidates; each await in it suspends with the candidates left.\<close>

primrec dispatch_loop ::
  "daemon_cfg \<Rightarrow> caller \<Rightarrow> bool \<Rightarrow> bool \<Rightarrow> stored_job list \<Rightarrow> flow act" where
  "dispatch_loop c who wait notify [] = after_dispatch who notify"
| "dispatch_loop c who wait notify (candidate # rest) =
     bindA (isUpstreamProofExpired c) (\<lambda>expired.
       if expired then beginUpstreamBlock UPSTREAM_PROOF_EXPIRED_REASON wait who notify
       else if \<not> isNodeAuthorized c (j_from_node_id (sj_row candidate)) then
         thenA (rejectNode c (job_id candidate))
           (thenA (emit Ef_notify) (suspend (W_notify_loop who wait notify rest)))
       else
         bindA (uuidA c) (\<lambda>leaseId.
         bindA (readA dm_executionId) (\<lambda>executionId.
           if falsy executionId then after_dispatch who notify
           else
             bindA (claim c (job_id candidate) (the executionId) leaseId) (\<lambda>claimed.
               case claimed of
                 None \<Rightarrow> dispatch_loop c who wait notify rest
               | Some job \<Rightarrow>
                   bindA (isUpstreamProofExpired c) (\<lambda>expired.
                     if expired then
                       thenA (resetUnsentExecution c job)
                         (beginUpstreamBlock UPSTREAM_PROOF_EXPIRED_REASON wait who notify)
                     else thenA (emit (Ef_dispatch job))
                            (suspend (W_dispatch who wait notify job rest)))))))"

definition dispatchPending :: "daemon_cfg \<Rightarrow> caller \<Rightarrow> bool \<Rightarrow> bool \<Rightarrow> flow act" where
  "dispatchPending c who wait notify =
     bindA (readA dm_stopping) (\<lambda>stopping.
       if stopping then after_dispatch who notify
       else
         bindA (isUpstreamProofExpired c) (\<lambda>expired.
         bindA (readA dm_upstreamBlocked) (\<lambda>blocked.
         bindA (readA (\<lambda>d. dm_ready d \<and> \<not> falsy (dm_executionId d))) (\<lambda>ready.
           if expired then beginUpstreamBlock UPSTREAM_PROOF_EXPIRED_REASON wait who notify
           else if \<not> falsy blocked then beginUpstreamBlock (the blocked) wait who notify
           else if \<not> ready then after_dispatch who notify
           else
             bindA (readA (\<lambda>d. listDispatchable (dc_store c) (dc_kind c) 100 (dm_db d)))
               (dispatch_loop c who wait notify)))))"

definition deferDispatchPending :: "unit act" where
  "deferDispatchPending = thenA (emit Ef_defer) (modify (\<lambda>d. d\<lparr>dm_deferred := Suc (dm_deferred d)\<rparr>))"

section \<open>Messages of the relay\<close>

text \<open>Ingest and acknowledge; \<open>None\<close> is the conflict with the first content of the id, which is
  logged and acknowledged to the relay as it is.\<close>

definition acceptJob :: "daemon_cfg \<Rightarrow> incoming_job \<Rightarrow> stored_job option act" where
  "acceptJob c incoming =
     catch_conflict
       (bindA (storeA c (\<lambda>s now. ingest s now incoming (dc_sessionKey c) (dc_kind c)))
         (\<lambda>(inserted, job).
           if j_status (sj_row job) = Received
           then bindA (storeA c (\<lambda>s now. markAcked s now (job_id job))) (\<lambda>job. ret (Some job))
           else ret (Some job)))
       (ret None)"

definition onRelayIncoming :: "daemon_cfg \<Rightarrow> jobject \<Rightarrow> flow act" where
  "onRelayIncoming c envelope =
     (let who = C_incoming envelope in
      bindA (readA dm_stopping) (\<lambda>stopping.
      if stopping then throw Daemon_stopping
      else
        bindA (isUpstreamProofExpired c) (\<lambda>expired.
        bindA (readA dm_upstreamBlocked) (\<lambda>blocked.
        if expired then
          bindA (blockForUpstream UPSTREAM_PROOF_EXPIRED_REASON) (\<lambda>stop.
            suspend (W_stop who (Then_reject Proof_expired) stop))
        else if \<not> falsy blocked then
          bindA (blockForUpstream (the blocked)) (\<lambda>stop.
            suspend (W_stop who (Then_reject (Upstream_closed (the blocked))) stop))
        else
          bindA (nowA c) (\<lambda>now.
          case parseIncomingRelayJob (dc_num c) (dc_millis c) now envelope (dc_maxInputChars c) of
            Inl e \<Rightarrow> throw (Bad_message e)
          | Inr incoming \<Rightarrow>
              bindA (acceptJob c incoming)
                (\<lambda>stored.
                  case stored of
                    None \<Rightarrow> ret Finished
                  | Some job \<Rightarrow>
                      if \<not> isNodeAuthorized c (j_from_node_id (sj_row job))
                         \<and> waiting_status (j_status (sj_row job))
                      then thenA (rejectNode c (job_id job))
                             (thenA (emit Ef_notify) (suspend (W_notify_end who)))
                      else dispatchPending c who True True))))))"

definition markCancellationUnknown :: "daemon_cfg \<Rightarrow> stored_job \<Rightarrow> jstring \<Rightarrow> unit act" where
  "markCancellationUnknown c job reason =
     (if falsy (job_lease job) then ret ()
      else let lease = the (job_lease job) in
        if dc_kind c = Hermes
        then thenA (storeA c (\<lambda>s now. markCancelUnknown s now (job_id job) lease reason)) (ret ())
        else
          bindA (readA (\<lambda>d. getBackendSession (dc_store c) (kind_name c)
                    (j_session_key (sj_row job)) (dm_db d)))
            (\<lambda>session.
              thenA (storeA c (\<lambda>s now. markBackendCancelUnknown s now (job_id job) (kind_name c)
                       lease (j_run_generation (sj_row job)) (Option.bind session s_active_turn_id)
                       reason))
                (ret ())))"

definition onRelayCancel :: "daemon_cfg \<Rightarrow> jstring \<Rightarrow> flow act" where
  "onRelayCancel c jobId =
     bindA (storeA c (\<lambda>s now. requestCancel s now jobId)) (\<lambda>found.
       case found of
         None \<Rightarrow> ret Finished
       | Some job \<Rightarrow>
           if j_status (sj_row job) = Cancelling \<and> \<not> falsy (job_lease job) then
             if j_target_backend (sj_row job) \<noteq> dc_kind c then throw (Other_backend_job jobId)
             else thenA (emit (Ef_cancel job)) (suspend (W_cancel (C_cancel jobId) job))
           else ret Finished)"

definition cancel_undelivered :: "daemon_cfg \<Rightarrow> jstring" where
  "cancel_undelivered c =
     (if dc_kind c = Hermes then js ''cancel could not be delivered to connector''
      else js ''cancel could not be delivered to '' @ kind_name c @ js '' native backend'')"

text \<open>After \<open>await this.executionBackend.cancel(job)\<close>; a thrown error is caught.\<close>

definition cancel_answered :: "daemon_cfg \<Rightarrow> stored_job \<Rightarrow> jstring + submission \<Rightarrow> flow act" where
  "cancel_answered c job answer =
     (case answer of
        Inl msg \<Rightarrow>
          thenA (markCancellationUnknown c job
                   (js ''cancel '' @ [0x8BF7, 0x6C42, 0x5F02, 0x5E38, 0xFF1A] @ msg))
            (ret Finished)
      | Inr Submitted \<Rightarrow> ret Finished
      | Inr Not_sent \<Rightarrow>
          if dc_kind c \<noteq> Hermes then
            bindA (storeA c (\<lambda>s now. finishUnsentBackendCancellation s now (job_id job) (kind_name c)
                     (the (job_lease job)) (j_run_generation (sj_row job))))
              (\<lambda>cancelled.
                if cancelled \<noteq> None then ret Finished
                else thenA (markCancellationUnknown c job (cancel_undelivered c)) (ret Finished))
          else thenA (markCancellationUnknown c job (cancel_undelivered c)) (ret Finished))"

definition onRelayConnected :: "daemon_cfg \<Rightarrow> flow act" where
  "onRelayConnected c = dispatchPending c C_connected False False"

section \<open>Events of the execution backend\<close>

definition assertConfiguredBackend :: "daemon_cfg \<Rightarrow> backend_kind \<Rightarrow> unit act" where
  "assertConfiguredBackend c kind = assertA (kind = dc_kind c) (Wrong_backend kind)"

definition requireDurableRunGeneration :: "job_event \<Rightarrow> nat act" where
  "requireDurableRunGeneration e =
     (case je_runGeneration e of
        Some g \<Rightarrow> if is_safe_integer g \<and> 1 \<le> g then ret (nat g)
                  else throw (Missing_generation (je_jobId e))
      | None \<Rightarrow> throw (Missing_generation (je_jobId e)))"

definition requireDurableTurn :: "job_event \<Rightarrow> (nat \<times> jstring) act" where
  "requireDurableTurn e =
     bindA (requireDurableRunGeneration e) (\<lambda>g.
       if falsy (je_turnId e) then throw (Missing_turn (je_jobId e))
       else ret (g, the (je_turnId e)))"

text \<open>Both send a message only if the configured backend is the Hermes one.\<close>

definition acknowledgeHermesResult :: "daemon_cfg \<Rightarrow> jstring \<Rightarrow> jstring \<Rightarrow> unit act" where
  "acknowledgeHermesResult c jobId leaseId =
     (if dc_kind c \<noteq> Hermes then throw Not_hermes else emit (Ef_result_ack jobId leaseId))"

definition rejectHermesEvent :: "daemon_cfg \<Rightarrow> jstring \<Rightarrow> string \<Rightarrow> unit act" where
  "rejectHermesEvent c jobId code =
     (if dc_kind c \<noteq> Hermes then throw Not_hermes else emit (Ef_reject jobId code))"

definition onExecutionReady :: "daemon_cfg \<Rightarrow> backend_kind \<Rightarrow> flow act" where
  "onExecutionReady c kind =
     thenA (assertConfiguredBackend c kind) (dispatchPending c (C_exec (X_ready kind)) True False)"

definition onExecutionAccepted :: "daemon_cfg \<Rightarrow> job_event \<Rightarrow> flow act" where
  "onExecutionAccepted c e =
     thenA (assertConfiguredBackend c (je_kind e))
       (if je_kind e \<noteq> Hermes then
          bindA (requireDurableTurn e) (\<lambda>(g, turnId).
          bindA (storeA c (\<lambda>s now. markBackendRunning s now (je_jobId e) (backend_name (je_kind e))
                   (je_leaseId e) g turnId)) (\<lambda>job.
          thenA (assertA (job \<noteq> None) (Stale_attempt (je_jobId e))) (ret Finished)))
        else
          bindA (storeA c (\<lambda>s now. markRunning s now (je_jobId e) (je_executionId e) (je_leaseId e)))
            (\<lambda>job.
              if j_status (sj_row job) \<noteq> Running \<or> job_lease job \<noteq> Some (je_leaseId e)
              then thenA (rejectHermesEvent c (je_jobId e) ''stale_lease'') (ret Finished)
              else ret Finished))"

text \<open>\<open>if (!before || before.leaseId !== event.leaseId) ... if (before.cancelRequested) ...\<close>, of the
  result and the failure handlers: rejection of the connector's message, or an error.\<close>

definition fence_event :: "daemon_cfg \<Rightarrow> job_event \<Rightarrow> flow act \<Rightarrow> flow act" where
  "fence_event c e continue =
     bindA (readA (\<lambda>d. get_job (dc_store c) (je_jobId e) (dm_db d))) (\<lambda>before.
       if (case before of None \<Rightarrow> True | Some b \<Rightarrow> job_lease b \<noteq> Some (je_leaseId e)) then
         (if je_kind e = Hermes
          then thenA (rejectHermesEvent c (je_jobId e) ''stale_lease'') (ret Finished)
          else throw (Stale_attempt (je_jobId e)))
       else if (case before of None \<Rightarrow> False | Some b \<Rightarrow> j_cancel_requested (sj_row b)) then
         (if je_kind e = Hermes
          then thenA (rejectHermesEvent c (je_jobId e) ''cancel_superseded'') (ret Finished)
          else throw (Cancel_won (je_jobId e)))
       else continue)"

definition onExecutionResult :: "daemon_cfg \<Rightarrow> job_event \<Rightarrow> jstring \<Rightarrow> flow act" where
  "onExecutionResult c e text =
     (let who = C_exec (X_result e text); backend = backend_name (je_kind e);
          resultJson = serializeResult text in
      thenA (assertConfiguredBackend c (je_kind e))
        (if length text > dc_maxOutputChars c then
           (if je_kind e = Hermes
            then thenA (rejectHermesEvent c (je_jobId e) ''output_too_large'') (ret Finished)
            else
              bindA (requireDurableTurn e) (\<lambda>(g, turnId).
              bindA (storeA c (\<lambda>s now. finishBackendFailure s now (je_jobId e) backend
                       (je_leaseId e) g turnId (serializeResult (output_too_long (je_kind e)))
                       (backend_label (je_kind e) @ js '' output exceeded daemon maxOutputChars'')))
                (\<lambda>failed.
              thenA (assertA (failed \<noteq> None) (Unsettled (je_jobId e)))
                (thenA (emit Ef_notify) (suspend (W_notify_defer who True))))))
         else
           fence_event c e
             (if je_kind e \<noteq> Hermes then
                bindA (requireDurableTurn e) (\<lambda>(g, turnId).
                bindA (storeA c (\<lambda>s now. finishBackendSuccess s now (je_jobId e) backend
                         (je_leaseId e) g turnId resultJson)) (\<lambda>job.
                thenA (assertA (job \<noteq> None) (Unsettled (je_jobId e)))
                  (thenA (emit Ef_notify) (suspend (W_notify_defer who True)))))
              else
                bindA (storeA c (\<lambda>s now. finishSuccess s now (je_jobId e) (je_leaseId e) resultJson))
                  (\<lambda>job.
                    if map_option o_result_json (sj_outbox job) \<noteq> Some resultJson
                    then thenA (rejectHermesEvent c (je_jobId e) ''result_conflict'') (ret Finished)
                    else thenA (acknowledgeHermesResult c (je_jobId e) (je_leaseId e))
                           (thenA (emit Ef_notify) (suspend (W_notify_dispatch who)))))))"

definition onExecutionFailed :: "daemon_cfg \<Rightarrow> job_event \<Rightarrow> jstring \<Rightarrow> bool \<Rightarrow> flow act" where
  "onExecutionFailed c e err credential_rejected =
     (let who = C_exec (X_failed e err credential_rejected); backend = backend_name (je_kind e);
          message = serializeResult (try_later (je_kind e)) in
      thenA (assertConfiguredBackend c (je_kind e))
        (if je_kind e = Claude \<and> credential_rejected then throw Claude_disposition
         else
           fence_event c e
             (if je_kind e \<noteq> Hermes then
                bindA (requireDurableTurn e) (\<lambda>(g, turnId).
                bindA (storeA c (\<lambda>s now.
                    if je_kind e = Codex \<and> credential_rejected
                    then finishBackendCredentialFailure s now (je_jobId e) backend (je_leaseId e) g
                           turnId message err CODEX_CREDENTIAL_REJECTED_QUARANTINE_REASON
                    else finishBackendFailure s now (je_jobId e) backend (je_leaseId e) g turnId
                           message err)) (\<lambda>job.
                thenA (assertA (job \<noteq> None) (Unsettled (je_jobId e)))
                  (thenA (emit Ef_notify) (suspend (W_notify_defer who (\<not> credential_rejected))))))
              else
                bindA (storeA c (\<lambda>s now. finishFailure s now (je_jobId e) (je_leaseId e) message err))
                  (\<lambda>job.
                    if sj_outbox job \<noteq> None
                    then thenA (acknowledgeHermesResult c (je_jobId e) (je_leaseId e))
                           (thenA (emit Ef_notify) (suspend (W_notify_dispatch who)))
                    else dispatchPending c who True False))))"

definition onExecutionCancelled :: "daemon_cfg \<Rightarrow> job_event \<Rightarrow> bool \<Rightarrow> flow act" where
  "onExecutionCancelled c e not_started =
     thenA (assertConfiguredBackend c (je_kind e))
       (bindA (readA (\<lambda>d. get_job (dc_store c) (je_jobId e) (dm_db d))) (\<lambda>before.
          case before of
            None \<Rightarrow> ret Finished
          | Some b \<Rightarrow>
              if job_lease b \<noteq> Some (je_leaseId e) then ret Finished
              else if je_kind e \<noteq> Hermes then
                bindA (requireDurableRunGeneration e) (\<lambda>g.
                thenA (storeA c (\<lambda>s now. markBackendCancelUnknown s now (je_jobId e)
                         (backend_name (je_kind e)) (je_leaseId e) g (je_turnId e)
                         (cancel_unproven (je_kind e))))
                  (ret Finished))
              else if not_started then
                bindA (storeA c (\<lambda>s now. finishHermesCancellationNotStarted s now (je_jobId e)
                         (je_leaseId e))) (\<lambda>cancelled.
                if cancelled = None \<and> j_status (sj_row b) = Cancelling
                then throw (Unsettled (je_jobId e))
                else if cancelled \<noteq> None
                then dispatchPending c (C_exec (X_cancelled e not_started)) True False
                else ret Finished)
              else
                thenA (storeA c (\<lambda>s now. markCancelUnknown s now (je_jobId e) (je_leaseId e)
                         hermes_stop_unproven))
                  (ret Finished)))"

definition onExecutionDisconnected ::
  "daemon_cfg \<Rightarrow> backend_kind \<Rightarrow> jstring \<Rightarrow> jstring option \<Rightarrow> flow act" where
  "onExecutionDisconnected c kind executionId reason =
     thenA (assertConfiguredBackend c kind)
       (if kind = Hermes
        then thenA (storeA c (\<lambda>s now. markConnectorDisconnected s now executionId)) (ret Finished)
        else
          thenA (storeA c (\<lambda>s now. markBackendDisconnected s now (backend_name kind) executionId
                   (case reason of Some r \<Rightarrow> r
                    | None \<Rightarrow> backend_name kind
                        @ js '' native backend disconnected during active execution'')))
            (ret Finished))"

fun onExecution :: "daemon_cfg \<Rightarrow> exec_event \<Rightarrow> flow act" where
  "onExecution c (X_ready kind) = onExecutionReady c kind"
| "onExecution c (X_accepted e) = onExecutionAccepted c e"
| "onExecution c (X_result e text) = onExecutionResult c e text"
| "onExecution c (X_failed e err rejected) = onExecutionFailed c e err rejected"
| "onExecution c (X_cancelled e not_started) = onExecutionCancelled c e not_started"
| "onExecution c (X_disconnected kind x reason) = onExecutionDisconnected c kind x reason"

end
