(* ===== verification/Daemon_Upstream.thy ===== *)
theory Daemon_Upstream
  imports Daemon
begin

text \<open>
  The rest of \<open>RelayDaemon\<close> (\<open>src/src/daemon.ts\<close>): start and stop, the expiry timer of
  the supported proof, the periodic recheck of the official upstream, and the continuation of
  every method after an \<open>await\<close> (\<open>resume\<close>). \<open>event\<close> lists what the environment can do;
  \<open>happens\<close> is the daemon's reaction.
\<close>

section \<open>Settling a promise\<close>

definition log_settled :: "caller \<Rightarrow> daemon_error option \<Rightarrow> daemon \<Rightarrow> daemon" where
  "log_settled who outcome d = d\<lparr>dm_log := dm_log d @ [Ef_settled who outcome]\<rparr>"

text \<open>\<open>recheckUpstream\<close> clears \<open>upstreamCheckPromise\<close> when the recheck settles.\<close>

definition settle :: "caller \<Rightarrow> daemon_error option \<Rightarrow> daemon \<Rightarrow> daemon" where
  "settle who outcome d =
     (if who \<in> {C_recheck_busy, C_recheck, C_recheck_failed}
      then (log_settled who outcome d)\<lparr>dm_check_running := False\<rparr>
      else log_settled who outcome d)"

definition online_recheck_failed :: "jstring \<Rightarrow> jstring" where
  "online_recheck_failed msg =
     [0x5728, 0x7EBF, 0x590D, 0x6838, 0x5931, 0x8D25, 0x4E14] @ js '' supported proof ''
       @ [0x5DF2, 0x8FC7, 0x671F, 0xFF1A] @ msg"

fun error_text :: "daemon_error \<Rightarrow> jstring" where
  "error_text (Recheck_failed msg) = msg"
| "error_text (Release_failed msg) = msg"
| "error_text (Backend_threw msg) = msg"
| "error_text _ = []"

text \<open>The outer \<open>catch\<close> of \<open>runUpstreamRecheck\<close>.\<close>

definition recheck_failed :: "daemon_cfg \<Rightarrow> bool \<Rightarrow> daemon_error \<Rightarrow> flow act" where
  "recheck_failed c guardReleaseFailed e =
     bindA (readA dm_stopping) (\<lambda>stopping.
     if stopping then (if guardReleaseFailed then throw e else ret Finished)
     else
       bindA (readA (\<lambda>d. (dm_upstreamBlocked d, dm_stop_attempted d, dm_relayStopped d)))
         (\<lambda>(blocked, attempted, stopped).
           if \<not> falsy blocked then
             (if \<not> attempted \<and> \<not> stopped then
                thenA (modify (\<lambda>d. d\<lparr>dm_stop_attempted := True\<rparr>))
                  (bindA (blockForUpstream (the blocked)) (\<lambda>stop.
                     suspend (W_stop C_recheck_failed Then_finish_anyway stop)))
              else ret Finished)
           else
             bindA (isUpstreamProofExpired c) (\<lambda>expired.
               if expired then
                 thenA (modify (\<lambda>d. d\<lparr>dm_stop_attempted := True\<rparr>))
                   (bindA (blockForUpstream (online_recheck_failed (error_text e))) (\<lambda>stop.
                      suspend (W_stop C_recheck_failed Then_finish stop)))
               else ret Finished)))"

definition run_plain :: "caller \<Rightarrow> flow act \<Rightarrow> daemon \<Rightarrow> daemon" where
  "run_plain who m d =
     (case m d of
        (Inl e, d') \<Rightarrow> settle who (Some e) d'
      | (Inr Finished, d') \<Rightarrow> settle who None d'
      | (Inr Suspended, d') \<Rightarrow> d')"

text \<open>The \<open>finally\<close> block releases the guard whatever happened while it was held.\<close>

definition release_guard :: "daemon_error option \<Rightarrow> flow act" where
  "release_guard outcome = thenA (emit Ef_guard_release) (suspend (W_release outcome))"

definition run :: "daemon_cfg \<Rightarrow> caller \<Rightarrow> flow act \<Rightarrow> daemon \<Rightarrow> daemon" where
  "run c who m d =
     (case m d of
        (Inl e, d') \<Rightarrow>
          if who = C_recheck then snd (release_guard (Some e) d')
          else if who = C_recheck_busy
          then run_plain C_recheck_failed (recheck_failed c False e) d'
          else settle who (Some e) d'
      | (Inr Finished, d') \<Rightarrow>
          if who = C_recheck then snd (release_guard None d') else settle who None d'
      | (Inr Suspended, d') \<Rightarrow> d')"

section \<open>The expiry timer\<close>

definition armUpstreamProofExpiry :: "daemon_cfg \<Rightarrow> bool act" where
  "armUpstreamProofExpiry c =
     thenA (modify (\<lambda>d. d\<lparr>dm_expiry_timer := False\<rparr>))
       (bindA (readA dm_stopping) (\<lambda>stopping.
        if stopping then ret False
        else
          bindA (nowA c) (\<lambda>now.
          bindA (readA dm_proofExpiresAt) (\<lambda>expires.
            case expires of
              None \<Rightarrow> thenA (blockForUpstream UPSTREAM_PROOF_EXPIRED_REASON) (ret False)
            | Some t \<Rightarrow>
                if t - now \<le> 0
                then thenA (blockForUpstream UPSTREAM_PROOF_EXPIRED_REASON) (ret False)
                else thenA (emit (Ef_arm_expiry (t - now)))
                       (thenA (modify (\<lambda>d. d\<lparr>dm_expiry_timer := True\<rparr>)) (ret True))))))"

definition onExpired :: "flow act" where
  "onExpired =
     thenA (modify (\<lambda>d. d\<lparr>dm_expiry_timer := False\<rparr>))
       (thenA (blockForUpstream UPSTREAM_PROOF_EXPIRED_REASON) (ret Finished))"

section \<open>Start and stop\<close>

definition inactive_backlog :: "daemon_cfg \<Rightarrow> db \<Rightarrow> backlog_count list" where
  "inactive_backlog c db =
     filter (\<lambda>item. bl_backend item \<noteq> dc_kind c) (listBackendBacklog (dc_store c) db)"

definition start_daemon :: "daemon_cfg \<Rightarrow> flow act" where
  "start_daemon c =
     thenA (assertA (dc_acknowledgeProtocol c) Not_acknowledged)
       (thenA (assertA (dc_kind c = Hermes \<or> dc_acknowledgeRemote c) Not_acknowledged)
         (bindA (readA (\<lambda>d. inactive_backlog c (dm_db d))) (\<lambda>backlog.
          thenA (assertA (backlog = []) (Inactive_backlog backlog))
            (thenA (storeA c recoverAfterRestart)
              (thenA (if dc_kind c \<noteq> Hermes then emit Ef_control_start else ret ())
                (thenA (emit Ef_backend_start) (suspend W_started)))))))"

definition stop_daemon :: "unit act" where
  "stop_daemon =
     bindA (readA dm_stopping) (\<lambda>stopping.
       if stopping then ret ()
       else thenA (modify (\<lambda>d. d\<lparr>dm_stopping := True, dm_expiry_timer := False\<rparr>))
              (emit Ef_relay_stop))"

section \<open>The periodic recheck\<close>

text \<open>\<open>recheckUpstream\<close>: one recheck at a time.\<close>

definition recheckUpstream :: "flow act" where
  "recheckUpstream =
     bindA (readA (\<lambda>d. dm_stopping d \<or> dm_check_running d)) (\<lambda>skip.
       if skip then ret Suspended
       else thenA (modify (\<lambda>d. d\<lparr>dm_check_running := True, dm_stop_attempted := False\<rparr>))
              (suspend W_guard))"

definition stopForUpstream :: "jstring \<Rightarrow> caller \<Rightarrow> after_stop \<Rightarrow> flow act" where
  "stopForUpstream reason who following =
     thenA (modify (\<lambda>d. d\<lparr>dm_stop_attempted := True\<rparr>))
       (bindA (blockForUpstream reason) (\<lambda>stop. suspend (W_stop who following stop)))"

definition guard_busy_reason :: jstring where
  "guard_busy_reason =
     js ''profile operation guard '' @ [0x88AB, 0x5360, 0x7528, 0x4E14] @ js '' supported proof ''
       @ [0x5DF2, 0x8FC7, 0x671F]"

text \<open>The guard is held by another process: only an expired proof closes the gate.\<close>

definition guard_busy :: "daemon_cfg \<Rightarrow> flow act" where
  "guard_busy c =
     bindA (readA dm_stopping) (\<lambda>stopping.
     if stopping then ret Finished
     else
       bindA (isUpstreamProofExpired c) (\<lambda>expired.
       if expired then stopForUpstream guard_busy_reason C_recheck_busy Then_finish
       else
         bindA (readA (\<lambda>d. (dm_upstreamBlocked d, dm_relayStopped d))) (\<lambda>(blocked, stopped).
           if \<not> falsy blocked \<and> \<not> stopped
           then stopForUpstream (the blocked) C_recheck_busy Then_finish
           else ret Finished)))"

definition guard_acquired :: "flow act" where
  "guard_acquired =
     bindA (readA (\<lambda>d. (dm_stopping d, dm_upstreamBlocked d, dm_relayStopped d)))
       (\<lambda>(stopping, blocked, stopped).
         if stopping then ret Finished
         else if \<not> falsy blocked \<and> \<not> stopped
         then stopForUpstream (the blocked) C_recheck Then_check
         else suspend W_check)"

definition incompatible_reason :: "jstring \<Rightarrow> jstring" where
  "incompatible_reason compatibility =
     [0x5B98, 0x65B9] @ js '' upstream '' @ [0x517C, 0x5BB9, 0x72B6, 0x6001, 0x53D8, 0x4E3A]
       @ js '' '' @ compatibility"

text \<open>After \<open>await this.upstreamChecker.check(...)\<close>: the compatibility of the snapshot.\<close>

definition upstream_checked :: "jstring \<Rightarrow> flow act" where
  "upstream_checked compatibility =
     bindA (readA dm_stopping) (\<lambda>stopping.
       if stopping then ret Finished
       else if compatibility \<noteq> js ''supported''
       then stopForUpstream (incompatible_reason compatibility) C_recheck Then_finish
       else suspend W_save)"

text \<open>After \<open>await saveSupportedProof(...)\<close>: the parsed expiry of the saved proof.\<close>

definition proof_saved :: "daemon_cfg \<Rightarrow> int option \<Rightarrow> flow act" where
  "proof_saved c expiresAt =
     bindA (readA dm_stopping) (\<lambda>stopping.
       if stopping then ret Finished
       else
         thenA (modify (\<lambda>d. d\<lparr>dm_proofExpiresAt := expiresAt\<rparr>))
           (bindA (armUpstreamProofExpiry c) (\<lambda>armed.
              if \<not> armed then ret Finished
              else
                bindA (readA dm_upstreamBlocked) (\<lambda>blocked.
                  if \<not> falsy blocked then stopForUpstream (the blocked) C_recheck Then_reopen
                  else ret Finished))))"

text \<open>The relay has stopped and the new proof is saved: the gate opens again.\<close>

definition reopen :: "daemon_cfg \<Rightarrow> flow act" where
  "reopen c =
     bindA (readA dm_stopping) (\<lambda>stopping.
       if stopping then ret Finished
       else
         bindA (isUpstreamProofExpired c) (\<lambda>expired.
           if expired then
             thenA (modify (\<lambda>d. d\<lparr>dm_expiry_timer := False,
                      dm_upstreamBlocked := Some UPSTREAM_PROOF_EXPIRED_REASON\<rparr>))
               (ret Finished)
           else
             thenA (modify (\<lambda>d. d\<lparr>dm_upstreamBlocked := None, dm_relayStopped := False\<rparr>))
               (thenA (emit Ef_relay_start) (dispatchPending c C_recheck True False))))"

text \<open>After \<open>await guard.release()\<close>.\<close>

definition guard_released ::
  "daemon_cfg \<Rightarrow> daemon_error option \<Rightarrow> jstring option \<Rightarrow> daemon \<Rightarrow> daemon" where
  "guard_released c workError releaseError d =
     (case (workError, releaseError) of
        (None, None) \<Rightarrow> settle C_recheck None d
      | (Some e, None) \<Rightarrow> run_plain C_recheck_failed (recheck_failed c False e) d
      | (_, Some msg) \<Rightarrow> run_plain C_recheck_failed (recheck_failed c True (Release_failed msg)) d)"

section \<open>Resumption\<close>

datatype answer =
  A_submission submission
| A_threw jstring
| A_done
| A_busy
| A_compatibility jstring
| A_proof "int option"

text \<open>A promise of \<open>relay.stop()\<close>: \<open>None\<close> while it is pending.\<close>

definition stop_outcome :: "daemon \<Rightarrow> nat option \<Rightarrow> bool option" where
  "stop_outcome d stop =
     (case stop of
        None \<Rightarrow> Some True
      | Some p \<Rightarrow> if p < length (dm_stops d) then dm_stops d ! p else None)"

fun after_stopped :: "daemon_cfg \<Rightarrow> caller \<Rightarrow> after_stop \<Rightarrow> bool \<Rightarrow> daemon \<Rightarrow> daemon" where
  "after_stopped c who Then_finish_anyway ok = run c who (ret Finished)"
| "after_stopped c who (Then_reject e) ok =
     run c who (throw (if ok then e else Relay_stop_failed))"
| "after_stopped c who (Then_dispatched notify) ok =
     run c who (if ok then after_dispatch who notify else throw Relay_stop_failed)"
| "after_stopped c who Then_finish ok =
     run c who (if ok then ret Finished else throw Relay_stop_failed)"
| "after_stopped c who Then_check ok =
     run c who (if ok
       then bindA (readA dm_stopping) (\<lambda>stopping. if stopping then ret Finished else suspend W_check)
       else throw Relay_stop_failed)"
| "after_stopped c who Then_reopen ok =
     run c who (if ok then reopen c else throw Relay_stop_failed)"

text \<open>The continuation of an entry of \<open>dm_waiting\<close>, \<open>None\<close> when the answer is not one the
  awaited promise can give, or the promise is still pending.\<close>

definition answered_dispatch ::
  "daemon_cfg \<Rightarrow> caller \<Rightarrow> bool \<Rightarrow> bool \<Rightarrow> stored_job \<Rightarrow> stored_job list \<Rightarrow> answer \<Rightarrow> flow act option" where
  "answered_dispatch c who wait notify job rest a =
     (case a of
        A_submission Submitted \<Rightarrow> Some (dispatch_loop c who wait notify rest)
      | A_submission Not_sent \<Rightarrow>
          Some (thenA (resetUnsentExecution c job) (after_dispatch who notify))
      | A_threw msg \<Rightarrow> Some (throw (Backend_threw msg))
      | _ \<Rightarrow> None)"

definition answered_notify :: "flow act \<Rightarrow> answer \<Rightarrow> flow act option" where
  "answered_notify m a =
     (case a of A_done \<Rightarrow> Some m | A_threw msg \<Rightarrow> Some (throw (Backend_threw msg)) | _ \<Rightarrow> None)"

definition answered_cancel :: "daemon_cfg \<Rightarrow> stored_job \<Rightarrow> answer \<Rightarrow> flow act option" where
  "answered_cancel c job a =
     (case a of
        A_submission s \<Rightarrow> Some (cancel_answered c job (Inr s))
      | A_threw msg \<Rightarrow> Some (cancel_answered c job (Inl msg))
      | _ \<Rightarrow> None)"

definition started :: "daemon_cfg \<Rightarrow> flow act" where
  "started c =
     bindA (armUpstreamProofExpiry c) (\<lambda>armed.
       if armed then thenA (emit Ef_relay_start) (ret Finished) else ret Finished)"

definition answered_guard :: "daemon_cfg \<Rightarrow> answer \<Rightarrow> (caller \<times> flow act) option" where
  "answered_guard c a =
     (case a of
        A_done \<Rightarrow> Some (C_recheck, guard_acquired)
      | A_busy \<Rightarrow> Some (C_recheck_busy, guard_busy c)
      | A_threw msg \<Rightarrow> Some (C_recheck_busy, throw (Recheck_failed msg))
      | _ \<Rightarrow> None)"

definition answered_check :: "answer \<Rightarrow> flow act option" where
  "answered_check a =
     (case a of
        A_compatibility k \<Rightarrow> Some (upstream_checked k)
      | A_threw msg \<Rightarrow> Some (throw (Recheck_failed msg))
      | _ \<Rightarrow> None)"

definition answered_save :: "daemon_cfg \<Rightarrow> answer \<Rightarrow> flow act option" where
  "answered_save c a =
     (case a of
        A_proof t \<Rightarrow> Some (proof_saved c t)
      | A_threw msg \<Rightarrow> Some (throw (Recheck_failed msg))
      | _ \<Rightarrow> None)"

definition resume :: "daemon_cfg \<Rightarrow> waiting \<Rightarrow> answer \<Rightarrow> daemon \<Rightarrow> daemon option" where
  "resume c w a d =
     (case w of
        W_dispatch who wait notify job rest \<Rightarrow>
          map_option (\<lambda>m. run c who m d) (answered_dispatch c who wait notify job rest a)
      | W_notify_loop who wait notify rest \<Rightarrow>
          map_option (\<lambda>m. run c who m d) (answered_notify (dispatch_loop c who wait notify rest) a)
      | W_notify_end who \<Rightarrow> map_option (\<lambda>m. run c who m d) (answered_notify (ret Finished) a)
      | W_notify_dispatch who \<Rightarrow>
          map_option (\<lambda>m. run c who m d) (answered_notify (dispatchPending c who True False) a)
      | W_notify_defer who defer_it \<Rightarrow>
          map_option (\<lambda>m. run c who m d) (answered_notify
            (thenA (if defer_it then deferDispatchPending else ret ()) (ret Finished)) a)
      | W_cancel who job \<Rightarrow> map_option (\<lambda>m. run c who m d) (answered_cancel c job a)
      | W_stop who following p \<Rightarrow>
          (if a = A_done
           then map_option (\<lambda>ok. after_stopped c who following ok d) (stop_outcome d p) else None)
      | W_started \<Rightarrow> map_option (\<lambda>m. run c C_start m d) (answered_notify (started c) a)
      | W_guard \<Rightarrow> map_option (\<lambda>(who, m). run c who m d) (answered_guard c a)
      | W_check \<Rightarrow> map_option (\<lambda>m. run c C_recheck m d) (answered_check a)
      | W_save \<Rightarrow> map_option (\<lambda>m. run c C_recheck m d) (answered_save c a)
      | W_release workError \<Rightarrow>
          (case a of
             A_done \<Rightarrow> Some (guard_released c workError None d)
           | A_threw msg \<Rightarrow> Some (guard_released c workError (Some msg) d)
           | _ \<Rightarrow> None))"

section \<open>Events\<close>

datatype event =
  D_start
| D_stop
| D_incoming jobject
| D_cancel jstring
| D_connected
| D_exec exec_event
| D_deferred
| D_expired
| D_recheck
| D_resume nat answer
| D_relay_stopped nat bool
| D_backend bool "jstring option"

definition drop_nth :: "nat \<Rightarrow> 'a list \<Rightarrow> 'a list" where
  "drop_nth i xs = take i xs @ drop (Suc i) xs"

text \<open>The handlers attached to a tracked stop: only the one still tracked changes the gate.\<close>

definition relay_stop_settled :: "nat \<Rightarrow> bool \<Rightarrow> daemon \<Rightarrow> daemon" where
  "relay_stop_settled p ok d =
     (let d' = d\<lparr>dm_stops := (dm_stops d)[p := Some ok]\<rparr>
      in if dm_block_promise d = Some p
         then d'\<lparr>dm_block_promise := None, dm_relayStopped := ok \<or> dm_relayStopped d\<rparr>
         else d')"

fun happens :: "daemon_cfg \<Rightarrow> event \<Rightarrow> daemon \<Rightarrow> daemon" where
  "happens c D_start d = run c C_start (start_daemon c) d"
| "happens c D_stop d = snd (stop_daemon d)"
| "happens c (D_incoming envelope) d = run c (C_incoming envelope) (onRelayIncoming c envelope) d"
| "happens c (D_cancel jobId) d = run c (C_cancel jobId) (onRelayCancel c jobId) d"
| "happens c D_connected d = run c C_connected (onRelayConnected c) d"
| "happens c (D_exec x) d = run c (C_exec x) (onExecution c x) d"
| "happens c D_deferred d =
     (if dm_deferred d = 0 then d
      else run c C_deferred (dispatchPending c C_deferred True False)
             (d\<lparr>dm_deferred := dm_deferred d - 1\<rparr>))"
| "happens c D_expired d = (if dm_expiry_timer d then run c C_expiry onExpired d else d)"
| "happens c D_recheck d = run_plain C_recheck recheckUpstream d"
| "happens c (D_resume i a) d =
     (if i < length (dm_waiting d)
      then (case resume c (dm_waiting d ! i) a (d\<lparr>dm_waiting := drop_nth i (dm_waiting d)\<rparr>) of
              Some d' \<Rightarrow> d' | None \<Rightarrow> d)
      else d)"
| "happens c (D_relay_stopped p ok) d =
     (if p < length (dm_stops d) \<and> dm_stops d ! p = None then relay_stop_settled p ok d else d)"
| "happens c (D_backend ready x) d = d\<lparr>dm_ready := ready, dm_executionId := x\<rparr>"

end
