(* ===== verification/Daemon_Stretch.thy ===== *)
theory Daemon_Stretch
  imports Daemon_Upstream Store_Machine
begin

text \<open>
  What a stretch of the daemon's code preserves (\<open>keeps\<close> of \<open>Stretch\<close>). The locales are the
  interface of such a relation: \<open>handler_relation\<close> adds the effects of the handlers to a
  preorder, \<open>dispatch_relation\<close> the dispatch loop, and \<open>reaction_relation\<close> gives the whole
  reaction to every event, once for all relations.
\<close>

definition add_waiting :: "waiting \<Rightarrow> daemon \<Rightarrow> daemon" where
  "add_waiting w d = d\<lparr>dm_waiting := dm_waiting d @ [w]\<rparr>"

definition add_log :: "effect \<Rightarrow> daemon \<Rightarrow> daemon" where
  "add_log x d = d\<lparr>dm_log := dm_log d @ [x]\<rparr>"

definition next_tick :: "daemon \<Rightarrow> daemon" where
  "next_tick d = d\<lparr>dm_tick := Suc (dm_tick d)\<rparr>"

definition with_db :: "db \<Rightarrow> daemon \<Rightarrow> daemon" where
  "with_db db d = d\<lparr>dm_db := db\<rparr>"

text \<open>Only the gate and the counters of the daemon change.\<close>

definition gate_only :: "daemon \<Rightarrow> daemon \<Rightarrow> bool" where
  "gate_only d d' \<longleftrightarrow>
     dm_db d' = dm_db d \<and> dm_tick d' = dm_tick d \<and> dm_waiting d' = dm_waiting d
     \<and> dm_log d' = dm_log d \<and> dm_proofExpiresAt d' = dm_proofExpiresAt d"

text \<open>The method an entry of \<open>dm_waiting\<close> belongs to.\<close>

fun caller_of :: "waiting \<Rightarrow> caller" where
  "caller_of (W_dispatch who _ _ _ _) = who"
| "caller_of (W_notify_loop who _ _ _) = who"
| "caller_of (W_notify_end who) = who"
| "caller_of (W_notify_dispatch who) = who"
| "caller_of (W_notify_defer who _) = who"
| "caller_of (W_cancel who _) = who"
| "caller_of (W_stop who _ _) = who"
| "caller_of W_started = C_start"
| "caller_of W_guard = C_recheck"
| "caller_of W_check = C_recheck"
| "caller_of W_save = C_recheck"
| "caller_of (W_release _) = C_recheck"

text \<open>The candidates a suspended dispatch loop still has to try.\<close>

fun cands_of :: "waiting \<Rightarrow> stored_job list" where
  "cands_of (W_dispatch _ _ _ _ rest) = rest"
| "cands_of (W_notify_loop _ _ _ rest) = rest"
| "cands_of _ = []"

fun quiet :: "effect \<Rightarrow> bool" where
  "quiet (Ef_dispatch _) = False"
| "quiet (Ef_settled _ _) = False"
| "quiet _ = True"

abbreviation recheck_caller :: "caller \<Rightarrow> bool" where
  "recheck_caller who \<equiv> who \<in> {C_recheck_busy, C_recheck, C_recheck_failed}"

section \<open>Handlers\<close>

locale handler_relation = stretch_relation R
  for R :: "daemon \<Rightarrow> daemon \<Rightarrow> bool" +
  fixes c :: daemon_cfg and allowed :: "caller \<Rightarrow> bool"
  assumes R_tick: "R d (next_tick d)"
    and R_store: "admissible x \<Longrightarrow>
      R d (next_tick (with_db (exec (dc_store c) (dc_clock c (dm_tick d)) x (dm_db d)) d))"
    and R_log: "quiet ef \<Longrightarrow> R d (add_log ef d)"
    and R_wait: "allowed (caller_of w) \<Longrightarrow> cands_of w = [] \<Longrightarrow> R d (add_waiting w d)"
    and R_gate: "gate_only d d' \<Longrightarrow> R d d'"
begin

lemma keeps_catch: "keeps R m \<Longrightarrow> keeps R h \<Longrightarrow> keeps R (catch_conflict m h)"
  unfolding keeps_def catch_conflict_def
  by (auto split: prod.split sum.split daemon_error.split store_error.split)
    (metis R_trans snd_conv)+

lemma keeps_submission:
  "keeps R k \<Longrightarrow> keeps R m \<Longrightarrow> keeps R (case y of Submitted \<Rightarrow> k | Not_sent \<Rightarrow> m)"
  by (simp split: submission.split)

lemmas keeps_code = keeps_flow keeps_catch keeps_submission

lemma keeps_tick: "keeps R (nowA c)" "keeps R (uuidA c)"
  using R_tick by (simp_all add: keeps_def nowA_def uuidA_def next_tick_def)

lemma keeps_emit: "quiet x \<Longrightarrow> keeps R (emit x)"
  using R_log by (simp add: keeps_def emit_def modify_def add_log_def)

lemma keeps_modify: "(\<And>d. gate_only d (f d)) \<Longrightarrow> keeps R (modify f)"
  by (simp add: keeps_def modify_def R_gate)

lemma keeps_suspend: "allowed (caller_of w) \<Longrightarrow> cands_of w = [] \<Longrightarrow> keeps R (suspend w)"
  using R_wait
  by (simp add: keeps_def suspend_def thenA_def bindA_def modify_def ret_def add_waiting_def)

lemma keeps_storeA:
  assumes "\<And>s n db. \<exists>x. admissible x \<and> snd (f s n db) = exec s n x db"
  shows "keeps R (storeA c f)"
  unfolding keeps_def
proof
  fix d :: daemon
  obtain x where "admissible x"
    "snd (f (dc_store c) (dc_clock c (dm_tick d)) (dm_db d))
       = exec (dc_store c) (dc_clock c (dm_tick d)) x (dm_db d)"
    using assms by blast
  then show "R d (snd (storeA c f d))"
    using R_store [of x d] by (simp add: storeA_def Let_def next_tick_def with_db_def)
qed

end

text \<open>The operation of the store behind each call.\<close>

lemma call_is_exec:
  "snd (ingest s n i k t db) = exec s n (OpIngest i k t) db"
  "snd (markAcked s n j db) = exec s n (OpMarkAcked j) db"
  "snd (reject s n j r e db) = exec s n (OpReject j r e) db"
  "snd (requestCancel s n j db) = exec s n (OpCancel j) db"
  "snd (markCancelUnknown s n j l r db) = exec s n (OpCancelUnknown j l r) db"
  "snd (markRunning s n j x l db) = exec s n (OpRunning j x l) db"
  "snd (finishSuccess s n j l r db) = exec s n (OpSuccess j l r) db"
  "snd (finishFailure s n j l r e db) = exec s n (OpFailure j l r e) db"
  "snd (claimForDispatch s n j x l db) = exec s n (OpClaim j x l) db"
  "snd (resetUnsentDispatch s n j l db) = exec s n (OpResetUnsent j l) db"
  "snd (finishHermesCancellationNotStarted s n j l db) = exec s n (OpCancelNotStarted j l) db"
  "snd (markConnectorDisconnected s n x db) = exec s n (OpDisconnected x) db"
  "snd (recoverAfterRestart s n db) = exec s n OpRecover db"
  by (simp_all add: exec_def)

lemma backend_call_is_exec:
  "snd (claimForBackendDispatch s n j b x l db) = exec s n (OpClaimBackend j b x l) db"
  "snd (resetUnsentBackendDispatch s n j b l g db) = exec s n (OpResetUnsentBackend j b l g) db"
  "snd (finishUnsentBackendCancellation s n j b l g db) = exec s n (OpCancelUnsentBackend j b l g) db"
  "snd (markBackendRunning s n j b l g t db) = exec s n (OpBackendRunning j b l g t) db"
  "snd (finishBackendSuccess s n j b l g t r db) = exec s n (OpBackendSuccess j b l g t r) db"
  "snd (finishBackendFailure s n j b l g t r e db) = exec s n (OpBackendFailure j b l g t r e) db"
  "snd (finishBackendCredentialFailure s n j b l g t r e q db)
     = exec s n (OpBackendCredentialFailure j b l g t r e q) db"
  "snd (markBackendCancelUnknown s n j b l g u r db) = exec s n (OpBackendCancelUnknown j b l g u r) db"
  "snd (markBackendDisconnected s n b x r db) = exec s n (OpBackendDisconnected b x r) db"
  by (simp_all add: exec_def)

context handler_relation begin

lemma keeps_calls:
  "keeps R (storeA c (\<lambda>s n. ingest s n i k t))"
  "keeps R (storeA c (\<lambda>s n. markAcked s n j))"
  "keeps R (storeA c (\<lambda>s n. reject s n j r e))"
  "keeps R (storeA c (\<lambda>s n. requestCancel s n j))"
  "keeps R (storeA c (\<lambda>s n. markCancelUnknown s n j l r))"
  "keeps R (storeA c (\<lambda>s n. markRunning s n j x l))"
  "keeps R (storeA c (\<lambda>s n. finishSuccess s n j l r))"
  "keeps R (storeA c (\<lambda>s n. finishFailure s n j l r e))"
  "keeps R (storeA c (\<lambda>s n. claimForDispatch s n j x l))"
  "keeps R (storeA c (\<lambda>s n. resetUnsentDispatch s n j l))"
  "keeps R (storeA c (\<lambda>s n. finishHermesCancellationNotStarted s n j l))"
  "keeps R (storeA c (\<lambda>s n. markConnectorDisconnected s n x))"
  "keeps R (storeA c recoverAfterRestart)"
  by (rule keeps_storeA, rule exI, rule conjI [rotated], rule call_is_exec, simp)+

lemma keeps_backend_calls:
  "keeps R (storeA c (\<lambda>s n. claimForBackendDispatch s n j b x l))"
  "keeps R (storeA c (\<lambda>s n. resetUnsentBackendDispatch s n j b l g))"
  "keeps R (storeA c (\<lambda>s n. finishUnsentBackendCancellation s n j b l g))"
  "keeps R (storeA c (\<lambda>s n. markBackendRunning s n j b l g t))"
  "keeps R (storeA c (\<lambda>s n. finishBackendSuccess s n j b l g t r))"
  "keeps R (storeA c (\<lambda>s n. finishBackendFailure s n j b l g t r e))"
  "keeps R (storeA c (\<lambda>s n. finishBackendCredentialFailure s n j b l g t r e q))"
  "keeps R (storeA c (\<lambda>s n. markBackendCancelUnknown s n j b l g u r))"
  "keeps R (storeA c (\<lambda>s n. markBackendDisconnected s n b x r))"
  by (rule keeps_storeA, rule exI, rule conjI [rotated], rule backend_call_is_exec, simp)+

lemma keeps_failure:
  "keeps R (storeA c (\<lambda>s n. if y then finishBackendCredentialFailure s n j b l g t r e q
      else finishBackendFailure s n j b l g t r e))"
  using keeps_backend_calls(6,7) by (cases y) simp_all

lemmas keeps_basic = keeps_code keeps_tick keeps_calls keeps_backend_calls keeps_failure

lemma keeps_expired: "keeps R (isUpstreamProofExpired c)"
  unfolding isUpstreamProofExpired_def by (intro keeps_basic)

lemma keeps_block: "keeps R (blockForUpstream reason)"
  unfolding blockForUpstream_def
  by (intro keeps_basic keeps_modify keeps_emit) (auto simp: gate_only_def)

lemma keeps_after: "allowed who \<Longrightarrow> keeps R (after_dispatch who notify)"
  unfolding after_dispatch_def by (intro keeps_basic keeps_emit keeps_suspend) simp_all

lemma keeps_begin:
  "allowed who \<Longrightarrow> keeps R (beginUpstreamBlock reason wait who notify)"
  unfolding beginUpstreamBlock_def
  by (intro keeps_basic keeps_suspend keeps_block keeps_after) simp_all

lemma keeps_reset: "keeps R (resetUnsentExecution c job)"
  unfolding resetUnsentExecution_def Let_def by (intro keeps_basic)

lemma keeps_claim: "keeps R (claim c jobId x lease)"
  unfolding claim_def by (intro keeps_basic)

lemma keeps_reject: "keeps R (rejectNode c jobId)"
  unfolding rejectNode_def by (intro keeps_basic)

lemma keeps_accept: "keeps R (acceptJob c incoming)"
  unfolding acceptJob_def by (intro keeps_basic)

lemma keeps_unknown: "keeps R (markCancellationUnknown c job reason)"
  unfolding markCancellationUnknown_def Let_def by (intro keeps_basic)

lemma keeps_cancelled: "keeps R (cancel_answered c job answer)"
  unfolding cancel_answered_def by (intro keeps_basic keeps_unknown)

lemma keeps_fence: "keeps R m \<Longrightarrow> keeps R (fence_event c e m)"
  unfolding fence_event_def rejectHermesEvent_def by (intro keeps_basic keeps_emit) simp_all

lemma keeps_turn: "keeps R (requireDurableRunGeneration e)" "keeps R (requireDurableTurn e)"
  unfolding requireDurableTurn_def requireDurableRunGeneration_def by (intro keeps_basic)+

lemma keeps_arm: "keeps R (armUpstreamProofExpiry c)"
  unfolding armUpstreamProofExpiry_def
  by (intro keeps_basic keeps_modify keeps_emit keeps_block) (auto simp: gate_only_def)

lemma keeps_expiry: "keeps R onExpired"
  unfolding onExpired_def by (intro keeps_basic keeps_modify keeps_block) (auto simp: gate_only_def)

lemma keeps_defer: "keeps R deferDispatchPending"
  unfolding deferDispatchPending_def by (intro keeps_basic keeps_modify keeps_emit) (auto simp: gate_only_def)

lemma keeps_stop: "keeps R stop_daemon"
  unfolding stop_daemon_def by (intro keeps_basic keeps_modify keeps_emit) (auto simp: gate_only_def)

lemma keeps_start: "allowed C_start \<Longrightarrow> keeps R (start_daemon c)"
  unfolding start_daemon_def by (intro keeps_basic keeps_emit keeps_suspend) simp_all

lemma keeps_started: "keeps R (started c)"
  unfolding started_def by (intro keeps_basic keeps_emit keeps_arm) simp_all

lemma keeps_stop_for:
  "allowed who \<Longrightarrow> keeps R (stopForUpstream reason who following)"
  unfolding stopForUpstream_def
  by (intro keeps_basic keeps_modify keeps_block keeps_suspend) (auto simp: gate_only_def)

text \<open>The dispatch loop, of a relation that lets jobs go out.\<close>

lemma keeps_loop:
  assumes "\<And>d job. R d (add_log (Ef_dispatch job) d)" "allowed who"
    and "\<And>w d. caller_of w = who \<Longrightarrow> R d (add_waiting w d)"
  shows "keeps R (dispatch_loop c who wait notify cands)"
proof -
  have dispatch: "keeps R (emit (Ef_dispatch job))" for job
    using assms(1) by (simp add: keeps_def emit_def modify_def add_log_def)
  have notify: "keeps R (emit Ef_notify)" by (rule keeps_emit) simp
  have wait: "caller_of w = who \<Longrightarrow> keeps R (suspend w)" for w
    using assms(3)
    by (simp add: keeps_def suspend_def thenA_def bindA_def modify_def ret_def add_waiting_def)
  show ?thesis
  proof (induction cands)
    case (Cons cand cands)
    then show ?case
      unfolding dispatch_loop.simps
      by (intro keeps_basic keeps_expired keeps_begin keeps_reject keeps_after keeps_claim
          keeps_reset wait dispatch notify) (simp_all add: assms(2))
  qed (simp add: keeps_after assms(2))
qed

end


section \<open>Reactions\<close>

text \<open>The caller whose promise a reaction works for.\<close>

fun event_caller :: "daemon \<Rightarrow> event \<Rightarrow> caller" where
  "event_caller d D_start = C_start"
| "event_caller d (D_incoming envelope) = C_incoming envelope"
| "event_caller d (D_cancel jobId) = C_cancel jobId"
| "event_caller d D_connected = C_connected"
| "event_caller d (D_exec x) = C_exec x"
| "event_caller d D_deferred = C_deferred"
| "event_caller d D_expired = C_expiry"
| "event_caller d (D_resume i a) =
     (if i < length (dm_waiting d) then caller_of (dm_waiting d ! i) else C_recheck)"
| "event_caller d _ = C_recheck"

locale dispatch_relation = handler_relation R c allowed
  for R :: "daemon \<Rightarrow> daemon \<Rightarrow> bool" and c :: daemon_cfg and allowed :: "caller \<Rightarrow> bool" +
  fixes ok_cands :: "daemon \<Rightarrow> stored_job list \<Rightarrow> bool"
  assumes R_list: "ok_cands d (listDispatchable (dc_store c) (dc_kind c) 100 (dm_db d))"
    and R_loop: "allowed who \<Longrightarrow> ok_cands d cands \<Longrightarrow>
      R d (snd (dispatch_loop c who wait notify cands d))"
begin

lemma keeps_dispatch: "allowed who \<Longrightarrow> keeps R (dispatchPending c who wait notify)"
proof -
  assume who: "allowed who"
  define go where "go = bindA (readA (\<lambda>d. listDispatchable (dc_store c) (dc_kind c) 100 (dm_db d)))
      (dispatch_loop c who wait notify)"
  have "keeps R go"
    by (simp add: go_def keeps_def bindA_def readA_def R_loop [OF who R_list])
  with who show ?thesis
    unfolding dispatchPending_def go_def [symmetric]
    by (intro keeps_basic keeps_after keeps_expired keeps_begin)
qed

lemma keeps_incoming: "allowed (C_incoming envelope) \<Longrightarrow> keeps R (onRelayIncoming c envelope)"
  unfolding onRelayIncoming_def Let_def
  by (intro keeps_basic keeps_expired keeps_block keeps_suspend keeps_accept keeps_reject
      keeps_emit keeps_dispatch) simp_all

lemma keeps_cancel: "allowed (C_cancel jobId) \<Longrightarrow> keeps R (onRelayCancel c jobId)"
  unfolding onRelayCancel_def by (intro keeps_basic keeps_emit keeps_suspend) simp_all

lemma keeps_connected: "allowed C_connected \<Longrightarrow> keeps R (onRelayConnected c)"
  unfolding onRelayConnected_def by (rule keeps_dispatch)

lemma keeps_execution: "allowed (C_exec x) \<Longrightarrow> keeps R (onExecution c x)"
  by (cases x; simp only: onExecution.simps onExecutionReady_def onExecutionAccepted_def
        onExecutionResult_def onExecutionFailed_def onExecutionCancelled_def
        onExecutionDisconnected_def Let_def assertConfiguredBackend_def rejectHermesEvent_def
        acknowledgeHermesResult_def; intro keeps_basic keeps_turn keeps_fence keeps_emit
        keeps_suspend keeps_dispatch; simp)

end

locale reaction_relation = dispatch_relation R c allowed ok_cands
  for R :: "daemon \<Rightarrow> daemon \<Rightarrow> bool" and c :: daemon_cfg and allowed :: "caller \<Rightarrow> bool"
    and ok_cands :: "daemon \<Rightarrow> stored_job list \<Rightarrow> bool" +
  fixes good_proof :: "int option \<Rightarrow> bool"
  assumes allowed_recheck: "recheck_caller who \<Longrightarrow> allowed who"
    and R_settle: "allowed who \<Longrightarrow> R d (add_log (Ef_settled who outcome) d)"
    and R_drop: "R d (d\<lparr>dm_waiting := drop_nth i (dm_waiting d)\<rparr>)"
    and R_proof: "good_proof t \<Longrightarrow> R d (d\<lparr>dm_proofExpiresAt := t\<rparr>)"
    and drop_cands: "ok_cands d cands \<Longrightarrow> ok_cands (d\<lparr>dm_waiting := drop_nth i (dm_waiting d)\<rparr>) cands"
begin

lemma keeps_recheck_failed: "keeps R (recheck_failed c b e)"
  unfolding recheck_failed_def
  by (intro keeps_basic keeps_modify keeps_block keeps_suspend keeps_expired)
    (auto simp: gate_only_def allowed_recheck)

lemma keeps_release: "keeps R (release_guard outcome)"
  unfolding release_guard_def
  by (intro keeps_basic keeps_emit keeps_suspend) (auto simp: allowed_recheck)

lemma keeps_recheck: "keeps R recheckUpstream"
  unfolding recheckUpstream_def
  by (intro keeps_basic keeps_modify keeps_suspend) (auto simp: gate_only_def allowed_recheck)

lemma keeps_guard: "keeps R (guard_busy c)" "keeps R guard_acquired" "keeps R (upstream_checked k)"
  unfolding guard_busy_def guard_acquired_def upstream_checked_def
  by (intro keeps_basic keeps_expired keeps_stop_for keeps_suspend; simp add: allowed_recheck)+

lemma keeps_set_proof: "good_proof t \<Longrightarrow> keeps R (modify (\<lambda>d. d\<lparr>dm_proofExpiresAt := t\<rparr>))"
  by (simp add: keeps_def modify_def R_proof)

lemma keeps_saved: "good_proof t \<Longrightarrow> keeps R (proof_saved c t)"
  unfolding proof_saved_def
  by (intro keeps_basic keeps_set_proof keeps_arm keeps_stop_for) (simp_all add: allowed_recheck)

lemma keeps_reopen: "keeps R (reopen c)"
  unfolding reopen_def
  by (intro keeps_basic keeps_modify keeps_emit keeps_dispatch keeps_expired)
    (auto simp: gate_only_def allowed_recheck)

lemma R_settled: "allowed who \<Longrightarrow> R d (settle who outcome d)"
proof -
  assume who: "allowed who"
  let ?d = "log_settled who outcome d"
  have 1: "R d ?d"
    using R_settle [OF who, of d outcome] by (simp add: log_settled_def add_log_def)
  have 2: "R ?d (?d\<lparr>dm_check_running := False\<rparr>)"
    by (rule R_gate) (simp add: gate_only_def)
  show ?thesis
    using 1 R_trans [OF 1 2] by (simp add: settle_def)
qed

lemma R_run_plain: "keeps R m \<Longrightarrow> allowed who \<Longrightarrow> R d (run_plain who m d)"
proof -
  assume m: "keeps R m" and who: "allowed who"
  obtain r d' where r: "m d = (r, d')" by (cases "m d")
  have 1: "R d d'" using keepsD [OF m, of d] by (simp add: r)
  show ?thesis
    using R_trans [OF 1 R_settled [OF who]] 1
    by (auto simp: run_plain_def r split: sum.split flow.split)
qed

lemma R_run: "keeps R m \<Longrightarrow> allowed who \<Longrightarrow> R d (run c who m d)"
proof -
  assume m: "keeps R m" and who: "allowed who"
  obtain r d' where r: "m d = (r, d')" by (cases "m d")
  have 1: "R d d'" using keepsD [OF m, of d] by (simp add: r)
  have 2: "R d' (snd (release_guard outcome d'))" for outcome
    using keepsD [OF keeps_release] by blast
  have 3: "R d' (run_plain C_recheck_failed (recheck_failed c False e) d')" for e
    using R_run_plain [OF keeps_recheck_failed] allowed_recheck by blast
  show ?thesis
    using R_trans [OF 1 2] R_trans [OF 1 3] R_trans [OF 1 R_settled [OF who]] 1
    by (auto simp: run_def r split: sum.split flow.split)
qed

lemma R_after_stopped: "allowed who \<Longrightarrow> R d (after_stopped c who following ok d)"
  by (cases following; cases ok)
    (auto intro!: R_run keeps_basic keeps_after keeps_suspend keeps_reopen simp: allowed_recheck)

lemma R_guard_released: "R d (guard_released c workError releaseError d)"
  using R_run_plain [OF keeps_recheck_failed] R_settled allowed_recheck
  by (auto simp: guard_released_def split: option.split)

lemma answered_keeps:
  "answered_cancel c job a = Some m \<Longrightarrow> keeps R m"
  "answered_check a = Some m \<Longrightarrow> keeps R m"
  "answered_save c a = Some m \<Longrightarrow> (\<And>t. a = A_proof t \<Longrightarrow> good_proof t) \<Longrightarrow> keeps R m"
  "answered_guard c a = Some (who, m) \<Longrightarrow> keeps R m \<and> recheck_caller who"
  "answered_notify k a = Some m \<Longrightarrow> keeps R k \<Longrightarrow> keeps R m"
  by (auto simp: answered_cancel_def answered_check_def answered_save_def
      answered_guard_def answered_notify_def split: answer.splits submission.splits
      intro!: keeps_basic keeps_reset keeps_after keeps_cancelled keeps_guard keeps_saved)

text \<open>A loop that goes on starts from the candidates it was suspended with.\<close>

lemma R_run_at: "R d (snd (m d)) \<Longrightarrow> allowed who \<Longrightarrow> R d (run c who m d)"
  using R_run [of "\<lambda>e. if e = d then m e else ret Suspended e" who d]
  by (simp add: keeps_def ret_def R_refl run_def)

lemma answered_loop:
  "answered_dispatch c who wait notify job rest a = Some m \<Longrightarrow> allowed who \<Longrightarrow> ok_cands d rest \<Longrightarrow>
     R d (snd (m d))"
  "answered_notify (dispatch_loop c who wait notify rest) a = Some m \<Longrightarrow> allowed who
     \<Longrightarrow> ok_cands d rest \<Longrightarrow> R d (snd (m d))"
  using keepsD [OF keeps_thenA [OF keeps_reset keeps_after]]
    keepsD [OF keeps_pure(2)]
  by (auto simp: answered_dispatch_def answered_notify_def R_loop
      split: answer.splits submission.splits)

lemma R_resume:
  assumes "resume c w a d = Some d'" "allowed (caller_of w)" "ok_cands d (cands_of w)"
    and "\<And>t. a = A_proof t \<Longrightarrow> good_proof t"
  shows "R d d'"
proof (cases w)
  case (W_dispatch who wait notify job rest)
  with assms show ?thesis
    by (auto simp: resume_def intro: R_run_at answered_loop)
next
  case (W_notify_loop who wait notify rest)
  with assms show ?thesis
    by (auto simp: resume_def intro: R_run_at answered_loop)
qed (use assms in \<open>auto simp: resume_def intro!: R_run R_after_stopped R_guard_released keeps_basic
        keeps_dispatch keeps_started keeps_defer
        dest: answered_keeps(1-4) elim!: answered_keeps(5) split: if_splits answer.splits
        intro: allowed_recheck\<close>)

lemma R_stop: "R d (relay_stop_settled p ok d)"
  by (rule R_gate) (simp add: gate_only_def relay_stop_settled_def Let_def)

lemma R_happens:
  assumes "allowed (event_caller d ev)"
    and "\<And>w. w \<in> set (dm_waiting d) \<Longrightarrow> ok_cands d (cands_of w)"
    and "\<And>i t. ev = D_resume i (A_proof t) \<Longrightarrow> good_proof t"
  shows "R d (happens c ev d)"
proof (cases ev)
  case (D_resume i a)
  show ?thesis
  proof (cases "i < length (dm_waiting d)")
    case True
    let ?d = "d\<lparr>dm_waiting := drop_nth i (dm_waiting d)\<rparr>"
    have "ok_cands ?d (cands_of (dm_waiting d ! i))"
      using assms(2) True drop_cands by simp
    then have "R d d'" if "resume c (dm_waiting d ! i) a ?d = Some d'" for d'
      using R_trans [OF R_drop R_resume [OF that]] assms(1,3) True by (simp add: D_resume)
    with True show ?thesis by (auto simp: D_resume R_refl split: option.split)
  qed (simp add: D_resume R_refl)
next
  case D_deferred
  let ?d = "d\<lparr>dm_deferred := dm_deferred d - 1\<rparr>"
  have "gate_only d ?d" by (simp add: gate_only_def)
  with assms(1) R_run [OF keeps_dispatch, of C_deferred C_deferred ?d] show ?thesis
    using R_trans [OF R_gate] by (auto simp: D_deferred R_refl)
next
  case D_stop
  then show ?thesis using keepsD [OF keeps_stop] by simp
next
  case (D_backend r x)
  then show ?thesis by (simp add: R_gate gate_only_def)
next
  case (D_relay_stopped p ok)
  then show ?thesis using R_stop by (simp add: R_refl)
next
  case D_recheck
  then show ?thesis using R_run_plain [OF keeps_recheck] allowed_recheck by simp
qed (use assms(1) in \<open>auto intro!: R_run keeps_incoming keeps_cancel keeps_connected keeps_execution
    keeps_start keeps_expiry R_refl\<close>)

end

end
