(* ===== verification/Daemon_Store.thy ===== *)
theory Daemon_Store
  imports Daemon_Stretch
begin

text \<open>
  What the daemon does to the job store, and to its own log: every reaction is a sequence of
  the store's operations, and what was logged stays logged. The steps of the daemon, with the
  other users of the database file in between, are the system the properties speak of.
\<close>

section \<open>Relations\<close>

definition store_run :: "daemon \<Rightarrow> daemon \<Rightarrow> bool" where
  "store_run d d' \<longleftrightarrow> rtranclp store_step (dm_db d) (dm_db d')"

lemma store_run_frame: "dm_db d' = dm_db d \<Longrightarrow> store_run d d'"
  by (simp add: store_run_def)

interpretation store_run: handler_relation store_run c "\<lambda>_. True"
proof unfold_locales
  fix d e f
  assume "store_run d e" "store_run e f"
  then show "store_run d f" unfolding store_run_def by (rule rtranclp_trans)
qed (auto simp: store_run_def next_tick_def with_db_def add_log_def add_waiting_def gate_only_def
    intro: store_step.call)

lemma store_run_loop: "store_run d (snd (dispatch_loop c who wait notify cands d))"
  by (rule keepsD, rule store_run.keeps_loop)
    (simp_all add: store_run_def add_log_def add_waiting_def)

interpretation store_run: reaction_relation store_run c "\<lambda>_. True" "\<lambda>_ _. True" "\<lambda>_. True"
  by unfold_locales
    (auto simp: store_run_loop intro: store_run_frame simp: add_log_def)

text \<open>The log only grows and the clock only advances.\<close>

definition log_grows :: "daemon \<Rightarrow> daemon \<Rightarrow> bool" where
  "log_grows d d' \<longleftrightarrow> (\<exists>es. dm_log d' = dm_log d @ es) \<and> dm_tick d \<le> dm_tick d'"

interpretation log_grows: handler_relation log_grows c "\<lambda>_. True"
proof unfold_locales
  fix d e f
  assume "log_grows d e" "log_grows e f"
  then show "log_grows d f" unfolding log_grows_def by force
qed (auto simp: log_grows_def next_tick_def with_db_def add_log_def add_waiting_def gate_only_def)

lemma log_grows_loop: "log_grows d (snd (dispatch_loop c who wait notify cands d))"
  by (rule keepsD, rule log_grows.keeps_loop)
    (simp_all add: log_grows_def add_log_def add_waiting_def)

interpretation log_grows: reaction_relation log_grows c "\<lambda>_. True" "\<lambda>_ _. True" "\<lambda>_. True"
  by unfold_locales
    (simp_all add: log_grows_loop, auto simp: log_grows_def add_log_def)

text \<open>A reaction adds waiting entries and settles promises for its own caller only, and for the
  recheck.\<close>

definition works_for :: "caller \<Rightarrow> caller \<Rightarrow> bool" where
  "works_for who v \<longleftrightarrow> recheck_caller v \<or> v = who"

definition own_work :: "caller \<Rightarrow> daemon \<Rightarrow> daemon \<Rightarrow> bool" where
  "own_work who d d' \<longleftrightarrow>
     (\<forall>w \<in> set (dm_waiting d'). w \<in> set (dm_waiting d) \<or> works_for who (caller_of w))
     \<and> (\<forall>v outcome. Ef_settled v outcome \<in> set (dm_log d') \<longrightarrow>
          Ef_settled v outcome \<in> set (dm_log d) \<or> works_for who v)"

interpretation own_work: handler_relation "own_work who" c "works_for who"
proof unfold_locales
  fix d e f
  assume "own_work who d e" "own_work who e f"
  then show "own_work who d f" unfolding own_work_def by blast
next
  fix ef d
  assume "quiet ef"
  then show "own_work who d (add_log ef d)" by (auto simp: own_work_def add_log_def)
qed (auto simp: own_work_def next_tick_def with_db_def add_waiting_def gate_only_def)

lemma drop_nth_subset: "set (drop_nth i xs) \<subseteq> set xs"
  unfolding drop_nth_def using set_take_subset set_drop_subset by fastforce

lemma own_work_loop:
  "works_for x who \<Longrightarrow> own_work x d (snd (dispatch_loop c who wait notify cands d))"
  by (rule keepsD, rule own_work.keeps_loop)
    (auto simp: own_work_def add_log_def add_waiting_def)

interpretation own_work: reaction_relation "own_work who" c "works_for who" "\<lambda>_ _. True" "\<lambda>_. True"
proof unfold_locales
  fix d :: daemon and i
  show "own_work who d (d\<lparr>dm_waiting := drop_nth i (dm_waiting d)\<rparr>)"
    using drop_nth_subset [of i "dm_waiting d"] by (auto simp: own_work_def)
qed (simp_all add: own_work_loop, auto simp: own_work_def add_log_def works_for_def)

text \<open>The handlers themselves settle nothing: a promise is settled at the end of a stretch.\<close>

definition unsettling :: "daemon \<Rightarrow> daemon \<Rightarrow> bool" where
  "unsettling d d' \<longleftrightarrow>
     (\<forall>v outcome. Ef_settled v outcome \<in> set (dm_log d') \<longrightarrow> Ef_settled v outcome \<in> set (dm_log d))"

interpretation unsettling: handler_relation unsettling c "\<lambda>_. True"
proof unfold_locales
  fix ef d
  assume "quiet ef"
  then show "unsettling d (add_log ef d)" by (auto simp: unsettling_def add_log_def)
qed (auto simp: unsettling_def next_tick_def with_db_def add_waiting_def gate_only_def)

lemma unsettling_loop: "unsettling d (snd (dispatch_loop c who wait notify cands d))"
  by (rule keepsD, rule unsettling.keeps_loop)
    (auto simp: unsettling_def add_log_def add_waiting_def)

interpretation unsettling: dispatch_relation unsettling c "\<lambda>_. True" "\<lambda>_ _. True"
  by unfold_locales (simp_all add: unsettling_loop)

section \<open>Steps\<close>

text \<open>A step of the daemon: a reaction to an event, or an operation that another user of the
  database file (the execution backend, a maintenance command) runs in between.\<close>

inductive daemon_step :: "daemon_cfg \<Rightarrow> daemon \<Rightarrow> daemon \<Rightarrow> bool" for c where
  reaction: "daemon_step c d (happens c ev d)"
| elsewhere: "admissible x \<Longrightarrow> daemon_step c d (d\<lparr>dm_db := exec cfg now x (dm_db d)\<rparr>)"

inductive_cases daemon_stepE: "daemon_step c d d'"

abbreviation daemon_run :: "daemon_cfg \<Rightarrow> daemon \<Rightarrow> daemon \<Rightarrow> bool" where
  "daemon_run c \<equiv> rtranclp (daemon_step c)"

lemma happens_store: "rtranclp store_step (dm_db d) (dm_db (happens c ev d))"
  using store_run.R_happens by (simp add: store_run_def)

lemma daemon_step_store: "daemon_step c d d' \<Longrightarrow> rtranclp store_step (dm_db d) (dm_db d')"
  by (induction rule: daemon_step.induct) (auto intro: happens_store store_step.call)

definition new_daemon :: "db \<Rightarrow> int option \<Rightarrow> daemon" where
  "new_daemon db expiresAt =
     \<lparr>dm_db = db, dm_stopping = False, dm_upstreamBlocked = None, dm_relayStopped = False,
      dm_block_promise = None, dm_stops = [], dm_proofExpiresAt = expiresAt,
      dm_check_running = False, dm_stop_attempted = False, dm_expiry_timer = False,
      dm_ready = False, dm_executionId = None, dm_deferred = 0, dm_tick = 0, dm_waiting = [],
      dm_log = []\<rparr>"

definition daemon_starts :: "daemon \<Rightarrow> bool" where
  "daemon_starts d \<longleftrightarrow> (\<exists>db expiresAt. reachable db \<and> d = new_daemon db expiresAt)"

interpretation daemon_store: safe_system daemon_starts "daemon_step c" "\<lambda>d. reachable (dm_db d)"
  by unfold_locales
    (auto simp: daemon_starts_def new_daemon_def dest!: daemon_step_store intro: rtranclp_trans)

lemma daemon_run_store: "daemon_run c d d' \<Longrightarrow> rtranclp store_step (dm_db d) (dm_db d')"
  by (induction rule: rtranclp_induct) (auto dest!: daemon_step_store intro: rtranclp_trans)

section \<open>What the store keeps for the daemon\<close>

text \<open>Jobs are never lost and keep their identity, in the form the handlers need.\<close>

lemma job_persists:
  assumes "store_wf db" "rtranclp store_step db db'" "find_job scope jobId db = Some j"
  shows "\<exists>k. find_job scope jobId db' = Some k \<and> same_identity j k"
proof -
  have le: "store_le db db'" and wf: "store_wf db'"
    using store.run_le [OF assms(2,1)] store.run_ok [OF assms(2,1)] by auto
  have j: "j \<in> set (jobs db)" "job_key j = (scope, jobId)"
    using find_Some_in [OF assms(3) [unfolded find_job_def]] by auto
  then obtain k where k: "k \<in> set (jobs db')" "same_identity j k"
    using le unfolding store_le_def job_le_def by blast
  have "distinct (map job_key (jobs db'))"
    using wf by (simp add: store_wf_def jobs_wf_def)
  from find_key_unique [OF this k(1)] j k(2) have "find_job scope jobId db' = Some k"
    by (simp add: find_job_def same_identity_def)
  with k(2) show ?thesis by blast
qed

end
