(* ===== verification/Store_Claims.thy ===== *)
theory Store_Claims
  imports Store_Machine
begin

text \<open>
  What a claim returns: the job that a method hands to the execution backend is the row that
  was dispatchable, moved to Dispatching with a new lease and the next attempt number, and that
  row is in the database.
\<close>

definition claimed_from :: "store_cfg \<Rightarrow> jstring \<Rightarrow> jstring \<Rightarrow> jstring \<Rightarrow> int \<Rightarrow> db \<Rightarrow> db \<Rightarrow> stored_job \<Rightarrow> bool" where
  "claimed_from cfg jobId connectorId leaseId now db db' job \<longleftrightarrow>
     (\<exists>j0. find_job (scopeKey cfg) jobId db = Some j0 \<and> dispatchable db j0
        \<and> sj_row job = claim_row now connectorId leaseId j0
        \<and> find_job (scopeKey cfg) jobId db' = Some (sj_row job))"

lemma found_row:
  "jobs_wf db \<Longrightarrow> j \<in> set (jobs db) \<Longrightarrow> at_job cfg jobId j \<Longrightarrow>
     find_job (scopeKey cfg) jobId db = Some j"
  using find_key_unique [of job_key "jobs db" j] by (simp add: jobs_wf_def find_job_def)

lemma after_require:
  "after r (\<lambda>d db'. if d then map_sum id Some (require_job cfg jobId db') else Inr None)
     = (Inr (Some job), db') \<longleftrightarrow>
   r = (Inr True, db') \<and> require_job cfg jobId db' = Inr job"
  by (cases r; cases "fst r"; cases "require_job cfg jobId db'")
    (auto simp: after_def split: if_splits)

lemma claim_claims:
  assumes wf: "store_wf db"
    and r: "claimForDispatch cfg now jobId connectorId leaseId db = (Inr (Some job), db')"
  shows "claimed_from cfg jobId connectorId leaseId now db db' job
    \<and> j_target_backend (sj_row job) = Hermes"
proof -
  let ?P = "\<lambda>j. at_job cfg jobId j \<and> j_target_backend j = Hermes \<and> dispatchable db j"
  let ?f = "claim_row now connectorId leaseId"
  have w: "jobs_wf db" using wf by (simp add: store_wf_def)
  from r obtain body where tx: "transaction body db = (Inr True, db')"
    and job: "require_job cfg jobId db' = Inr job"
    and body: "body = (\<lambda>db. let P = (\<lambda>j. at_job cfg jobId j \<and> j_target_backend j = Hermes \<and> dispatchable db j);
           db1 = update_jobs P (claim_row now connectorId leaseId) db
       in if sql_count P (jobs db) \<noteq> 1 then Inr (False, db1)
          else
            bindR (require_job cfg jobId db1) (\<lambda>job.
            bindR (appendExecutionAttemptEventLocked cfg jobId (j_run_generation (sj_row job))
                     EvReserved (Some None) None now db1) (\<lambda>db2.
            Inr (True, db2))))"
    unfolding claimForDispatch_def after_require by blast
  have b: "body db = Inr (True, db')"
    using tx by (auto simp: transaction_def split: sum.splits)
  show ?thesis
  proof (rule one_event_body [OF w, of ?P cfg jobId ?f False "EvReserved" "Some None" None now
        "\<lambda>_ db2. Inr (True, db2)" True db'])
    show "\<And>j. ?P j \<Longrightarrow> at_job cfg jobId j" "\<And>j. job_key (?f j) = job_key j"
      by (simp_all add: claim_row_def)
    show "(if sql_count ?P (jobs db) \<noteq> 1 then Inr (False, update_jobs ?P ?f db)
       else bindR (require_job cfg jobId (update_jobs ?P ?f db)) (\<lambda>job.
            bindR (appendExecutionAttemptEventLocked cfg jobId (j_run_generation (sj_row job))
                     EvReserved (Some None) None now (update_jobs ?P ?f db)) (\<lambda>db2. Inr (True, db2))))
        = Inr (True, db')"
      using b unfolding body Let_def .
  next
    fix j0 :: job_row and e db2
    assume *: "j0 \<in> set (jobs db)" "?P j0"
      "find_job (scopeKey cfg) jobId (update_jobs ?P ?f db) = Some (?f j0)"
      "appended (?f j0) EvReserved e (update_jobs ?P ?f db) db2" "Inr (True, db2) = Inr (True, db')"
    have eq: "jobs db' = jobs (update_jobs ?P ?f db)"
      using *(5) appendedD(1) [OF *(4)] by auto
    have "find_job (scopeKey cfg) jobId db' = Some (?f j0)"
      by (simp only: find_job_cong [OF eq] *(3))
    moreover have "sj_row job = ?f j0"
      using job calculation by (auto simp: require_job_iff)
    moreover have "find_job (scopeKey cfg) jobId db = Some j0"
      using found_row [OF w *(1)] *(2) by simp
    ultimately show ?thesis
      using *(2) by (auto simp: claimed_from_def claim_row_def)
  qed simp
qed


lemma backend_claim_claims:
  assumes wf: "store_wf db"
    and r: "claimForBackendDispatch cfg now jobId backend connectorId leaseId db = (Inr (Some job), db')"
  shows "claimed_from cfg jobId connectorId leaseId now db db' job
    \<and> backend_name (j_target_backend (sj_row job)) = backend"
proof -
  let ?P = "\<lambda>j. at_job cfg jobId j \<and> backend_name (j_target_backend j) = backend \<and> dispatchable db j
      \<and> sql_exists (\<lambda>s. session_key s = (j_scope_key j, backend, j_session_key j)
           \<and> s_thread_id s \<noteq> None \<and> s_state_ownership s \<noteq> None
           \<and> s_active_job_id s = None \<and> \<not> s_recovery_required s) (backend_sessions db)"
  let ?f = "claim_row now connectorId leaseId"
  let ?db1 = "update_jobs ?P ?f db"
  have w: "jobs_wf db" using wf by (simp add: store_wf_def)
  have d: "distinct (map job_key (jobs db))" using w by (simp add: jobs_wf_def)
  from r obtain body where tx: "transaction body db = (Inr True, db')"
    and job: "require_job cfg jobId db' = Inr job"
    and body: "body = (\<lambda>db.
       let P = (\<lambda>j. at_job cfg jobId j \<and> backend_name (j_target_backend j) = backend
              \<and> dispatchable db j
              \<and> sql_exists (\<lambda>s. session_key s = (j_scope_key j, backend, j_session_key j)
                   \<and> s_thread_id s \<noteq> None \<and> s_state_ownership s \<noteq> None
                   \<and> s_active_job_id s = None \<and> \<not> s_recovery_required s)
                 (backend_sessions db));
           db1 = update_jobs P (claim_row now connectorId leaseId) db
       in if sql_count P (jobs db) \<noteq> 1 then Inr (False, db1)
          else
            case find (\<lambda>j. at_job cfg jobId j \<and> j_lease_id j = Some leaseId
                         \<and> j_status j = Dispatching) (jobs db1) of
              None \<Rightarrow> Inl InconsistentCommit
            | Some attempt \<Rightarrow>
                let g = j_run_generation attempt;
                    R = (\<lambda>s. at_session cfg backend (j_session_key attempt) s
                          \<and> s_thread_id s \<noteq> None \<and> s_active_job_id s = None
                          \<and> \<not> s_recovery_required s)
                in bindR (update_sessions R (\<lambda>s. s\<lparr>s_active_job_id := Some jobId,
                       s_active_lease_id := Some leaseId, s_active_run_generation := Some g,
                       s_updated_at := now\<rparr>) db1) (\<lambda>db2.
                   if sql_count R (backend_sessions db1) \<noteq> 1 then Inl InconsistentCommit
                   else
                     bindR (appendExecutionAttemptEventLocked cfg jobId g EvReserved (Some None)
                              None now db2) (\<lambda>db3. Inr (True, db3))))"
    unfolding claimForBackendDispatch_def after_require by blast
  have b: "body db = Inr (True, db')"
    using tx by (auto simp: transaction_def split: sum.splits)
  have one: "sql_count ?P (jobs db) = 1"
    using b unfolding body Let_def by (auto split: if_splits)
  obtain j0 where j0: "j0 \<in> set (jobs db)" "?P j0"
    "jobs ?db1 = replace j0 (?f j0) (jobs db)" "find_job (scopeKey cfg) jobId ?db1 = Some (?f j0)"
    by (rule update_one_job [OF w _ one, where f = ?f]) (auto simp: claim_row_def)
  obtain x where b1:
    "find (\<lambda>j. at_job cfg jobId j \<and> j_lease_id j = Some leaseId \<and> j_status j = Dispatching) (jobs ?db1) = Some x"
    using b one unfolding body Let_def by (auto split: option.splits)
  obtain f2 P2 db2 where db2: "update_sessions P2 f2 ?db1 = Inr db2"
    "appendExecutionAttemptEventLocked cfg jobId (j_run_generation x) EvReserved (Some None) None now db2 = Inr db'"
    using b one b1 unfolding body Let_def by (auto simp: bindR_Inr_iff split: if_splits)
  have eq: "jobs db2 = jobs ?db1"
    using db2(1) by (auto simp: update_sessions_def write_sessions_def split: if_splits)
  have eq': "jobs db' = jobs db2"
    using db2(2) unfolding appendExecutionAttemptEventLocked_def insert_event_def Let_def
    by (auto split: option.splits if_splits)
  have "find_job (scopeKey cfg) jobId db' = Some (?f j0)"
    by (simp only: find_job_cong [OF eq'] find_job_cong [OF eq] j0(4))
  moreover have "sj_row job = ?f j0"
    using job calculation by (auto simp: require_job_iff)
  moreover have "find_job (scopeKey cfg) jobId db = Some j0"
    using found_row [OF w j0(1)] j0(2) by simp
  ultimately show ?thesis
    using j0(2) by (auto simp: claimed_from_def claim_row_def)
qed

end
