(* ===== verification/Daemon_Dispatch.thy ===== *)
theory Daemon_Dispatch
  imports Daemon_Store Store_Claims
begin

text \<open>
  The dispatch loop under interleaving. \<open>dispatch_ok\<close> is an invariant of every run of the
  daemon: each job handed to the backend was claimed, is bound to the configured backend and
  comes from an authorised node, and no attempt is handed over twice; it rests on the
  candidates of suspended loops being rows the store still has (\<open>known\<close>).
\<close>

section \<open>The invariant\<close>

abbreviation scope_of :: "daemon_cfg \<Rightarrow> jstring" where
  "scope_of c \<equiv> scopeKey (dc_store c)"

definition known :: "daemon_cfg \<Rightarrow> db \<Rightarrow> stored_job \<Rightarrow> bool" where
  "known c db cand \<longleftrightarrow>
     (\<exists>k. find_job (scope_of c) (job_id cand) db = Some k
        \<and> j_from_node_id k = j_from_node_id (sj_row cand))"

text \<open>The job was claimed by this daemon at some earlier state of the store.\<close>

definition sent :: "daemon_cfg \<Rightarrow> db \<Rightarrow> stored_job \<Rightarrow> bool" where
  "sent c db job \<longleftrightarrow>
     (\<exists>db0 db1 now connectorId leaseId. reachable db0 \<and> reachable db1
        \<and> claimed_from (dc_store c) (job_id job) connectorId leaseId now db0 db1 job
        \<and> rtranclp store_step db1 db)
     \<and> j_target_backend (sj_row job) = dc_kind c
     \<and> isNodeAuthorized c (j_from_node_id (sj_row job))"

definition attempt_of :: "stored_job \<Rightarrow> jstring \<times> nat" where
  "attempt_of job = (job_id job, j_run_generation (sj_row job))"

definition dispatched :: "effect list \<Rightarrow> stored_job list" where
  "dispatched es = List.map_filter (\<lambda>x. case x of Ef_dispatch job \<Rightarrow> Some job | _ \<Rightarrow> None) es"

definition dispatch_ok :: "daemon_cfg \<Rightarrow> daemon \<Rightarrow> bool" where
  "dispatch_ok c d \<longleftrightarrow>
     reachable (dm_db d)
     \<and> (\<forall>w \<in> set (dm_waiting d). \<forall>cand \<in> set (cands_of w). known c (dm_db d) cand)
     \<and> (\<forall>job \<in> set (dispatched (dm_log d)). sent c (dm_db d) job)
     \<and> distinct (map attempt_of (dispatched (dm_log d)))"

lemma dispatched_append [simp]: "dispatched (xs @ ys) = dispatched xs @ dispatched ys"
  by (simp add: dispatched_def List.map_filter_def)

lemma dispatched_simps [simp]:
  "dispatched [] = []" "dispatched [Ef_dispatch job] = [job]" "dispatched [Ef_settled v x] = []"
  "quiet ef \<Longrightarrow> dispatched [ef] = []"
  by (simp_all add: dispatched_def List.map_filter_def) (cases ef; simp)

lemma known_later: "store_wf db \<Longrightarrow> rtranclp store_step db db' \<Longrightarrow> known c db cand \<Longrightarrow> known c db' cand"
  using job_persists unfolding known_def same_identity_def by metis

lemma sent_later: "rtranclp store_step db db' \<Longrightarrow> sent c db job \<Longrightarrow> sent c db' job"
  unfolding sent_def using rtranclp_trans by metis

text \<open>The attempt number of a job never falls, so an attempt that was sent is at most the
  current one.\<close>

lemma sent_generation:
  assumes "sent c db job"
  shows "\<exists>k. find_job (scope_of c) (job_id job) db = Some k
    \<and> j_run_generation (sj_row job) \<le> j_run_generation k"
proof -
  from assms obtain db0 db1 now x l where c: "reachable db1" "rtranclp store_step db1 db"
    "claimed_from (dc_store c) (job_id job) x l now db0 db1 job"
    unfolding sent_def by blast
  have wf: "store_wf db1" using reachable_wf c(1) by blast
  have f: "find_job (scope_of c) (job_id job) db1 = Some (sj_row job)"
    using c(3) by (auto simp: claimed_from_def)
  from job_persists [OF wf c(2) f] obtain k where
    k: "find_job (scope_of c) (job_id job) db = Some k" "same_identity (sj_row job) k" by blast
  have row: "sj_row job \<in> set (jobs db1)"
    using find_Some_in [OF f [unfolded find_job_def]] by simp
  then obtain k' where k': "k' \<in> set (jobs db)" "same_identity (sj_row job) k'"
    "j_run_generation (sj_row job) \<le> j_run_generation k'"
    using store.run_le [OF c(2) wf] unfolding store_le_def job_le_def by blast
  have "distinct (map job_key (jobs db))"
    using store.run_ok [OF c(2) wf] by (simp add: store_wf_def jobs_wf_def)
  moreover have "k \<in> set (jobs db)" using find_Some_in [OF k(1) [unfolded find_job_def]] by simp
  ultimately have "k' = k"
    using key_unique [of job_key "jobs db" k' k] k' k(2) by (simp add: same_identity_def)
  with k k' show ?thesis by blast
qed

lemma dispatch_ok_store:
  assumes "dispatch_ok c d" "rtranclp store_step (dm_db d) db"
  shows "dispatch_ok c (d\<lparr>dm_db := db\<rparr>)"
proof -
  have "reachable (dm_db d)" using assms(1) by (simp add: dispatch_ok_def)
  then have "store_wf (dm_db d)" "reachable db"
    using reachable_wf assms(2) by (auto intro: rtranclp_trans)
  with assms show ?thesis
    using known_later sent_later by (auto simp: dispatch_ok_def)
qed

section \<open>Everything but the loop\<close>

definition dispatch_safe :: "daemon_cfg \<Rightarrow> daemon \<Rightarrow> daemon \<Rightarrow> bool" where
  "dispatch_safe c d d' \<longleftrightarrow> (dispatch_ok c d \<longrightarrow> dispatch_ok c d')"

lemma dispatch_ok_cong:
  "dm_db d' = dm_db d \<Longrightarrow> set (dm_waiting d') \<subseteq> set (dm_waiting d) \<Longrightarrow>
     dispatched (dm_log d') = dispatched (dm_log d) \<Longrightarrow> dispatch_ok c d \<Longrightarrow> dispatch_ok c d'"
  by (auto simp: dispatch_ok_def)

interpretation dispatch_safe: handler_relation "dispatch_safe c" c "\<lambda>_. True"
proof unfold_locales
  fix x and d :: daemon
  let ?db = "exec (dc_store c) (dc_clock c (dm_tick d)) x (dm_db d)"
  assume "admissible x"
  then have run: "rtranclp store_step (dm_db d) ?db" by (auto intro: store_step.call)
  show "dispatch_safe c d (next_tick (with_db ?db d))"
    unfolding dispatch_safe_def
  proof
    assume "dispatch_ok c d"
    from dispatch_ok_store [OF this run]
    show "dispatch_ok c (next_tick (with_db ?db d))"
      by (rule dispatch_ok_cong [rotated 3]) (simp_all add: next_tick_def with_db_def)
  qed
qed (auto simp: dispatch_safe_def next_tick_def add_log_def add_waiting_def gate_only_def
    dispatch_ok_def)

section \<open>The loop\<close>

definition ready_state :: "daemon_cfg \<Rightarrow> stored_job list \<Rightarrow> daemon \<Rightarrow> bool" where
  "ready_state c cands d \<longleftrightarrow>
     dispatch_ok c d \<and> (\<forall>cand \<in> set cands. known c (dm_db d) cand)"

definition sendable :: "daemon_cfg \<Rightarrow> stored_job \<Rightarrow> daemon \<Rightarrow> bool" where
  "sendable c job d \<longleftrightarrow>
     sent c (dm_db d) job \<and> attempt_of job \<notin> set (map attempt_of (dispatched (dm_log d)))"

lemma ready_state_keeps:
  assumes "keeps (dispatch_safe c) m" "keeps store_run m" "ready_state c cands d"
  shows "ready_state c cands (snd (m d))"
proof -
  have "store_wf (dm_db d)"
    using assms(3) reachable_wf by (simp add: ready_state_def dispatch_ok_def)
  moreover have "rtranclp store_step (dm_db d) (dm_db (snd (m d)))"
    using keepsD [OF assms(2)] by (simp add: store_run_def)
  moreover have "dispatch_ok c (snd (m d))"
    using keepsD [OF assms(1)] assms(3) by (simp add: dispatch_safe_def ready_state_def)
  ultimately show ?thesis
    using assms(3) known_later by (auto simp: ready_state_def)
qed

lemma storeA_run:
  "storeA c f d = (r, d') \<Longrightarrow>
     dm_db d' = snd (f (dc_store c) (dc_clock c (dm_tick d)) (dm_db d))
     \<and> (\<forall>a. r = Inr a \<longrightarrow> fst (f (dc_store c) (dc_clock c (dm_tick d)) (dm_db d)) = Inr a)
     \<and> dm_log d' = dm_log d"
  by (auto simp: storeA_def Let_def split: sum.splits)

lemma claim_sendable:
  assumes ok: "ready_state c (cand # rest) d"
    and node: "isNodeAuthorized c (j_from_node_id (sj_row cand))"
    and run: "claim c (job_id cand) x lease d = (Inr (Some job), d')"
  shows "sendable c job d'"
proof -
  let ?now = "dc_clock c (dm_tick d)"
  have reach: "reachable (dm_db d)" and wf: "store_wf (dm_db d)"
    using ok reachable_wf by (auto simp: ready_state_def dispatch_ok_def)
  have "rtranclp store_step (dm_db d) (dm_db d')"
    using keepsD [OF store_run.keeps_claim [of c "job_id cand" x lease], of d] run
    by (simp add: store_run_def)
  with reach have reach': "reachable (dm_db d')" by (rule rtranclp_trans)
  have cl: "claimed_from (dc_store c) (job_id cand) x lease ?now (dm_db d) (dm_db d') job
      \<and> j_target_backend (sj_row job) = dc_kind c \<and> dm_log d' = dm_log d"
  proof (cases "dc_kind c = Hermes")
    case True
    with run have st: "storeA c (\<lambda>s now. claimForDispatch s now (job_id cand) x lease) d = (Inr (Some job), d')"
      by (simp add: claim_def)
    from storeA_run [OF st] claim_claims [OF wf, of "dc_store c" ?now "job_id cand" x lease job "dm_db d'"]
    show ?thesis using True by (metis prod.collapse)
  next
    case False
    with run have st: "storeA c (\<lambda>s now. claimForBackendDispatch s now (job_id cand) (kind_name c) x lease) d
        = (Inr (Some job), d')"
      by (simp add: claim_def)
    from storeA_run [OF st]
      backend_claim_claims [OF wf, of "dc_store c" ?now "job_id cand" "kind_name c" x lease job "dm_db d'"]
    show ?thesis by (metis prod.collapse backend_name_inj)
  qed
  then obtain j0 where j0: "find_job (scope_of c) (job_id cand) (dm_db d) = Some j0"
    "sj_row job = claim_row ?now x lease j0"
    by (auto simp: claimed_from_def)
  then have same: "job_id job = job_id cand" "j_from_node_id (sj_row job) = j_from_node_id j0"
    "j_run_generation (sj_row job) = Suc (j_run_generation j0)"
    using find_Some_in [OF j0(1) [unfolded find_job_def]] by (auto simp: claim_row_def)
  have "known c (dm_db d) cand" using ok by (simp add: ready_state_def)
  then have auth: "isNodeAuthorized c (j_from_node_id (sj_row job))"
    using node j0(1) same(2) by (auto simp: known_def)
  have "attempt_of old \<noteq> attempt_of job" if "old \<in> set (dispatched (dm_log d))" for old
  proof
    assume eq: "attempt_of old = attempt_of job"
    have "sent c (dm_db d) old" using ok that by (simp add: ready_state_def dispatch_ok_def)
    from sent_generation [OF this] eq same j0(1) show False by (auto simp: attempt_of_def)
  qed
  then have fresh: "attempt_of job \<notin> set (map attempt_of (dispatched (dm_log d)))"
    by (auto simp del: not_None_eq dest: sym)
  have "reachable (dm_db d) \<and> reachable (dm_db d')
      \<and> claimed_from (dc_store c) (job_id job) x lease ?now (dm_db d) (dm_db d') job
      \<and> rtranclp store_step (dm_db d') (dm_db d')"
    using cl reach reach' same(1) by simp
  then have "sent c (dm_db d') job"
    unfolding sent_def using cl auth by blast
  with fresh cl show ?thesis by (simp add: sendable_def)
qed

section \<open>The loop keeps the invariant\<close>

lemma triple_tick:
  "(\<And>d. P d \<Longrightarrow> P (next_tick d)) \<Longrightarrow> triple P (nowA c) (\<lambda>_. P) E"
  "(\<And>d. P d \<Longrightarrow> P (next_tick d)) \<Longrightarrow> triple P (uuidA c) (\<lambda>_. P) E"
  unfolding triple_def nowA_def uuidA_def next_tick_def by simp_all

lemma triple_emit: "(\<And>d. P d \<Longrightarrow> Q (add_log ef d)) \<Longrightarrow> triple P (emit ef) (\<lambda>_. Q) E"
  by (simp add: triple_def emit_def modify_def add_log_def)

lemma triple_suspend: "(\<And>d. P d \<Longrightarrow> Q (add_waiting w d)) \<Longrightarrow> triple P (suspend w) (\<lambda>_. Q) E"
  by (simp add: triple_def suspend_def thenA_def bindA_def modify_def ret_def add_waiting_def)

lemma triple_expired:
  assumes "\<And>d. P d \<Longrightarrow> P (next_tick d)"
  shows "triple P (isUpstreamProofExpired c) (\<lambda>_. P) E"
  unfolding isUpstreamProofExpired_def
  by (rule triple_step, rule triple_tick, erule assms) (simp add: triple_readA)

lemma triple_keeps:
  assumes "keeps (dispatch_safe c) m" "keeps store_run m"
  shows "triple (ready_state c cands) m (\<lambda>_. ready_state c cands) (dispatch_ok c)"
  using ready_state_keeps [OF assms]
  by (auto simp: triple_def ready_state_def split: sum.split)

lemma triple_last:
  assumes "keeps (dispatch_safe c) m"
  shows "triple (ready_state c cands) m (\<lambda>_. dispatch_ok c) (dispatch_ok c)"
  using keepsD [OF assms]
  by (auto simp: triple_def ready_state_def dispatch_safe_def split: sum.split)

lemma ready_state_rest: "ready_state c (cand # rest) d \<Longrightarrow> ready_state c rest d"
  by (simp add: ready_state_def)

lemma ready_state_tick: "ready_state c cands (next_tick d) = ready_state c cands d"
  by (simp add: ready_state_def dispatch_ok_def next_tick_def)

lemma sendable_tick: "sendable c job (next_tick d) = sendable c job d"
  by (simp add: sendable_def next_tick_def)

lemma triple_claim:
  assumes "isNodeAuthorized c (j_from_node_id (sj_row cand))"
  shows "triple (ready_state c (cand # rest)) (claim c (job_id cand) x lease)
    (\<lambda>claimed d. ready_state c rest d \<and> (\<forall>job. claimed = Some job \<longrightarrow> sendable c job d))
    (dispatch_ok c)"
  unfolding triple_def
proof (intro allI impI)
  fix d
  assume ok: "ready_state c (cand # rest) d"
  obtain r d' where r: "claim c (job_id cand) x lease d = (r, d')" by fastforce
  have "ready_state c (cand # rest) d'"
    using ready_state_keeps [OF dispatch_safe.keeps_claim store_run.keeps_claim ok, of "job_id cand" x lease]
    by (simp add: r)
  moreover have "sendable c job d'" if "r = Inr (Some job)" for job
    using claim_sendable [OF ok assms] r that by simp
  ultimately show "case fst (claim c (job_id cand) x lease d) of
      Inl e \<Rightarrow> dispatch_ok c (snd (claim c (job_id cand) x lease d))
    | Inr claimed \<Rightarrow> ready_state c rest (snd (claim c (job_id cand) x lease d))
        \<and> (\<forall>job. claimed = Some job \<longrightarrow> sendable c job (snd (claim c (job_id cand) x lease d)))"
    by (auto simp: r ready_state_def split: sum.split)
qed

lemma ready_state_sent:
  "ready_state c rest d \<and> sendable c job d \<Longrightarrow> ready_state c rest (add_log (Ef_dispatch job) d)"
  by (auto simp: ready_state_def sendable_def dispatch_ok_def add_log_def)

lemma triple_loop:
  "triple (ready_state c cands) (dispatch_loop c who wait notify cands)
     (\<lambda>_. dispatch_ok c) (dispatch_ok c)"
proof (induction cands)
  case Nil
  show ?case by (simp add: triple_last dispatch_safe.keeps_after)
next
  case (Cons cand rest)
  note stop = triple_last [OF dispatch_safe.keeps_begin] triple_last [OF dispatch_safe.keeps_after]
  let ?ready = "ready_state c (cand # rest)"
  have rejected: "triple ?ready
      (thenA (rejectNode c (job_id cand)) (thenA (emit Ef_notify) (suspend (W_notify_loop who wait notify rest))))
      (\<lambda>_. dispatch_ok c) (dispatch_ok c)"
  proof (rule triple_thenA, rule triple_keeps [OF dispatch_safe.keeps_reject store_run.keeps_reject],
      rule triple_thenA, rule triple_keeps [OF dispatch_safe.keeps_emit store_run.keeps_emit])
    show "triple ?ready (suspend (W_notify_loop who wait notify rest)) (\<lambda>_. dispatch_ok c) (dispatch_ok c)"
      by (rule triple_suspend) (auto simp: ready_state_def dispatch_ok_def add_waiting_def)
  qed simp_all
  have sending: "triple (\<lambda>d. ready_state c rest d \<and> sendable c job d)
      (bindA (isUpstreamProofExpired c) (\<lambda>expired.
         if expired then
           thenA (resetUnsentExecution c job)
             (beginUpstreamBlock UPSTREAM_PROOF_EXPIRED_REASON wait who notify)
         else thenA (emit (Ef_dispatch job)) (suspend (W_dispatch who wait notify job rest))))
      (\<lambda>_. dispatch_ok c) (dispatch_ok c)" for job
  proof (rule triple_bindA [OF triple_expired]; (intro triple_if triple_thenA)?)
    show "triple (\<lambda>d. ready_state c rest d \<and> sendable c job d) (resetUnsentExecution c job)
        (\<lambda>_. ready_state c rest) (dispatch_ok c)"
      by (rule triple_pre [OF triple_keeps [OF dispatch_safe.keeps_reset store_run.keeps_reset]]) simp
    show "triple (ready_state c rest) (beginUpstreamBlock UPSTREAM_PROOF_EXPIRED_REASON wait who notify)
        (\<lambda>_. dispatch_ok c) (dispatch_ok c)"
      by (rule stop) simp
    show "triple (\<lambda>d. ready_state c rest d \<and> sendable c job d) (emit (Ef_dispatch job))
        (\<lambda>_. ready_state c rest) (dispatch_ok c)"
      by (rule triple_emit) (rule ready_state_sent)
    show "triple (ready_state c rest) (suspend (W_dispatch who wait notify job rest))
        (\<lambda>_. dispatch_ok c) (dispatch_ok c)"
      by (rule triple_suspend) (auto simp: ready_state_def dispatch_ok_def add_waiting_def)
  qed (simp add: ready_state_tick sendable_tick)
  have claimed: "triple ?ready
      (bindA (claim c (job_id cand) x lease) (\<lambda>claimed. case claimed of
         None \<Rightarrow> dispatch_loop c who wait notify rest
       | Some job \<Rightarrow>
           bindA (isUpstreamProofExpired c) (\<lambda>expired.
             if expired then
               thenA (resetUnsentExecution c job)
                 (beginUpstreamBlock UPSTREAM_PROOF_EXPIRED_REASON wait who notify)
             else thenA (emit (Ef_dispatch job)) (suspend (W_dispatch who wait notify job rest)))))
      (\<lambda>_. dispatch_ok c) (dispatch_ok c)"
    if "isNodeAuthorized c (j_from_node_id (sj_row cand))" for x lease
  proof (rule triple_bindA [OF triple_claim [OF that]])
    fix claimed
    show "triple (\<lambda>d. ready_state c rest d \<and> (\<forall>job. claimed = Some job \<longrightarrow> sendable c job d))
      (case claimed of
         None \<Rightarrow> dispatch_loop c who wait notify rest
       | Some job \<Rightarrow>
           bindA (isUpstreamProofExpired c) (\<lambda>expired.
             if expired then
               thenA (resetUnsentExecution c job)
                 (beginUpstreamBlock UPSTREAM_PROOF_EXPIRED_REASON wait who notify)
             else thenA (emit (Ef_dispatch job)) (suspend (W_dispatch who wait notify job rest))))
      (\<lambda>_. dispatch_ok c) (dispatch_ok c)"
      using Cons.IH sending by (cases claimed) simp_all
  qed
  show ?case
    unfolding dispatch_loop.simps
  proof (rule triple_step [OF triple_expired], simp add: ready_state_tick,
      intro triple_if rejected)
    show "triple ?ready (beginUpstreamBlock UPSTREAM_PROOF_EXPIRED_REASON wait who notify)
        (\<lambda>_. dispatch_ok c) (dispatch_ok c)"
      by (rule stop) simp
  next
    assume node: "\<not> \<not> isNodeAuthorized c (j_from_node_id (sj_row cand))"
    show "triple ?ready
      (bindA (uuidA c) (\<lambda>leaseId. bindA (readA dm_executionId) (\<lambda>executionId.
         if falsy executionId then after_dispatch who notify
         else
           bindA (claim c (job_id cand) (the executionId) leaseId) (\<lambda>claimed. case claimed of
             None \<Rightarrow> dispatch_loop c who wait notify rest
           | Some job \<Rightarrow>
               bindA (isUpstreamProofExpired c) (\<lambda>expired.
                 if expired then
                   thenA (resetUnsentExecution c job)
                     (beginUpstreamBlock UPSTREAM_PROOF_EXPIRED_REASON wait who notify)
                 else thenA (emit (Ef_dispatch job)) (suspend (W_dispatch who wait notify job rest)))))))
      (\<lambda>_. dispatch_ok c) (dispatch_ok c)"
      by (rule triple_step [OF triple_tick(2)], simp add: ready_state_tick,
          rule triple_step [OF triple_readA], assumption, intro triple_if stop claimed)
        (use node in simp_all)
  qed
qed

lemma listDispatchable_known:
  assumes "store_wf db" "cand \<in> set (listDispatchable (dc_store c) kind n db)"
  shows "known c db cand"
proof -
  obtain j where j: "j \<in> set (jobs db)" "j_scope_key j = scope_of c" "cand = rowToJob db j"
    using assms(2) by (auto simp: listDispatchable_def dest!: in_set_takeD)
  moreover have "distinct (map job_key (jobs db))"
    using assms(1) by (simp add: store_wf_def jobs_wf_def)
  ultimately have "find_job (scope_of c) (j_job_id j) db = Some j"
    using find_key_unique [of job_key "jobs db" j] by (simp add: find_job_def)
  with j(3) show ?thesis by (simp add: known_def rowToJob_def)
qed

interpretation dispatch_safe: reaction_relation "dispatch_safe c" c "\<lambda>_. True"
  "\<lambda>d cands. reachable (dm_db d) \<longrightarrow> (\<forall>cand \<in> set cands. known c (dm_db d) cand)" "\<lambda>_. True"
proof unfold_locales
  fix d :: daemon
  show "reachable (dm_db d) \<longrightarrow> (\<forall>cand \<in> set (listDispatchable (dc_store c) (dc_kind c) 100 (dm_db d)).
      known c (dm_db d) cand)"
    using listDispatchable_known reachable_wf by blast
next
  fix who and d :: daemon and cands wait notify
  assume ok: "reachable (dm_db d) \<longrightarrow> (\<forall>cand \<in> set cands. known c (dm_db d) cand)"
  let ?d = "snd (dispatch_loop c who wait notify cands d)"
  have "dispatch_ok c ?d" if "dispatch_ok c d"
  proof -
    have "ready_state c cands d" using that ok by (simp add: ready_state_def dispatch_ok_def)
    then show ?thesis
      using triple_loop [of c cands who wait notify] unfolding triple_def
      by (auto split: sum.splits)
  qed
  then show "dispatch_safe c d ?d" by (simp add: dispatch_safe_def)
next
  fix i and d :: daemon
  show "dispatch_safe c d (d\<lparr>dm_waiting := drop_nth i (dm_waiting d)\<rparr>)"
    using drop_nth_subset [of i "dm_waiting d"] by (auto simp: dispatch_safe_def dispatch_ok_def)
qed (simp_all, auto simp: dispatch_safe_def dispatch_ok_def add_log_def)

section \<open>Every run\<close>

lemma dispatch_ok_step: "daemon_step c d d' \<Longrightarrow> dispatch_ok c d \<Longrightarrow> dispatch_ok c d'"
proof (induction rule: daemon_step.induct)
  case (reaction d ev)
  have "dispatch_safe c d (happens c ev d)"
    by (rule dispatch_safe.R_happens) (use reaction in \<open>simp_all add: dispatch_ok_def\<close>)
  with reaction show ?case by (simp add: dispatch_safe_def)
next
  case (elsewhere x d cfg now)
  then show ?case by (auto intro!: dispatch_ok_store store_step.call)
qed

lemma dispatch_ok_start: "daemon_starts d \<Longrightarrow> dispatch_ok c d"
  by (auto simp: daemon_starts_def new_daemon_def dispatch_ok_def)

interpretation daemon_dispatch: safe_system daemon_starts "daemon_step c" "dispatch_ok c"
  by unfold_locales (auto intro: dispatch_ok_step dispatch_ok_start)

end
