(* ===== verification/Daemon_Expiry.thy ===== *)
theory Daemon_Expiry
  imports Daemon_Dispatch
begin

text \<open>
  The daemon after the supported proof has expired. \<open>proof_dead\<close> says that every later
  reading of the clock finds the proof expired; from there on no event lets a job out, until a
  new proof is saved.
\<close>

definition proof_dead :: "daemon_cfg \<Rightarrow> daemon \<Rightarrow> bool" where
  "proof_dead c d \<longleftrightarrow>
     (case dm_proofExpiresAt d of
        None \<Rightarrow> True | Some t \<Rightarrow> \<forall>n \<ge> dm_tick d. t \<le> dc_clock c n)"

definition silent :: "daemon_cfg \<Rightarrow> daemon \<Rightarrow> daemon \<Rightarrow> bool" where
  "silent c d d' \<longleftrightarrow>
     (proof_dead c d \<longrightarrow> proof_dead c d' \<and> dispatched (dm_log d') = dispatched (dm_log d))"

lemma proof_dead_later:
  "dm_proofExpiresAt d' = dm_proofExpiresAt d \<Longrightarrow> dm_tick d \<le> dm_tick d' \<Longrightarrow>
     proof_dead c d \<Longrightarrow> proof_dead c d'"
  by (auto simp: proof_dead_def split: option.splits)

lemma silentI:
  "dm_proofExpiresAt d' = dm_proofExpiresAt d \<Longrightarrow> dm_tick d \<le> dm_tick d' \<Longrightarrow>
     dispatched (dm_log d') = dispatched (dm_log d) \<Longrightarrow> silent c d d'"
  unfolding silent_def using proof_dead_later by blast

lemma expired_when_dead:
  "proof_dead c d \<Longrightarrow> isUpstreamProofExpired c d = (Inr True, next_tick d)"
  by (auto simp: isUpstreamProofExpired_def bindA_def nowA_def readA_def next_tick_def
      proof_dead_def split: option.splits)

interpretation silent: handler_relation "silent c" c "\<lambda>_. True"
proof unfold_locales
  fix d e f
  assume "silent c d e" "silent c e f"
  then show "silent c d f" by (simp add: silent_def)
next
  fix ef and d :: daemon
  assume "quiet ef"
  then show "silent c d (add_log ef d)" by (auto simp: add_log_def intro: silentI)
qed (auto simp: next_tick_def with_db_def add_waiting_def gate_only_def intro!: silentI)

lemma silent_tick: "proof_dead c d \<Longrightarrow> silent c (next_tick d) d' \<Longrightarrow> silent c d d'"
  using silent.R_trans [OF silent.R_tick] by blast

lemma silent_loop: "silent c d (snd (dispatch_loop c who wait notify cands d))"
proof (cases cands)
  case Nil
  then show ?thesis using keepsD [OF silent.keeps_after] by simp
next
  case (Cons cand rest)
  have "silent c (next_tick d) (snd (beginUpstreamBlock UPSTREAM_PROOF_EXPIRED_REASON wait who notify (next_tick d)))"
    using keepsD [OF silent.keeps_begin] by simp
  from silent_tick [OF _ this] show ?thesis
    by (cases "proof_dead c d") (simp_all add: Cons bindA_def expired_when_dead, simp add: silent_def)
qed

interpretation silent: reaction_relation "silent c" c "\<lambda>_. True" "\<lambda>_ _. True" "\<lambda>_. False"
proof unfold_locales
  fix who outcome and d :: daemon
  show "silent c d (add_log (Ef_settled who outcome) d)"
    by (rule silentI) (simp_all add: add_log_def)
next
  fix d :: daemon and i
  show "silent c d (d\<lparr>dm_waiting := drop_nth i (dm_waiting d)\<rparr>)"
    by (rule silentI) simp_all
qed (simp_all add: silent_loop)

text \<open>No reaction lets a job out.\<close>

definition saves_proof :: "event \<Rightarrow> bool" where
  "saves_proof ev \<longleftrightarrow> (\<exists>i t. ev = D_resume i (A_proof t))"

lemma happens_silent: "\<not> saves_proof ev \<Longrightarrow> silent c d (happens c ev d)"
  by (rule silent.R_happens) (auto simp: saves_proof_def)

definition happen :: "daemon_cfg \<Rightarrow> event list \<Rightarrow> daemon \<Rightarrow> daemon" where
  "happen c = fold (happens c)"

lemma happen_silent: "\<forall>ev \<in> set evs. \<not> saves_proof ev \<Longrightarrow> silent c d (happen c evs d)"
proof (induction evs arbitrary: d)
  case (Cons ev evs)
  have "silent c d (happens c ev d)" using Cons.prems by (intro happens_silent) simp
  moreover have "silent c (happens c ev d) (happen c evs (happens c ev d))"
    using Cons by simp
  ultimately have "silent c d (happen c evs (happens c ev d))" by (rule silent.R_trans)
  then show ?case by (simp add: happen_def)
qed (simp add: happen_def silent.R_refl)

lemma happen_run: "daemon_run c d (happen c evs d)"
proof (induction evs arbitrary: d)
  case (Cons ev evs)
  have "daemon_step c d (happens c ev d)" by (rule daemon_step.reaction)
  from converse_rtranclp_into_rtranclp [of "daemon_step c", OF this Cons.IH]
  show ?case by (simp add: happen_def)
qed (simp add: happen_def)

section \<open>Nothing is admitted\<close>

lemma same_db_block:
  "dm_db (snd (blockForUpstream reason d)) = dm_db d"
  "dm_waiting (snd (blockForUpstream reason d)) = dm_waiting d"
  by (simp_all add: blockForUpstream_def thenA_def bindA_def modify_def readA_def ret_def emit_def
      split: option.split prod.split)

lemma same_db_after: "dm_db (snd (after_dispatch who notify d)) = dm_db d"
  by (simp add: after_dispatch_def thenA_def bindA_def modify_def ret_def emit_def suspend_def)

lemma same_db_begin: "dm_db (snd (beginUpstreamBlock reason wait who notify d)) = dm_db d"
  using same_db_block(1) [of reason d]
  by (auto simp: beginUpstreamBlock_def bindA_def same_db_after suspend_def thenA_def modify_def
      ret_def split: prod.split sum.split)

lemma same_db_loop:
  "proof_dead c d \<Longrightarrow> dm_db (snd (dispatch_loop c who wait notify cands d)) = dm_db d"
  by (cases cands)
    (simp_all add: bindA_def expired_when_dead same_db_begin same_db_after next_tick_def)

lemma same_db_dispatch:
  "proof_dead c d \<Longrightarrow> dm_db (snd (dispatchPending c who wait notify d)) = dm_db d"
  by (simp add: dispatchPending_def bindA_def readA_def expired_when_dead same_db_begin
      same_db_after next_tick_def)

lemma incoming_when_dead:
  assumes "proof_dead c d" "\<not> dm_stopping d"
  shows "\<exists>stop d'. onRelayIncoming c envelope d
      = suspend (W_stop (C_incoming envelope) (Then_reject Proof_expired) stop) d'
    \<and> dm_db d' = dm_db d \<and> dm_waiting d' = dm_waiting d"
proof -
  obtain r d' where r: "blockForUpstream UPSTREAM_PROOF_EXPIRED_REASON (next_tick d) = (r, d')"
    by (cases "blockForUpstream UPSTREAM_PROOF_EXPIRED_REASON (next_tick d)")
  have "dm_db d' = dm_db d \<and> dm_waiting d' = dm_waiting d"
    using same_db_block [of UPSTREAM_PROOF_EXPIRED_REASON "next_tick d"]
    by (simp only: r snd_conv) (simp add: next_tick_def)
  moreover obtain stop where "r = Inr stop"
    using r by (auto simp: blockForUpstream_def thenA_def bindA_def modify_def readA_def ret_def
        emit_def split: option.splits prod.splits if_splits)
  ultimately show ?thesis
    using assms r
    by (intro exI [of _ stop] exI [of _ d'])
      (simp add: onRelayIncoming_def Let_def bindA_def readA_def expired_when_dead)
qed

end
