(* ===== verification/Daemon_Ack.thy ===== *)
theory Daemon_Ack
  imports Daemon_Expiry
begin

text \<open>
  The relay client acknowledges a message when the promise of the arrival handler resolves.
  The invariant: a promise that resolved belongs to a message whose job is in the store, and
  until then every entry waiting for that promise can only reject it.
\<close>

definition in_store :: "daemon_cfg \<Rightarrow> jobject \<Rightarrow> daemon \<Rightarrow> bool" where
  "in_store c envelope d \<longleftrightarrow>
     (\<exists>now incoming row.
        parseIncomingRelayJob (dc_num c) (dc_millis c) now envelope (dc_maxInputChars c) = Inr incoming
        \<and> find_job (scope_of c) (in_jobId incoming) (dm_db d) = Some row)"

fun rejecting :: "waiting \<Rightarrow> bool" where
  "rejecting (W_stop _ (Then_reject _) _) = True"
| "rejecting _ = False"

definition unanswered :: "jobject \<Rightarrow> daemon \<Rightarrow> bool" where
  "unanswered envelope d \<longleftrightarrow>
     (\<forall>w \<in> set (dm_waiting d). caller_of w = C_incoming envelope \<longrightarrow> rejecting w)
     \<and> Ef_settled (C_incoming envelope) None \<notin> set (dm_log d)"

definition ack_ok :: "daemon_cfg \<Rightarrow> jobject \<Rightarrow> daemon \<Rightarrow> bool" where
  "ack_ok c envelope d \<longleftrightarrow>
     reachable (dm_db d) \<and> (unanswered envelope d \<or> in_store c envelope d)"

definition stored_ok :: "daemon_cfg \<Rightarrow> jobject \<Rightarrow> daemon \<Rightarrow> bool" where
  "stored_ok c envelope d \<longleftrightarrow> reachable (dm_db d) \<and> in_store c envelope d"

lemma stored_ack: "stored_ok c envelope d \<Longrightarrow> ack_ok c envelope d"
  by (simp add: stored_ok_def ack_ok_def)

lemma stored_later:
  assumes "stored_ok c envelope d" "rtranclp store_step (dm_db d) (dm_db d')"
  shows "stored_ok c envelope d'"
proof -
  have "reachable (dm_db d')" "store_wf (dm_db d)"
    using assms reachable_wf by (auto simp: stored_ok_def intro: rtranclp_trans)
  then show ?thesis
    using assms job_persists unfolding stored_ok_def in_store_def by blast
qed

lemma unanswered_later:
  assumes "ack_ok c envelope d" "rtranclp store_step (dm_db d) (dm_db d')"
    and "unanswered envelope d \<Longrightarrow> unanswered envelope d'"
  shows "ack_ok c envelope d'"
proof (cases "in_store c envelope d")
  case True
  then have "stored_ok c envelope d" using assms(1) by (simp add: stored_ok_def ack_ok_def)
  from stored_ack [OF stored_later [OF this assms(2)]] show ?thesis .
next
  case False
  with assms show ?thesis by (auto simp: ack_ok_def intro: rtranclp_trans)
qed

section \<open>The arrival handler\<close>

lemma ingest_stored:
  assumes "fst (ingest s now i k t db) = Inr r \<or> fst (ingest s now i k t db) = Inl (JobConflict x)"
  shows "\<exists>row. find_job (scopeKey s) (in_jobId i) (snd (ingest s now i k t db)) = Some row"
  using assms
  by (auto simp: ingest_def after_def transaction_def ingest_tx_def require_job_def get_job_def
      bindR_def Let_def split: option.splits sum.splits prod.splits)

lemma triple_stored:
  assumes "keeps store_run m"
  shows "triple (stored_ok c envelope) m (\<lambda>_. stored_ok c envelope) (ack_ok c envelope)"
  using stored_later keepsD [OF assms] stored_ack
  by (auto simp: triple_def store_run_def split: sum.split)

lemma catch_None: "snd (catch_conflict m (ret None) d) = snd (m d)"
  by (auto simp: catch_conflict_def ret_def split: prod.split sum.split daemon_error.split
      store_error.split)

lemma keeps_accepted:
  "keeps store_run (if b then bindA (storeA c (\<lambda>s now. markAcked s now jobId)) (\<lambda>job. ret (Some job))
     else ret (Some job))"
  by (intro store_run.keeps_basic)

lemma triple_acceptJob:
  assumes "parseIncomingRelayJob (dc_num c) (dc_millis c) now envelope (dc_maxInputChars c) = Inr incoming"
  shows "triple (ack_ok c envelope) (acceptJob c incoming) (\<lambda>_. stored_ok c envelope) (ack_ok c envelope)"
  unfolding triple_def
proof (intro allI impI)
  fix d :: daemon
  assume ok: "ack_ok c envelope d"
  let ?call = "storeA c (\<lambda>s now. ingest s now incoming (dc_sessionKey c) (dc_kind c))"
  let ?db = "ingest (dc_store c) (dc_clock c (dm_tick d)) incoming (dc_sessionKey c) (dc_kind c) (dm_db d)"
  obtain r d1 where r: "?call d = (r, d1)" by fastforce
  have run: "rtranclp store_step (dm_db d) (dm_db d1)"
    using keepsD [OF store_run.keeps_calls(1) [of c incoming "dc_sessionKey c" "dc_kind c"], of d] r
    by (simp add: store_run_def)
  have d1: "dm_db d1 = snd ?db" "dm_waiting d1 = dm_waiting d" "dm_log d1 = dm_log d"
    and res: "r = (case fst ?db of Inl e \<Rightarrow> Inl (Store_failed e) | Inr a \<Rightarrow> Inr a)"
    using r by (auto simp: storeA_def Let_def)
  have failed: "ack_ok c envelope d1"
    by (rule unanswered_later [OF ok run]) (simp add: unanswered_def d1)
  let ?kept = "(\<exists>a. r = Inr a) \<or> (\<exists>x. r = Inl (Store_failed (JobConflict x)))"
  have "stored_ok c envelope d1" if ?kept
  proof -
    have "(\<exists>a. fst ?db = Inr a) \<or> (\<exists>x. fst ?db = Inl (JobConflict x))"
      using that res by (auto split: sum.splits)
    then have "\<exists>row. find_job (scope_of c) (in_jobId incoming) (dm_db d1) = Some row"
      unfolding d1(1) by (elim disjE exE) (rule ingest_stored, simp)+
    then show ?thesis
      using failed assms by (auto simp: stored_ok_def in_store_def ack_ok_def)
  qed
  then have stored: "stored_ok c envelope (snd (acceptJob c incoming d))" if ?kept
    using that stored_later keepsD [OF keeps_accepted]
    by (cases r) (auto simp: acceptJob_def catch_None bindA_def r store_run_def split: prod.split)
  have "(\<exists>e. fst (acceptJob c incoming d) = Inl e) \<and> snd (acceptJob c incoming d) = d1" if "\<not> ?kept"
    using that
    by (cases r) (auto simp: acceptJob_def catch_conflict_def bindA_def r
        split: daemon_error.split store_error.split)
  with stored failed show "case fst (acceptJob c incoming d) of
      Inl e \<Rightarrow> ack_ok c envelope (snd (acceptJob c incoming d))
    | Inr a \<Rightarrow> stored_ok c envelope (snd (acceptJob c incoming d))"
    using stored_ack by (cases ?kept) (auto split: sum.split)
qed

lemma ack_ok_frame:
  "dm_db d' = dm_db d \<Longrightarrow> dm_waiting d' = dm_waiting d \<Longrightarrow>
     Ef_settled (C_incoming envelope) None \<in> set (dm_log d') \<longrightarrow>
       Ef_settled (C_incoming envelope) None \<in> set (dm_log d) \<Longrightarrow>
     ack_ok c envelope d \<Longrightarrow> ack_ok c envelope d'"
  by (auto simp: ack_ok_def unanswered_def in_store_def)

lemma triple_block: "triple (ack_ok c envelope) (blockForUpstream reason)
    (\<lambda>_. ack_ok c envelope) (ack_ok c envelope)"
  unfolding triple_def
  by (auto simp: blockForUpstream_def thenA_def bindA_def modify_def readA_def ret_def emit_def
      split: option.split intro: ack_ok_frame [rotated 3])

lemma ack_ok_tick: "ack_ok c envelope d \<Longrightarrow> ack_ok c envelope (next_tick d)"
  by (erule ack_ok_frame [rotated 3]) (simp_all add: next_tick_def)

lemma triple_rejecting: "triple (ack_ok c envelope)
    (suspend (W_stop (C_incoming envelope) (Then_reject e) stop))
    (\<lambda>v d. ack_ok c envelope d \<and> (v = Finished \<longrightarrow> stored_ok c envelope d)) E"
  by (auto simp: triple_def suspend_def thenA_def bindA_def modify_def ret_def ack_ok_def
      unanswered_def in_store_def)

lemma triple_incoming:
  "triple (ack_ok c envelope) (onRelayIncoming c envelope)
     (\<lambda>v d. ack_ok c envelope d \<and> (v = Finished \<longrightarrow> stored_ok c envelope d)) (ack_ok c envelope)"
proof -
  let ?P = "ack_ok c envelope" and ?S = "stored_ok c envelope"
  let ?Q = "\<lambda>v d. ?P d \<and> (v = Finished \<longrightarrow> ?S d)"
  have after: "triple ?S m ?Q ?P" if "keeps store_run m" for m
    using triple_stored [OF that, of c envelope] stored_ack
    by (auto simp: triple_def split: sum.splits)
  have read: "triple ?P (readA f) (\<lambda>_. ?P) ?P" for f :: "daemon \<Rightarrow> 'x"
    by (simp add: triple_readA)
  have parsed: "triple ?P
      (case parseIncomingRelayJob (dc_num c) (dc_millis c) now envelope (dc_maxInputChars c) of
         Inl e \<Rightarrow> throw (Bad_message e)
       | Inr incoming \<Rightarrow> bindA (acceptJob c incoming) (\<lambda>stored. case stored of
             None \<Rightarrow> ret Finished
           | Some job \<Rightarrow>
               if \<not> isNodeAuthorized c (j_from_node_id (sj_row job)) \<and> waiting_status (j_status (sj_row job))
               then thenA (rejectNode c (job_id job))
                      (thenA (emit Ef_notify) (suspend (W_notify_end (C_incoming envelope))))
               else dispatchPending c (C_incoming envelope) True True)) ?Q ?P" for now
  proof (cases "parseIncomingRelayJob (dc_num c) (dc_millis c) now envelope (dc_maxInputChars c)")
    case (Inl e)
    then show ?thesis by (simp add: triple_throw)
  next
    case (Inr incoming)
    show ?thesis
      unfolding Inr sum.case
    proof (rule triple_bindA [OF triple_acceptJob [OF Inr]])
      fix stored
      show "triple ?S (case stored of
             None \<Rightarrow> ret Finished
           | Some job \<Rightarrow>
               if \<not> isNodeAuthorized c (j_from_node_id (sj_row job)) \<and> waiting_status (j_status (sj_row job))
               then thenA (rejectNode c (job_id job))
                      (thenA (emit Ef_notify) (suspend (W_notify_end (C_incoming envelope))))
               else dispatchPending c (C_incoming envelope) True True) ?Q ?P"
        by (rule after, intro store_run.keeps_basic store_run.keeps_reject store_run.keeps_emit
            store_run.keeps_suspend store_run.keeps_dispatch) simp_all
    qed
  qed
  show ?thesis
    unfolding onRelayIncoming_def Let_def
    by (rule triple_step [OF read], rule triple_if, rule triple_throw, assumption,
        rule triple_step [OF triple_expired], erule ack_ok_tick,
        rule triple_step [OF read], rule triple_if,
        rule triple_step [OF triple_block triple_rejecting], rule triple_if,
        rule triple_step [OF triple_block triple_rejecting],
        rule triple_step [OF triple_tick(1)], erule ack_ok_tick, rule parsed)
qed

section \<open>Every run\<close>

lemma run_incoming:
  assumes "ack_ok c envelope d"
  shows "ack_ok c envelope (run c (C_incoming envelope) (onRelayIncoming c envelope) d)"
proof -
  obtain r d' where r: "onRelayIncoming c envelope d = (r, d')"
    by (cases "onRelayIncoming c envelope d")
  have ok: "case r of Inl e \<Rightarrow> ack_ok c envelope d'
      | Inr v \<Rightarrow> ack_ok c envelope d' \<and> (v = Finished \<longrightarrow> stored_ok c envelope d')"
    using spec [OF triple_incoming [of c envelope, unfolded triple_def], of d] assms
    by (simp only: r fst_conv snd_conv simp_thms)
  show ?thesis
  proof (cases r)
    case (Inl e)
    have "ack_ok c envelope d'" using ok Inl by simp
    then have "ack_ok c envelope (settle (C_incoming envelope) (Some e) d')"
      by (rule ack_ok_frame [rotated 3]) (simp_all add: settle_def log_settled_def)
    then show ?thesis by (simp add: run_def r Inl)
  next
    case (Inr v)
    have "stored_ok c envelope d' \<Longrightarrow> ack_ok c envelope (settle (C_incoming envelope) None d')"
      by (intro stored_ack, erule stored_later) (simp add: settle_def log_settled_def)
    then show ?thesis using ok by (cases v) (simp_all add: run_def r Inr)
  qed
qed

text \<open>The other reactions do not touch the promise of \<open>envelope\<close>.\<close>

lemma other_work:
  assumes "ack_ok c envelope d" "event_caller d ev \<noteq> C_incoming envelope"
  shows "ack_ok c envelope (happens c ev d)"
proof (rule unanswered_later [OF assms(1) happens_store])
  have own: "own_work (event_caller d ev) d (happens c ev d)"
    by (rule own_work.R_happens) (auto simp: works_for_def)
  assume "unanswered envelope d"
  with own assms(2) show "unanswered envelope (happens c ev d)"
    unfolding own_work_def works_for_def unanswered_def by (metis caller.distinct insertE singletonD)
qed

lemma rejecting_resumed:
  assumes "resume c w a d = Some d'" "rejecting w" "caller_of w = C_incoming envelope"
  shows "\<exists>e. d' = settle (C_incoming envelope) (Some e) d"
  using assms
  by (cases w rule: rejecting.cases)
    (auto simp: resume_def run_def throw_def split: if_splits)

lemma own_resume:
  assumes "ack_ok c envelope d" "i < length (dm_waiting d)"
    "caller_of (dm_waiting d ! i) = C_incoming envelope"
  shows "ack_ok c envelope (happens c (D_resume i a) d)"
proof (rule unanswered_later [OF assms(1) happens_store])
  assume u: "unanswered envelope d"
  let ?d = "d\<lparr>dm_waiting := drop_nth i (dm_waiting d)\<rparr>"
  have rejecting: "rejecting (dm_waiting d ! i)"
    using u assms(2,3) by (simp add: unanswered_def)
  have "unanswered envelope d'" if "resume c (dm_waiting d ! i) a ?d = Some d'" for d'
    using rejecting_resumed [OF that rejecting assms(3)] u drop_nth_subset [of i "dm_waiting d"]
    by (auto simp: unanswered_def settle_def log_settled_def)
  with u assms(2) show "unanswered envelope (happens c (D_resume i a) d)"
    by (simp split: option.split)
qed

lemma ack_ok_happens: "ack_ok c envelope d \<Longrightarrow> ack_ok c envelope (happens c ev d)"
proof (cases "event_caller d ev = C_incoming envelope")
  case True
  assume ok: "ack_ok c envelope d"
  from True consider "ev = D_incoming envelope"
    | i a where "ev = D_resume i a" "i < length (dm_waiting d)"
        "caller_of (dm_waiting d ! i) = C_incoming envelope"
    by (cases ev) (auto split: if_splits)
  then show ?thesis
    by cases (use ok run_incoming own_resume in simp_all)
qed (rule other_work)

lemma ack_ok_elsewhere:
  assumes "admissible x" "ack_ok c envelope d"
  shows "ack_ok c envelope (d\<lparr>dm_db := exec cfg now x (dm_db d)\<rparr>)"
  by (rule unanswered_later [OF assms(2)])
    (use assms(1) in \<open>simp_all add: unanswered_def r_into_rtranclp store_step.call\<close>)

lemma ack_ok_step: "daemon_step c d d' \<Longrightarrow> ack_ok c envelope d \<Longrightarrow> ack_ok c envelope d'"
  by (induction rule: daemon_step.induct) (simp_all only: ack_ok_happens ack_ok_elsewhere)

lemma ack_ok_start: "daemon_starts d \<Longrightarrow> ack_ok c envelope d"
  by (auto simp: daemon_starts_def new_daemon_def ack_ok_def unanswered_def)

interpretation daemon_ack: safe_system daemon_starts "daemon_step c" "ack_ok c envelope"
  by unfold_locales (erule ack_ok_start, erule (1) ack_ok_step [rotated])

end
