(* ===== verification/Relay_System.thy ===== *)
theory Relay_System
  imports Client_Stretch Daemon_Ack
begin

text \<open>
  The relay client on its own (what it does to the store, and the order of its
  acknowledgements), and then the client and the daemon together, on one store: the client's
  \<open>onIncoming\<close> is the daemon's arrival handler, and its answer is the daemon's promise.
\<close>

section \<open>The client and the store\<close>

definition cl_store_run :: "client \<Rightarrow> client \<Rightarrow> bool" where
  "cl_store_run s s' \<longleftrightarrow> rtranclp store_step (cl_db s) (cl_db s')"

interpretation cl_store_run: message_relation cl_store_run c "\<lambda>_ _. True"
proof unfold_locales
  fix s t u
  assume "cl_store_run s t" "cl_store_run t u"
  then show "cl_store_run s u" unfolding cl_store_run_def by (rule rtranclp_trans)
qed (auto simp: cl_store_run_def cl_next_def cl_with_def cl_add_log_def cl_add_waiting_def
    wires_only_def intro: store_step.call)

section \<open>Acknowledgements follow acceptance\<close>

definition accepted_before :: "client_effect list \<Rightarrow> jstring \<Rightarrow> bool" where
  "accepted_before es jobId \<longleftrightarrow>
     (\<exists>envelope. Cl_accepted envelope \<in> set es \<and> message_job envelope = Some jobId)"

definition acks_ordered :: "client_effect list \<Rightarrow> bool" where
  "acks_ordered es \<longleftrightarrow>
     (\<forall>before g e behind jobId. es = before @ Cl_send g e # behind \<longrightarrow> message_ack e \<longrightarrow>
        message_job e = Some jobId \<longrightarrow> accepted_before before jobId)"

definition acks_ok :: "client \<Rightarrow> bool" where
  "acks_ok s \<longleftrightarrow> (\<forall>w \<in> set (cl_waiting s). wait_ok w) \<and> acks_ordered (cl_log s)"

lemma acks_ordered_snoc:
  assumes "acks_ordered es"
    and "\<And>g e jobId. x = Cl_send g e \<Longrightarrow> message_ack e \<Longrightarrow> message_job e = Some jobId \<Longrightarrow>
      accepted_before es jobId"
  shows "acks_ordered (es @ [x])"
  unfolding acks_ordered_def
proof (intro allI impI)
  fix before g e behind jobId
  assume eq: "es @ [x] = before @ Cl_send g e # behind" and e: "message_ack e" "message_job e = Some jobId"
  show "accepted_before before jobId"
  proof (cases behind rule: rev_cases)
    case Nil
    with eq have "before = es" "x = Cl_send g e" by simp_all
    then show ?thesis using assms(2) e by simp
  next
    case (snoc ys y)
    with eq have "es = before @ Cl_send g e # ys" by simp
    with assms(1) e show ?thesis unfolding acks_ordered_def by blast
  qed
qed

lemma ack_names_job: "message_job (buildAckEnvelope wi u n t jobId a d) = Some jobId"
  by (simp add: message_job_def buildAckEnvelope_def withWireIdentity_def metadata_object_def Let_def
      jfield_def json_text_def object_fields_def js_def jget_def [of _ "(_ # _)"])

definition ack_trace :: "client \<Rightarrow> client \<Rightarrow> bool" where
  "ack_trace s s' \<longleftrightarrow> (acks_ok s \<longrightarrow> acks_ok s')"

lemma ack_trace_frame:
  "cl_log s' = cl_log s \<Longrightarrow> (\<And>w. w \<in> set (cl_waiting s') \<Longrightarrow> w \<in> set (cl_waiting s) \<or> wait_ok w) \<Longrightarrow>
     ack_trace s s'"
  unfolding ack_trace_def acks_ok_def by auto

interpretation ack_trace: message_relation ack_trace c "\<lambda>_ _. True"
proof unfold_locales
  fix ef and s :: client
  assume "plain_effect ef"
  then show "ack_trace s (cl_add_log ef s)"
    unfolding ack_trace_def acks_ok_def
    by (auto simp: cl_add_log_def intro!: acks_ordered_snoc)
next
  fix envelope and s :: client
  show "ack_trace s (cl_add_log (Cl_accepted envelope) s)"
    unfolding ack_trace_def acks_ok_def
    by (auto simp: cl_add_log_def intro!: acks_ordered_snoc)
next
  fix envelope and s :: client and jobId g u n
  assume "Cl_accepted envelope \<in> set (cl_log s)" "message_job envelope = Some jobId"
  then show "ack_trace s (cl_add_log (Cl_send g (buildAckEnvelope (rc_wire c) u n (js ''ack_send_message'')
      jobId (rc_agentId c) (rc_deviceId c))) s)"
    unfolding ack_trace_def acks_ok_def
    by (auto simp: cl_add_log_def ack_names_job accepted_before_def intro!: acks_ordered_snoc)
next
  fix s t u
  assume "ack_trace s t" "ack_trace t u"
  then show "ack_trace s u" by (simp add: ack_trace_def)
next
  fix w and s :: client
  assume "plain_wait w"
  then show "ack_trace s (cl_add_waiting w s)"
    by (intro ack_trace_frame) (auto simp: cl_add_waiting_def plain_wait_ok)
next
  fix s :: client and i
  show "ack_trace s (s\<lparr>cl_waiting := take i (cl_waiting s) @ drop (Suc i) (cl_waiting s)\<rparr>)"
    by (intro ack_trace_frame) (auto dest: in_set_takeD in_set_dropD)
next
  fix s :: client and envelope jobId n g
  assume "message_job envelope = Some jobId"
  then show "ack_trace s (cl_add_waiting (K_incoming n g envelope jobId) s)"
    by (intro ack_trace_frame) (auto simp: cl_add_waiting_def)
qed (auto simp: cl_next_def cl_with_def wires_only_def intro!: ack_trace_frame)

text \<open>Which messages are accepted, for an environment that answers only those in \<open>P\<close>.\<close>

definition accepts_in :: "(jobject \<Rightarrow> bool) \<Rightarrow> client \<Rightarrow> client \<Rightarrow> bool" where
  "accepts_in P s s' \<longleftrightarrow>
     (\<forall>envelope. Cl_accepted envelope \<in> set (cl_log s') \<longrightarrow> Cl_accepted envelope \<in> set (cl_log s) \<or> P envelope)"

interpretation accepts_in: message_relation "accepts_in P" c "\<lambda>_. P"
proof unfold_locales
  fix ef and s :: client
  assume "plain_effect ef"
  then show "accepts_in P s (cl_add_log ef s)" by (auto simp: accepts_in_def cl_add_log_def)
qed (auto simp: accepts_in_def cl_next_def cl_with_def cl_add_waiting_def cl_add_log_def
    wires_only_def)

section \<open>The client and the daemon\<close>

record relay_system =
  sy_daemon :: daemon
  sy_client :: client

text \<open>The arrival handler resolves for the client only when the daemon's promise has resolved.\<close>

definition answers_daemon :: "daemon \<Rightarrow> client \<Rightarrow> client_event \<Rightarrow> bool" where
  "answers_daemon d s ev =
     (case ev of
        E_resume i An_done \<Rightarrow>
          if i < length (cl_waiting s)
          then (case cl_waiting s ! i of
              K_incoming n g envelope jobId \<Rightarrow> Ef_settled (C_incoming envelope) None \<in> set (dm_log d)
            | _ \<Rightarrow> True)
          else True
      | _ \<Rightarrow> True)"

definition share :: "db \<Rightarrow> relay_system \<Rightarrow> relay_system" where
  "share db y = \<lparr>sy_daemon = (sy_daemon y)\<lparr>dm_db := db\<rparr>, sy_client = (sy_client y)\<lparr>cl_db := db\<rparr>\<rparr>"

definition daemon_reacts :: "daemon_cfg \<Rightarrow> event \<Rightarrow> relay_system \<Rightarrow> relay_system" where
  "daemon_reacts dc ev y =
     (let d = happens dc ev (sy_daemon y)
      in \<lparr>sy_daemon = d, sy_client = (sy_client y)\<lparr>cl_db := dm_db d\<rparr>\<rparr>)"

definition client_reacts :: "relay_cfg \<Rightarrow> client_event \<Rightarrow> relay_system \<Rightarrow> relay_system" where
  "client_reacts rc ev y =
     (let s = client_happens rc ev (sy_client y)
      in \<lparr>sy_daemon = (sy_daemon y)\<lparr>dm_db := cl_db s\<rparr>, sy_client = s\<rparr>)"

inductive system_step :: "daemon_cfg \<Rightarrow> relay_cfg \<Rightarrow> relay_system \<Rightarrow> relay_system \<Rightarrow> bool"
  for dc rc where
  by_daemon: "system_step dc rc y (daemon_reacts dc ev y)"
| by_client: "answers_daemon (sy_daemon y) (sy_client y) ev \<Longrightarrow> system_step dc rc y (client_reacts rc ev y)"
| by_others: "admissible x \<Longrightarrow> system_step dc rc y (share (exec cfg now x (cl_db (sy_client y))) y)"

inductive_cases system_stepE: "system_step dc rc y y'"

definition new_client :: "db \<Rightarrow> client" where
  "new_client db =
     \<lparr>cl_db = db, cl_sockets = [], cl_socket = None, cl_generation = 0, cl_chains = [],
      cl_run = Not_running, cl_aborted = False, cl_terminal = None, cl_handshake = False,
      cl_heartbeat = False, cl_lastPong = 0, cl_refresh = 0, cl_refresh_timer = None,
      cl_recovery_timer = False, cl_result_timers = [], cl_tick = 0, cl_waiting = [], cl_log = []\<rparr>"

definition system_starts :: "relay_system \<Rightarrow> bool" where
  "system_starts y \<longleftrightarrow>
     (\<exists>db expiresAt. reachable db
        \<and> y = \<lparr>sy_daemon = new_daemon db expiresAt, sy_client = new_client db\<rparr>)"

definition system_ok :: "daemon_cfg \<Rightarrow> relay_system \<Rightarrow> bool" where
  "system_ok dc y \<longleftrightarrow>
     cl_db (sy_client y) = dm_db (sy_daemon y)
     \<and> (\<forall>envelope. ack_ok dc envelope (sy_daemon y))
     \<and> acks_ok (sy_client y)
     \<and> (\<forall>envelope. Cl_accepted envelope \<in> set (cl_log (sy_client y)) \<longrightarrow>
          Ef_settled (C_incoming envelope) None \<in> set (dm_log (sy_daemon y)))"

lemma ack_ok_shared:
  assumes "ack_ok c envelope d" "rtranclp store_step (dm_db d) db"
  shows "ack_ok c envelope (d\<lparr>dm_db := db\<rparr>)"
  by (rule unanswered_later [OF assms(1)]) (use assms(2) in \<open>simp_all add: unanswered_def\<close>)

lemma log_kept: "x \<in> set (dm_log d) \<Longrightarrow> x \<in> set (dm_log (happens c ev d))"
proof -
  have "log_grows d (happens c ev d)" by (rule log_grows.R_happens) simp_all
  then show "x \<in> set (dm_log d) \<Longrightarrow> ?thesis" by (auto simp: log_grows_def)
qed

lemma system_ok_step:
  assumes "system_step dc rc y y'" "system_ok dc y"
  shows "system_ok dc y'"
  using assms(1)
proof (cases rule: system_step.cases)
  case (by_daemon ev)
  have "ack_ok dc envelope (happens dc ev (sy_daemon y))" for envelope
    using assms(2) ack_ok_happens by (simp add: system_ok_def)
  with by_daemon assms(2) show ?thesis
    by (auto simp: system_ok_def daemon_reacts_def Let_def acks_ok_def intro: log_kept)
next
  case (by_client ev)
  let ?s = "sy_client y" and ?d = "sy_daemon y"
  let ?P = "\<lambda>envelope. Ef_settled (C_incoming envelope) None \<in> set (dm_log ?d)"
  have ok: "\<And>i. i < length (cl_waiting ?s) \<Longrightarrow> wait_ok (cl_waiting ?s ! i)"
    using assms(2) by (simp add: system_ok_def acks_ok_def)
  have "cl_store_run ?s (client_happens rc ev ?s)"
    by (rule cl_store_run.R_client_happens) (use ok in simp_all)
  then have "rtranclp store_step (dm_db ?d) (cl_db (client_happens rc ev ?s))"
    using assms(2) by (simp add: cl_store_run_def system_ok_def)
  then have "ack_ok dc envelope (?d\<lparr>dm_db := cl_db (client_happens rc ev ?s)\<rparr>)" for envelope
    using ack_ok_shared assms(2) by (simp add: system_ok_def)
  moreover have "ack_trace ?s (client_happens rc ev ?s)"
    by (rule ack_trace.R_client_happens) (use ok in simp_all)
  then have "acks_ok (client_happens rc ev ?s)"
    using assms(2) by (simp add: ack_trace_def system_ok_def)
  moreover have "accepts_in ?P ?s (client_happens rc ev ?s)"
    by (rule accepts_in.R_client_happens) (use ok by_client in \<open>auto simp: answers_daemon_def\<close>)
  ultimately show ?thesis
    using by_client assms(2) by (auto simp: system_ok_def client_reacts_def Let_def accepts_in_def)
next
  case (by_others x cfg now)
  then have "ack_ok dc envelope ((sy_daemon y)\<lparr>dm_db := exec cfg now x (cl_db (sy_client y))\<rparr>)" for envelope
    using ack_ok_elsewhere assms(2) by (simp add: system_ok_def)
  with by_others assms(2) show ?thesis by (auto simp: system_ok_def share_def acks_ok_def)
qed

lemma system_ok_start: "system_starts y \<Longrightarrow> system_ok dc y"
  by (auto simp: system_starts_def system_ok_def new_client_def new_daemon_def acks_ok_def
      acks_ordered_def ack_ok_def unanswered_def)

interpretation relay_system: safe_system system_starts "system_step dc rc" "system_ok dc"
  by unfold_locales (erule system_ok_start, erule (1) system_ok_step [rotated])

text \<open>A schedule of the two, for concrete runs.\<close>

fun system_happens :: "daemon_cfg \<Rightarrow> relay_cfg \<Rightarrow> event + client_event \<Rightarrow> relay_system \<Rightarrow> relay_system" where
  "system_happens dc rc (Inl ev) y = daemon_reacts dc ev y"
| "system_happens dc rc (Inr ev) y = client_reacts rc ev y"

fun system_run :: "daemon_cfg \<Rightarrow> relay_cfg \<Rightarrow> (event + client_event) list \<Rightarrow> relay_system \<Rightarrow> relay_system option" where
  "system_run dc rc [] y = Some y"
| "system_run dc rc (x # xs) y =
     (if (case x of Inl _ \<Rightarrow> True | Inr ev \<Rightarrow> answers_daemon (sy_daemon y) (sy_client y) ev)
      then system_run dc rc xs (system_happens dc rc x y) else None)"

lemma system_run_steps: "system_run dc rc xs y = Some y' \<Longrightarrow> rtranclp (system_step dc rc) y y'"
proof (induction xs arbitrary: y)
  case (Cons x xs)
  then have "system_step dc rc y (system_happens dc rc x y)"
    by (cases x) (auto intro: system_step.intros split: if_splits)
  with Cons show ?case by (auto split: if_splits intro: converse_rtranclp_into_rtranclp)
qed simp

end
