(* ===== verification/Store_Delivery.thy ===== *)
theory Store_Delivery
  imports Store_Examples
begin

text \<open>
  What one delivery does to the outbox: \<open>startResultDelivery\<close> changes exactly the row of the
  job and records the attempt, and taking back a failed send removes the attempt again.
\<close>

section \<open>One row\<close>

definition put_outbox :: "outbox_row \<Rightarrow> db \<Rightarrow> db" where
  "put_outbox row db =
     db\<lparr>outbox := map (\<lambda>r. if outbox_key r = outbox_key row then row else r) (outbox db)\<rparr>"

lemma sql_update_single_row:
  assumes "distinct (map k rs)" "sql_count P rs = 1" "\<And>r. P r \<Longrightarrow> k r = key"
  shows "\<exists>old. old \<in> set rs \<and> P old \<and> k old = key \<and> find (\<lambda>r. k r = key) rs = Some old
    \<and> sql_update P f rs = map (\<lambda>r. if k r = key then f old else r) rs"
proof -
  from assms(2) obtain old where old: "old \<in> set rs" "P old"
    using filter_empty_conv [of P rs] unfolding sql_count_def by (metis list.size(3) zero_neq_one)
  have key: "k old = key" using old(2) assms(3) by blast
  have only: "r = old" if "r \<in> set rs" "k r = key" for r
    using key_unique [OF assms(1) that(1) old(1)] that(2) key by simp
  have "sql_update P f rs = map (\<lambda>r. if k r = key then f old else r) rs"
    unfolding sql_update_def
  proof (rule map_cong [OF refl])
    fix r
    assume r: "r \<in> set rs"
    show "(if P r then f r else r) = (if k r = key then f old else r)"
      using only [OF r] old(2) assms(3) by (cases "k r = key") auto
  qed
  moreover have "find (\<lambda>r. k r = key) rs = Some old"
    using find_key_unique [OF assms(1) old(1)] key by simp
  ultimately show ?thesis using old key by blast
qed

lemma sql_count_one:
  assumes "distinct (map k rs)" "old \<in> set rs" "P old" "\<And>r. P r \<Longrightarrow> k r = k old"
  shows "sql_count P rs = 1"
proof -
  have "r = old" if "r \<in> set rs" "P r" for r
    using key_unique [OF assms(1) that(1) assms(2)] assms(4) [OF that(2)] by simp
  then have "filter P rs = filter (\<lambda>r. r = old) rs" using assms(3) by (intro filter_cong) auto
  moreover have "distinct rs" using assms(1) by (simp add: distinct_map)
  ultimately show ?thesis
    using assms(2) by (simp add: sql_count_def distinct_length_filter Int_absorb1 Collect_conj_eq [symmetric])
qed

lemma find_map_put:
  "k row = key \<Longrightarrow> find (\<lambda>r. k r = key) (map (\<lambda>r. if k r = key then row else r) rs)
     = (if find (\<lambda>r. k r = key) rs = None then None else Some row)"
  by (induction rs) auto

lemma find_put_outbox:
  "outbox_key row = (scope, jobId) \<Longrightarrow> find_outbox scope jobId db = Some old \<Longrightarrow>
     find_outbox scope jobId (put_outbox row db) = Some row"
  using find_map_put [of outbox_key row "(scope, jobId)" "outbox db"]
  by (simp add: find_outbox_def put_outbox_def)

lemma put_outbox_twice: "outbox_key a = outbox_key b \<Longrightarrow> put_outbox a (put_outbox b db) = put_outbox a db"
  by (simp add: put_outbox_def comp_def cong: if_cong)

lemma put_outbox_keys: "map outbox_key (outbox (put_outbox row db)) = map outbox_key (outbox db)"
  by (simp add: put_outbox_def)

lemma outbox_keys_distinct: "store_wf db \<Longrightarrow> distinct (map outbox_key (outbox db))"
  by (simp add: store_wf_def outbox_wf_def)

section \<open>The start of a delivery\<close>

definition started_row :: "jstring \<Rightarrow> bool \<Rightarrow> int \<Rightarrow> outbox_row \<Rightarrow> outbox_row" where
  "started_row messageId retry now old = old\<lparr>o_status := Delivering,
     o_last_message_id := Some messageId,
     o_retry_count := (if o_status old = AckFailed then 0
                       else o_retry_count old + (if retry then 1 else 0)),
     o_next_attempt_at := None, o_delivered_at := Some now, o_updated_at := now\<rparr>"

definition attempt_row :: "jstring \<Rightarrow> jstring \<Rightarrow> jstring \<Rightarrow> int \<Rightarrow> delivery_attempt_row" where
  "attempt_row scope messageId jobId now =
     \<lparr>d_scope_key = scope, d_message_id = messageId, d_job_id = jobId, d_created_at = now\<rparr>"

lemma startResultDelivery_Some:
  assumes "store_wf db" "startResultDelivery cfg now jobId messageId retry db = (Inr (Some row), db')"
  shows "\<exists>old. find_outbox (scopeKey cfg) jobId db = Some old \<and> delivery_due retry now old
    \<and> row = started_row messageId retry now old
    \<and> (\<forall>d \<in> set (delivery_attempts db). d_scope_key d = scopeKey cfg \<longrightarrow> d_message_id d \<noteq> messageId)
    \<and> db' = (put_outbox row db)\<lparr>delivery_attempts :=
        delivery_attempts db @ [attempt_row (scopeKey cfg) messageId jobId now]\<rparr>"
proof -
  let ?P = "\<lambda>r. at_outbox cfg jobId r \<and> delivery_due retry now r
      \<and> sql_exists (\<lambda>j. job_key j = outbox_key r \<and> \<not> j_cancel_requested j) (jobs db)"
  let ?db1 = "update_outbox ?P (started_row messageId retry now) db"
  have one: "sql_count ?P (outbox db) = 1"
    using assms(2) by (auto simp: startResultDelivery_def Let_def after_def transaction_def
        split: if_splits sum.splits)
  from sql_update_single_row [OF outbox_keys_distinct [OF assms(1)] one, of "(scopeKey cfg, jobId)"
      "started_row messageId retry now"]
  obtain old where old: "old \<in> set (outbox db)" "?P old"
    "find (\<lambda>r. outbox_key r = (scopeKey cfg, jobId)) (outbox db) = Some old"
    "sql_update ?P (started_row messageId retry now) (outbox db)
       = map (\<lambda>r. if outbox_key r = (scopeKey cfg, jobId) then started_row messageId retry now old else r)
           (outbox db)"
    by auto
  let ?row = "started_row messageId retry now old"
  have key: "outbox_key ?row = (scopeKey cfg, jobId)" using old(2) by (simp add: started_row_def)
  have db1: "?db1 = put_outbox ?row db"
    unfolding update_outbox_def put_outbox_def old(4) key ..
  have body: "?P = (\<lambda>r. at_outbox cfg jobId r \<and> delivery_due retry now r
      \<and> sql_exists (\<lambda>j. job_key j = outbox_key r \<and> \<not> j_cancel_requested j) (jobs db))" ..
  have start: "startResultDelivery cfg now jobId messageId retry db =
      after (transaction (\<lambda>_. bindR (insert_delivery_attempt
        (attempt_row (scopeKey cfg) messageId jobId now) ?db1) (\<lambda>db2. Inr (True, db2))) db)
       (\<lambda>changed db'. if changed then require_outbox cfg jobId db' else Inr None)"
    using one unfolding startResultDelivery_def Let_def
    by (simp add: transaction_def started_row_def [abs_def] attempt_row_def)
  let ?d = "attempt_row (scopeKey cfg) messageId jobId now"
  have fresh: "\<not> sql_exists (\<lambda>x. d_scope_key x = scopeKey cfg \<and> d_message_id x = messageId)
      (delivery_attempts db)"
    and db': "db' = (put_outbox ?row db)\<lparr>delivery_attempts := delivery_attempts db @ [?d]\<rparr>"
    and req: "require_outbox cfg jobId db' = Inr (Some row)"
    using assms(2) unfolding start db1
    by (auto simp: after_def transaction_def insert_delivery_attempt_def attempt_row_def bindR_def
        put_outbox_def split: if_splits sum.splits)
  have "find_outbox (scopeKey cfg) jobId db' = Some ?row"
    using find_put_outbox [OF key] old(3) by (simp add: db' find_outbox_def)
  then have "row = ?row"
    using req by (auto simp: require_outbox_def require_job_def get_job_def rowToJob_def bindR_def
        find_job_def find_Some_iff split: option.splits sum.splits)
  with old fresh db' show ?thesis
    by (intro exI [of _ old]) (auto simp: find_outbox_def sql_exists_def list_ex_iff)
qed

text \<open>A result that is due is started, unless the message id was used before.\<close>

lemma startResultDelivery_due:
  assumes wf: "store_wf db" and old: "find_outbox (scopeKey cfg) jobId db = Some old"
    "delivery_due retry now old"
    and job: "sql_exists (\<lambda>j. job_key j = (scopeKey cfg, jobId) \<and> \<not> j_cancel_requested j) (jobs db)"
  shows "startResultDelivery cfg now jobId messageId retry db =
    (if sql_exists (\<lambda>x. d_scope_key x = scopeKey cfg \<and> d_message_id x = messageId) (delivery_attempts db)
     then (Inl SqliteConstraint, db)
     else (Inr (Some (started_row messageId retry now old)),
           (put_outbox (started_row messageId retry now old) db)\<lparr>delivery_attempts :=
              delivery_attempts db @ [attempt_row (scopeKey cfg) messageId jobId now]\<rparr>))"
proof -
  let ?P = "\<lambda>r. at_outbox cfg jobId r \<and> delivery_due retry now r
      \<and> sql_exists (\<lambda>j. job_key j = outbox_key r \<and> \<not> j_cancel_requested j) (jobs db)"
  let ?row = "started_row messageId retry now old" and ?d = "attempt_row (scopeKey cfg) messageId jobId now"
  let ?db1 = "update_outbox ?P (started_row messageId retry now) db"
  have old_in: "old \<in> set (outbox db)" "outbox_key old = (scopeKey cfg, jobId)"
    using find_Some_in [OF old(1) [unfolded find_outbox_def]] by auto
  have P: "?P old" using old(2) old_in(2) job by simp
  then have one: "sql_count ?P (outbox db) = 1"
    by (rule sql_count_one [OF outbox_keys_distinct [OF wf] old_in(1)]) (simp add: old_in(2))
  have key: "outbox_key ?row = (scopeKey cfg, jobId)" using old_in(2) by (simp add: started_row_def)
  from sql_update_single_row [OF outbox_keys_distinct [OF wf] one, of "(scopeKey cfg, jobId)"
      "started_row messageId retry now"] old(1)
  have "sql_update ?P (started_row messageId retry now) (outbox db)
      = map (\<lambda>r. if outbox_key r = (scopeKey cfg, jobId) then ?row else r) (outbox db)"
    by (auto simp: find_outbox_def)
  then have db1: "?db1 = put_outbox ?row db" unfolding update_outbox_def put_outbox_def key by simp
  have found: "find_outbox (scopeKey cfg) jobId (put_outbox ?row db) = Some ?row"
    by (rule find_put_outbox [OF key old(1)])
  have "find_job (scopeKey cfg) jobId db \<noteq> None"
    using job by (auto simp: find_job_def find_None_iff sql_exists_def list_ex_iff)
  then obtain j where j: "find_job (scopeKey cfg) jobId db = Some j" by blast
  have req: "require_outbox cfg jobId ((put_outbox ?row db)\<lparr>delivery_attempts := ds\<rparr>) = Inr (Some ?row)" for ds
    using j found find_Some_in [OF j [unfolded find_job_def]]
    by (simp add: require_outbox_def require_job_def get_job_def rowToJob_def find_job_def
        find_outbox_def put_outbox_def)
  have start: "startResultDelivery cfg now jobId messageId retry db =
      after (transaction (\<lambda>_. bindR (insert_delivery_attempt ?d (put_outbox ?row db)) (\<lambda>db2. Inr (True, db2))) db)
       (\<lambda>changed db'. if changed then require_outbox cfg jobId db' else Inr None)"
    using one unfolding startResultDelivery_def Let_def db1 [symmetric]
    by (simp add: transaction_def started_row_def [abs_def] attempt_row_def)
  show ?thesis
    unfolding start using found req
    by (simp add: after_def transaction_def insert_delivery_attempt_def attempt_row_def put_outbox_def)
qed

section \<open>A send that failed\<close>

definition latest_attempt :: "db \<Rightarrow> jstring \<Rightarrow> jstring \<Rightarrow> delivery_attempt_row option" where
  "latest_attempt db scope jobId =
     (case rev (sort_key d_created_at (filter (\<lambda>d. d_scope_key d = scope \<and> d_job_id d = jobId)
          (delivery_attempts db))) of [] \<Rightarrow> None | d # _ \<Rightarrow> Some d)"

text \<open>C25: When handing a result to the socket fails, \<open>resetOutboxPendingAfterSendFailure\<close> takes the
  delivery that was just started out of the database again: the delivery attempts are those
  before, and no table differs but for the row of the result. That row keeps its bytes and its
  other fields and becomes Pending, due at once, whatever it was; its retry count is the one
  before the start, or 0 when the row was AckFailed, since the start had reset it; its message id
  and its delivery time are those of the latest recorded attempt that is left, or empty.\<close>

theorem failed_send_is_undone:
  assumes "reachable db"
    and "startResultDelivery cfg now jobId messageId retry db = (Inr (Some row), db')"
  shows "\<exists>old. find_outbox (scopeKey cfg) jobId db = Some old
    \<and> snd (resetOutboxPendingAfterSendFailure cfg now' jobId messageId retry db') = put_outbox
        (old\<lparr>o_status := Pending,
          o_retry_count := (if o_status old = AckFailed then 0 else o_retry_count old),
          o_last_message_id := map_option d_message_id (latest_attempt db (scopeKey cfg) jobId),
          o_delivered_at := map_option d_created_at (latest_attempt db (scopeKey cfg) jobId),
          o_next_attempt_at := None, o_updated_at := now'\<rparr>) db"
proof -
  have wf: "store_wf db" using assms(1) by (rule reachable_wf)
  from startResultDelivery_Some [OF wf assms(2)] obtain old where
    old: "find_outbox (scopeKey cfg) jobId db = Some old" "delivery_due retry now old"
      "row = started_row messageId retry now old"
    and fresh: "\<forall>d \<in> set (delivery_attempts db). d_scope_key d = scopeKey cfg \<longrightarrow> d_message_id d \<noteq> messageId"
    and db': "db' = (put_outbox row db)\<lparr>delivery_attempts :=
      delivery_attempts db @ [attempt_row (scopeKey cfg) messageId jobId now]\<rparr>"
    by blast
  let ?P = "\<lambda>r. at_outbox cfg jobId r \<and> o_status r = Delivering \<and> o_last_message_id r = Some messageId"
  let ?f = "\<lambda>r. r\<lparr>o_status := Pending,
      o_retry_count := (if retry \<and> 0 < o_retry_count r then o_retry_count r - 1 else o_retry_count r),
      o_last_message_id := map_option d_message_id (previous_attempt db' r messageId),
      o_delivered_at := map_option d_created_at (previous_attempt db' r messageId),
      o_next_attempt_at := None, o_updated_at := now'\<rparr>"
  have key: "outbox_key row = (scopeKey cfg, jobId)"
    using old find_Some_in [OF old(1) [unfolded find_outbox_def]] by (simp add: started_row_def)
  have keys: "distinct (map outbox_key (outbox db'))"
    using outbox_keys_distinct [OF wf] by (simp add: db' put_outbox_keys)
  have found: "find_outbox (scopeKey cfg) jobId db' = Some row"
    using find_put_outbox [OF key old(1)] by (simp add: db' find_outbox_def)
  then have row: "row \<in> set (outbox db')" using find_Some_in [OF found [unfolded find_outbox_def]] by simp
  have "?P row" using key by (simp add: old(3) started_row_def)
  then have one: "sql_count ?P (outbox db') = 1"
    by (rule sql_count_one [OF keys row]) (use key in simp)
  from sql_update_single_row [OF keys one, of "(scopeKey cfg, jobId)" ?f]
  have upd: "sql_update ?P ?f (outbox db') =
      map (\<lambda>r. if outbox_key r = (scopeKey cfg, jobId) then ?f row else r) (outbox db')"
    using found by (auto simp: find_outbox_def)
  have "previous_attempt db' row messageId = latest_attempt db (scopeKey cfg) jobId"
  proof -
    have "filter (\<lambda>d. d_scope_key d = scopeKey cfg \<and> d_job_id d = jobId \<and> d_message_id d \<noteq> messageId)
        (delivery_attempts db') = filter (\<lambda>d. d_scope_key d = scopeKey cfg \<and> d_job_id d = jobId)
        (delivery_attempts db)"
      using fresh by (auto simp: db' attempt_row_def intro!: filter_cong)
    with key show ?thesis by (simp add: previous_attempt_def latest_attempt_def)
  qed
  then have new: "?f row = old\<lparr>o_status := Pending,
          o_retry_count := (if o_status old = AckFailed then 0 else o_retry_count old),
          o_last_message_id := map_option d_message_id (latest_attempt db (scopeKey cfg) jobId),
          o_delivered_at := map_option d_created_at (latest_attempt db (scopeKey cfg) jobId),
          o_next_attempt_at := None, o_updated_at := now'\<rparr>" (is "_ = ?new")
    using old(2) by (auto simp: old(3) started_row_def delivery_due_def)
  have "sql_delete (\<lambda>d. d_scope_key d = scopeKey cfg \<and> d_job_id d = jobId \<and> d_message_id d = messageId)
      (delivery_attempts db') = delivery_attempts db"
    using fresh by (auto simp: db' attempt_row_def sql_delete_def intro!: filter_True)
  moreover have "outbox_key ?new = outbox_key row" by (simp add: old(3) started_row_def)
  then have "map (\<lambda>r. if outbox_key r = (scopeKey cfg, jobId) then ?new else r) (outbox db')
      = outbox (put_outbox ?new db)"
    using put_outbox_twice [of ?new row db] key by (simp add: put_outbox_def db')
  then have "outbox (update_outbox ?P ?f db') = outbox (put_outbox ?new db)"
    by (simp only: update_outbox_def upd new db.simps) (simp add: upd new)
  moreover have "snd (resetOutboxPendingAfterSendFailure cfg now' jobId messageId retry db')
      = (update_outbox ?P ?f db')\<lparr>delivery_attempts := sql_delete (\<lambda>d. d_scope_key d = scopeKey cfg
          \<and> d_job_id d = jobId \<and> d_message_id d = messageId) (delivery_attempts (update_outbox ?P ?f db'))\<rparr>"
    using one by (simp add: resetOutboxPendingAfterSendFailure_def Let_def after_def transaction_def)
  ultimately have "snd (resetOutboxPendingAfterSendFailure cfg now' jobId messageId retry db')
      = put_outbox ?new db"
    by (simp add: update_outbox_def put_outbox_def db')
  with old(1) show ?thesis by blast
qed

theorem failed_send_is_undone_witness:
  "snd (resetOutboxPendingAfterSendFailure demo_cfg 15 (js ''j'') (js ''d'') False
     (snd (startResultDelivery demo_cfg 14 (js ''j'') (js ''d'') False demo_succeeded)))
   = put_outbox (demo_outbox\<lparr>o_updated_at := 15\<rparr>) demo_succeeded"
proof -
  let ?start = "startResultDelivery demo_cfg 14 (js ''j'') (js ''d'') False demo_succeeded"
  have "fst ?start = Inr (Some (started_row (js ''d'') False 14 demo_outbox))"
    by code_simp
  then have "?start = (Inr (Some (started_row (js ''d'') False 14 demo_outbox)), snd ?start)"
    by (metis prod.collapse)
  from failed_send_is_undone [OF demo_reachable(4) this, of 15] show ?thesis
    by (auto simp: demo_cfg_def demo_succeeded_def demo_outbox_def find_outbox_def latest_attempt_def fresh_db_def)
qed

end
