(* ===== verification/Client_Replay.thy ===== *)
theory Client_Replay
  imports Relay_System Store_Delivery
begin

text \<open>
  \<open>replayOutbox\<close> ends: while nothing else interferes, every delivery takes one result out of
  those that wait, so the loop over the batches comes to a batch that is not full. \<open>drive\<close> is
  the loop with its awaits resumed at once.
\<close>

fun drive :: "relay_cfg \<Rightarrow> replay_caller \<Rightarrow> nat \<Rightarrow> flow clact \<Rightarrow> client \<Rightarrow> client option" where
  "drive c who 0 m s = None"
| "drive c who (Suc n) m s =
     (case m s of
        (Inr Suspended, s') \<Rightarrow>
          (case last (cl_waiting s') of
             K_replay w rest full \<Rightarrow>
               drive c who n (replay_resumed c who rest full) (s'\<lparr>cl_waiting := butlast (cl_waiting s')\<rparr>)
           | _ \<Rightarrow> Some s')
      | (_, s') \<Rightarrow> Some s')"

text \<open>The results that wait for a delivery, and those that a delivery can start now.\<close>

definition awaiting :: "relay_cfg \<Rightarrow> db \<Rightarrow> nat" where
  "awaiting c db =
     length (filter (\<lambda>r. o_scope_key r = scopeKey (rc_store c) \<and> o_status r \<in> {Pending, AckFailed}) (outbox db))"

definition startable :: "relay_cfg \<Rightarrow> int \<Rightarrow> db \<Rightarrow> jstring \<Rightarrow> bool" where
  "startable c now db jobId \<longleftrightarrow>
     (\<exists>row. find_outbox (scopeKey (rc_store c)) jobId db = Some row \<and> delivery_due False now row
        \<and> sql_exists (\<lambda>j. job_key j = (scopeKey (rc_store c), jobId) \<and> \<not> j_cancel_requested j) (jobs db))"

definition monotone_clock :: "relay_cfg \<Rightarrow> bool" where
  "monotone_clock c \<longleftrightarrow> (\<forall>m n. m \<le> n \<longrightarrow> rc_clock c m \<le> rc_clock c n)"

lemma connected_same:
  assumes "cl_handshake s' = cl_handshake s" "cl_socket s' = cl_socket s" "cl_sockets s' = cl_sockets s"
  shows "connected s' = connected s"
proof -
  have "sock_state s' g = sock_state s g" for g by (simp add: sock_state_def sock_of_def assms(3))
  then show ?thesis by (simp only: connected_def assms(1,2))
qed

lemma startable_later: "now \<le> now' \<Longrightarrow> startable c now db jobId \<Longrightarrow> startable c now' db jobId"
  unfolding startable_def delivery_due_def by (auto split: option.splits) force+

lemma startable_awaiting: "startable c now db jobId \<Longrightarrow> 0 < awaiting c db"
proof -
  assume "startable c now db jobId"
  then obtain row where row: "find_outbox (scopeKey (rc_store c)) jobId db = Some row"
    "delivery_due False now row" by (auto simp: startable_def)
  then have "row \<in> set (filter (\<lambda>r. o_scope_key r = scopeKey (rc_store c)
      \<and> o_status r \<in> {Pending, AckFailed}) (outbox db))"
    using find_Some_in [OF row(1) [unfolded find_outbox_def]] by (auto simp: delivery_due_def)
  then show ?thesis unfolding awaiting_def by (metis length_pos_if_in_set)
qed

lemma awaiting_put:
  assumes "distinct (map outbox_key (outbox db))" "find_outbox (scopeKey (rc_store c)) jobId db = Some old"
    and "o_status old \<in> {Pending, AckFailed}" "outbox_key row = outbox_key old" "o_status row = Delivering"
  shows "Suc (awaiting c (put_outbox row db)) = awaiting c db"
proof -
  let ?Q = "\<lambda>r. o_scope_key r = scopeKey (rc_store c) \<and> o_status r \<in> {Pending, AckFailed}"
  have old: "old \<in> set (outbox db)" "outbox_key old = (scopeKey (rc_store c), jobId)"
    using find_Some_in [OF assms(2) [unfolded find_outbox_def]] by auto
  obtain as bs where split: "outbox db = as @ old # bs" using old(1) by (meson split_list)
  have "outbox_key row \<notin> outbox_key ` (set as \<union> set bs)"
    using assms(1,4) by (auto simp: split simp del: prod.inject)
  then have "\<forall>r \<in> set as \<union> set bs. outbox_key r \<noteq> outbox_key row"
    using imageI [of _ "set as \<union> set bs" outbox_key] by (metis (mono_tags))
  then have "map (\<lambda>r. if outbox_key r = outbox_key row then row else r) as = as"
    "map (\<lambda>r. if outbox_key r = outbox_key row then row else r) bs = bs"
    by (auto intro!: map_idI simp del: prod.inject)
  then have put: "outbox (put_outbox row db) = as @ row # bs"
    unfolding put_outbox_def by (simp add: split assms(4))
  have "?Q old" "\<not> ?Q row" using old(2) assms(3,5) by auto
  then show ?thesis unfolding awaiting_def put split by simp
qed

text \<open>One delivery in a connected client.\<close>

definition replaying :: "relay_cfg \<Rightarrow> client \<Rightarrow> jstring list \<Rightarrow> bool" where
  "replaying c s ids \<longleftrightarrow>
     reachable (cl_db s) \<and> connected s \<and> distinct ids
     \<and> (\<forall>jobId \<in> set ids. startable c (rc_clock c (cl_tick s)) (cl_db s) jobId)"

lemma startable_put:
  "startable c now db jobId \<Longrightarrow> outbox_key row = (scopeKey (rc_store c), other) \<Longrightarrow> jobId \<noteq> other \<Longrightarrow>
     startable c now ((put_outbox row db)\<lparr>delivery_attempts := ds\<rparr>) jobId"
proof -
  assume a: "startable c now db jobId" "outbox_key row = (scopeKey (rc_store c), other)" "jobId \<noteq> other"
  have "find (\<lambda>r. outbox_key r = (scopeKey (rc_store c), jobId))
      (map (\<lambda>r. if outbox_key r = outbox_key row then row else r) rs)
    = find (\<lambda>r. outbox_key r = (scopeKey (rc_store c), jobId)) rs" for rs
    using a(2,3) by (induction rs) auto
  with a show ?thesis by (simp add: startable_def find_outbox_def put_outbox_def)
qed

text \<open>A delivery either fails, or takes one result out of those that wait.\<close>

lemma deliver_one:
  assumes ok: "replaying c s (jobId # rest)" and clock: "monotone_clock c"
    and run: "deliverResult c jobId False s = (r, s')"
  shows "(\<exists>e. r = Inl e) \<or> replaying c s' rest \<and> awaiting c (cl_db s') < awaiting c (cl_db s)"
proof -
  let ?n = "cl_tick s" and ?m = "rc_uuid c (cl_tick s)" and ?db = "cl_db s"
  let ?now = "rc_clock c (Suc ?n)"
  have wf: "store_wf ?db" using ok reachable_wf by (simp add: replaying_def)
  have later: "rc_clock c ?n \<le> rc_clock c k" if "?n \<le> k" for k
    using clock that by (simp add: monotone_clock_def)
  have "startable c ?now ?db jobId"
    using ok startable_later [OF later] by (simp add: replaying_def)
  then obtain old where old: "find_outbox (scopeKey (rc_store c)) jobId ?db = Some old"
    "delivery_due False ?now old"
    "sql_exists (\<lambda>j. job_key j = (scopeKey (rc_store c), jobId) \<and> \<not> j_cancel_requested j) (jobs ?db)"
    by (auto simp: startable_def)
  note start = startResultDelivery_due [OF wf old, of ?m]
  show ?thesis
  proof (cases "\<exists>e. r = Inl e")
    case False
    let ?row = "started_row ?m False ?now old"
    let ?db' = "(put_outbox ?row ?db)\<lparr>delivery_attempts :=
        delivery_attempts ?db @ [attempt_row (scopeKey (rc_store c)) ?m jobId ?now]\<rparr>"
    have "connected s" using ok by (simp add: replaying_def)
    then obtain g where "cl_socket s = Some g" "sock_state s g = Open" "cl_handshake s"
      by (auto simp: connected_def split: option.splits)
    then have "\<exists>log timers. s' = s\<lparr>cl_db := ?db', cl_tick := Suc (Suc (Suc (Suc ?n))), cl_log := log,
        cl_result_timers := timers\<rparr>"
      using run False
      by (auto simp: deliverResult_def Let_def bindA_def thenA_def readA_def modify_def ret_def throw_def
          tickC_def storeC_def start tryA_def send_def raw_send_def cl_emit_def sock_state_def sock_of_def
          connected_def close_current_def close_sock_def split: if_splits prod.splits sum.splits)
    then obtain log timers where s': "s' = s\<lparr>cl_db := ?db', cl_tick := Suc (Suc (Suc (Suc ?n))),
        cl_log := log, cl_result_timers := timers\<rparr>" by blast
    have key: "outbox_key ?row = (scopeKey (rc_store c), jobId)"
      using find_Some_in [OF old(1) [unfolded find_outbox_def]] by (simp add: started_row_def)
    have "reachable (cl_db s')"
    proof -
      have "rtranclp store_step ?db (cl_db s')"
        using keepsD [OF cl_store_run.keeps_deliver [of c jobId False], of s] run
        by (simp add: cl_store_run_def)
      then show ?thesis using ok by (auto simp: replaying_def intro: rtranclp_trans)
    qed
    moreover have "connected s'"
      using \<open>connected s\<close> by (subst connected_same [of _ s]) (simp_all add: s')
    moreover have "startable c (rc_clock c (cl_tick s')) (cl_db s') other" if "other \<in> set rest" for other
    proof -
      have "startable c (rc_clock c (cl_tick s')) ?db other"
        using that ok startable_later [OF later] by (simp add: replaying_def s')
      from startable_put [OF this key] show ?thesis using that ok by (auto simp: s' replaying_def)
    qed
    moreover have "awaiting c (cl_db s') < awaiting c ?db"
      using awaiting_put [OF outbox_keys_distinct [OF wf] old(1), of ?row] old(2)
      by (auto simp: s' awaiting_def started_row_def delivery_due_def)
    ultimately show ?thesis using ok by (simp add: replaying_def)
  qed simp
qed

lemma listed_distinct:
  assumes "distinct (map job_key ks)"
    and "\<And>j r. f j = Some r \<Longrightarrow> j_scope_key j = scope \<and> o_job_id r = j_job_id j"
  shows "distinct (map o_job_id (List.map_filter f ks))"
  using assms(1)
proof (induction ks)
  case (Cons j ks)
  show ?case
  proof (cases "f j")
    case None
    then show ?thesis using Cons by (simp add: List.map_filter_def)
  next
    case (Some r)
    have "o_job_id r \<noteq> o_job_id q" if "q \<in> set (List.map_filter f ks)" for q
    proof
      assume eq: "o_job_id r = o_job_id q"
      from that obtain k where k: "k \<in> set ks" "f k = Some q" by (auto simp: List.map_filter_def)
      from assms(2) [OF Some] assms(2) [OF k(2)] eq have "job_key j = job_key k" by simp
      with Cons.prems k(1) show False by (auto simp del: prod.inject dest: imageI [of k _ job_key])
    qed
    then show ?thesis using Cons Some by (auto simp: List.map_filter_def)
  qed
qed (simp add: List.map_filter_def)

lemma listed_startable:
  assumes "store_wf db"
  shows "distinct (map o_job_id (listPendingOutbox (rc_store c) n now db))
    \<and> (\<forall>jobId \<in> set (map o_job_id (listPendingOutbox (rc_store c) n now db)). startable c now db jobId)"
proof
  let ?f = "\<lambda>j. if j_scope_key j = scopeKey (rc_store c) \<and> \<not> j_cancel_requested j
          then (case find_outbox (j_scope_key j) (j_job_id j) db of
                  None \<Rightarrow> None
                | Some r \<Rightarrow> if delivery_due False now r then Some r else None)
          else None"
  let ?l = "sort_key pending_rank (List.map_filter ?f (jobs db))"
  have f: "?f j = Some r \<Longrightarrow> j_scope_key j = scopeKey (rc_store c) \<and> o_job_id r = j_job_id j" for j r
    by (auto split: if_splits option.splits dest: find_Some_in simp: find_outbox_def)
  have "distinct (map job_key (jobs db))" using assms by (simp add: store_wf_def jobs_wf_def)
  then have "distinct (map o_job_id (List.map_filter ?f (jobs db)))" by (rule listed_distinct) (rule f)
  then have "distinct (map o_job_id ?l)" by (simp add: distinct_map)
  then show "distinct (map o_job_id (listPendingOutbox (rc_store c) n now db))"
    unfolding listPendingOutbox_def by (simp add: distinct_map take_map [symmetric] inj_on_subset [OF _ set_take_subset])
  have "startable c now db (o_job_id r)" if "r \<in> set ?l" for r
  proof -
    from that obtain j where j: "j \<in> set (jobs db)" "?f j = Some r"
      by (auto simp: List.map_filter_def)
    then show ?thesis
      using f [OF j(2)] unfolding startable_def sql_exists_def list_ex_iff
      by (intro exI [of _ r]) (auto split: if_splits option.splits)
  qed
  then show "\<forall>jobId \<in> set (map o_job_id (listPendingOutbox (rc_store c) n now db)). startable c now db jobId"
    unfolding listPendingOutbox_def by (auto dest!: in_set_takeD)
qed

section \<open>The loop\<close>

lemma replay_done_ends:
  "case replay_done c who s of
     (Inr Suspended, s') \<Rightarrow> (\<exists>attempt g. last (cl_waiting s') = K_closed attempt g)
   | _ \<Rightarrow> True"
  by (auto simp: replay_done_def thenA_def bindA_def cl_suspend_def modify_def ret_def
      split: prod.split sum.split replay_caller.split flow.split)

lemma drive_done: "\<exists>s'. drive c who (Suc n) (replay_done c who) s = Some s'"
  using replay_done_ends [of c who s] by (auto split: prod.split sum.split flow.split)

text \<open>The loop only depends on where its first stretch ends.\<close>

lemma drive_cong: "m s = m' s' \<Longrightarrow> drive c who (Suc n) m s = drive c who (Suc n) m' s'"
  by simp

lemma drive_replay_from:
  assumes "deliverResult c jobId False s = (r, s1)"
  shows "drive c who (Suc n) (replay_from c who jobId rest full) s =
     (case r of Inl e \<Rightarrow> Some s1 | Inr _ \<Rightarrow> drive c who n (replay_resumed c who rest full) s1)"
  by (simp add: replay_from_def thenA_def bindA_def assms cl_suspend_def modify_def ret_def
      split: sum.split)

lemma replayOutbox_lists:
  assumes ok: "replaying c s []" and clock: "monotone_clock c"
  obtains (idle) "replayOutbox c who s = replay_done c who (s\<lparr>cl_tick := Suc (cl_tick s)\<rparr>)"
  | (batch) jobId rest full where
      "replayOutbox c who s = replay_from c who jobId rest full (s\<lparr>cl_tick := Suc (cl_tick s)\<rparr>)"
      "replaying c (s\<lparr>cl_tick := Suc (cl_tick s)\<rparr>) (jobId # rest)"
proof -
  let ?s = "s\<lparr>cl_tick := Suc (cl_tick s)\<rparr>"
  let ?ids = "map o_job_id (listPendingOutbox (rc_store c) replay_batch_size (rc_clock c (cl_tick s)) (cl_db s))"
  have con: "connected s" and wf: "store_wf (cl_db s)" using ok reachable_wf by (auto simp: replaying_def)
  have out: "replayOutbox c who s = (case ?ids of [] \<Rightarrow> replay_done c who
      | jobId # rest \<Rightarrow> replay_from c who jobId rest (length ?ids = replay_batch_size)) ?s"
    by (simp add: replayOutbox_def bindA_def readA_def tickC_def con ret_def thenA_def modify_def
      cong: list.case_cong)
  show thesis
  proof (cases ?ids)
    case Nil
    then show thesis using idle out by simp
  next
    case (Cons jobId rest)
    have "rc_clock c (cl_tick s) \<le> rc_clock c (Suc (cl_tick s))" using clock by (simp add: monotone_clock_def)
    then have "\<forall>i \<in> set (jobId # rest). startable c (rc_clock c (Suc (cl_tick s))) (cl_db s) i"
      using listed_startable [OF wf, of c replay_batch_size "rc_clock c (cl_tick s)"] startable_later
      unfolding Cons by blast
    moreover have "distinct (jobId # rest)"
      using listed_startable [OF wf, of c replay_batch_size "rc_clock c (cl_tick s)"] unfolding Cons by blast
    moreover have "connected ?s" using con by (subst connected_same [of _ s]) simp_all
    ultimately have "replaying c ?s (jobId # rest)" using ok by (simp add: replaying_def)
    then show thesis using batch out Cons by simp
  qed
qed

lemma drive_list:
  assumes clock: "monotone_clock c" and ok: "replaying c s []" and n: "awaiting c (cl_db s) \<le> n"
    and batch: "\<And>s jobId rest full. replaying c s (jobId # rest) \<Longrightarrow> awaiting c (cl_db s) \<le> n \<Longrightarrow>
      \<exists>s'. drive c who (Suc n) (replay_from c who jobId rest full) s = Some s'"
  shows "\<exists>s'. drive c who (Suc n) (replayOutbox c who) s = Some s'"
  using ok clock
proof (cases rule: replayOutbox_lists [where who = who])
  case idle
  have "drive c who (Suc n) (replayOutbox c who) s
      = drive c who (Suc n) (replay_done c who) (s\<lparr>cl_tick := Suc (cl_tick s)\<rparr>)"
    apply (rule drive_cong)
    by (rule idle)
  then show ?thesis using drive_done by metis
next
  case (batch jobId rest full)
  have "drive c who (Suc n) (replayOutbox c who) s
      = drive c who (Suc n) (replay_from c who jobId rest full) (s\<lparr>cl_tick := Suc (cl_tick s)\<rparr>)"
    by (rule drive_cong) (rule batch(1))
  then show ?thesis using assms(4) [OF batch(2)] n by auto
qed

lemma drive_batch:
  assumes clock: "monotone_clock c"
  shows "replaying c s (jobId # rest) \<Longrightarrow> awaiting c (cl_db s) \<le> n \<Longrightarrow>
       \<exists>s'. drive c who (Suc n) (replay_from c who jobId rest full) s = Some s'"
proof (induction n arbitrary: s jobId rest full)
  case 0
  then show ?case using startable_awaiting [of c _ "cl_db s" jobId] by (auto simp: replaying_def)
next
  case (Suc n)
  obtain r s1 where run: "deliverResult c jobId False s = (r, s1)" by (rule prod.exhaust)
  note step = drive_replay_from [OF run, of who "Suc n" rest full]
  show ?case
  proof (cases r)
    case (Inl e)
    then show ?thesis using step by auto
  next
    case (Inr u)
    with deliver_one [OF Suc.prems(1) clock run] Suc.prems(2)
    have left: "replaying c s1 rest" "awaiting c (cl_db s1) \<le> n" by auto
    have "\<exists>s'. drive c who (Suc n) (replay_resumed c who rest full) s1 = Some s'"
      unfolding replay_resumed_def
    proof (split list.split, intro conjI impI allI, goal_cases)
      case 1
      then show ?case using drive_list [OF clock] left Suc.IH drive_done by (cases full) auto
    next
      case (2 next_one others)
      then show ?case using Suc.IH left by auto
    qed
    then show ?thesis using step Inr by simp
  qed
qed

text \<open>C24: The replay of the outbox ends, on every database the store can reach, under two conditions:
  the clock does not run backwards, and nothing else happens between the awaits of the loop, each
  of which is resumed at once (\<open>drive\<close>). It then returns within as many turns as there are results
  that wait for a delivery and one more, whether its sends fail or not. Both conditions matter:
  when \<open>Date.now\<close> falls behind the start of the replay, a listed row is not due and stays where it
  is, and other handlers may add results while the loop waits.\<close>

theorem replay_ends:
  assumes "reachable (cl_db s)" "monotone_clock c"
  shows "\<exists>s'. drive c who (Suc (awaiting c (cl_db s))) (replayOutbox c who) s = Some s'"
proof (cases "connected s")
  case True
  then have "replaying c s []" using assms by (simp add: replaying_def)
  then show ?thesis using drive_list [OF assms(2)] drive_batch [OF assms(2)] by blast
next
  case False
  then have "replayOutbox c who s = replay_done c who s"
    by (simp add: replayOutbox_def bindA_def readA_def ret_def)
  then have "drive c who (Suc n) (replayOutbox c who) s = drive c who (Suc n) (replay_done c who) s" for n
    by (rule drive_cong)
  then show ?thesis using drive_done by metis
qed

section \<open>A client\<close>

definition demo_relay :: relay_cfg where
  "demo_relay = \<lparr>rc_store = demo_cfg,
     rc_wire = \<lparr>wi_client = js ''w'', wi_nodeType = js ''t''\<rparr>, rc_agentId = js ''a'',
     rc_deviceId = js ''d'', rc_nodeName = js ''h'', rc_maxInputChars = 100, rc_maxFrameBytes = 1000,
     rc_reconnectMaxMs = 30000, rc_pongTimeoutMs = 60000, rc_resultAckTimeoutMs = 10000,
     rc_resultMaxRetries = 3, rc_tokenRefreshAckTimeoutMs = 5000, rc_tokenRefreshMaxFailures = 3,
     rc_num = id, rc_millis = (\<lambda>_. 7), rc_clock = (\<lambda>n. 10 + int n), rc_uuid = (\<lambda>_. js ''u''),
     rc_random = (\<lambda>_. 0), rc_send_fails = (\<lambda>_. False)\<rparr>"

definition demo_online :: client where
  "demo_online = (new_client demo_succeeded)\<lparr>cl_sockets := [\<lparr>so_token = js ''k'', so_state = Open,
     so_shaken = True, so_handshake = Some True\<rparr>], cl_socket := Some 1, cl_generation := 1,
     cl_chains := [\<lparr>ch_busy = False, ch_queue = []\<rparr>], cl_run := Running, cl_handshake := True,
     cl_tick := 20\<rparr>"

theorem replay_ends_witness:
  "connected demo_online \<and> awaiting demo_relay (cl_db demo_online) = 1
   \<and> (\<exists>s'. drive demo_relay R_notify 2 (replayOutbox demo_relay R_notify) demo_online = Some s')"
proof -
  have n: "awaiting demo_relay (cl_db demo_online) = 1" "connected demo_online" by code_simp+
  have "reachable (cl_db demo_online)" "monotone_clock demo_relay"
    using demo_reachable(4) by (simp_all add: demo_online_def new_client_def monotone_clock_def demo_relay_def)
  from replay_ends [OF this, of R_notify] n show ?thesis by (simp add: numeral_2_eq_2)
qed

end
