(* ===== verification/Daemon_Props.thy ===== *)
theory Daemon_Props
  imports Daemon_Ack Store_Examples
begin

text \<open>
  The properties of the relay daemon, each followed by a run that shows it can apply: a Hermes
  daemon on the store of \<open>Store_Examples\<close>.
\<close>

section \<open>A daemon\<close>

definition demo_daemon :: daemon_cfg where
  "demo_daemon = \<lparr>dc_store = demo_cfg, dc_kind = Hermes, dc_sessionKey = js ''k'',
     dc_allowAllNodes = False, dc_allowedNodeIds = [js ''n''],
     dc_unauthorizedMessage = js ''no'', dc_maxInputChars = 100, dc_maxOutputChars = 100,
     dc_acknowledgeProtocol = True, dc_acknowledgeRemote = True, dc_num = id,
     dc_millis = (\<lambda>_. 7), dc_clock = (\<lambda>n. 10 + int n), dc_uuid = (\<lambda>_. js ''l'')\<rparr>"

definition demo_idle :: daemon where
  "demo_idle = new_daemon demo_received (Some 100)"

definition demo_sent :: stored_job where
  "demo_sent = \<lparr>sj_row = (demo_claimed Hermes)\<lparr>j_updated_at := 13\<rparr>, sj_outbox = None\<rparr>"

definition demo_busy :: daemon where
  "demo_busy = demo_idle\<lparr>dm_db := fresh_db\<lparr>jobs := [(demo_claimed Hermes)\<lparr>j_updated_at := 13\<rparr>],
       attempt_events := [demo_event 1 EvReserved 13]\<rparr>,
     dm_ready := True, dm_executionId := Some (js ''c''), dm_tick := 5,
     dm_waiting := [W_dispatch C_connected False False demo_sent []],
     dm_log := [Ef_dispatch demo_sent]\<rparr>"

lemma demo_daemon_run:
  "happen demo_daemon [D_backend True (Some (js ''c'')), D_connected] demo_idle = demo_busy"
  by code_simp

lemma demo_idle_starts: "daemon_starts demo_idle"
  using demo_reachable(1) by (auto simp: daemon_starts_def demo_idle_def)

lemma demo_busy_run: "daemon_run demo_daemon demo_idle demo_busy"
  using happen_run [of demo_daemon demo_idle "[D_backend True (Some (js ''c'')), D_connected]"]
  by (simp only: demo_daemon_run)

text \<open>The same job arriving over the relay, with its acknowledgement.\<close>

definition demo_envelope :: jobject where
  "demo_envelope =
     [(js ''type'', JStr (js ''send_message'')),
      (js ''metadata'', JObj [(js ''job_id'', JStr (js ''j'')), (js ''msg_id'', JStr (js ''m''))]),
      (js ''payload'', JObj [(js ''from_node_id'', JStr (js ''n'')),
        (js ''data'', JObj [(js ''type'', JStr (js ''exec'')), (js ''content'', JStr (js ''t''))])])]"

definition demo_empty :: daemon where
  "demo_empty = new_daemon fresh_db (Some 100)"

definition demo_arrived :: daemon where
  "demo_arrived = happen demo_daemon [D_incoming demo_envelope, D_resume 0 A_done] demo_empty"

lemma demo_empty_starts: "daemon_starts demo_empty"
  by (auto simp: daemon_starts_def demo_empty_def)

lemma demo_arrived_run: "daemon_run demo_daemon demo_empty demo_arrived"
  unfolding demo_arrived_def by (rule happen_run)

lemma demo_arrived_log:
  "dm_log demo_arrived = [Ef_notify, Ef_settled (C_incoming demo_envelope) None]"
  by code_simp

section \<open>Dispatch\<close>

text \<open>C13: Every job the daemon hands to the execution backend was claimed by it from the store at
  that moment (a dispatchable job, now Dispatching under a fresh attempt number), is bound to
  the configured backend and comes from an authorised node.\<close>

theorem dispatched_jobs_were_claimed:
  assumes "daemon_starts d0" "daemon_run c d0 d" "Ef_dispatch job \<in> set (dm_log d)"
  shows "j_target_backend (sj_row job) = dc_kind c
    \<and> isNodeAuthorized c (j_from_node_id (sj_row job))
    \<and> (\<exists>db db' now connectorId leaseId. reachable db \<and> rtranclp store_step db' (dm_db d)
        \<and> claimed_from (dc_store c) (job_id job) connectorId leaseId now db db' job)"
proof -
  have "job \<in> set (dispatched (dm_log d))"
    using assms(3) by (force simp: dispatched_def List.map_filter_def)
  then have "sent c (dm_db d) job"
    using daemon_dispatch.reached_ok [OF assms(1,2)] by (simp add: dispatch_ok_def)
  then show ?thesis unfolding sent_def by blast
qed

theorem dispatched_jobs_were_claimed_witness:
  "isNodeAuthorized demo_daemon (js ''n'') \<and> (\<exists>db db' now connectorId leaseId. reachable db
     \<and> claimed_from demo_cfg (js ''j'') connectorId leaseId now db db' demo_sent)"
proof -
  have "Ef_dispatch demo_sent \<in> set (dm_log demo_busy)" by (simp add: demo_busy_def)
  note claimed = dispatched_jobs_were_claimed [OF demo_idle_starts demo_busy_run this]
  have "job_id demo_sent = js ''j''" "j_from_node_id (sj_row demo_sent) = js ''n''"
    "dc_store demo_daemon = demo_cfg"
    by (simp_all add: demo_sent_def demo_claimed_def demo_row_def demo_daemon_def)
  with claimed show ?thesis by (simp only:) blast
qed

text \<open>C14: No attempt is handed to the backend twice, however the dispatch loops of the handlers
  interleave.\<close>

theorem attempts_are_dispatched_once:
  assumes "daemon_starts d0" "daemon_run c d0 d"
  shows "distinct (map (\<lambda>job. (job_id job, j_run_generation (sj_row job))) (dispatched (dm_log d)))"
proof -
  have "distinct (map attempt_of (dispatched (dm_log d)))"
    using daemon_dispatch.reached_ok [OF assms] by (simp add: dispatch_ok_def)
  then show ?thesis unfolding attempt_of_def .
qed

text \<open>The backend declines the first attempt, and the job goes out again as the second.\<close>

definition demo_again :: daemon where
  "demo_again = happen demo_daemon [D_backend True (Some (js ''c'')), D_connected,
     D_resume 0 (A_submission Not_sent), D_connected] demo_idle"

theorem attempts_are_dispatched_once_witness:
  "distinct (map (\<lambda>job. (job_id job, j_run_generation (sj_row job))) (dispatched (dm_log demo_again)))
   \<and> map (\<lambda>job. j_run_generation (sj_row job)) (dispatched (dm_log demo_again)) = [1, 2]"
proof
  have "daemon_run demo_daemon demo_idle demo_again" unfolding demo_again_def by (rule happen_run)
  from attempts_are_dispatched_once [OF demo_idle_starts this]
  show "distinct (map (\<lambda>job. (job_id job, j_run_generation (sj_row job))) (dispatched (dm_log demo_again)))" .
  show "map (\<lambda>job. j_run_generation (sj_row job)) (dispatched (dm_log demo_again)) = [1, 2]"
    by code_simp
qed

text \<open>C15: The arrival of a message is answered, which acknowledges it to the relay, only when its
  job is in the store.\<close>

theorem answered_messages_are_stored:
  assumes "daemon_starts d0" "daemon_run c d0 d" "Ef_settled (C_incoming envelope) None \<in> set (dm_log d)"
  shows "\<exists>now incoming job.
    parseIncomingRelayJob (dc_num c) (dc_millis c) now envelope (dc_maxInputChars c) = Inr incoming
    \<and> get_job (dc_store c) (in_jobId incoming) (dm_db d) = Some job"
proof -
  have "ack_ok c envelope d" by (rule daemon_ack.reached_ok [OF assms(1,2)])
  then have "in_store c envelope d" using assms(3) by (simp add: ack_ok_def unanswered_def)
  then show ?thesis unfolding in_store_def get_job_def by auto
qed

theorem answered_messages_are_stored_witness:
  "\<exists>now incoming job. parseIncomingRelayJob id (\<lambda>_. 7) now demo_envelope 100 = Inr incoming
    \<and> get_job demo_cfg (in_jobId incoming) (dm_db demo_arrived) = Some job"
  using answered_messages_are_stored [OF demo_empty_starts demo_arrived_run, of demo_envelope]
  by (simp add: demo_arrived_log demo_daemon_def)

section \<open>An expired proof\<close>

text \<open>C16: Once the supported proof has expired, no sequence of events, dispatch loops under way
  included, lets another job out until a new proof is saved.\<close>

theorem expired_proof_dispatches_nothing:
  assumes "\<forall>t. dm_proofExpiresAt d = Some t \<longrightarrow> (\<forall>n \<ge> dm_tick d. t \<le> dc_clock c n)"
    and "\<forall>ev \<in> set evs. \<forall>i t. ev \<noteq> D_resume i (A_proof t)"
  shows "dispatched (dm_log (happen c evs d)) = dispatched (dm_log d)"
proof -
  have "proof_dead c d" using assms(1) by (simp add: proof_dead_def split: option.split)
  moreover have "silent c d (happen c evs d)"
    using assms(2) by (intro happen_silent) (auto simp: saves_proof_def)
  ultimately show ?thesis by (simp add: silent_def)
qed

definition demo_expired :: daemon where
  "demo_expired = demo_busy\<lparr>dm_db := demo_received, dm_proofExpiresAt := Some 12,
     dm_waiting := [W_dispatch C_connected False False demo_sent [rowToJob demo_received (demo_row Hermes)]]\<rparr>"

theorem expired_proof_dispatches_nothing_witness:
  "dispatched (dm_log (happen demo_daemon [D_resume 0 (A_submission Submitted), D_connected,
     D_incoming demo_envelope] demo_expired)) = [demo_sent]"
  using expired_proof_dispatches_nothing [of demo_expired demo_daemon "[D_resume 0 (A_submission Submitted),
     D_connected, D_incoming demo_envelope]"]
  by (simp add: demo_expired_def demo_busy_def demo_daemon_def)

text \<open>C17: A message that arrives after the proof has expired changes nothing in the store; its
  handler is left waiting for the relay to stop, and then rejects.\<close>

theorem expired_proof_admits_nothing:
  assumes "\<forall>t. dm_proofExpiresAt d = Some t \<longrightarrow> (\<forall>n \<ge> dm_tick d. t \<le> dc_clock c n)"
    and "\<not> dm_stopping d"
  shows "\<exists>stop. dm_db (happens c (D_incoming envelope) d) = dm_db d
    \<and> dm_waiting (happens c (D_incoming envelope) d)
        = dm_waiting d @ [W_stop (C_incoming envelope) (Then_reject Proof_expired) stop]"
proof -
  have "proof_dead c d" using assms(1) by (simp add: proof_dead_def split: option.split)
  from incoming_when_dead [OF this assms(2)] obtain stop d' where
    "onRelayIncoming c envelope d
       = suspend (W_stop (C_incoming envelope) (Then_reject Proof_expired) stop) d'"
    "dm_db d' = dm_db d" "dm_waiting d' = dm_waiting d"
    by blast
  then show ?thesis
    by (simp add: run_def suspend_def thenA_def bindA_def modify_def ret_def)
qed

theorem expired_proof_admits_nothing_witness:
  "dm_db (happens demo_daemon (D_incoming demo_envelope) demo_expired) = demo_received"
  using expired_proof_admits_nothing [of demo_expired demo_daemon demo_envelope]
  by (simp add: demo_expired_def demo_busy_def demo_idle_def new_daemon_def demo_daemon_def)

section \<open>Stale events of the backend\<close>












section \<open>A loop under way does not see the gate close\<close>

text \<open>Two jobs wait; the first comes from a node that is no longer authorised. While the loop
  waits for the relay to be told of the rejection, the recheck finds the upstream incompatible
  and closes the gate. The loop goes on and dispatches the second job: it only looks at the
  expiry of the proof.\<close>

definition demo_two :: daemon where
  "demo_two = new_daemon (fresh_db\<lparr>jobs := [(demo_row Hermes)\<lparr>j_job_id := js ''i'', j_from_node_id := js ''x''\<rparr>,
     demo_row Hermes]\<rparr>) (Some 100)"

lemma loop_outlives_the_gate:
  "let d = happen demo_daemon [D_backend True (Some (js ''c'')), D_connected, D_recheck,
         D_resume 1 A_done, D_resume 1 (A_compatibility (js ''unsupported''))] demo_two;
       d' = happens demo_daemon (D_resume 0 A_done) d
   in \<not> falsy (dm_upstreamBlocked d) \<and> dispatched (dm_log d) = []
      \<and> map job_id (dispatched (dm_log d')) = [js ''j'']"
  by code_simp

end
