(* ===== verification/Client_Props.thy ===== *)
theory Client_Props
  imports Client_Replay Daemon_Props
begin

text \<open>
  The properties of the relay client, and of the client and the daemon together, each with a
  concrete run: the client of \<open>demo_relay\<close> next to the daemon of \<open>Daemon_Props\<close>.
\<close>

definition connected_frame :: frame where
  "connected_frame = Text_frame (js ''{'' @ json_quote (js ''type'') @ js '':'' @ json_quote (js ''connected'') @ js ''}'')"

definition demo_connect :: "client_event list" where
  "demo_connect = [E_start, E_resume 0 (An_token (js ''k'')), E_opened 1, E_frame 1 connected_frame,
     E_chain 0, E_resume 0 An_done, E_resume 0 An_done]"

definition demo_sys :: relay_system where
  "demo_sys = \<lparr>sy_daemon = new_daemon fresh_db (Some 100), sy_client = new_client fresh_db\<rparr>"

definition demo_delivery :: "(event + client_event) list" where
  "demo_delivery = map Inr demo_connect @
     [Inr (E_frame 1 (Text_frame (json_stringify (JObj demo_envelope)))), Inr (E_chain 0),
      Inl (D_incoming demo_envelope), Inl (D_resume 0 A_done), Inr (E_resume 1 An_done)]"

section \<open>Acknowledgements\<close>

text \<open>C22: A message that the client acknowledges to the relay is in the store: in every
  interleaving of the client, the daemon and the other writers of the store, when an
  acknowledgement of a job has been sent, the daemon finds the job.\<close>

theorem acknowledged_messages_are_durable:
  assumes "system_starts y0" "rtranclp (system_step dc rc) y0 y"
    and "Cl_send g e \<in> set (cl_log (sy_client y))" "message_ack e" "message_job e = Some jobId"
  shows "\<exists>job. get_job (dc_store dc) jobId (dm_db (sy_daemon y)) = Some job"
proof -
  have ok: "system_ok dc y" by (rule relay_system.reached_ok [OF assms(1,2)])
  obtain before behind where "cl_log (sy_client y) = before @ Cl_send g e # behind"
    using assms(3) by (meson split_list)
  with ok assms(4,5) have "accepted_before before jobId"
    by (auto simp: system_ok_def acks_ok_def acks_ordered_def)
  then obtain envelope where accepted: "Cl_accepted envelope \<in> set before" "message_job envelope = Some jobId"
    by (auto simp: accepted_before_def)
  with ok \<open>cl_log (sy_client y) = before @ Cl_send g e # behind\<close>
  have "ack_ok dc envelope (sy_daemon y)" "Ef_settled (C_incoming envelope) None \<in> set (dm_log (sy_daemon y))"
    by (auto simp: system_ok_def)
  then have "in_store dc envelope (sy_daemon y)" by (simp add: ack_ok_def unanswered_def)
  then obtain now incoming row where
    "parseIncomingRelayJob (dc_num dc) (dc_millis dc) now envelope (dc_maxInputChars dc) = Inr incoming"
    "find_job (scope_of dc) (in_jobId incoming) (dm_db (sy_daemon y)) = Some row"
    by (auto simp: in_store_def)
  with parsed_job [OF this(1)] accepted(2) show ?thesis by (auto simp: get_job_def)
qed

definition demo_end :: relay_system where
  "demo_end = the (system_run demo_daemon demo_relay demo_delivery demo_sys)"

definition demo_ack :: jobject where
  "demo_ack = buildAckEnvelope (rc_wire demo_relay) (js ''u'') 17 (js ''ack_send_message'') (js ''j'')
     (js ''a'') (js ''d'')"

definition is_ack :: "client_effect \<Rightarrow> bool" where
  "is_ack x = (case x of Cl_send g e \<Rightarrow> message_ack e | _ \<Rightarrow> False)"

lemma demo_end_acks:
  "case system_run demo_daemon demo_relay demo_delivery demo_sys of
     None \<Rightarrow> False | Some y \<Rightarrow> filter is_ack (cl_log (sy_client y)) = [Cl_send 1 demo_ack]"
  by code_simp

lemma demo_end_steps:
  "rtranclp (system_step demo_daemon demo_relay) demo_sys demo_end"
  "Cl_send 1 demo_ack \<in> set (cl_log (sy_client demo_end))" "message_ack demo_ack"
proof -
  have run: "system_run demo_daemon demo_relay demo_delivery demo_sys = Some demo_end"
    "filter is_ack (cl_log (sy_client demo_end)) = [Cl_send 1 demo_ack]"
    using demo_end_acks by (auto simp: demo_end_def split: option.splits)
  then show "rtranclp (system_step demo_daemon demo_relay) demo_sys demo_end" by (intro system_run_steps)
  have "Cl_send 1 demo_ack \<in> set (filter is_ack (cl_log (sy_client demo_end)))" by (simp add: run(2))
  then show "Cl_send 1 demo_ack \<in> set (cl_log (sy_client demo_end))" "message_ack demo_ack"
    by (auto simp: is_ack_def)
qed

theorem acknowledged_messages_are_durable_witness:
  "\<exists>job. get_job demo_cfg (js ''j'') (dm_db (sy_daemon demo_end)) = Some job"
proof -
  have starts: "system_starts demo_sys" by (auto simp: system_starts_def demo_sys_def)
  have "message_job demo_ack = Some (js ''j'')" unfolding demo_ack_def by (rule ack_names_job)
  from acknowledged_messages_are_durable [OF starts demo_end_steps this]
  show ?thesis by (simp add: demo_daemon_def)
qed

section \<open>Results\<close>

lemma find_last_new: "\<forall>y \<in> set ys. \<not> P y \<Longrightarrow> P x \<Longrightarrow> find P (ys @ [x]) = Some x"
  by (induction ys) auto

lemma close_current_log:
  "close_current code s = (r, s') \<Longrightarrow> cl_log s' = cl_log s \<or> (\<exists>g. cl_log s' = cl_log s @ [Cl_close g code])"
  by (auto simp: close_current_def bindA_def readA_def ret_def close_sock_def thenA_def modify_def
      cl_emit_def upd_sock_def split: option.splits)

text \<open>C23: A result is recorded before it is sent: when a delivery sends an envelope, it is the
  stored result of the job under a fresh message id, the row says Delivering with that id, and
  an acknowledgement that names the id leads back to the job.\<close>

theorem results_are_recorded_before_sent:
  assumes "reachable (cl_db s)" "deliverResult c jobId retry s = (r, s')"
    and "cl_log s' = cl_log s @ [Cl_send g e]"
  shows "\<exists>m u t row. e = buildResultEnvelope (rc_wire c) u t jobId (rc_agentId c) (rc_deviceId c)
       (o_result_json row) (Some m)
    \<and> find_outbox (scopeKey (rc_store c)) jobId (cl_db s') = Some row
    \<and> o_status row = Delivering \<and> o_last_message_id row = Some m
    \<and> findJobIdByOutboxMessageId (rc_store c) m (cl_db s') = Some jobId"
proof -
  let ?m = "rc_uuid c (cl_tick s)" and ?now = "rc_clock c (Suc (cl_tick s))"
  obtain x db' where start: "startResultDelivery (rc_store c) ?now jobId ?m retry (cl_db s) = (x, db')"
    by (rule prod.exhaust)
  have con: "connected s" using assms(2,3)
    by (auto simp: deliverResult_def bindA_def readA_def thenA_def storeC_def ret_def Let_def
        split: if_splits sum.splits)
  then obtain k where sock: "cl_socket s = Some k" "sock_state s k = Open"
    by (auto simp: connected_def split: option.splits)
  note run = deliverResult_def Let_def bindA_def thenA_def readA_def modify_def ret_def throw_def
    tickC_def storeC_def start con
  have open': "(case cl_socket s of None \<Rightarrow> False | Some g \<Rightarrow>
      sock_state (s\<lparr>cl_db := db', cl_tick := t\<rparr>) g = Open) = True" for t
    using sock by (simp add: sock_state_def sock_of_def split: if_splits)
  have "\<exists>row. x = Inr (Some row)"
  proof (rule ccontr)
    assume "\<not> ?thesis"
    then have "x = Inr None \<or> (\<exists>err. x = Inl err)" by (cases x) (auto simp: not_Some_eq)
    then have "cl_log s' = cl_log s" using assms(2) by (auto simp: run)
    with assms(3) show False by simp
  qed
  then obtain row where x: "x = Inr (Some row)" ..
  let ?k = "Suc (Suc (Suc (cl_tick s)))"
  have "\<not> rc_send_fails c ?k"
  proof
    assume "rc_send_fails c ?k"
    then have "\<forall>g e. cl_log s' \<noteq> cl_log s @ [Cl_send g e]" using assms(2)
      by (auto simp: run x tryA_def send_def open' raw_send_def split: sum.splits prod.splits
          dest!: close_current_log)
    with assms(3) show False by simp
  qed
  then have "cl_db s' = db' \<and> e = buildResultEnvelope (rc_wire c) (rc_uuid c (Suc (Suc (cl_tick s))))
      (nat_now c (Suc (Suc (cl_tick s)))) jobId (rc_agentId c) (rc_deviceId c) (o_result_json row) (Some ?m)"
    using assms(2,3) by (auto simp: run x tryA_def send_def open' raw_send_def cl_emit_def)
  moreover from startResultDelivery_Some [OF reachable_wf [OF assms(1)] start [unfolded x]]
  obtain old where old: "find_outbox (scopeKey (rc_store c)) jobId (cl_db s) = Some old"
    "row = started_row ?m retry ?now old"
    "\<forall>d \<in> set (delivery_attempts (cl_db s)). d_scope_key d = scopeKey (rc_store c) \<longrightarrow> d_message_id d \<noteq> ?m"
    "db' = (put_outbox row (cl_db s))\<lparr>delivery_attempts :=
       delivery_attempts (cl_db s) @ [attempt_row (scopeKey (rc_store c)) ?m jobId ?now]\<rparr>"
    by blast
  have "outbox_key row = (scopeKey (rc_store c), jobId)"
    using old(2) find_Some_in [OF old(1) [unfolded find_outbox_def]] by (simp add: started_row_def)
  from find_put_outbox [OF this old(1)]
  have "find_outbox (scopeKey (rc_store c)) jobId db' = Some row"
    by (simp add: old(4) find_outbox_def)
  moreover have "findJobIdByOutboxMessageId (rc_store c) ?m db' = Some jobId"
    using old(3) by (simp add: old(4) findJobIdByOutboxMessageId_def attempt_row_def find_last_new)
  ultimately show ?thesis using old(2) by (auto simp: started_row_def)
qed

text \<open>The delivery of the result of \<open>Store_Examples\<close>.\<close>

definition demo_delivered_client :: client where
  "demo_delivered_client = snd (deliverResult demo_relay (js ''j'') False demo_online)"

lemma demo_delivered_log: "\<exists>e. cl_log demo_delivered_client = [Cl_send 1 e]"
proof -
  have "case cl_log demo_delivered_client of [Cl_send g e] \<Rightarrow> g = 1 | _ \<Rightarrow> False" by code_simp
  then show ?thesis by (auto split: list.splits client_effect.splits)
qed

theorem results_are_recorded_before_sent_witness:
  "\<exists>e m row. cl_log demo_delivered_client = [Cl_send 1 e]
    \<and> find_outbox (js ''s'') (js ''j'') (cl_db demo_delivered_client) = Some row
    \<and> o_status row = Delivering \<and> o_last_message_id row = Some m
    \<and> findJobIdByOutboxMessageId demo_cfg m (cl_db demo_delivered_client) = Some (js ''j'')"
proof -
  obtain e where log: "cl_log demo_delivered_client = cl_log demo_online @ [Cl_send 1 e]"
    using demo_delivered_log by (auto simp: demo_online_def new_client_def)
  have start: "reachable (cl_db demo_online)"
    using demo_reachable(4) by (simp add: demo_online_def new_client_def)
  have run: "deliverResult demo_relay (js ''j'') False demo_online
      = (fst (deliverResult demo_relay (js ''j'') False demo_online), demo_delivered_client)"
    unfolding demo_delivered_client_def by (rule prod.collapse [symmetric])
  have "rc_store demo_relay = demo_cfg" "scopeKey demo_cfg = js ''s''" "cl_log demo_online = []"
    by (simp_all add: demo_relay_def demo_cfg_def demo_online_def new_client_def)
  with results_are_recorded_before_sent [OF start run log] log show ?thesis by auto
qed

section \<open>Frames\<close>

text \<open>C26: It makes no difference in which shape a text reaches the client: as a text frame, as a
  binary frame or as fragments of its UTF-8 bytes, cut anywhere, even inside a character. The
  client reads the same text, measures the length of its UTF-8 encoding against the limit of a
  frame, and does the same: it closes the socket, or queues the text. (A text with a lone surrogate
  has no UTF-8 encoding that gives it back.)\<close>

theorem frames_are_read_alike:
  assumes "well_paired s"
    and "f = Text_frame s \<or> f = Binary_frame (utf8_bytes s) \<or> (\<exists>parts. f = Fragments parts \<and> concat parts = utf8_bytes s)"
  shows "relayFrameText f = s \<and> relayFrameByteLength f = length (utf8_bytes s)
    \<and> client_happens c (E_frame g f) k = client_happens c (E_frame g (Text_frame s)) k"
proof -
  have "foldl (\<lambda>total part. total + length part) n parts = n + length (concat parts)" for parts :: "nat list list" and n
    by (induction parts arbitrary: n) simp_all
  then have f: "relayFrameText f = s" "relayFrameByteLength f = length (utf8_bytes s)"
    using assms utf8_inverse [OF assms(1)]
    by (auto simp: relayFrameText_def relayFrameByteLength_def length_utf8_bytes)
  moreover have "relayFrameText (Text_frame s) = s" "relayFrameByteLength (Text_frame s) = length (utf8_bytes s)"
    by (simp_all add: relayFrameText_def relayFrameByteLength_def length_utf8_bytes)
  ultimately have "on_frame c g f = on_frame c g (Text_frame s)" by (simp only: on_frame_def)
  then show ?thesis using f by simp
qed

text \<open>Two characters in three fragments, which cut the second one twice.\<close>

theorem frames_are_read_alike_witness:
  "relayFrameText (Fragments [[0x41, 0xF0], [0x9F, 0x98], [0x80]]) = [0x41, 0xD83D, 0xDE00]
   \<and> relayFrameByteLength (Fragments [[0x41, 0xF0], [0x9F, 0x98], [0x80]]) = 5"
proof -
  have w: "well_paired [0x41, 0xD83D, 0xDE00]" by (simp add: is_high_surrogate_def is_low_surrogate_def)
  have b: "utf8_bytes [0x41, 0xD83D, 0xDE00] = [0x41, 0xF0, 0x9F, 0x98, 0x80]"
    by (simp add: utf8_unit_def utf8_pair_def is_high_surrogate_def is_low_surrogate_def Let_def)
  have "concat [[0x41, 0xF0], [0x9F, 0x98], [0x80]] = utf8_bytes [0x41, 0xD83D, 0xDE00]" by (simp add: b del: utf8_bytes.simps)
  then show ?thesis
    using frames_are_read_alike [OF w, of "Fragments [[0x41, 0xF0], [0x9F, 0x98], [0x80]]"] by (simp add: b del: utf8_bytes.simps)
qed

section \<open>Waiting times\<close>

text \<open>C27: The waits before a new connection, before a new token request and before a result that was
  not acknowledged is tried again, for every positive configured maximum: the first is at least a
  second, even above the maximum, and at most a fifth more than the maximum otherwise, as the
  jitter comes after the limit; the second is at least a millisecond and never more than the
  maximum; the third is at most five minutes.\<close>

theorem backoff_is_bounded:
  assumes "1 \<le> maxMs" "0 \<le> random" "random < 1" "0 \<le> ackMs"
  shows "1000 \<le> reconnect_wait maxMs attempt random
    \<and> 10 * reconnect_wait maxMs attempt random \<le> max 10000 (12 * maxMs + 5)
    \<and> 1 \<le> refresh_wait ackMs maxMs attempt random \<and> refresh_wait ackMs maxMs attempt random \<le> maxMs
    \<and> 0 \<le> resultRecoveryDelayMs ackMs n \<and> resultRecoveryDelayMs ackMs n \<le> 300000"
proof -
  have jitter: "10 * withJitter b random \<le> 12 * b + 5" if "0 \<le> b" for b
  proof -
    have "random * (of_int b * (1 / 5)) \<le> 1 * (of_int b * (1 / 5))"
      using assms(3) that by (intro mult_right_mono) auto
    then have "of_int b - of_int b * (1 / 5) + random * (of_int b * (1 / 5)) * 2 + 1 / 2
        \<le> of_int b * (12 / 10) + (1 / 2 :: rat)" by (simp add: field_simps)
    then have "10 * (of_int \<lfloor>of_int b - of_int b * (1 / 5) + random * (of_int b * (1 / 5)) * 2 + 1 / 2\<rfloor> :: rat)
        \<le> of_int (12 * b + 5)" by linarith
    then have "10 * \<lfloor>of_int b - of_int b * (1 / 5) + random * (of_int b * (1 / 5)) * 2 + 1 / 2\<rfloor> \<le> 12 * b + 5"
      by linarith
    then show ?thesis using that by (simp add: withJitter_def Let_def js_round_def max_def)
  qed
  define b where "b = min (1000 * 2 ^ (attempt - 1)) maxMs"
  have "0 \<le> b" "b \<le> maxMs" using assms(1) by (auto simp: b_def)
  with jitter [OF this(1)] assms(1)
  have "10 * reconnect_wait maxMs attempt random \<le> max 10000 (12 * maxMs + 5)"
    unfolding reconnect_wait_def b_def [symmetric] by (simp add: max_def)
  then show ?thesis using assms by (simp add: reconnect_wait_def refresh_wait_def resultRecoveryDelayMs_def Let_def)
qed

text \<open>With a maximum of half a second the wait is still a whole one.\<close>

theorem backoff_is_bounded_witness:
  "reconnect_wait 30000 9 (1 / 2) \<le> 36000 \<and> reconnect_wait 500 9 (1 / 2) = 1000
   \<and> refresh_wait 5000 30000 4 (1 / 2) \<le> 30000 \<and> resultRecoveryDelayMs 10000 6 \<le> 300000"
proof -
  have "1000 \<le> reconnect_wait 500 9 (1 / 2)" "10 * reconnect_wait 500 9 (1 / 2) \<le> max 10000 (12 * 500 + 5)"
    using backoff_is_bounded [of 500 "1 / 2" 5000 9] by simp_all
  then have "reconnect_wait 500 9 (1 / 2) = 1000" by (simp add: max_def)
  then show ?thesis
    using backoff_is_bounded [of 30000 "1 / 2" 5000 9] backoff_is_bounded [of 30000 "1 / 2" 5000 4]
      backoff_is_bounded [of 30000 "1 / 2" 10000 9 6]
    by simp
qed

section \<open>Stopping\<close>

text \<open>C28: A stop that comes while a connection waits for its access token does not end the
  connection: when the token arrives, a new socket is opened and becomes the current one, although
  the client is aborted; nothing is closed.\<close>

theorem stop_misses_the_connection_under_way:
  assumes "cl_waiting s = [K_token attempt]" "cl_socket s = None" "cl_result_timers s = []"
    and "length (cl_sockets s) = cl_generation s"
  shows "let s2 = client_happens c (E_resume 0 (An_token token)) (client_happens c E_stop s);
             g = Suc (cl_generation s)
    in cl_aborted s2 \<and> cl_socket s2 = Some g \<and> sock_state s2 g = Connecting
       \<and> set (cl_waiting s2) = {K_stopping, K_handshake attempt g}"
  using assms
  by (simp add: Let_def run_unit_def stop_client_def thenA_def bindA_def modify_def readA_def ret_def
      stopHeartbeat_def invalidateTokenRefresh_def stopTokenRefreshTimer_def stopOutboxRecoveryTimer_def
      clearResultTimers_def close_current_def cl_suspend_def resume_client_def token_result_def open_socket_def
      sock_state_def sock_of_def nth_append)


text \<open>A run of it: the socket opens, the handshake completes, and the client is connected while
  the call of \<open>stop\<close> still waits for the run to end.\<close>

fun client_run :: "relay_cfg \<Rightarrow> client_event list \<Rightarrow> client \<Rightarrow> client" where
  "client_run c [] s = s"
| "client_run c (ev # evs) s = client_run c evs (client_happens c ev s)"

definition demo_started :: client where
  "demo_started = client_happens demo_relay E_start (new_client fresh_db)"

definition demo_kept :: client where
  "demo_kept = client_run demo_relay [E_stop, E_resume 0 (An_token (js ''k'')), E_opened 1,
     E_frame 1 connected_frame, E_chain 0, E_resume 1 An_done] demo_started"

lemma demo_kept_state:
  "cl_aborted demo_kept" "connected demo_kept"
  "case cl_waiting demo_kept of [K_stopping, K_connected n k] \<Rightarrow> n = 0 \<and> k = 1 | _ \<Rightarrow> False"
  by code_simp+

theorem stop_misses_the_connection_under_way_witness:
  "sock_state (client_run demo_relay [E_stop, E_resume 0 (An_token (js ''k''))] demo_started) 1 = Connecting
   \<and> cl_aborted demo_kept \<and> connected demo_kept \<and> cl_waiting demo_kept = [K_stopping, K_connected 0 1]"
proof -
  have w: "cl_waiting demo_started = [K_token 0]" "cl_socket demo_started = None"
    "cl_result_timers demo_started = []" "length (cl_sockets demo_started) = cl_generation demo_started"
    "cl_generation demo_started = 0"
    by (simp_all add: demo_started_def new_client_def run_unit_def start_client_def run_again_def
        bindA_def thenA_def modify_def readA_def ret_def cl_suspend_def falsy_def)
  have "sock_state (client_happens demo_relay (E_resume 0 (An_token (js ''k'')))
      (client_happens demo_relay E_stop demo_started)) 1 = Connecting"
    using stop_misses_the_connection_under_way [OF w(1-4), of demo_relay "js ''k''"]
    unfolding Let_def w(5) by simp
  moreover have "cl_waiting demo_kept = [K_stopping, K_connected 0 1]"
    using demo_kept_state(3)
    by (auto simp: neq_Nil_conv split: list.splits client_wait.splits;
        metis list.exhaust)
  ultimately show ?thesis using demo_kept_state(1,2) by (simp only: client_run.simps)
qed

end
