(* ===== verification/Connector_Types.thy ===== *)
theory Connector_Types
  imports Utf8 Livis Daemon_Types
begin

text \<open>
  The protocol of the Hermes connector (\<open>src/src/connector/server.ts\<close>, with the message
  types of \<open>src/src/types.ts\<close>): reading of inbound messages, outbound messages, the routes of
  the local HTTP server and the version gate of a hello.
\<close>

section \<open>Inbound messages\<close>

record hello =
  he_connectorId :: jstring
  he_name :: jstring
  he_version :: jstring
  he_runtimeVersion :: jstring

datatype inbound =
  In_hello hello
| In_accepted jstring jstring
| In_result jstring jstring jstring
| In_failed jstring jstring jstring
| In_cancelled jstring jstring bool
| In_pong

datatype connector_error =
  Cn_bad_json json_error
| Cn_no_type
| Cn_bad_hello
| Cn_bad_capability
| Cn_no_ids jstring
| Cn_bad_text
| Cn_bad_error
| Cn_bad_disposition
| Cn_unknown_type jstring
| Cn_already_started
| Cn_not_a_socket
| Cn_stale_generation
| Cn_repeated_hello
| Cn_handler jstring

definition js_num :: "nat \<Rightarrow> json" where
  "js_num n = JNum (js_decimal n)"

definition CONNECTOR_PROTOCOL_VERSION :: nat where
  "CONNECTOR_PROTOCOL_VERSION = 1"

text \<open>\<open>v !== null && typeof v === "object"\<close>\<close>

definition is_object :: "json option \<Rightarrow> bool" where
  "is_object v = (case v of Some (JObj _) \<Rightarrow> True | Some (JArr _) \<Rightarrow> True | _ \<Rightarrow> False)"

definition non_empty_text :: "json option \<Rightarrow> jstring option" where
  "non_empty_text v =
     (case v of Some (JStr s) \<Rightarrow> if s = [] then None else Some s | _ \<Rightarrow> None)"

definition read_hello :: "jobject \<Rightarrow> connector_error + inbound" where
  "read_hello data =
     (case asNonEmptyString (jget (js ''connectorId'') data) of
        None \<Rightarrow> Inl Cn_bad_hello
      | Some connectorId \<Rightarrow>
          if jget (js ''protocolVersion'') data \<noteq> Some (js_num CONNECTOR_PROTOCOL_VERSION)
             \<or> jget (js ''backend'') data \<noteq> Some (JStr (js ''hermes''))
             \<or> \<not> is_object (jget (js ''implementation'') data)
             \<or> \<not> is_object (jget (js ''capabilities'') data)
          then Inl Cn_bad_hello
          else
            let implementation = jget (js ''implementation'') data;
                capabilities = jget (js ''capabilities'') data
            in (case (json_text (jfield implementation ''name''),
                      json_text (jfield implementation ''version''),
                      json_text (jfield implementation ''runtimeVersion'')) of
                 (Some name, Some version, Some runtimeVersion) \<Rightarrow>
                   if jfield capabilities ''cancel'' = Some (JBool True)
                      \<and> jfield capabilities ''finalResult'' = Some (JBool True)
                   then Inr (In_hello \<lparr>he_connectorId = connectorId, he_name = name,
                          he_version = version, he_runtimeVersion = runtimeVersion\<rparr>)
                   else Inl Cn_bad_capability
               | _ \<Rightarrow> Inl Cn_bad_capability))"

definition read_job_message :: "jstring \<Rightarrow> jobject \<Rightarrow> connector_error + inbound" where
  "read_job_message type data =
     (case (non_empty_text (jget (js ''jobId'') data), non_empty_text (jget (js ''leaseId'') data)) of
        (Some jobId, Some leaseId) \<Rightarrow>
          if type = js ''result'' then
            (case jget (js ''text'') data of
               Some (JStr text) \<Rightarrow> Inr (In_result jobId leaseId text) | _ \<Rightarrow> Inl Cn_bad_text)
          else if type = js ''failed'' then
            (case jget (js ''error'') data of
               Some (JStr err) \<Rightarrow> Inr (In_failed jobId leaseId err) | _ \<Rightarrow> Inl Cn_bad_error)
          else if type = js ''cancelled'' then
            (case jget (js ''executionDisposition'') data of
               None \<Rightarrow> Inr (In_cancelled jobId leaseId False)
             | Some d \<Rightarrow>
                 if d = JStr (js ''not_started'') then Inr (In_cancelled jobId leaseId True)
                 else Inl Cn_bad_disposition)
          else Inr (In_accepted jobId leaseId)
      | _ \<Rightarrow> Inl (Cn_no_ids type))"

definition parseConnectorMessage :: "(jstring \<Rightarrow> jstring) \<Rightarrow> jstring \<Rightarrow> connector_error + inbound" where
  "parseConnectorMessage num raw =
     (case parseJsonObject num raw of
        Inl e \<Rightarrow> Inl (Cn_bad_json e)
      | Inr data \<Rightarrow>
          (case json_text (jget (js ''type'') data) of
             None \<Rightarrow> Inl Cn_no_type
           | Some type \<Rightarrow>
               if type = js ''hello'' then read_hello data
               else if type \<in> {js ''accepted'', js ''result'', js ''failed'', js ''cancelled''}
               then read_job_message type data
               else if type = js ''pong'' then Inr In_pong
               else Inl (Cn_unknown_type type)))"

section \<open>Outbound messages\<close>

datatype outbound =
  Out_hello_required
| Out_hello_ack jstring
| Out_job jobject
| Out_cancel jobject
| Out_result_stored jstring jstring
| Out_error jstring "jstring option"
| Out_ping int

definition opt_json :: "jstring option \<Rightarrow> json" where
  "opt_json x = (case x of None \<Rightarrow> JNull | Some s \<Rightarrow> JStr s)"

text \<open>The job message of \<open>sendJob\<close>; \<open>int_json\<close> is the text of an integral number.\<close>

definition int_json :: "int \<Rightarrow> json" where
  "int_json i = JNum (if i < 0 then js ''-'' @ js_decimal (nat (- i)) else js_decimal (nat i))"

definition job_message :: "stored_job \<Rightarrow> jstring \<Rightarrow> jobject" where
  "job_message job leaseId =
     (let j = sj_row job in
      [(js ''type'', JStr (js ''job'')),
       (js ''protocolVersion'', js_num CONNECTOR_PROTOCOL_VERSION),
       (js ''job'', JObj
         [(js ''jobId'', JStr (j_job_id j)), (js ''leaseId'', JStr leaseId),
          (js ''runGeneration'', js_num (j_run_generation j)), (js ''messageId'', JStr (j_msg_id j)),
          (js ''chatId'', JStr (j_session_key j)), (js ''text'', JStr (j_input_text j)),
          (js ''timestamp'', int_json (j_input_timestamp j)),
          (js ''user'', JObj
            [(js ''id'', JStr (j_from_node_id j)), (js ''displayName'', JStr (j_from_node_id j)),
             (js ''trusted'', JBool True)]),
          (js ''source'', JObj
            [(js ''nodeId'', JStr (j_from_node_id j)), (js ''nodeType'', opt_json (j_from_node_type j))])])])"

definition cancel_message :: "stored_job \<Rightarrow> jstring \<Rightarrow> jobject" where
  "cancel_message job leaseId =
     [(js ''type'', JStr (js ''cancel'')),
      (js ''protocolVersion'', js_num CONNECTOR_PROTOCOL_VERSION),
      (js ''jobId'', JStr (j_job_id (sj_row job))), (js ''leaseId'', JStr leaseId)]"

section \<open>Options and routes\<close>

record connector_cfg =
  cc_token :: jstring
  cc_acceptHermes :: bool
  cc_maxFrameBytes :: nat
  cc_hermesMinimum :: jstring
  cc_hermesMaximumExclusive :: jstring
  cc_bridgeImplementation :: jstring
  cc_bridgeMinimum :: jstring
  cc_bridgeMaximumExclusive :: jstring
  cc_num :: "jstring \<Rightarrow> jstring"
  cc_clock :: "nat \<Rightarrow> int"
  cc_send_result :: "nat \<Rightarrow> int option"

definition authorized :: "connector_cfg \<Rightarrow> jstring option \<Rightarrow> bool" where
  "authorized c header =
     (let value = (case header of None \<Rightarrow> [] | Some h \<Rightarrow> h);
          token = (if take 7 value = js ''Bearer '' then drop 7 value else [])
      in token \<noteq> [] \<and> safeEqual token (cc_token c))"

datatype route = R_health | R_unauthorized | R_status | R_not_found | R_disabled | R_upgrade

definition route :: "connector_cfg \<Rightarrow> jstring \<Rightarrow> jstring option \<Rightarrow> route" where
  "route c path header =
     (if path = js ''/healthz'' then R_health
      else if path = js ''/v1/status''
      then (if authorized c header then R_status else R_unauthorized)
      else if path \<noteq> js ''/v1/connectors/hermes'' then R_not_found
      else if \<not> cc_acceptHermes c then R_disabled
      else if \<not> authorized c header then R_unauthorized
      else R_upgrade)"

section \<open>The version gate\<close>

text \<open>A version outside the reviewed range \<open>[minimum, maximum)\<close>, or one of the three unreadable.\<close>

definition in_range :: "jstring \<Rightarrow> jstring \<Rightarrow> jstring \<Rightarrow> bool" where
  "in_range version minimum maximumExclusive =
     (case (parseSemverTriplet version, parseSemverTriplet minimum, parseSemverTriplet maximumExclusive) of
        (Some v, Some lo, Some hi) \<Rightarrow> versionAtLeast v lo \<and> versionLessThan v hi
      | _ \<Rightarrow> False)"

text \<open>The code of the refusal, when there is one.\<close>

definition hello_refused :: "connector_cfg \<Rightarrow> hello \<Rightarrow> string option" where
  "hello_refused c h =
     (if he_name h \<noteq> cc_bridgeImplementation c then Some ''bridge_implementation_unsupported''
      else if \<not> in_range (he_version h) (cc_bridgeMinimum c) (cc_bridgeMaximumExclusive c)
      then Some ''bridge_version_unsupported''
      else if \<not> in_range (he_runtimeVersion h) (cc_hermesMinimum c) (cc_hermesMaximumExclusive c)
      then Some ''hermes_version_unsupported''
      else None)"

end
