(* ===== verification/Connector.thy ===== *)
theory Connector
  imports Connector_Types
begin

text \<open>
  The connector server, \<open>ConnectorServer\<close> of \<open>src/src/connector/server.ts\<close>, and the adapter
  \<open>HermesExecutionBackend\<close>. Messages and closes of a socket are operations of one chain
  (\<open>transitionChain\<close>): \<open>sv_queue\<close> holds those not begun, \<open>sv_current\<close> the one that waits for
  a handler of the daemon. \<open>cc_send_result\<close> is what \<open>socket.send\<close> returns or that it throws,
  and \<open>cc_clock\<close> the clock, by tick.
\<close>

section \<open>State\<close>

record cn_sock =
  co_connectorId :: "jstring option"
  co_ready :: bool
  co_lastPongAt :: int
  co_generation :: nat
  co_disconnectHandled :: bool

datatype transition = T_message nat jstring | T_close nat

text \<open>What an operation waits for: a handler of a message, \<open>onDisconnected\<close> of the socket it takes
  over from, or of the socket that closed.\<close>

datatype cn_wait = V_handler | V_takeover nat hello nat | V_settle nat

datatype cn_effect =
  Sv_send nat outbound
| Sv_close nat int
| Sv_call exec_event
| Sv_rejected transition connector_error

record server =
  sv_running :: bool
  sv_sockets :: "cn_sock list"
  sv_active :: "nat option"
  sv_activeGeneration :: nat
  sv_nextGeneration :: nat
  sv_queue :: "transition list"
  sv_current :: "(transition \<times> cn_wait) option"
  sv_helloTimers :: "nat list"
  sv_heartbeat :: bool
  sv_tick :: nat
  sv_log :: "cn_effect list"

type_synonym 'a cnact = "(server, connector_error, 'a) stretch"

definition emitS :: "cn_effect \<Rightarrow> unit cnact" where
  "emitS x = modify (\<lambda>s. s\<lparr>sv_log := sv_log s @ [x]\<rparr>)"

definition tickS :: "nat cnact" where
  "tickS = bindA (readA sv_tick) (\<lambda>n. thenA (modify (\<lambda>s. s\<lparr>sv_tick := Suc n\<rparr>)) (ret n))"

definition waitS :: "transition \<Rightarrow> cn_wait \<Rightarrow> flow cnact" where
  "waitS t w = thenA (modify (\<lambda>s. s\<lparr>sv_current := Some (t, w)\<rparr>)) (ret Suspended)"

definition sock_at :: "server \<Rightarrow> nat \<Rightarrow> cn_sock" where
  "sock_at s i = (if i < length (sv_sockets s) then sv_sockets s ! i
     else \<lparr>co_connectorId = None, co_ready = False, co_lastPongAt = 0, co_generation = 0,
       co_disconnectHandled = False\<rparr>)"

definition set_sock :: "nat \<Rightarrow> (cn_sock \<Rightarrow> cn_sock) \<Rightarrow> server \<Rightarrow> server" where
  "set_sock i f s = s\<lparr>sv_sockets := (sv_sockets s)[i := f (sock_at s i)]\<rparr>"

definition isActiveSocket :: "server \<Rightarrow> nat \<Rightarrow> bool" where
  "isActiveSocket s i \<longleftrightarrow> sv_active s = Some i \<and> co_ready (sock_at s i) \<and> co_generation (sock_at s i) \<noteq> 0
     \<and> co_generation (sock_at s i) = sv_activeGeneration s"

definition currentSocket :: "server \<Rightarrow> nat option" where
  "currentSocket s =
     (case sv_active s of None \<Rightarrow> None | Some i \<Rightarrow> if isActiveSocket s i then Some i else None)"

definition fence :: "nat \<Rightarrow> server \<Rightarrow> server" where
  "fence i s =
     (if isActiveSocket s i
      then (set_sock i (\<lambda>k. k\<lparr>co_ready := False\<rparr>) s)\<lparr>sv_active := None, sv_activeGeneration := 0\<rparr>
      else s)"

text \<open>\<open>send\<close>: a negative result is backpressure, and the message is delivered.\<close>

definition sendS :: "connector_cfg \<Rightarrow> nat \<Rightarrow> outbound \<Rightarrow> bool cnact" where
  "sendS c i m =
     bindA tickS (\<lambda>n.
       case cc_send_result c n of
         None \<Rightarrow> ret False
       | Some r \<Rightarrow> if r \<noteq> 0 then thenA (emitS (Sv_send i m)) (ret True) else ret False)"

definition close_socket :: "nat \<Rightarrow> int \<Rightarrow> unit cnact" where
  "close_socket i code = emitS (Sv_close i code)"

section \<open>Calls of the daemon\<close>

definition connectorId :: "server \<Rightarrow> jstring option" where
  "connectorId s = (case currentSocket s of None \<Rightarrow> None | Some i \<Rightarrow> co_connectorId (sock_at s i))"

definition server_ready :: "server \<Rightarrow> bool" where
  "server_ready s \<longleftrightarrow> currentSocket s \<noteq> None"

definition sendJob :: "connector_cfg \<Rightarrow> stored_job \<Rightarrow> bool cnact" where
  "sendJob c job =
     bindA (readA currentSocket) (\<lambda>i.
       case (i, j_lease_id (sj_row job)) of
         (Some i, Some leaseId) \<Rightarrow>
           if leaseId = [] then ret False else sendS c i (Out_job (job_message job leaseId))
       | _ \<Rightarrow> ret False)"

definition sendCancel :: "connector_cfg \<Rightarrow> stored_job \<Rightarrow> bool cnact" where
  "sendCancel c job =
     bindA (readA currentSocket) (\<lambda>i.
       case (i, j_lease_id (sj_row job)) of
         (Some i, Some leaseId) \<Rightarrow>
           if leaseId = [] then ret False else sendS c i (Out_cancel (cancel_message job leaseId))
       | _ \<Rightarrow> ret False)"

definition acknowledgeResult :: "connector_cfg \<Rightarrow> jstring \<Rightarrow> jstring \<Rightarrow> bool cnact" where
  "acknowledgeResult c jobId leaseId =
     bindA (readA currentSocket) (\<lambda>i.
       case i of None \<Rightarrow> ret False | Some i \<Rightarrow> sendS c i (Out_result_stored jobId leaseId))"

definition rejectJobMessage :: "connector_cfg \<Rightarrow> jstring \<Rightarrow> jstring \<Rightarrow> bool cnact" where
  "rejectJobMessage c jobId code =
     bindA (readA currentSocket) (\<lambda>i.
       case i of None \<Rightarrow> ret False | Some i \<Rightarrow> sendS c i (Out_error code (Some jobId)))"

text \<open>\<open>HermesExecutionBackend.dispatch\<close> and \<open>cancel\<close>.\<close>

definition as_submission :: "bool \<Rightarrow> submission" where
  "as_submission sent = (if sent then Submitted else Not_sent)"

definition hermes_dispatch :: "connector_cfg \<Rightarrow> stored_job \<Rightarrow> submission cnact" where
  "hermes_dispatch c job = bindA (sendJob c job) (\<lambda>sent. ret (as_submission sent))"

definition hermes_cancel :: "connector_cfg \<Rightarrow> stored_job \<Rightarrow> submission cnact" where
  "hermes_cancel c job = bindA (sendCancel c job) (\<lambda>sent. ret (as_submission sent))"

section \<open>Messages\<close>

text \<open>The handlers of \<open>RelayDaemon.create\<close>: what a message becomes for the daemon.\<close>

definition hermes_event :: "jstring \<Rightarrow> jstring \<Rightarrow> jstring \<Rightarrow> job_event" where
  "hermes_event executionId jobId leaseId =
     \<lparr>je_kind = Hermes, je_executionId = executionId, je_jobId = jobId, je_leaseId = leaseId,
      je_runGeneration = None, je_turnId = None\<rparr>"

definition disconnected_event :: "jstring \<Rightarrow> exec_event" where
  "disconnected_event executionId = X_disconnected Hermes executionId None"

text \<open>\<open>settleDisconnected\<close> up to its await; a socket without an id has nothing to settle.\<close>

definition settle :: "transition \<Rightarrow> cn_wait \<Rightarrow> nat \<Rightarrow> flow cnact \<Rightarrow> flow cnact" where
  "settle t w i onward =
     bindA (readA (\<lambda>s. sock_at s i)) (\<lambda>k.
       if co_disconnectHandled k then onward
       else if falsy (co_connectorId k)
       then thenA (modify (set_sock i (\<lambda>k. k\<lparr>co_disconnectHandled := True\<rparr>))) onward
       else thenA (emitS (Sv_call (disconnected_event (the (co_connectorId k))))) (waitS t w))"

text \<open>The rest of \<open>acceptHello\<close>, once no other socket is in the way.\<close>

definition expose :: "connector_cfg \<Rightarrow> transition \<Rightarrow> nat \<Rightarrow> hello \<Rightarrow> flow cnact" where
  "expose c t i h =
     thenA (modify (\<lambda>s. s\<lparr>sv_nextGeneration := Suc (sv_nextGeneration s)\<rparr>))
       (bindA (readA sv_nextGeneration) (\<lambda>generation.
        thenA (modify (\<lambda>s. (set_sock i (\<lambda>k. k\<lparr>co_connectorId := Some (he_connectorId h),
               co_generation := generation, co_ready := True\<rparr>) s)
               \<lparr>sv_active := Some i, sv_activeGeneration := generation,
                sv_helloTimers := removeAll i (sv_helloTimers s)\<rparr>))
          (bindA (sendS c i (Out_hello_ack (he_connectorId h))) (\<lambda>_.
           thenA (emitS (Sv_call (X_ready Hermes))) (waitS t V_handler)))))"

definition HEARTBEAT_INTERVAL_MS :: int where
  "HEARTBEAT_INTERVAL_MS = 15000"

definition HEARTBEAT_TIMEOUT_MS :: int where
  "HEARTBEAT_TIMEOUT_MS = 45000"

definition refuse :: "connector_cfg \<Rightarrow> nat \<Rightarrow> string \<Rightarrow> flow cnact" where
  "refuse c i code =
     bindA (sendS c i (Out_error (js code) None)) (\<lambda>_. thenA (close_socket i 1008) (ret Finished))"

definition acceptHello :: "connector_cfg \<Rightarrow> transition \<Rightarrow> nat \<Rightarrow> hello \<Rightarrow> flow cnact" where
  "acceptHello c t i h =
     bindA (readA (\<lambda>s. sock_at s i)) (\<lambda>k.
       if co_ready k \<or> co_generation k \<noteq> 0 then throw Cn_repeated_hello
       else (case hello_refused c h of
           Some code \<Rightarrow> refuse c i code
         | None \<Rightarrow>
             bindA (readA currentSocket) (\<lambda>active.
               case active of
                 None \<Rightarrow> expose c t i h
               | Some old \<Rightarrow>
                   if old = i then expose c t i h
                   else
                     bindA tickS (\<lambda>n. bindA (readA (\<lambda>s. sock_at s old)) (\<lambda>o'.
                       if cc_clock c n - co_lastPongAt o' > HEARTBEAT_INTERVAL_MS * 2
                       then thenA (modify (fence old))
                              (thenA (close_socket old 1001)
                                (settle t (V_takeover i h old) old (expose c t i h)))
                       else refuse c i ''connector_conflict'')))))"

definition handle_job_message :: "transition \<Rightarrow> jstring \<Rightarrow> inbound \<Rightarrow> flow cnact" where
  "handle_job_message t executionId m =
     (let call = (\<lambda>ev. thenA (emitS (Sv_call ev)) (waitS t V_handler)) in
      case m of
        In_accepted jobId leaseId \<Rightarrow> call (X_accepted (hermes_event executionId jobId leaseId))
      | In_result jobId leaseId text \<Rightarrow> call (X_result (hermes_event executionId jobId leaseId) text)
      | In_failed jobId leaseId err \<Rightarrow> call (X_failed (hermes_event executionId jobId leaseId) err False)
      | In_cancelled jobId leaseId notStarted \<Rightarrow>
          call (X_cancelled (hermes_event executionId jobId leaseId) notStarted)
      | _ \<Rightarrow> ret Finished)"

definition handleMessage :: "connector_cfg \<Rightarrow> nat \<Rightarrow> jstring \<Rightarrow> flow cnact" where
  "handleMessage c i raw =
     (let t = T_message i raw in
      case parseConnectorMessage (cc_num c) raw of
        Inl e \<Rightarrow> throw e
      | Inr (In_hello h) \<Rightarrow> acceptHello c t i h
      | Inr m \<Rightarrow>
          bindA (readA (\<lambda>s. (isActiveSocket s i, co_connectorId (sock_at s i)))) (\<lambda>(active, executionId).
            if \<not> active \<or> falsy executionId then throw Cn_stale_generation
            else if m = In_pong then
              bindA tickS (\<lambda>n. thenA (modify (set_sock i (\<lambda>k. k\<lparr>co_lastPongAt := cc_clock c n\<rparr>)))
                (ret Finished))
            else handle_job_message t (the executionId) m))"

text \<open>The operation of a close.\<close>

definition socketClosed :: "nat \<Rightarrow> flow cnact" where
  "socketClosed i =
     bindA (readA (\<lambda>s. (isActiveSocket s i, co_generation (sock_at s i)))) (\<lambda>(active, generation).
       if \<not> active \<and> generation = 0 then ret Finished
       else thenA (modify (fence i)) (settle (T_close i) (V_settle i) i (ret Finished)))"

section \<open>The chain of operations\<close>

text \<open>An operation that failed: a message is answered with an error, a close is logged.\<close>

definition operation_failed :: "connector_cfg \<Rightarrow> transition \<Rightarrow> connector_error \<Rightarrow> unit cnact" where
  "operation_failed c t e =
     thenA (emitS (Sv_rejected t e))
       (case t of
          T_message i _ \<Rightarrow>
            bindA (sendS c i (Out_error (js ''invalid_message'') None)) (\<lambda>_. ret ())
        | T_close _ \<Rightarrow> ret ())"

definition run_operation :: "connector_cfg \<Rightarrow> transition \<Rightarrow> flow cnact \<Rightarrow> server \<Rightarrow> server" where
  "run_operation c t m s =
     (case m (s\<lparr>sv_current := None\<rparr>) of
        (Inl e, s') \<Rightarrow> snd (operation_failed c t e s')
      | (Inr _, s') \<Rightarrow> s')"

definition next_operation :: "connector_cfg \<Rightarrow> server \<Rightarrow> server" where
  "next_operation c s =
     (case (sv_current s, sv_queue s) of
        (None, t # rest) \<Rightarrow>
          run_operation c t
            (case t of T_message i raw \<Rightarrow> handleMessage c i raw | T_close i \<Rightarrow> socketClosed i)
            (s\<lparr>sv_queue := rest\<rparr>)
      | _ \<Rightarrow> s)"

text \<open>The awaited handler of the daemon has settled.\<close>

definition handler_settled :: "connector_cfg \<Rightarrow> jstring option \<Rightarrow> server \<Rightarrow> server" where
  "handler_settled c err s =
     (case sv_current s of
        None \<Rightarrow> s
      | Some (t, w) \<Rightarrow>
          run_operation c t
            (case err of
               Some e \<Rightarrow> throw (Cn_handler e)
             | None \<Rightarrow>
                 (case w of
                    V_handler \<Rightarrow> ret Finished
                  | V_takeover i h old \<Rightarrow>
                      thenA (modify (set_sock old (\<lambda>k. k\<lparr>co_disconnectHandled := True\<rparr>)))
                        (expose c t i h)
                  | V_settle i \<Rightarrow>
                      thenA (modify (set_sock i (\<lambda>k. k\<lparr>co_disconnectHandled := True\<rparr>)))
                        (ret Finished))) s)"

section \<open>Events\<close>

datatype path_state = Path_absent | Path_socket | Path_other

datatype frame_data = Frame_text jstring | Frame_bytes "nat list"

datatype connector_event =
  S_start path_state
| S_stop
| S_request jstring "jstring option" bool
| S_message nat frame_data
| S_closed nat
| S_hello_timeout nat
| S_heartbeat
| S_next
| S_settled "jstring option"

definition runS :: "'a cnact \<Rightarrow> server \<Rightarrow> server" where
  "runS m s = snd (m s)"

text \<open>A socket file that is left over is removed; anything else in its place is an error.\<close>

definition start_server :: "path_state \<Rightarrow> unit cnact" where
  "start_server path =
     bindA (readA sv_running) (\<lambda>running.
     thenA (assertA (\<not> running) Cn_already_started)
       (thenA (assertA (path \<noteq> Path_other) Cn_not_a_socket)
         (modify (\<lambda>s. s\<lparr>sv_running := True, sv_heartbeat := True\<rparr>))))"

definition stop_server :: "unit cnact" where
  "stop_server =
     bindA (readA sv_active) (\<lambda>active.
     thenA (case active of
              None \<Rightarrow> ret ()
            | Some i \<Rightarrow>
                thenA (modify (\<lambda>s. (set_sock i (\<lambda>k. k\<lparr>co_ready := False\<rparr>) s)
                         \<lparr>sv_active := None, sv_activeGeneration := 0\<rparr>))
                  (close_socket i 1001))
       (modify (\<lambda>s. s\<lparr>sv_running := False, sv_helloTimers := [], sv_heartbeat := False\<rparr>)))"

text \<open>An upgraded request opens a socket, which is asked for its hello.\<close>

definition open_connection :: "connector_cfg \<Rightarrow> unit cnact" where
  "open_connection c =
     bindA tickS (\<lambda>n. bindA (readA (\<lambda>s. length (sv_sockets s))) (\<lambda>i.
     thenA (modify (\<lambda>s. s\<lparr>sv_sockets := sv_sockets s @ [\<lparr>co_connectorId = None, co_ready = False,
              co_lastPongAt = cc_clock c n, co_generation = 0, co_disconnectHandled = False\<rparr>]\<rparr>))
       (bindA (sendS c i Out_hello_required) (\<lambda>_.
        modify (\<lambda>s. s\<lparr>sv_helloTimers := sv_helloTimers s @ [i]\<rparr>)))))"

definition on_request :: "connector_cfg \<Rightarrow> jstring \<Rightarrow> jstring option \<Rightarrow> bool \<Rightarrow> unit cnact" where
  "on_request c path header upgraded =
     bindA (readA sv_running) (\<lambda>running.
       if running \<and> route c path header = R_upgrade \<and> upgraded then open_connection c else ret ())"

definition frame_raw :: "frame_data \<Rightarrow> jstring" where
  "frame_raw f = (case f of Frame_text s \<Rightarrow> s | Frame_bytes bs \<Rightarrow> utf8_decode bs)"

definition on_socket_message :: "connector_cfg \<Rightarrow> nat \<Rightarrow> frame_data \<Rightarrow> unit cnact" where
  "on_socket_message c i f =
     (if utf8_length (frame_raw f) > cc_maxFrameBytes c
      then bindA (sendS c i (Out_error (js ''frame_too_large'') None)) (\<lambda>_. close_socket i 1009)
      else modify (\<lambda>s. s\<lparr>sv_queue := sv_queue s @ [T_message i (frame_raw f)]\<rparr>))"

definition on_socket_close :: "nat \<Rightarrow> unit cnact" where
  "on_socket_close i =
     modify (\<lambda>s. s\<lparr>sv_helloTimers := removeAll i (sv_helloTimers s),
                  sv_queue := sv_queue s @ [T_close i]\<rparr>)"

definition hello_timeout :: "nat \<Rightarrow> unit cnact" where
  "hello_timeout i =
     bindA (readA (\<lambda>s. i \<in> set (sv_helloTimers s) \<and> \<not> co_ready (sock_at s i))) (\<lambda>late.
       if late then close_socket i 1008 else ret ())"

definition server_heartbeat :: "connector_cfg \<Rightarrow> unit cnact" where
  "server_heartbeat c =
     bindA (readA (\<lambda>s. (sv_heartbeat s, sv_active s))) (\<lambda>(on, active).
       case active of
         None \<Rightarrow> ret ()
       | Some i \<Rightarrow>
           bindA (readA (\<lambda>s. sock_at s i)) (\<lambda>k.
             if \<not> on \<or> \<not> co_ready k then ret ()
             else
               bindA tickS (\<lambda>n.
                 if cc_clock c n - co_lastPongAt k > HEARTBEAT_TIMEOUT_MS then close_socket i 1001
                 else bindA tickS (\<lambda>m. bindA (sendS c i (Out_ping (cc_clock c m))) (\<lambda>_. ret ())))))"

fun server_happens :: "connector_cfg \<Rightarrow> connector_event \<Rightarrow> server \<Rightarrow> server" where
  "server_happens c (S_start path) s = runS (start_server path) s"
| "server_happens c S_stop s = runS stop_server s"
| "server_happens c (S_request path header upgraded) s = runS (on_request c path header upgraded) s"
| "server_happens c (S_message i f) s =
     (if i < length (sv_sockets s) then runS (on_socket_message c i f) s else s)"
| "server_happens c (S_closed i) s =
     (if i < length (sv_sockets s) then runS (on_socket_close i) s else s)"
| "server_happens c (S_hello_timeout i) s = runS (hello_timeout i) s"
| "server_happens c S_heartbeat s = runS (server_heartbeat c) s"
| "server_happens c S_next s = next_operation c s"
| "server_happens c (S_settled err) s = handler_settled c err s"

definition new_server :: server where
  "new_server = \<lparr>sv_running = False, sv_sockets = [], sv_active = None, sv_activeGeneration = 0,
     sv_nextGeneration = 0, sv_queue = [], sv_current = None, sv_helloTimers = [],
     sv_heartbeat = False, sv_tick = 0, sv_log = []\<rparr>"

text \<open>The steps of the server, under the events the environment is limited to.\<close>

inductive server_step :: "connector_cfg \<Rightarrow> (connector_event \<Rightarrow> bool) \<Rightarrow> server \<Rightarrow> server \<Rightarrow> bool"
  for c and allowed where
  happens: "allowed ev \<Longrightarrow> server_step c allowed s (server_happens c ev s)"

inductive_cases server_stepE: "server_step c allowed s s'"

fun server_run :: "connector_cfg \<Rightarrow> connector_event list \<Rightarrow> server \<Rightarrow> server" where
  "server_run c [] s = s"
| "server_run c (ev # evs) s = server_run c evs (server_happens c ev s)"

lemma server_run_steps: "\<forall>ev \<in> set evs. allowed ev \<Longrightarrow> rtranclp (server_step c allowed) s (server_run c evs s)"
  by (induction evs arbitrary: s)
    (auto intro: converse_rtranclp_into_rtranclp server_step.happens)

end
