(* ===== verification/Connector_Inv.thy ===== *)
theory Connector_Inv
  imports Connector Growing_System
begin

text \<open>
  The invariant of the connector server: at most one socket is ready, it is the active one with
  the active generation, and no two sockets have the same generation. On it rests the fate of
  the generations that were taken over (\<open>settled_ok\<close>).
\<close>

section \<open>Stretches that leave the sockets alone\<close>

definition same_core :: "server \<Rightarrow> server \<Rightarrow> bool" where
  "same_core s s' \<longleftrightarrow> sv_sockets s' = sv_sockets s \<and> sv_active s' = sv_active s
     \<and> sv_activeGeneration s' = sv_activeGeneration s \<and> sv_nextGeneration s' = sv_nextGeneration s
     \<and> sv_queue s' = sv_queue s \<and> sv_current s' = sv_current s"

interpretation same_core: stretch_relation same_core
  by unfold_locales (simp_all add: same_core_def)

definition core_only :: "(server \<Rightarrow> bool) \<Rightarrow> bool" where
  "core_only P \<longleftrightarrow> (\<forall>s s'. same_core s s' \<longrightarrow> P s \<longrightarrow> P s')"

lemma core_sock_at: "same_core s s' \<Longrightarrow> sock_at s' i = sock_at s i"
  by (simp add: same_core_def sock_at_def)

text \<open>They never fail.\<close>

definition quiet :: "'a cnact \<Rightarrow> bool" where
  "quiet m \<longleftrightarrow> keeps same_core m \<and> (\<forall>s. \<exists>a. fst (m s) = Inr a)"

lemma quiet_bind:
  assumes "quiet m" "\<And>a. quiet (k a)"
  shows "quiet (bindA m k)"
proof -
  have "\<exists>b. fst (bindA m k s) = Inr b" for s
  proof -
    obtain a s' where "m s = (Inr a, s')" using assms(1) unfolding quiet_def by (metis prod.collapse)
    then show ?thesis using assms(2) by (simp add: quiet_def bindA_def)
  qed
  then show ?thesis using assms same_core.keeps_bindA [of m k] by (simp add: quiet_def)
qed

lemma quiet_pure: "quiet (ret a)" "quiet (readA f)"
  by (simp_all add: quiet_def same_core.keeps_pure) (simp_all add: ret_def readA_def)

lemma quiet_then: "quiet m \<Longrightarrow> quiet k \<Longrightarrow> quiet (thenA m k)"
  unfolding thenA_def by (rule quiet_bind)

lemma quiet_emit: "quiet (emitS x)"
  by (simp add: quiet_def keeps_def emitS_def modify_def same_core_def)

lemma quiet_tick: "quiet tickS"
  by (simp add: quiet_def keeps_def tickS_def modify_def same_core_def bindA_def readA_def thenA_def ret_def)

lemma quiet_send: "quiet (sendS c i m)"
  unfolding sendS_def
  by (intro quiet_bind quiet_tick) (auto intro: quiet_then quiet_emit quiet_pure split: option.split)

lemmas quiet_rules = quiet_bind quiet_then quiet_emit quiet_tick quiet_send quiet_pure

lemma same_core_iff:
  "same_core s s' \<longleftrightarrow> (\<exists>running timers beat tick log. s' = s\<lparr>sv_running := running, sv_helloTimers := timers,
     sv_heartbeat := beat, sv_tick := tick, sv_log := log\<rparr>)"
  by (cases s; cases s') (auto simp: same_core_def)

lemma quiet_run: "quiet m \<Longrightarrow> \<exists>a s'. m s = (Inr a, s') \<and> same_core s s'"
  unfolding quiet_def keeps_def by (metis prod.collapse)

lemma core_run: "core_only P \<Longrightarrow> quiet m \<Longrightarrow> P s \<Longrightarrow> P (snd (m s))"
  using quiet_run [of m s] by (auto simp: core_only_def)

lemma core_onlyI:
  "(\<And>s running timers beat tick log. P (s\<lparr>sv_running := running, sv_helloTimers := timers,
     sv_heartbeat := beat, sv_tick := tick, sv_log := log\<rparr>) = P s) \<Longrightarrow> core_only P"
  unfolding core_only_def same_core_iff by auto

section \<open>The invariant\<close>

abbreviation generation_of :: "server \<Rightarrow> nat \<Rightarrow> nat" where
  "generation_of s i \<equiv> co_generation (sock_at s i)"

text \<open>On the sockets \<open>f\<close>, the active one, its generation and the last generation; \<open>good\<close> holds of
  the connector ids that the gate let through.\<close>

definition socks_fit :: "(jstring \<Rightarrow> bool) \<Rightarrow> (nat \<Rightarrow> cn_sock) \<Rightarrow> nat option \<Rightarrow> nat \<Rightarrow> nat \<Rightarrow> bool" where
  "socks_fit good f active generation latest \<longleftrightarrow>
     (\<forall>i. co_generation (f i) \<le> latest)
     \<and> (\<forall>i. co_ready (f i) \<longrightarrow> active = Some i)
     \<and> (\<forall>i. co_generation (f i) \<noteq> 0 \<longrightarrow> (\<exists>cid. co_connectorId (f i) = Some cid \<and> good cid))
     \<and> inj_on (\<lambda>i. co_generation (f i)) {i. co_generation (f i) \<noteq> 0}
     \<and> (\<forall>i. active = Some i \<longrightarrow> co_ready (f i) \<and> co_generation (f i) = generation \<and> generation \<noteq> 0)
     \<and> (active = None \<longrightarrow> generation = 0)"

lemma fitI:
  assumes "\<And>i. co_generation (f i) \<le> n" "\<And>i. co_ready (f i) \<Longrightarrow> a = Some i"
    and "\<And>i. co_generation (f i) \<noteq> 0 \<Longrightarrow> \<exists>cid. co_connectorId (f i) = Some cid \<and> good cid"
    and "\<And>i j. co_generation (f i) \<noteq> 0 \<Longrightarrow> co_generation (f i) = co_generation (f j) \<Longrightarrow> i = j"
    and "\<And>i. a = Some i \<Longrightarrow> co_ready (f i) \<and> co_generation (f i) = g \<and> g \<noteq> 0"
    and "a = None \<Longrightarrow> g = 0"
  shows "socks_fit good f a g n"
  using assms unfolding socks_fit_def inj_on_def by blast

lemma fitD:
  assumes "socks_fit good f a g n"
  shows "co_generation (f i) \<le> n" "co_ready (f i) \<Longrightarrow> a = Some i"
    and "co_generation (f i) \<noteq> 0 \<Longrightarrow> \<exists>cid. co_connectorId (f i) = Some cid \<and> good cid"
    and "co_generation (f i) \<noteq> 0 \<Longrightarrow> co_generation (f i) = co_generation (f j) \<Longrightarrow> i = j"
    and "a = Some i \<Longrightarrow> co_ready (f i)" "a = Some i \<Longrightarrow> co_generation (f i) = g" "a = Some i \<Longrightarrow> g \<noteq> 0"
    and "a = None \<Longrightarrow> g = 0"
proof -
  note fit = assms [unfolded socks_fit_def]
  show "co_generation (f i) \<le> n" using fit by blast
  show "co_ready (f i) \<Longrightarrow> a = Some i" using fit by blast
  show "co_generation (f i) \<noteq> 0 \<Longrightarrow> \<exists>cid. co_connectorId (f i) = Some cid \<and> good cid" using fit by blast
  have "inj_on (\<lambda>i. co_generation (f i)) {i. co_generation (f i) \<noteq> 0}" using fit by blast
  then show "co_generation (f i) \<noteq> 0 \<Longrightarrow> co_generation (f i) = co_generation (f j) \<Longrightarrow> i = j"
    by (rule inj_onD) simp_all
  show "a = Some i \<Longrightarrow> co_ready (f i)" "a = Some i \<Longrightarrow> co_generation (f i) = g" "a = Some i \<Longrightarrow> g \<noteq> 0"
    using fit by blast+
  show "a = None \<Longrightarrow> g = 0" using fit by blast
qed

fun transition_sock :: "transition \<Rightarrow> nat" where
  "transition_sock (T_message i raw) = i"
| "transition_sock (T_close i) = i"

definition socks_ok :: "(jstring \<Rightarrow> bool) \<Rightarrow> server \<Rightarrow> bool" where
  "socks_ok good s \<longleftrightarrow>
     socks_fit good (sock_at s) (sv_active s) (sv_activeGeneration s) (sv_nextGeneration s)
     \<and> (\<forall>t \<in> set (sv_queue s). transition_sock t < length (sv_sockets s))"

definition fresh_sock :: "server \<Rightarrow> nat \<Rightarrow> bool" where
  "fresh_sock s i \<longleftrightarrow> i < length (sv_sockets s) \<and> generation_of s i = 0 \<and> \<not> co_ready (sock_at s i)"

definition server_ok :: "(jstring \<Rightarrow> bool) \<Rightarrow> server \<Rightarrow> bool" where
  "server_ok good s \<longleftrightarrow> socks_ok good s
     \<and> (\<forall>t i h old. sv_current s = Some (t, V_takeover i h old) \<longrightarrow>
          fresh_sock s i \<and> sv_active s = None \<and> good (he_connectorId h) \<and> generation_of s old \<noteq> 0
          \<and> old < length (sv_sockets s))
     \<and> (\<forall>t i. sv_current s = Some (t, V_settle i) \<longrightarrow> sv_active s \<noteq> Some i)"

lemma sock_at_frame [simp]:
  "sock_at (s\<lparr>sv_running := running\<rparr>) = sock_at s" "sock_at (s\<lparr>sv_helloTimers := timers\<rparr>) = sock_at s"
  "sock_at (s\<lparr>sv_heartbeat := beat\<rparr>) = sock_at s" "sock_at (s\<lparr>sv_tick := tick\<rparr>) = sock_at s"
  "sock_at (s\<lparr>sv_log := log\<rparr>) = sock_at s" "sock_at (s\<lparr>sv_active := a\<rparr>) = sock_at s"
  "sock_at (s\<lparr>sv_activeGeneration := g\<rparr>) = sock_at s" "sock_at (s\<lparr>sv_nextGeneration := g\<rparr>) = sock_at s"
  "sock_at (s\<lparr>sv_queue := q\<rparr>) = sock_at s" "sock_at (s\<lparr>sv_current := w\<rparr>) = sock_at s"
  by (auto simp: sock_at_def fun_eq_iff)

lemma sock_at_set [simp]:
  "sock_at (set_sock i f s) j = (if j = i \<and> i < length (sv_sockets s) then f (sock_at s i) else sock_at s j)"
  by (auto simp: sock_at_def set_sock_def)

lemma set_sock_frame [simp]:
  "sv_active (set_sock i f s) = sv_active s" "sv_activeGeneration (set_sock i f s) = sv_activeGeneration s"
  "sv_nextGeneration (set_sock i f s) = sv_nextGeneration s" "sv_queue (set_sock i f s) = sv_queue s"
  "sv_current (set_sock i f s) = sv_current s" "length (sv_sockets (set_sock i f s)) = length (sv_sockets s)"
  "sv_log (set_sock i f s) = sv_log s"
  by (simp_all add: set_sock_def)

lemma set_sock_sockets: "sv_sockets (set_sock i f s) = (sv_sockets s)[i := f (sock_at s i)]"
  by (simp add: set_sock_def)

lemma sock_beyond: "\<not> i < length (sv_sockets s) \<Longrightarrow> generation_of s i = 0 \<and> \<not> co_ready (sock_at s i)"
  by (simp add: sock_at_def)

lemma core_only_ok: "core_only (socks_ok good)" "core_only (server_ok good)"
  by (rule core_onlyI, simp add: socks_ok_def)
    (rule core_onlyI, simp add: server_ok_def socks_ok_def fresh_sock_def)

section \<open>The operations, by their results\<close>

text \<open>The state once a hello is accepted.\<close>

definition exposed :: "nat \<Rightarrow> hello \<Rightarrow> server \<Rightarrow> server" where
  "exposed i h s = (set_sock i (\<lambda>k. k\<lparr>co_connectorId := Some (he_connectorId h),
       co_generation := Suc (sv_nextGeneration s), co_ready := True\<rparr>) s)
     \<lparr>sv_nextGeneration := Suc (sv_nextGeneration s), sv_active := Some i,
      sv_activeGeneration := Suc (sv_nextGeneration s)\<rparr>"

lemma expose_result:
  "\<exists>s'. expose c t i h s = (Inr Suspended, s'\<lparr>sv_current := Some (t, V_handler)\<rparr>) \<and> same_core (exposed i h s) s'"
proof -
  let ?s = "(set_sock i (\<lambda>k. k\<lparr>co_connectorId := Some (he_connectorId h),
       co_generation := Suc (sv_nextGeneration s), co_ready := True\<rparr>)
       (s\<lparr>sv_nextGeneration := Suc (sv_nextGeneration s)\<rparr>))
     \<lparr>sv_active := Some i, sv_activeGeneration := Suc (sv_nextGeneration s),
      sv_helloTimers := removeAll i (sv_helloTimers s)\<rparr>"
  define s1 where "s1 = ?s"
  obtain a s' where s': "sendS c i (Out_hello_ack (he_connectorId h)) s1 = (Inr a, s')" "same_core s1 s'"
    using quiet_run [OF quiet_send] by metis
  have "same_core (exposed i h s) s1" by (simp add: s1_def exposed_def same_core_def set_sock_sockets)
  then have "same_core (exposed i h s) (s'\<lparr>sv_log := sv_log s' @ [Sv_call (X_ready Hermes)]\<rparr>)"
    using s'(2) by (simp add: same_core_def)
  moreover have "expose c t i h s = (Inr Suspended,
      (s'\<lparr>sv_log := sv_log s' @ [Sv_call (X_ready Hermes)]\<rparr>)\<lparr>sv_current := Some (t, V_handler)\<rparr>)"
    using s'(1) by (simp add: s1_def expose_def thenA_def bindA_def modify_def readA_def emitS_def waitS_def ret_def)
  ultimately show ?thesis by blast
qed

lemma settle_result:
  "settle t w i onward s =
     (if co_disconnectHandled (sock_at s i) then onward s
      else if falsy (co_connectorId (sock_at s i))
      then onward (set_sock i (\<lambda>k. k\<lparr>co_disconnectHandled := True\<rparr>) s)
      else (Inr Suspended, s\<lparr>sv_log := sv_log s @ [Sv_call (disconnected_event (the (co_connectorId (sock_at s i))))],
              sv_current := Some (t, w)\<rparr>))"
  by (simp add: settle_def bindA_def thenA_def readA_def emitS_def modify_def waitS_def ret_def)

lemma active_iff:
  assumes "socks_ok good s"
  shows "isActiveSocket s i \<longleftrightarrow> sv_active s = Some i" "currentSocket s = sv_active s"
proof -
  have fit: "socks_fit good (sock_at s) (sv_active s) (sv_activeGeneration s) (sv_nextGeneration s)"
    using assms by (simp add: socks_ok_def)
  show active: "isActiveSocket s i \<longleftrightarrow> sv_active s = Some i" for i
    using fitD(5-7) [OF fit, of i] by (auto simp: isActiveSocket_def)
  show "currentSocket s = sv_active s" by (simp add: currentSocket_def active split: option.split)
qed

lemma sock_at_set_in: "i < length (sv_sockets s) \<Longrightarrow> sock_at (set_sock i f s) = (sock_at s)(i := f (sock_at s i))"
  by (auto simp: fun_eq_iff)

lemma fit_exposed:
  assumes fit: "socks_fit good f None g n" and k: "good cid"
  shows "socks_fit good (f(i := (f i)\<lparr>co_connectorId := Some cid, co_generation := Suc n, co_ready := True\<rparr>))
    (Some i) (Suc n) (Suc n)"
proof (rule fitI)
  have new: "co_generation (f j) \<noteq> Suc n" for j using fitD(1) [OF fit, of j] by simp
  fix j l
  let ?f = "f(i := (f i)\<lparr>co_connectorId := Some cid, co_generation := Suc n, co_ready := True\<rparr>)"
  show "co_generation (?f j) \<le> Suc n" using fitD(1) [OF fit, of j] by simp
  show "Some i = Some j" if "co_ready (?f j)" using that fitD(2) [OF fit, of j] by (simp split: if_splits)
  show "\<exists>cid. co_connectorId (?f j) = Some cid \<and> good cid" if "co_generation (?f j) \<noteq> 0"
    using that k fitD(3) [OF fit, of j] by (simp split: if_splits)
  show "j = l" if "co_generation (?f j) \<noteq> 0" "co_generation (?f j) = co_generation (?f l)"
    using that new [of j] new [of l] fitD(4) [OF fit, of j l] by (simp split: if_splits)
qed simp_all

lemma exposed_ok:
  assumes "socks_ok good s" "fresh_sock s i" "sv_active s = None" "good (he_connectorId h)"
  shows "socks_ok good (exposed i h s)"
  using fit_exposed [of good "sock_at s" "sv_activeGeneration s" "sv_nextGeneration s" "he_connectorId h" i] assms
  by (simp add: socks_ok_def exposed_def fresh_sock_def sock_at_set_in)

lemma fit_same_keys:
  assumes "socks_fit good f a g n" "\<And>j. co_generation (f' j) = co_generation (f j)"
    "\<And>j. co_ready (f' j) = co_ready (f j)" "\<And>j. co_connectorId (f' j) = co_connectorId (f j)"
  shows "socks_fit good f' a g n"
  using assms(1) unfolding socks_fit_def assms(2-4) .

lemma fit_fenced:
  assumes fit: "socks_fit good f (Some i) g n"
  shows "socks_fit good (f(i := (f i)\<lparr>co_ready := False\<rparr>)) None 0 n"
proof (rule fitI)
  fix j l
  let ?f = "f(i := (f i)\<lparr>co_ready := False\<rparr>)"
  have same: "co_generation (?f j) = co_generation (f j)" "co_connectorId (?f j) = co_connectorId (f j)" for j
    by simp_all
  show "co_generation (?f j) \<le> n" unfolding same by (rule fitD(1) [OF fit])
  show "None = Some j" if "co_ready (?f j)" using that fitD(2) [OF fit, of j] by (simp split: if_splits)
  show "\<exists>cid. co_connectorId (?f j) = Some cid \<and> good cid" if "co_generation (?f j) \<noteq> 0"
    using that fitD(3) [OF fit, of j] unfolding same by simp
  show "j = l" if "co_generation (?f j) \<noteq> 0" "co_generation (?f j) = co_generation (?f l)"
    using that fitD(4) [OF fit, of j l] unfolding same by simp
qed simp_all

lemma fence_ok:
  assumes "socks_ok good s"
  shows "socks_ok good (fence i s)" "sv_active (fence i s) \<noteq> Some i"
    "sv_active s = Some i \<Longrightarrow> sv_active (fence i s) = None"
    "generation_of (fence i s) j = generation_of s j"
    "sv_current (fence i s) = sv_current s" "length (sv_sockets (fence i s)) = length (sv_sockets s)"
proof -
  have len: "i < length (sv_sockets s)" if "sv_active s = Some i"
    using that assms fitD(5) [of good "sock_at s" "sv_active s"] sock_beyond [of i s] unfolding socks_ok_def by blast
  note active = active_iff(1) [OF assms, of i]
  show "socks_ok good (fence i s)"
    using assms fit_fenced [of good "sock_at s" i "sv_activeGeneration s" "sv_nextGeneration s"] len
    by (auto simp: fence_def active socks_ok_def sock_at_set_in)
qed (simp_all add: fence_def active_iff(1) [OF assms])

lemma touched_ok:
  assumes "socks_ok good s" "\<And>k. co_generation (f k) = co_generation k" "\<And>k. co_ready (f k) = co_ready k"
    "\<And>k. co_connectorId (f k) = co_connectorId k"
  shows "socks_ok good (set_sock i f s)"
  using assms(1) fit_same_keys [of good "sock_at s" "sv_active s" "sv_activeGeneration s" "sv_nextGeneration s"
      "sock_at (set_sock i f s)"] assms(2-4)
  by (simp add: socks_ok_def)

section \<open>Every step keeps it\<close>

text \<open>What an operation may start from, and what a stretch of it must reach: between operations
  nothing is waited for.\<close>

definition idle_ok :: "(jstring \<Rightarrow> bool) \<Rightarrow> server \<Rightarrow> bool" where
  "idle_ok good s \<longleftrightarrow> socks_ok good s \<and> sv_current s = None"

lemma core_only_idle: "core_only (idle_ok good)"
  by (rule core_onlyI, simp add: idle_ok_def socks_ok_def)

lemma idle_server: "idle_ok good s \<Longrightarrow> server_ok good s"
  by (simp add: idle_ok_def server_ok_def)

lemma waiting_handler: "socks_ok good s \<Longrightarrow> server_ok good (s\<lparr>sv_current := Some (t, V_handler)\<rparr>)"
  by (simp add: server_ok_def socks_ok_def)

lemma expose_ok:
  assumes "socks_ok good s" "fresh_sock s i" "sv_active s = None" "good (he_connectorId h)"
  shows "server_ok good (snd (expose c t i h s))"
  using expose_result [of c t i h s] exposed_ok [of good, OF assms] core_only_ok(1) [of good] waiting_handler
  by (force simp: core_only_def)

lemma refuse_ok: "idle_ok good s \<Longrightarrow> server_ok good (snd (refuse c i code s))"
proof -
  have "quiet (refuse c i code)" unfolding refuse_def close_socket_def by (intro quiet_rules)
  then show "idle_ok good s \<Longrightarrow> ?thesis" by (intro idle_server core_run [OF core_only_idle])
qed

lemma waiting_settle:
  "socks_ok good s \<Longrightarrow> sv_active s \<noteq> Some i \<Longrightarrow>
     server_ok good (s\<lparr>sv_log := l, sv_current := Some (t, V_settle i)\<rparr>)"
  "socks_ok good s \<Longrightarrow> sv_active s = None \<Longrightarrow> fresh_sock s i \<Longrightarrow> good (he_connectorId h) \<Longrightarrow>
     generation_of s old \<noteq> 0 \<Longrightarrow> old < length (sv_sockets s) \<Longrightarrow>
     server_ok good (s\<lparr>sv_log := l, sv_current := Some (t, V_takeover i h old)\<rparr>)"
  by (simp_all add: server_ok_def socks_ok_def fresh_sock_def)

lemma in_length: "generation_of s i \<noteq> 0 \<Longrightarrow> i < length (sv_sockets s)"
  using sock_beyond [of i s] by auto

lemma active_generation: "socks_ok good s \<Longrightarrow> sv_active s = Some i \<Longrightarrow> generation_of s i \<noteq> 0"
  using fitD(6,7) unfolding socks_ok_def by metis

text \<open>The four ways of \<open>acceptHello\<close>.\<close>

definition taken_over :: "nat \<Rightarrow> server \<Rightarrow> server" where
  "taken_over old s = (let u = fence old (s\<lparr>sv_tick := Suc (sv_tick s)\<rparr>)
     in u\<lparr>sv_log := sv_log u @ [Sv_close old 1001]\<rparr>)"

lemma acceptHello_cases:
  assumes socks: "socks_ok good s"
  obtains (again) "acceptHello c t i h s = (Inl Cn_repeated_hello, s)"
  | (refused) code u where "acceptHello c t i h s = refuse c i code u" "u = s \<or> u = s\<lparr>sv_tick := Suc (sv_tick s)\<rparr>"
  | (alone) "acceptHello c t i h s = expose c t i h s" "sv_active s = None" "hello_refused c h = None"
      "generation_of s i = 0" "\<not> co_ready (sock_at s i)"
  | (takeover) old where "acceptHello c t i h s = settle t (V_takeover i h old) old (expose c t i h) (taken_over old s)"
      "sv_active s = Some old" "hello_refused c h = None" "generation_of s i = 0" "\<not> co_ready (sock_at s i)"
proof (cases "co_ready (sock_at s i) \<or> generation_of s i \<noteq> 0")
  case True
  then show thesis by (intro again) (auto simp: acceptHello_def bindA_def readA_def throw_def)
next
  case fresh: False
  show thesis
  proof (cases "hello_refused c h")
    case (Some code)
    then show thesis using fresh by (intro refused [of code s]) (simp_all add: acceptHello_def bindA_def readA_def)
  next
    case gate: None
    show thesis
    proof (cases "sv_active s")
      case None
      then show thesis using fresh gate
        by (intro alone) (simp_all add: acceptHello_def bindA_def readA_def active_iff(2) [OF socks])
    next
      case (Some old)
      let ?u = "s\<lparr>sv_tick := Suc (sv_tick s)\<rparr>"
      have "old \<noteq> i" using active_generation [OF socks Some] fresh by auto
      then have "acceptHello c t i h s =
          (if cc_clock c (sv_tick s) - co_lastPongAt (sock_at s old) > HEARTBEAT_INTERVAL_MS * 2
           then settle t (V_takeover i h old) old (expose c t i h) (taken_over old s)
           else refuse c i ''connector_conflict'' ?u)"
        using fresh gate Some by (simp add: acceptHello_def bindA_def readA_def active_iff(2) [OF socks]
            tickS_def thenA_def modify_def ret_def close_socket_def emitS_def taken_over_def Let_def)
      then show thesis using takeover [of old] refused [of "''connector_conflict''" ?u] fresh gate Some
        by (simp split: if_splits)
    qed
  qed
qed

lemma taken_over_ok:
  assumes "socks_ok good s" "sv_active s = Some old"
  shows "socks_ok good (taken_over old s)" "sv_active (taken_over old s) = None"
    "generation_of (taken_over old s) j = generation_of s j"
    "length (sv_sockets (taken_over old s)) = length (sv_sockets s)"
    "sv_current (taken_over old s) = sv_current s"
    "j \<noteq> old \<Longrightarrow> sock_at (taken_over old s) j = sock_at s j"
proof -
  have tick: "socks_ok good (s\<lparr>sv_tick := Suc (sv_tick s)\<rparr>)" using assms(1) by (simp add: socks_ok_def)
  note fenced = fence_ok [OF tick, of old]
  show "socks_ok good (taken_over old s)" using fenced(1) by (simp add: taken_over_def Let_def socks_ok_def)
qed (use assms fence_ok(3-6) [of good "s\<lparr>sv_tick := Suc (sv_tick s)\<rparr>" old] in
      \<open>simp_all add: taken_over_def Let_def socks_ok_def fence_def\<close>)

lemma acceptHello_ok:
  assumes ok: "idle_ok good s" and i: "i < length (sv_sockets s)"
    and gate: "hello_refused c h = None \<Longrightarrow> good (he_connectorId h)"
  shows "server_ok good (snd (acceptHello c t i h s))"
proof -
  have socks: "socks_ok good s" using ok by (simp add: idle_ok_def)
  from socks show ?thesis
  proof (cases rule: acceptHello_cases [where c = c and t = t and i = i and h = h])
    case again
    then show ?thesis using idle_server [OF ok] by simp
  next
    case (refused code u)
    then have "idle_ok good u" using ok by (auto simp: idle_ok_def socks_ok_def)
    then show ?thesis using refuse_ok refused by simp
  next
    case alone
    then show ?thesis using expose_ok [OF socks] gate i by (simp add: fresh_sock_def)
  next
    case (takeover old)
    let ?f = "taken_over old s"
    note f = taken_over_ok [OF socks takeover(2)]
    have old: "generation_of s old \<noteq> 0" by (rule active_generation [OF socks takeover(2)])
    then have ne: "i \<noteq> old" using takeover(4) by auto
    have fresh: "fresh_sock ?f i" using takeover(4,5) i f(3,4,6) ne by (simp add: fresh_sock_def)
    have g: "socks_ok good (set_sock old (\<lambda>k. k\<lparr>co_disconnectHandled := True\<rparr>) ?f)"
      by (rule touched_ok [OF f(1)]) simp_all
    have "fresh_sock (set_sock old (\<lambda>k. k\<lparr>co_disconnectHandled := True\<rparr>) ?f) i"
      using fresh ne by (simp add: fresh_sock_def)
    then show ?thesis
      unfolding takeover(1) settle_result
      using expose_ok [OF f(1) fresh f(2) gate] expose_ok [OF g] f gate [OF takeover(3)] takeover(3)
        waiting_settle(2) [OF f(1,2) fresh gate [OF takeover(3)]] in_length [OF old] old
      by auto
  qed
qed

definition passed :: "connector_cfg \<Rightarrow> jstring \<Rightarrow> bool" where
  "passed c cid \<longleftrightarrow> (\<exists>h. he_connectorId h = cid \<and> hello_refused c h = None)"

lemma passed_hello: "hello_refused c h = None \<Longrightarrow> passed c (he_connectorId h)"
  by (auto simp: passed_def)

lemma handled_by_daemon:
  "idle_ok good s \<Longrightarrow> server_ok good (snd (handle_job_message t executionId m s))"
  by (cases m)
    (auto simp: handle_job_message_def Let_def thenA_def bindA_def emitS_def modify_def waitS_def ret_def
      server_ok_def idle_ok_def socks_ok_def)

lemma handleMessage_ok:
  assumes ok: "idle_ok (passed c) s" and i: "i < length (sv_sockets s)"
  shows "server_ok (passed c) (snd (handleMessage c i raw s))"
proof (cases "parseConnectorMessage (cc_num c) raw")
  case (Inl e)
  then show ?thesis using idle_server [OF ok] by (simp add: handleMessage_def Let_def throw_def)
next
  case (Inr m)
  show ?thesis
  proof (cases "\<exists>h. m = In_hello h")
    case True
    then obtain h where "m = In_hello h" ..
    then show ?thesis using acceptHello_ok [OF ok i passed_hello] Inr by (simp add: handleMessage_def Let_def)
  next
    case False
    then have "handleMessage c i raw s =
        (if \<not> isActiveSocket s i \<or> falsy (co_connectorId (sock_at s i)) then (Inl Cn_stale_generation, s)
         else if m = In_pong then (Inr Finished, set_sock i (\<lambda>k. k\<lparr>co_lastPongAt := cc_clock c (sv_tick s)\<rparr>)
                (s\<lparr>sv_tick := Suc (sv_tick s)\<rparr>))
         else handle_job_message (T_message i raw) (the (co_connectorId (sock_at s i))) m s)"
      using Inr by (cases m) (simp_all add: handleMessage_def Let_def bindA_def readA_def throw_def tickS_def
          thenA_def modify_def ret_def)
    moreover have "socks_ok (passed c) (s\<lparr>sv_tick := Suc (sv_tick s)\<rparr>)"
      using ok by (simp add: idle_ok_def socks_ok_def)
    then have "server_ok (passed c) (set_sock i (\<lambda>k. k\<lparr>co_lastPongAt := t\<rparr>) (s\<lparr>sv_tick := Suc (sv_tick s)\<rparr>))" for t
      using ok by (intro idle_server) (simp add: idle_ok_def touched_ok)
    ultimately show ?thesis using idle_server [OF ok] handled_by_daemon [OF ok] by simp
  qed
qed

lemma socketClosed_ok:
  assumes ok: "idle_ok good s"
  shows "server_ok good (snd (socketClosed i s))"
proof -
  have socks: "socks_ok good s" and cur: "sv_current s = None" using ok by (simp_all add: idle_ok_def)
  note fenced = fence_ok [OF socks, of i]
  have idle: "idle_ok good (fence i s)" using fenced(1,5) cur by (simp add: idle_ok_def)
  have handled: "idle_ok good (set_sock i (\<lambda>k. k\<lparr>co_disconnectHandled := True\<rparr>) (fence i s))"
    using idle touched_ok [OF fenced(1)] by (simp add: idle_ok_def)
  have "socketClosed i s = (if \<not> isActiveSocket s i \<and> generation_of s i = 0 then (Inr Finished, s)
      else settle (T_close i) (V_settle i) i (ret Finished) (fence i s))"
    by (simp add: socketClosed_def bindA_def readA_def thenA_def modify_def ret_def)
  then show ?thesis
    using idle_server [OF ok] idle_server [OF idle] idle_server [OF handled] waiting_settle(1) [OF fenced(1,2)]
    by (simp add: settle_result ret_def)
qed

lemma run_operation_ok:
  assumes "server_ok good (snd (m (s\<lparr>sv_current := None\<rparr>)))"
  shows "server_ok good (run_operation c t m s)"
proof -
  have "quiet (operation_failed c t e)" for e
    unfolding operation_failed_def by (cases t) (auto intro: quiet_rules)
  then have "server_ok good s' \<Longrightarrow> server_ok good (snd (operation_failed c t e s'))" for e s'
    by (rule core_run [OF core_only_ok(2)])
  then show ?thesis using assms by (auto simp: run_operation_def split: prod.split sum.split)
qed

lemma next_operation_ok:
  assumes "server_ok (passed c) s"
  shows "server_ok (passed c) (next_operation c s)"
proof (cases "sv_current s = None \<and> sv_queue s \<noteq> []")
  case True
  then obtain t rest where q: "sv_queue s = t # rest" "sv_current s = None" by (cases "sv_queue s") auto
  have idle: "idle_ok (passed c) (s\<lparr>sv_queue := rest, sv_current := None\<rparr>)"
    and i: "transition_sock t < length (sv_sockets s)"
    using assms q by (simp_all add: server_ok_def idle_ok_def socks_ok_def)
  then show ?thesis
    using q handleMessage_ok [OF idle] socketClosed_ok [OF idle]
    by (cases t) (auto simp: next_operation_def intro!: run_operation_ok)
next
  case False
  then show ?thesis using assms by (auto simp: next_operation_def split: option.split list.split)
qed

lemma handler_settled_ok:
  assumes ok: "server_ok good s"
  shows "server_ok good (handler_settled c err s)"
proof (cases "sv_current s")
  case None
  then show ?thesis using ok by (simp add: handler_settled_def)
next
  case (Some tw)
  obtain t w where tw: "tw = (t, w)" by (rule prod.exhaust)
  let ?s = "s\<lparr>sv_current := None\<rparr>"
  have socks: "socks_ok good ?s" using ok by (simp add: server_ok_def socks_ok_def)
  then have idle: "idle_ok good ?s" by (simp add: idle_ok_def)
  have handled: "idle_ok good (set_sock i (\<lambda>k. k\<lparr>co_disconnectHandled := True\<rparr>) ?s)" for i
    using idle touched_ok [OF socks] by (simp add: idle_ok_def)
  have takeover: "server_ok good (snd (expose c t i h (set_sock old (\<lambda>k. k\<lparr>co_disconnectHandled := True\<rparr>) ?s)))"
    if w: "w = V_takeover i h old" for i h old
  proof -
    have v: "fresh_sock s i" "sv_active s = None" "good (he_connectorId h)"
      using ok Some tw w by (auto simp: server_ok_def)
    have g: "socks_ok good (set_sock old (\<lambda>k. k\<lparr>co_disconnectHandled := True\<rparr>) ?s)"
      using handled by (simp add: idle_ok_def)
    have "fresh_sock (set_sock old (\<lambda>k. k\<lparr>co_disconnectHandled := True\<rparr>) ?s) i"
      using v(1) by (auto simp: fresh_sock_def)
    then show ?thesis using expose_ok [of good, OF g] v by simp
  qed
  show ?thesis
    using Some tw idle_server [OF idle] idle_server [OF handled] takeover
    by (auto simp: handler_settled_def thenA_def bindA_def modify_def throw_def ret_def
        split: cn_wait.split option.split intro!: run_operation_ok)
qed

text \<open>The other events.\<close>

lemma server_ok_same:
  assumes "server_ok good s" "\<And>i. co_generation (sock_at s' i) = generation_of s i"
    "\<And>i. co_ready (sock_at s' i) = co_ready (sock_at s i)"
    "\<And>i. co_connectorId (sock_at s' i) = co_connectorId (sock_at s i)"
    "sv_active s' = sv_active s" "sv_activeGeneration s' = sv_activeGeneration s"
    "sv_nextGeneration s' = sv_nextGeneration s" "sv_current s' = sv_current s"
    "length (sv_sockets s) \<le> length (sv_sockets s')"
    "\<And>t. t \<in> set (sv_queue s') \<Longrightarrow> t \<in> set (sv_queue s) \<or> transition_sock t < length (sv_sockets s')"
  shows "server_ok good s'"
proof -
  have "socks_ok good s'"
    using assms(1) fit_same_keys [of good "sock_at s" "sv_active s" "sv_activeGeneration s" "sv_nextGeneration s"
      "sock_at s'"] assms(2-7,9,10)
    by (fastforce simp: server_ok_def socks_ok_def)
  moreover have "fresh_sock s i \<Longrightarrow> fresh_sock s' i" for i using assms(2,3,9) by (simp add: fresh_sock_def)
  ultimately show ?thesis using assms(1,2,5,8,9) by (auto simp: server_ok_def)
qed

definition opened :: "connector_cfg \<Rightarrow> server \<Rightarrow> server" where
  "opened c s = s\<lparr>sv_tick := Suc (sv_tick s), sv_sockets := sv_sockets s @ [\<lparr>co_connectorId = None,
     co_ready = False, co_lastPongAt = cc_clock c (sv_tick s), co_generation = 0, co_disconnectHandled = False\<rparr>]\<rparr>"

lemma opened_at:
  "co_generation (sock_at (opened c s) i) = generation_of s i"
  "co_ready (sock_at (opened c s) i) = co_ready (sock_at s i)"
  "co_connectorId (sock_at (opened c s) i) = co_connectorId (sock_at s i)"
  "co_disconnectHandled (sock_at (opened c s) i) = co_disconnectHandled (sock_at s i)"
  unfolding sock_at_def opened_def by (auto simp: nth_append)

lemma open_connection_result:
  "\<exists>s'. open_connection c s = (Inr (), s') \<and> same_core (opened c s) s'"
proof -
  obtain a s2 where sent: "sendS c (length (sv_sockets s)) Out_hello_required (opened c s) = (Inr a, s2)"
    "same_core (opened c s) s2"
    using quiet_run [OF quiet_send] by metis
  have "open_connection c s = (Inr (), s2\<lparr>sv_helloTimers := sv_helloTimers s2 @ [length (sv_sockets s)]\<rparr>)"
    using sent(1) by (simp add: open_connection_def bindA_def thenA_def readA_def modify_def tickS_def ret_def
        opened_def)
  then show ?thesis using sent(2) by (simp add: same_core_def)
qed

lemma open_connection_ok:
  assumes "server_ok good s"
  shows "server_ok good (snd (open_connection c s))"
proof -
  have "server_ok good (opened c s)"
    by (rule server_ok_same [OF assms opened_at(1-3)]) (simp_all add: opened_def)
  then show ?thesis using open_connection_result [of c s] core_only_ok(2) by (auto simp: core_only_def)
qed

lemma stop_ok:
  assumes ok: "server_ok good s"
  shows "server_ok good (snd (stop_server s))"
proof (cases "sv_active s")
  case None
  then have "snd (stop_server s) = s\<lparr>sv_running := False, sv_helloTimers := [], sv_heartbeat := False\<rparr>"
    by (simp add: stop_server_def bindA_def readA_def thenA_def ret_def modify_def)
  then show ?thesis by (simp only:) (rule server_ok_same [OF ok], simp_all)
next
  case (Some i)
  let ?s = "(set_sock i (\<lambda>k. k\<lparr>co_ready := False\<rparr>) s)\<lparr>sv_active := None, sv_activeGeneration := 0\<rparr>"
  have socks: "socks_ok good s" using ok by (simp add: server_ok_def)
  have "?s = fence i s" using active_iff(1) [OF socks] Some by (simp add: fence_def)
  moreover have "server_ok good (fence i s)"
    using ok fence_ok(1,3,5) [OF socks, of i] Some by (simp add: server_ok_def)
  ultimately have "server_ok good ?s" by simp
  then have "server_ok good (?s\<lparr>sv_log := l, sv_running := False, sv_helloTimers := [], sv_heartbeat := False\<rparr>)" for l
    by (rule server_ok_same) simp_all
  moreover have "snd (stop_server s)
      = ?s\<lparr>sv_log := sv_log s @ [Sv_close i 1001], sv_running := False, sv_helloTimers := [], sv_heartbeat := False\<rparr>"
    using Some by (simp add: stop_server_def bindA_def readA_def thenA_def ret_def modify_def close_socket_def emitS_def)
  ultimately show ?thesis by simp
qed

lemma quiet_events: "quiet (hello_timeout i)" "quiet (server_heartbeat c)"
  unfolding hello_timeout_def server_heartbeat_def close_socket_def
  by (intro quiet_rules; auto intro!: quiet_rules split: option.split)+

lemma server_ok_step:
  assumes "server_ok (passed c) s" "server_step c allowed s s'"
  shows "server_ok (passed c) s'"
  using assms(2)
proof (cases rule: server_step.cases)
  case (happens ev)
  show ?thesis
    unfolding happens(1)
  proof (cases ev)
    case (S_message i f)
    have "server_ok (passed c) (snd (on_socket_message c i f s))" if "i < length (sv_sockets s)"
    proof (cases "utf8_length (frame_raw f) > cc_maxFrameBytes c")
      case True
      have "quiet (bindA (sendS c i (Out_error (js ''frame_too_large'') None)) (\<lambda>_. close_socket i 1009))"
        unfolding close_socket_def by (intro quiet_rules)
      then show ?thesis using True core_run [OF core_only_ok(2) _ assms(1)] by (simp add: on_socket_message_def)
    next
      case False
      then show ?thesis using that
        by (simp add: on_socket_message_def modify_def) (rule server_ok_same [OF assms(1)], auto)
    qed
    then show "server_ok (passed c) (server_happens c ev s)" using assms(1) by (simp add: S_message runS_def)
  next
    case (S_closed i)
    then show "server_ok (passed c) (server_happens c ev s)" using assms(1)
      by (simp add: runS_def on_socket_close_def modify_def) (intro impI server_ok_same [OF assms(1)], auto)
  next
    case (S_start path)
    then show "server_ok (passed c) (server_happens c ev s)" using assms(1)
      by (simp add: runS_def start_server_def bindA_def readA_def thenA_def assertA_def modify_def ret_def throw_def)
        (intro impI server_ok_same [OF assms(1)], auto)
  next
    case (S_request path header upgraded)
    then show "server_ok (passed c) (server_happens c ev s)" using assms(1) open_connection_ok [OF assms(1)]
      by (simp add: runS_def on_request_def bindA_def readA_def ret_def)
  qed (use assms(1) core_run [OF core_only_ok(2) quiet_events(1)] core_run [OF core_only_ok(2) quiet_events(2)]
       next_operation_ok handler_settled_ok stop_ok in \<open>auto simp: runS_def\<close>)
qed

lemma server_ok_start: "s = new_server \<Longrightarrow> server_ok (passed c) s"
  by (auto simp: new_server_def server_ok_def socks_ok_def socks_fit_def sock_at_def)

interpretation connector: safe_system "\<lambda>s. s = new_server" "server_step c allowed" "server_ok (passed c)"
  by unfold_locales (rule server_ok_start, assumption, rule server_ok_step)

end
