(* ===== verification/Connector_Gate.thy ===== *)
theory Connector_Gate
  imports Connector_Inv
begin

text \<open>
  The gate of the connector server, over the events of a run: every socket that was given a
  generation had received a hello that the gate lets through, and it is the id of that hello
  that the socket carries.
\<close>

section \<open>What a socket has received\<close>

definition heard :: "connector_event list \<Rightarrow> nat \<Rightarrow> jstring \<Rightarrow> bool" where
  "heard evs i raw \<longleftrightarrow> (\<exists>f. S_message i f \<in> set evs \<and> raw = frame_raw f)"

text \<open>A hello that came in over the socket, and passes.\<close>

definition admitted :: "connector_cfg \<Rightarrow> connector_event list \<Rightarrow> nat \<Rightarrow> hello \<Rightarrow> bool" where
  "admitted c evs i h \<longleftrightarrow> hello_refused c h = None
     \<and> (\<exists>raw. heard evs i raw \<and> parseConnectorMessage (cc_num c) raw = Inr (In_hello h))"

definition gate_ok :: "connector_cfg \<Rightarrow> connector_event list \<Rightarrow> server \<Rightarrow> bool" where
  "gate_ok c evs s \<longleftrightarrow>
     (\<forall>i. generation_of s i \<noteq> 0 \<longrightarrow>
        (\<exists>h. admitted c evs i h \<and> co_connectorId (sock_at s i) = Some (he_connectorId h)))
     \<and> (\<forall>t i h old. sv_current s = Some (t, V_takeover i h old) \<longrightarrow> admitted c evs i h)
     \<and> (\<forall>i raw. T_message i raw \<in> set (sv_queue s) \<longrightarrow> heard evs i raw)"

lemma gate_same:
  assumes "gate_ok c evs s" "\<And>i. generation_of s' i = generation_of s i"
    "\<And>i. co_connectorId (sock_at s' i) = co_connectorId (sock_at s i)"
    "\<And>t i h old. sv_current s' = Some (t, V_takeover i h old) \<Longrightarrow> sv_current s = sv_current s' \<or> admitted c evs i h"
    "\<And>i raw. T_message i raw \<in> set (sv_queue s') \<Longrightarrow> T_message i raw \<in> set (sv_queue s) \<or> heard evs i raw"
  shows "gate_ok c evs s'"
  using assms unfolding gate_ok_def by metis

lemma core_only_gate: "core_only (gate_ok c evs)"
  by (rule core_onlyI, simp add: gate_ok_def)

lemma gate_quiet: "quiet m \<Longrightarrow> gate_ok c evs s \<Longrightarrow> gate_ok c evs (snd (m s))"
  by (rule core_run [OF core_only_gate])

lemma gate_waits:
  "gate_ok c evs s \<Longrightarrow> gate_ok c evs (s\<lparr>sv_log := l, sv_current := Some (t, V_handler)\<rparr>)"
  "gate_ok c evs s \<Longrightarrow> gate_ok c evs (s\<lparr>sv_log := l, sv_current := Some (t, V_settle i)\<rparr>)"
  "gate_ok c evs s \<Longrightarrow> admitted c evs i h \<Longrightarrow>
     gate_ok c evs (s\<lparr>sv_log := l, sv_current := Some (t, V_takeover i h old)\<rparr>)"
  "gate_ok c evs s \<Longrightarrow> gate_ok c evs (s\<lparr>sv_current := None\<rparr>)"
  by (simp_all add: gate_ok_def)

lemma gate_marked:
  "gate_ok c evs s \<Longrightarrow> gate_ok c evs (set_sock i (\<lambda>k. k\<lparr>co_disconnectHandled := True\<rparr>) s)"
  "gate_ok c evs s \<Longrightarrow> gate_ok c evs (set_sock i (\<lambda>k. k\<lparr>co_lastPongAt := p\<rparr>) s)"
  "gate_ok c evs s \<Longrightarrow> gate_ok c evs (fence i s)"
  by (auto simp: fence_def intro!: gate_same [of c evs s])

lemma gate_exposed:
  assumes "gate_ok c evs s" "admitted c evs i h"
  shows "gate_ok c evs (snd (expose c t i h s))"
proof -
  obtain s' where run: "expose c t i h s = (Inr Suspended, s'\<lparr>sv_current := Some (t, V_handler)\<rparr>)"
    and core: "same_core (exposed i h s) s'"
    using expose_result by metis
  have "gate_ok c evs ((exposed i h s)\<lparr>sv_current := Some (t, V_handler)\<rparr>)"
    using assms by (auto simp: gate_ok_def exposed_def)
  moreover have "same_core ((exposed i h s)\<lparr>sv_current := Some (t, V_handler)\<rparr>) (s'\<lparr>sv_current := Some (t, V_handler)\<rparr>)"
    using core by (simp add: same_core_def)
  ultimately show ?thesis using core_only_gate unfolding run core_only_def by auto
qed

section \<open>Every step keeps it\<close>

lemma gate_hello:
  assumes ok: "gate_ok c evs s" "idle_ok good s"
    and raw: "heard evs i raw" "parseConnectorMessage (cc_num c) raw = Inr (In_hello h)"
  shows "gate_ok c evs (snd (acceptHello c t i h s))"
proof -
  have socks: "socks_ok good s" using ok(2) by (simp add: idle_ok_def)
  have adm: "admitted c evs i h" if "hello_refused c h = None"
    using raw that by (auto simp: admitted_def)
  from socks show ?thesis
  proof (cases rule: acceptHello_cases [where c = c and t = t and i = i and h = h])
    case (refused code u)
    then have "gate_ok c evs u" using ok(1) by (auto intro: gate_same)
    moreover have "quiet (refuse c i code)" unfolding refuse_def close_socket_def by (intro quiet_rules)
    ultimately show ?thesis using gate_quiet refused by simp
  next
    case (takeover old)
    have "gate_ok c evs (fence old (s\<lparr>sv_tick := Suc (sv_tick s)\<rparr>))"
      by (rule gate_marked, rule gate_same [OF ok(1)]) simp_all
    then have "gate_ok c evs (taken_over old s)" by (simp add: taken_over_def Let_def gate_ok_def)
    then show ?thesis
      unfolding takeover(1) settle_result
      using gate_exposed gate_marked(1) gate_waits(3) adm [OF takeover(3)] by auto
  qed (use ok adm gate_exposed in auto)
qed

lemma gate_message:
  assumes ok: "gate_ok c evs s" "idle_ok good s" and raw: "heard evs i raw"
  shows "gate_ok c evs (snd (handleMessage c i raw s))"
proof (cases "parseConnectorMessage (cc_num c) raw")
  case (Inl e)
  then show ?thesis using ok by (simp add: handleMessage_def Let_def throw_def)
next
  case (Inr m)
  have tick: "gate_ok c evs (s\<lparr>sv_tick := n\<rparr>)" for n by (rule gate_same [OF ok(1)]) simp_all
  show ?thesis
  proof (cases m)
    case (In_hello h)
    then show ?thesis using gate_hello [OF ok raw] Inr by (simp add: handleMessage_def Let_def)
  next
    case In_pong
    then show ?thesis using ok(1) Inr gate_marked(2) [OF tick]
      by (simp add: handleMessage_def Let_def bindA_def readA_def throw_def tickS_def thenA_def modify_def ret_def)
  qed (use Inr ok(1) gate_waits(1) [OF ok(1)] in
      \<open>auto simp: handleMessage_def Let_def bindA_def readA_def throw_def handle_job_message_def thenA_def
        emitS_def modify_def waitS_def ret_def\<close>)
qed

lemma gate_close: "gate_ok c evs s \<Longrightarrow> gate_ok c evs (snd (socketClosed i s))"
  using gate_marked(3) gate_marked(1) [OF gate_marked(3)] gate_waits(2) [OF gate_marked(3)]
  by (simp add: socketClosed_def bindA_def readA_def thenA_def modify_def ret_def settle_result)

lemma gate_operation:
  assumes "gate_ok c evs (snd (m (s\<lparr>sv_current := None\<rparr>)))"
  shows "gate_ok c evs (run_operation c t m s)"
proof -
  have "quiet (operation_failed c t e)" for e
    unfolding operation_failed_def by (cases t) (auto intro: quiet_rules)
  then have "gate_ok c evs s' \<Longrightarrow> gate_ok c evs (snd (operation_failed c t e s'))" for e s'
    by (rule gate_quiet)
  then show ?thesis using assms by (auto simp: run_operation_def split: prod.split sum.split)
qed

lemma gate_next:
  assumes "server_ok (passed c) s" "gate_ok c evs s"
  shows "gate_ok c evs (next_operation c s)"
proof (cases "sv_current s = None \<and> sv_queue s \<noteq> []")
  case True
  then obtain t rest where q: "sv_queue s = t # rest" "sv_current s = None" by (cases "sv_queue s") auto
  have idle: "idle_ok (passed c) (s\<lparr>sv_queue := rest, sv_current := None\<rparr>)"
    using assms(1) q by (simp add: server_ok_def idle_ok_def socks_ok_def)
  have gate: "gate_ok c evs (s\<lparr>sv_queue := rest, sv_current := None\<rparr>)"
    by (rule gate_same [OF assms(2)]) (simp_all add: q)
  have "heard evs i raw" if "t = T_message i raw" for i raw
    using assms(2) q that by (simp add: gate_ok_def)
  then show ?thesis
    using q gate_message [OF gate idle] gate_close [OF gate]
    by (cases t) (auto simp: next_operation_def intro!: gate_operation)
next
  case False
  then show ?thesis using assms(2) by (auto simp: next_operation_def split: option.split list.split)
qed

lemma gate_settled:
  assumes "gate_ok c evs s"
  shows "gate_ok c evs (handler_settled c err s)"
proof (cases "sv_current s")
  case (Some tw)
  obtain t w where tw: "tw = (t, w)" by (rule prod.exhaust)
  note idle = gate_waits(4) [OF assms]
  have adm: "w = V_takeover i h old \<Longrightarrow> admitted c evs i h" for i h old
    using assms Some tw by (simp add: gate_ok_def)
  have "gate_ok c evs (snd ((case err of
               Some e \<Rightarrow> throw (Cn_handler e)
             | None \<Rightarrow>
                 (case w of
                    V_handler \<Rightarrow> ret Finished
                  | V_takeover i h old \<Rightarrow>
                      thenA (modify (set_sock old (\<lambda>k. k\<lparr>co_disconnectHandled := True\<rparr>)))
                        (expose c t i h)
                  | V_settle i \<Rightarrow>
                      thenA (modify (set_sock i (\<lambda>k. k\<lparr>co_disconnectHandled := True\<rparr>)))
                        (ret Finished))) (s\<lparr>sv_current := None\<rparr>)))"
    using idle gate_marked(1) [OF idle] gate_exposed [OF gate_marked(1) [OF idle] adm]
    by (cases err; cases w) (simp_all add: throw_def ret_def thenA_def bindA_def modify_def)
  then show ?thesis
    unfolding handler_settled_def Some tw option.case prod.case by (rule gate_operation)
qed (use assms in \<open>simp add: handler_settled_def\<close>)

lemma gate_step:
  assumes ok: "server_ok (passed c) s" "gate_ok c evs s" and ev: "ev \<in> set evs"
  shows "gate_ok c evs (server_happens c ev s)"
proof (cases ev)
  case (S_message i f)
  have "quiet (bindA (sendS c i (Out_error (js ''frame_too_large'') None)) (\<lambda>_. close_socket i 1009))"
    unfolding close_socket_def by (intro quiet_rules)
  note over = gate_quiet [OF this ok(2)]
  have "heard evs i (frame_raw f)" using ev S_message by (auto simp: heard_def)
  then have "gate_ok c evs (s\<lparr>sv_queue := sv_queue s @ [T_message i (frame_raw f)]\<rparr>)"
    by (intro gate_same [OF ok(2)]) auto
  then show ?thesis using over ok(2) by (simp add: S_message runS_def on_socket_message_def modify_def)
next
  case (S_closed i)
  have "gate_ok c evs (s\<lparr>sv_helloTimers := ts, sv_queue := sv_queue s @ [T_close i]\<rparr>)" for ts
    by (rule gate_same [OF ok(2)]) auto
  then show ?thesis using ok(2) by (simp add: S_closed runS_def on_socket_close_def modify_def)
next
  case (S_start path)
  have "gate_ok c evs (s\<lparr>sv_running := True, sv_heartbeat := True\<rparr>)" by (rule gate_same [OF ok(2)]) simp_all
  then show ?thesis using ok(2)
    by (simp add: S_start runS_def start_server_def bindA_def readA_def thenA_def assertA_def modify_def ret_def throw_def)
next
  case S_stop
  have "gate_ok c evs ((set_sock i (\<lambda>k. k\<lparr>co_ready := False\<rparr>) s)\<lparr>sv_active := a, sv_activeGeneration := g, sv_log := l,
      sv_running := r, sv_helloTimers := ts, sv_heartbeat := b\<rparr>)" for i a g l r ts b
    by (rule gate_same [OF ok(2)]) simp_all
  moreover have "gate_ok c evs (s\<lparr>sv_running := r, sv_helloTimers := ts, sv_heartbeat := b\<rparr>)" for r ts b
    by (rule gate_same [OF ok(2)]) simp_all
  ultimately show ?thesis
    by (simp add: S_stop runS_def stop_server_def bindA_def readA_def thenA_def ret_def modify_def close_socket_def
        emitS_def split: option.split)
next
  case (S_request path header upgraded)
  have "gate_ok c evs (opened c s)"
    by (rule gate_same [OF ok(2)]) (simp_all add: opened_at, simp_all add: opened_def)
  then have "gate_ok c evs (snd (open_connection c s))"
    using open_connection_result [of c s] core_only_gate by (auto simp: core_only_def)
  then show ?thesis using ok(2) by (simp add: S_request runS_def on_request_def bindA_def readA_def ret_def)
qed (use ok gate_next gate_settled gate_quiet [OF quiet_events(1) ok(2)] gate_quiet [OF quiet_events(2) ok(2)]
    in \<open>simp_all add: runS_def\<close>)

text \<open>The run of the server under a list of events.\<close>

interpretation gated: safe_system "\<lambda>s. s = new_server" "server_step c (\<lambda>ev. ev \<in> set evs)"
  "\<lambda>s. server_ok (passed c) s \<and> gate_ok c evs s"
proof unfold_locales
  fix s
  assume "s = new_server"
  then show "server_ok (passed c) s \<and> gate_ok c evs s"
    using server_ok_start by (simp add: gate_ok_def sock_at_def new_server_def)
next
  fix s t
  assume ok: "server_ok (passed c) s \<and> gate_ok c evs s" and step: "server_step c (\<lambda>ev. ev \<in> set evs) s t"
  from step obtain ev where "ev \<in> set evs" "t = server_happens c ev s" by (auto elim: server_stepE)
  then show "server_ok (passed c) t \<and> gate_ok c evs t"
    using ok server_ok_step [OF _ step] gate_step by blast
qed

lemma gate_run: "server_ok (passed c) (server_run c evs new_server) \<and> gate_ok c evs (server_run c evs new_server)"
  by (rule gated.reached_ok [OF refl]) (rule server_run_steps, simp)

end
