(* ===== verification/Connector_Props.thy ===== *)
theory Connector_Props
  imports Connector_Gate
begin

text \<open>
  The properties of the connector server: the typing of its messages, the single reviewed
  connector, and the settlement of the generations before it.
\<close>

section \<open>Settled generations\<close>

text \<open>The operation under way settles socket \<open>j\<close>.\<close>

definition settling :: "(transition \<times> cn_wait) option \<Rightarrow> nat \<Rightarrow> bool" where
  "settling current j \<longleftrightarrow>
     (\<exists>t i h. current = Some (t, V_takeover i h j)) \<or> (\<exists>t. current = Some (t, V_settle j))"

definition settled_ok :: "server \<Rightarrow> bool" where
  "settled_ok s \<longleftrightarrow>
     (\<forall>j. generation_of s j \<noteq> 0 \<longrightarrow>
        sv_active s = Some j \<or> co_disconnectHandled (sock_at s j) \<or> settling (sv_current s) j)
     \<and> (\<forall>j. settling (sv_current s) j \<longrightarrow> sv_active s = None)"

lemma settling_simps [simp]:
  "\<not> settling None j" "\<not> settling (Some (t, V_handler)) j"
  "settling (Some (t, V_settle i)) j \<longleftrightarrow> i = j" "settling (Some (t, V_takeover i h k)) j \<longleftrightarrow> k = j"
  by (auto simp: settling_def)

lemma settled_same:
  assumes "settled_ok s" "\<And>i. generation_of s' i = generation_of s i"
    "\<And>i. co_disconnectHandled (sock_at s i) \<Longrightarrow> generation_of s i \<noteq> 0 \<Longrightarrow> co_disconnectHandled (sock_at s' i)"
    "sv_active s' = sv_active s" "sv_current s' = sv_current s"
  shows "settled_ok s'"
  using assms by (simp add: settled_ok_def) blast

lemma core_only_settled: "core_only settled_ok"
  by (rule core_onlyI, simp add: settled_ok_def)

text \<open>Any event but a stop, and but the failure of \<open>onDisconnected\<close>: the other handlers of the
  daemon may fail.\<close>

definition calm_event :: "server \<Rightarrow> connector_event \<Rightarrow> bool" where
  "calm_event s ev \<longleftrightarrow>
     (case ev of
        S_stop \<Rightarrow> False
      | S_settled (Some e) \<Rightarrow> (\<forall>j. \<not> settling (sv_current s) j)
      | _ \<Rightarrow> True)"

inductive calm_step :: "connector_cfg \<Rightarrow> server \<Rightarrow> server \<Rightarrow> bool" for c where
  calm: "calm_event s ev \<Longrightarrow> calm_step c s (server_happens c ev s)"

inductive_cases calm_stepE: "calm_step c s s'"

fun calm_run :: "connector_cfg \<Rightarrow> connector_event list \<Rightarrow> server \<Rightarrow> bool" where
  "calm_run c [] s \<longleftrightarrow> True"
| "calm_run c (ev # evs) s \<longleftrightarrow> calm_event s ev \<and> calm_run c evs (server_happens c ev s)"

lemma calm_run_steps: "calm_run c evs s \<Longrightarrow> rtranclp (calm_step c) s (server_run c evs s)"
  by (induction evs arbitrary: s) (auto intro: converse_rtranclp_into_rtranclp calm_step.calm)

lemma not_settling: "(\<forall>j. \<not> settling w j) \<longleftrightarrow> (case w of None \<Rightarrow> True | Some (t, w) \<Rightarrow> w = V_handler)"
proof (cases w)
  case (Some x)
  obtain t v where "x = (t, v)" by (rule prod.exhaust)
  then show ?thesis using Some by (cases v) auto
qed simp

lemma settled_exposed:
  assumes "settled_ok s" "sv_current s = None" "sv_active s = None"
  shows "settled_ok (snd (expose c t i h s))"
proof -
  obtain s' where run: "expose c t i h s = (Inr Suspended, s'\<lparr>sv_current := Some (t, V_handler)\<rparr>)"
    and core: "same_core (exposed i h s) s'"
    using expose_result by metis
  have "settled_ok ((exposed i h s)\<lparr>sv_current := Some (t, V_handler)\<rparr>)"
    using assms by (auto simp: settled_ok_def exposed_def)
  moreover have "same_core ((exposed i h s)\<lparr>sv_current := Some (t, V_handler)\<rparr>) (s'\<lparr>sv_current := Some (t, V_handler)\<rparr>)"
    using core by (simp add: same_core_def)
  ultimately show ?thesis using core_only_settled unfolding run core_only_def by auto
qed

lemma settled_waiting:
  "settled_ok s \<Longrightarrow> sv_current s = None \<Longrightarrow> settled_ok (s\<lparr>sv_log := l, sv_current := Some (t, V_handler)\<rparr>)"
  by (simp add: settled_ok_def)

text \<open>Socket \<open>i\<close> has lost its place; every other one is settled.\<close>

definition lost :: "nat \<Rightarrow> server \<Rightarrow> bool" where
  "lost i s \<longleftrightarrow> sv_current s = None \<and> sv_active s = None
     \<and> (\<forall>j. j \<noteq> i \<longrightarrow> generation_of s j \<noteq> 0 \<longrightarrow> co_disconnectHandled (sock_at s j))"

lemma lost_taken_over:
  assumes "settled_ok s" "socks_ok good s" "sv_current s = None" "sv_active s = Some i"
  shows "lost i (fence i s)" "lost i (taken_over i s)"
proof -
  have "j \<noteq> i \<Longrightarrow> generation_of s j \<noteq> 0 \<Longrightarrow> co_disconnectHandled (sock_at s j)" for j
    using assms by (auto simp: settled_ok_def)
  then show "lost i (fence i s)" "lost i (taken_over i s)"
    using taken_over_ok [OF assms(2,4)] fence_ok(3-5) [OF assms(2), of i] assms(3,4)
    by (auto simp: lost_def fence_def)
qed

lemma lost_handled:
  assumes "lost i s"
  shows "settled_ok (set_sock i (\<lambda>k. k\<lparr>co_disconnectHandled := True\<rparr>) s)"
    "co_disconnectHandled (sock_at s i) \<Longrightarrow> settled_ok s"
proof -
  have other: "co_disconnectHandled (sock_at s j)" if "j \<noteq> i" "generation_of s j \<noteq> 0" for j
    using that assms by (simp add: lost_def)
  let ?s = "set_sock i (\<lambda>k. k\<lparr>co_disconnectHandled := True\<rparr>) s"
  have "co_disconnectHandled (sock_at ?s j)" if "generation_of ?s j \<noteq> 0" for j
  proof (cases "j = i")
    case True
    then have "generation_of s i \<noteq> 0" using that by (simp split: if_splits)
    then show ?thesis using True in_length by simp
  next
    case False
    then show ?thesis using that other by simp
  qed
  then show "settled_ok ?s" using assms unfolding settled_ok_def lost_def by simp
  show "co_disconnectHandled (sock_at s i) \<Longrightarrow> settled_ok s"
    using other assms by (metis lost_def settled_ok_def settling_simps(1))
qed

lemma lost_settling:
  assumes "settled_ok s" "settling (sv_current s) i"
  shows "lost i (s\<lparr>sv_current := None\<rparr>)"
proof -
  have one: "settling (sv_current s) j \<Longrightarrow> j = i" for j using assms(2) by (auto simp: settling_def)
  have none: "sv_active s = None" using assms unfolding settled_ok_def by blast
  have "co_disconnectHandled (sock_at s j)" if "j \<noteq> i" "generation_of s j \<noteq> 0" for j
  proof -
    have "sv_active s = Some j \<or> co_disconnectHandled (sock_at s j) \<or> settling (sv_current s) j"
      using assms(1) that(2) by (simp add: settled_ok_def)
    then show ?thesis using none one that(1) by auto
  qed
  then show ?thesis using none by (simp add: lost_def)
qed

lemma settled_settle:
  assumes "lost i s" "w = V_settle i \<or> (\<exists>k h. w = V_takeover k h i)"
    and "\<And>s. settled_ok s \<Longrightarrow> sv_current s = None \<Longrightarrow> sv_active s = None \<Longrightarrow> settled_ok (snd (onward s))"
  shows "settled_ok (snd (settle t w i onward s))"
proof -
  have "settled_ok (s\<lparr>sv_log := l, sv_current := Some (t, w)\<rparr>)" for l
    using assms(1,2) by (auto simp: lost_def settled_ok_def)
  then show ?thesis
    using lost_handled [OF assms(1)] assms(1,3) by (auto simp: settle_result lost_def)
qed

lemma settled_quiet: "quiet m \<Longrightarrow> settled_ok s \<Longrightarrow> settled_ok (snd (m s))"
  by (rule core_run [OF core_only_settled])

lemma settled_refuse: "settled_ok s \<Longrightarrow> settled_ok (snd (refuse c i code s))"
  unfolding refuse_def close_socket_def by (intro settled_quiet quiet_rules)

lemma settled_hello:
  assumes ok: "settled_ok s" "idle_ok good s"
  shows "settled_ok (snd (acceptHello c t i h s))"
proof -
  have socks: "socks_ok good s" and cur: "sv_current s = None" using ok(2) by (simp_all add: idle_ok_def)
  from socks show ?thesis
  proof (cases rule: acceptHello_cases [where c = c and t = t and i = i and h = h])
    case (refused code u)
    then have "settled_ok u" using ok(1) by (auto intro: settled_same)
    then show ?thesis using settled_refuse refused by simp
  next
    case (takeover old)
    show ?thesis unfolding takeover(1)
      by (rule settled_settle [OF lost_taken_over(2) [OF ok(1) socks cur takeover(2)]])
        (auto intro: settled_exposed)
  qed (use ok cur settled_exposed in auto)
qed

lemma settled_message:
  assumes ok: "settled_ok s" "idle_ok good s"
  shows "settled_ok (snd (handleMessage c i raw s))"
proof (cases "parseConnectorMessage (cc_num c) raw")
  case (Inl e)
  then show ?thesis using ok by (simp add: handleMessage_def Let_def throw_def)
next
  case (Inr m)
  have cur: "sv_current s = None" using ok(2) by (simp add: idle_ok_def)
  show ?thesis
  proof (cases m)
    case (In_hello h)
    then show ?thesis using settled_hello [OF ok] Inr by (simp add: handleMessage_def Let_def)
  next
    case In_pong
    then show ?thesis using ok(1) Inr
      by (auto simp: handleMessage_def Let_def bindA_def readA_def throw_def tickS_def thenA_def modify_def ret_def
          intro: settled_same)
  qed (use Inr ok(1) settled_waiting [OF ok(1) cur] in
      \<open>auto simp: handleMessage_def Let_def bindA_def readA_def throw_def handle_job_message_def thenA_def
        emitS_def modify_def waitS_def ret_def\<close>)
qed

lemma settled_close:
  assumes ok: "settled_ok s" "idle_ok good s"
  shows "settled_ok (snd (socketClosed i s))"
proof -
  have socks: "socks_ok good s" and cur: "sv_current s = None" using ok(2) by (simp_all add: idle_ok_def)
  have run: "socketClosed i s = (if \<not> isActiveSocket s i \<and> generation_of s i = 0 then (Inr Finished, s)
      else settle (T_close i) (V_settle i) i (ret Finished) (fence i s))"
    by (simp add: socketClosed_def bindA_def readA_def thenA_def modify_def ret_def)
  show ?thesis
  proof (cases "sv_active s = Some i")
    case True
    from settled_settle [OF lost_taken_over(1) [OF ok(1) socks cur True], of "V_settle i" "ret Finished"]
    show ?thesis using True by (simp add: run active_iff(1) [OF socks] ret_def)
  next
    case False
    then have "fence i s = s" by (simp add: fence_def active_iff(1) [OF socks])
    then show ?thesis using ok False cur
      by (auto simp: run active_iff(1) [OF socks] settle_result settled_ok_def ret_def)
  qed
qed

lemma settled_run_operation:
  assumes "settled_ok (snd (m (s\<lparr>sv_current := None\<rparr>)))"
  shows "settled_ok (run_operation c t m s)"
proof -
  have "quiet (operation_failed c t e)" for e
    unfolding operation_failed_def by (cases t) (auto intro: quiet_rules)
  then have "settled_ok s' \<Longrightarrow> settled_ok (snd (operation_failed c t e s'))" for e s'
    by (rule settled_quiet)
  then show ?thesis using assms by (auto simp: run_operation_def split: prod.split sum.split)
qed

lemma settled_answer:
  assumes "settled_ok s" "server_ok good s"
  shows "settled_ok (handler_settled c None s)"
proof (cases "sv_current s")
  case (Some tw)
  obtain t w where tw: "tw = (t, w)" by (rule prod.exhaust)
  show ?thesis
  proof (cases w)
    case V_handler
    have "settled_ok (s\<lparr>sv_current := None\<rparr>)" using V_handler Some tw assms(1) by (simp add: settled_ok_def)
    then show ?thesis using Some tw V_handler
      by (auto simp: handler_settled_def ret_def intro!: settled_run_operation)
  next
    case (V_settle i)
    then have "settling (sv_current s) i" using Some tw by simp
    from lost_handled(1) [OF lost_settling [OF assms(1) this]] show ?thesis using Some tw V_settle
      by (auto simp: handler_settled_def thenA_def bindA_def modify_def ret_def intro!: settled_run_operation)
  next
    case (V_takeover i h old)
    then have "settling (sv_current s) old" using Some tw by simp
    note lost = lost_settling [OF assms(1) this]
    then show ?thesis using lost_handled(1) [OF lost] Some tw V_takeover settled_exposed
      by (auto simp: handler_settled_def thenA_def bindA_def modify_def ret_def lost_def intro!: settled_run_operation)
  qed
qed (use assms(1) in \<open>simp add: handler_settled_def\<close>)

lemma settled_failure:
  assumes "settled_ok s" "\<forall>j. \<not> settling (sv_current s) j"
  shows "settled_ok (handler_settled c (Some e) s)"
proof (cases "sv_current s")
  case (Some tw)
  then obtain t where tw: "tw = (t, V_handler)" using assms(2) by (auto simp: not_settling)
  have "settled_ok (s\<lparr>sv_current := None\<rparr>)" using Some tw assms(1) by (simp add: settled_ok_def)
  then show ?thesis using Some tw
    by (simp add: handler_settled_def) (rule settled_run_operation, simp add: throw_def)
qed (use assms(1) in \<open>simp add: handler_settled_def\<close>)

definition connector_ok :: "connector_cfg \<Rightarrow> server \<Rightarrow> bool" where
  "connector_ok c s \<longleftrightarrow> server_ok (passed c) s \<and> settled_ok s"

lemma settled_next:
  assumes "server_ok (passed c) s" "settled_ok s"
  shows "settled_ok (next_operation c s)"
proof (cases "sv_current s = None \<and> sv_queue s \<noteq> []")
  case True
  then obtain t rest where q: "sv_queue s = t # rest" "sv_current s = None" by (cases "sv_queue s") auto
  have idle: "idle_ok (passed c) (s\<lparr>sv_queue := rest, sv_current := None\<rparr>)"
    using assms(1) q by (simp add: server_ok_def idle_ok_def socks_ok_def)
  have settled: "settled_ok (s\<lparr>sv_queue := rest, sv_current := None\<rparr>)"
    by (rule settled_same [OF assms(2)]) (simp_all add: q)
  show ?thesis
    using q settled_message [OF settled idle] settled_close [OF settled idle]
    by (cases t) (auto simp: next_operation_def intro!: settled_run_operation)
next
  case False
  then show ?thesis using assms(2) by (auto simp: next_operation_def split: option.split list.split)
qed

lemma settled_open:
  assumes "settled_ok s"
  shows "settled_ok (snd (open_connection c s))"
proof -
  have "settled_ok (opened c s)"
    by (rule settled_same [OF assms]) (simp_all add: opened_at, simp_all add: opened_def)
  then show ?thesis using open_connection_result [of c s] core_only_settled by (auto simp: core_only_def)
qed

lemma connector_ok_step:
  assumes ok: "connector_ok c s" and step: "calm_step c s s'"
  shows "connector_ok c s'"
proof -
  have srv: "server_ok (passed c) s" and set: "settled_ok s" using ok by (simp_all add: connector_ok_def)
  obtain ev where s': "s' = server_happens c ev s" and calm: "calm_event s ev" using step by (auto elim: calm_stepE)
  have any: "server_step c (\<lambda>_. True) s s'" unfolding s' by (rule server_step.happens) simp
  have "settled_ok (server_happens c ev s)"
  proof (cases ev)
    case (S_message i f)
    have "quiet (bindA (sendS c i (Out_error (js ''frame_too_large'') None)) (\<lambda>_. close_socket i 1009))"
      unfolding close_socket_def by (intro quiet_rules)
    note over = settled_quiet [OF this set]
    have "settled_ok (s\<lparr>sv_queue := q\<rparr>)" for q by (rule settled_same [OF set]) simp_all
    then show ?thesis using over set by (simp add: S_message runS_def on_socket_message_def modify_def)
  next
    case (S_closed i)
    have "settled_ok (s\<lparr>sv_helloTimers := ts, sv_queue := q\<rparr>)" for ts q by (rule settled_same [OF set]) simp_all
    then show ?thesis using set by (simp add: S_closed runS_def on_socket_close_def modify_def)
  next
    case (S_start path)
    have "settled_ok (s\<lparr>sv_running := True, sv_heartbeat := True\<rparr>)" by (rule settled_same [OF set]) simp_all
    then show ?thesis using set
      by (simp add: S_start runS_def start_server_def bindA_def readA_def thenA_def assertA_def modify_def ret_def throw_def)
  next
    case (S_request path header upgraded)
    then show ?thesis using set settled_open [OF set] by (simp add: runS_def on_request_def bindA_def readA_def ret_def)
  next
    case (S_settled err)
    then show ?thesis using calm settled_answer [OF set srv] settled_failure [OF set]
      by (cases err) (simp_all add: calm_event_def)
  qed (use set calm settled_next [OF srv set] settled_quiet [OF quiet_events(1) set]
      settled_quiet [OF quiet_events(2) set] in \<open>auto simp: runS_def calm_event_def\<close>)
  then show ?thesis using server_ok_step [OF srv any] s' by (simp add: connector_ok_def)
qed

lemma connector_ok_start: "s = new_server \<Longrightarrow> connector_ok c s"
  using server_ok_start by (simp add: connector_ok_def settled_ok_def sock_at_def new_server_def)

interpretation calm_connector: safe_system "\<lambda>s. s = new_server" "calm_step c" "connector_ok c"
  by unfold_locales (rule connector_ok_start, assumption, rule connector_ok_step)

section \<open>Messages are typed\<close>

text \<open>What the reader lets through, and the message it makes of it.\<close>

definition has_text :: "jobject \<Rightarrow> string \<Rightarrow> jstring \<Rightarrow> bool" where
  "has_text data key s \<longleftrightarrow> jget (js key) data = Some (JStr s)"

definition of_job :: "jobject \<Rightarrow> string \<Rightarrow> jstring \<Rightarrow> jstring \<Rightarrow> bool" where
  "of_job data type jobId leaseId \<longleftrightarrow> has_text data ''type'' (js type) \<and> has_text data ''jobId'' jobId
     \<and> has_text data ''leaseId'' leaseId \<and> jobId \<noteq> [] \<and> leaseId \<noteq> []"

inductive inbound_read :: "jobject \<Rightarrow> inbound \<Rightarrow> bool" where
  hello: "has_text data ''type'' (js ''hello'') \<Longrightarrow>
    jget (js ''protocolVersion'') data = Some (JNum (js ''1'')) \<Longrightarrow>
    has_text data ''connectorId'' (he_connectorId h) \<Longrightarrow> \<not> js_blank (he_connectorId h) \<Longrightarrow>
    has_text data ''backend'' (js ''hermes'') \<Longrightarrow>
    jget (js ''implementation'') data = Some (JObj implementation) \<Longrightarrow>
    has_text implementation ''name'' (he_name h) \<Longrightarrow> has_text implementation ''version'' (he_version h) \<Longrightarrow>
    has_text implementation ''runtimeVersion'' (he_runtimeVersion h) \<Longrightarrow>
    jget (js ''capabilities'') data = Some (JObj capabilities) \<Longrightarrow>
    jget (js ''cancel'') capabilities = Some (JBool True) \<Longrightarrow>
    jget (js ''finalResult'') capabilities = Some (JBool True) \<Longrightarrow> inbound_read data (In_hello h)"
| accepted: "of_job data ''accepted'' jobId leaseId \<Longrightarrow> inbound_read data (In_accepted jobId leaseId)"
| result: "of_job data ''result'' jobId leaseId \<Longrightarrow> has_text data ''text'' text \<Longrightarrow>
    inbound_read data (In_result jobId leaseId text)"
| failed: "of_job data ''failed'' jobId leaseId \<Longrightarrow> has_text data ''error'' err \<Longrightarrow>
    inbound_read data (In_failed jobId leaseId err)"
| cancelled: "of_job data ''cancelled'' jobId leaseId \<Longrightarrow> jget (js ''executionDisposition'') data = None \<Longrightarrow>
    inbound_read data (In_cancelled jobId leaseId False)"
| not_started: "of_job data ''cancelled'' jobId leaseId \<Longrightarrow> has_text data ''executionDisposition'' (js ''not_started'') \<Longrightarrow>
    inbound_read data (In_cancelled jobId leaseId True)"
| pong: "has_text data ''type'' (js ''pong'') \<Longrightarrow> inbound_read data In_pong"

lemma texts:
  "json_text v = Some s \<longleftrightarrow> v = Some (JStr s)" "json_text v = None \<longleftrightarrow> (\<nexists>s. v = Some (JStr s))"
  "non_empty_text v = Some s \<longleftrightarrow> v = Some (JStr s) \<and> s \<noteq> []"
  "asNonEmptyString v = Some s \<longleftrightarrow> v = Some (JStr s) \<and> \<not> js_blank s"
  by (auto simp: json_text_def non_empty_text_def asNonEmptyString_def split: option.splits json.splits)

lemma jfield_text: "jfield v key = Some x \<longleftrightarrow> (\<exists>kvs. v = Some (JObj kvs) \<and> jget (js key) kvs = Some x)"
  by (auto simp: jfield_def split: option.splits json.splits)

lemma js_one: "js_num CONNECTOR_PROTOCOL_VERSION = JNum (js ''1'')"
  by (simp add: js_num_def CONNECTOR_PROTOCOL_VERSION_def js_def js_decimal.simps)

inductive_cases typed_messageE: "inbound_read data m"

lemmas message_readers = read_hello_def read_job_message_def Let_def js_one texts jfield_text is_object_def
  has_text_def of_job_def

lemma typed_type:
  assumes "inbound_read data m"
  shows "\<exists>type. has_text data ''type'' (js type) \<and> type =
    (case m of In_hello h \<Rightarrow> ''hello'' | In_accepted j l \<Rightarrow> ''accepted'' | In_result j l t \<Rightarrow> ''result''
       | In_failed j l e \<Rightarrow> ''failed'' | In_cancelled j l b \<Rightarrow> ''cancelled'' | In_pong \<Rightarrow> ''pong'')"
  using assms by cases (auto simp: of_job_def)

lemma read_hello_typed:
  "has_text data ''type'' (js ''hello'') \<Longrightarrow> read_hello data = Inr m \<Longrightarrow> inbound_read data m"
  by (auto simp: message_readers split: option.splits if_splits prod.splits intro!: inbound_read.hello)

lemma typed_read_hello:
  assumes "inbound_read data (In_hello h)"
  shows "read_hello data = Inr (In_hello h)"
  using assms
proof cases
  case (hello implementation capabilities)
  then have "asNonEmptyString (jget (js ''connectorId'') data) = Some (he_connectorId h)"
    "json_text (jfield (jget (js ''implementation'') data) ''name'') = Some (he_name h)"
    "json_text (jfield (jget (js ''implementation'') data) ''version'') = Some (he_version h)"
    "json_text (jfield (jget (js ''implementation'') data) ''runtimeVersion'') = Some (he_runtimeVersion h)"
    by (simp_all add: texts has_text_def jfield_def)
  moreover have "jfield (jget (js ''capabilities'') data) ''cancel'' = Some (JBool True)"
    "jfield (jget (js ''capabilities'') data) ''finalResult'' = Some (JBool True)"
    "is_object (jget (js ''implementation'') data)" "is_object (jget (js ''capabilities'') data)"
    "jget (js ''protocolVersion'') data = Some (js_num CONNECTOR_PROTOCOL_VERSION)"
    "jget (js ''backend'') data = Some (JStr (js ''hermes''))"
    using hello by (simp_all add: js_one is_object_def has_text_def jfield_def)
  ultimately show ?thesis by (simp only: read_hello_def Let_def) simp
qed

lemma read_job_typed:
  assumes "has_text data ''type'' (js type)" "type \<in> {''accepted'', ''result'', ''failed'', ''cancelled''}"
    and run: "read_job_message (js type) data = Inr m"
  shows "inbound_read data m"
proof -
  obtain jobId leaseId where ids: "non_empty_text (jget (js ''jobId'') data) = Some jobId"
    "non_empty_text (jget (js ''leaseId'') data) = Some leaseId"
    using run by (auto simp: read_job_message_def split: option.splits)
  then have job: "of_job data type jobId leaseId" using assms(1) by (simp add: of_job_def has_text_def texts)
  note run' = run [unfolded read_job_message_def ids prod.case option.case]
  from assms(2) consider "type = ''accepted''" | "type = ''result''" | "type = ''failed''" | "type = ''cancelled''"
    by auto
  then show ?thesis
  proof cases
    case 1
    then show ?thesis using run' job by (auto intro: inbound_read.accepted)
  next
    case 2
    with run' obtain body where "jget (js ''text'') data = Some (JStr body)" "m = In_result jobId leaseId body"
      by (auto split: option.splits json.splits)
    then show ?thesis using 2 job by (auto simp: has_text_def intro: inbound_read.result)
  next
    case 3
    with run' obtain err where "jget (js ''error'') data = Some (JStr err)" "m = In_failed jobId leaseId err"
      by (auto split: option.splits json.splits)
    then show ?thesis using 3 job by (auto simp: has_text_def intro: inbound_read.failed)
  next
    case 4
    with run' have "jget (js ''executionDisposition'') data = None \<and> m = In_cancelled jobId leaseId False
        \<or> has_text data ''executionDisposition'' (js ''not_started'') \<and> m = In_cancelled jobId leaseId True"
      by (auto simp: has_text_def split: option.splits if_splits)
    then show ?thesis using 4 job by (auto intro: inbound_read.cancelled inbound_read.not_started)
  qed
qed

lemma typed_read_job:
  assumes "inbound_read data m" "has_text data ''type'' (js type)" "type \<in> {''accepted'', ''result'', ''failed'', ''cancelled''}"
  shows "read_job_message (js type) data = Inr m"
proof -
  have non: "non_empty_text (jget (js key) data) = Some s" if "has_text data key s" "s \<noteq> []" for key s
    using that by (simp add: texts has_text_def)
  from assms(1) show ?thesis
    by cases (use assms(2,3) non in \<open>auto simp: read_job_message_def of_job_def has_text_def\<close>)
qed

lemma parse_reads:
  "parseConnectorMessage num raw = Inr m \<longleftrightarrow>
     (\<exists>data. parseJsonObject num raw = Inr data \<and> inbound_read data m)"
proof (cases "parseJsonObject num raw")
  case (Inr data)
  have "(case json_text (jget (js ''type'') data) of
             None \<Rightarrow> Inl Cn_no_type
           | Some type \<Rightarrow>
               if type = js ''hello'' then read_hello data
               else if type \<in> {js ''accepted'', js ''result'', js ''failed'', js ''cancelled''}
               then read_job_message type data
               else if type = js ''pong'' then Inr In_pong
               else Inl (Cn_unknown_type type)) = Inr m \<longleftrightarrow> inbound_read data m" (is "?read = Inr m \<longleftrightarrow> _")
  proof
    assume "?read = Inr m"
    then show "inbound_read data m"
      using read_hello_typed [of data m] read_job_typed [of data _ m]
      by (auto simp: texts has_text_def split: option.splits if_splits intro: inbound_read.pong)
  next
    assume typed: "inbound_read data m"
    from typed_type [OF this] show "?read = Inr m"
      using typed_read_hello typed_read_job [OF typed] typed
      by (cases m) (auto simp: json_text_def has_text_def)
  qed
  then show ?thesis by (simp add: parseConnectorMessage_def Inr)
qed (simp add: parseConnectorMessage_def)

text \<open>The type \<open>ConnectorInboundMessage\<close> of \<open>types.ts\<close>, as it is declared: the fields a message
  must have, those it may have, and their types.\<close>

definition field :: "jobject \<Rightarrow> string \<Rightarrow> (json \<Rightarrow> bool) \<Rightarrow> bool" where
  "field data key type = (case jget (js key) data of None \<Rightarrow> False | Some v \<Rightarrow> type v)"

definition field_opt :: "jobject \<Rightarrow> string \<Rightarrow> (json \<Rightarrow> bool) \<Rightarrow> bool" where
  "field_opt data key type = (case jget (js key) data of None \<Rightarrow> True | Some v \<Rightarrow> type v)"

definition a_string :: "json \<Rightarrow> bool" where
  "a_string v = (case v of JStr _ \<Rightarrow> True | _ \<Rightarrow> False)"

definition a_number :: "json \<Rightarrow> bool" where
  "a_number v = (case v of JNum _ \<Rightarrow> True | _ \<Rightarrow> False)"

definition a_boolean :: "json \<Rightarrow> bool" where
  "a_boolean v = (case v of JBool _ \<Rightarrow> True | _ \<Rightarrow> False)"

definition an_object :: "(jobject \<Rightarrow> bool) \<Rightarrow> json \<Rightarrow> bool" where
  "an_object P v = (case v of JObj x \<Rightarrow> P x | _ \<Rightarrow> False)"

definition ConnectorImplementation :: "json \<Rightarrow> bool" where
  "ConnectorImplementation = an_object (\<lambda>x. field x ''name'' a_string \<and> field x ''version'' a_string
     \<and> field_opt x ''runtimeVersion'' a_string)"

definition ConnectorCapabilities :: "json \<Rightarrow> bool" where
  "ConnectorCapabilities = an_object (\<lambda>x. field x ''cancel'' a_boolean \<and> field x ''finalResult'' a_boolean)"

definition typed_as :: "jobject \<Rightarrow> string \<Rightarrow> bool" where
  "typed_as data type \<longleftrightarrow> field data ''type'' (\<lambda>v. v = JStr (js type))"

definition ConnectorHello :: "jobject \<Rightarrow> bool" where
  "ConnectorHello data \<longleftrightarrow> typed_as data ''hello'' \<and> field data ''protocolVersion'' a_number
     \<and> field data ''connectorId'' a_string \<and> field data ''backend'' (\<lambda>v. v = JStr (js ''hermes''))
     \<and> field data ''implementation'' ConnectorImplementation \<and> field data ''capabilities'' ConnectorCapabilities"

definition with_ids :: "jobject \<Rightarrow> bool" where
  "with_ids data \<longleftrightarrow> field data ''jobId'' a_string \<and> field data ''leaseId'' a_string"

definition ConnectorInboundMessage :: "jobject \<Rightarrow> bool" where
  "ConnectorInboundMessage data \<longleftrightarrow> ConnectorHello data
     \<or> typed_as data ''accepted'' \<and> with_ids data
     \<or> typed_as data ''result'' \<and> with_ids data \<and> field data ''text'' a_string
     \<or> typed_as data ''failed'' \<and> with_ids data \<and> field data ''error'' a_string
         \<and> field_opt data ''retryable'' a_boolean
     \<or> typed_as data ''cancelled'' \<and> with_ids data
         \<and> field_opt data ''executionDisposition'' (\<lambda>v. v = JStr (js ''not_started''))
     \<or> typed_as data ''pong'' \<and> field_opt data ''timestamp'' a_number"

text \<open>What the reader asks beyond it: the version of the protocol, an id that is not blank, the
  version of the runtime, which the type leaves optional, both capabilities, and ids that are not
  empty. And what it does not look at: the two optional fields of a failure and of a pong.\<close>

definition demands :: "jobject \<Rightarrow> bool" where
  "demands data \<longleftrightarrow>
     (if typed_as data ''hello'' then
        field data ''protocolVersion'' (\<lambda>v. v = js_num CONNECTOR_PROTOCOL_VERSION)
        \<and> field data ''connectorId'' (\<lambda>v. asNonEmptyString (Some v) \<noteq> None)
        \<and> field data ''implementation'' (an_object (\<lambda>x. field x ''runtimeVersion'' a_string))
        \<and> field data ''capabilities'' (an_object (\<lambda>x. field x ''cancel'' (\<lambda>w. w = JBool True) \<and> field x ''finalResult'' (\<lambda>w. w = JBool True)))
      else typed_as data ''pong''
        \<or> field data ''jobId'' (\<lambda>v. v \<noteq> JStr []) \<and> field data ''leaseId'' (\<lambda>v. v \<noteq> JStr []))"

definition unread_typed :: "jobject \<Rightarrow> bool" where
  "unread_typed data \<longleftrightarrow>
     (if typed_as data ''failed'' then field_opt data ''retryable'' a_boolean
      else if typed_as data ''pong'' then field_opt data ''timestamp'' a_number
      else True)"

lemmas interface_defs = ConnectorInboundMessage_def ConnectorHello_def ConnectorImplementation_def
  ConnectorCapabilities_def with_ids_def demands_def unread_typed_def

lemma typed_iff:
  "a_string v \<longleftrightarrow> (\<exists>s. v = JStr s)" "a_number v \<longleftrightarrow> (\<exists>n. v = JNum n)" "a_boolean v \<longleftrightarrow> (\<exists>b. v = JBool b)"
  "field data key P \<longleftrightarrow> (\<exists>v. jget (js key) data = Some v \<and> P v)"
  "field_opt data key P \<longleftrightarrow> (\<forall>v. jget (js key) data = Some v \<longrightarrow> P v)"
  "typed_as data type \<longleftrightarrow> jget (js ''type'') data = Some (JStr (js type))"
  "an_object Q v \<longleftrightarrow> (\<exists>x. v = JObj x \<and> Q x)"
  "(\<exists>s. asNonEmptyString (Some v) = Some s) \<longleftrightarrow> (\<exists>s. v = JStr s \<and> \<not> js_blank s)"
  by (auto simp: an_object_def asNonEmptyString_def a_string_def a_number_def a_boolean_def field_def field_opt_def typed_as_def
      split: json.splits option.splits)

lemma read_conforms:
  assumes "inbound_read data m"
  shows "demands data" "unread_typed data \<Longrightarrow> ConnectorInboundMessage data"
  using assms
  by (cases; auto simp: interface_defs typed_iff has_text_def of_job_def js_one)+

lemma conforms_read:
  assumes "ConnectorInboundMessage data" "demands data"
  shows "(\<exists>m. inbound_read data m) \<and> unread_typed data"
proof -
  have job: "of_job data type jobId leaseId"
    if "typed_as data type" "with_ids data" "type \<noteq> ''hello''" "type \<noteq> ''pong''"
      "jget (js ''jobId'') data = Some (JStr jobId)" "jget (js ''leaseId'') data = Some (JStr leaseId)"
    for type jobId leaseId
    using that assms(2) by (simp add: demands_def typed_iff of_job_def has_text_def)
  have ids: "\<exists>jobId leaseId. jget (js ''jobId'') data = Some (JStr jobId)
      \<and> jget (js ''leaseId'') data = Some (JStr leaseId)" if "with_ids data"
    using that by (auto simp: with_ids_def typed_iff)
  from assms(1) consider "ConnectorHello data" | "typed_as data ''accepted''" "with_ids data"
    | "typed_as data ''result''" "with_ids data" "field data ''text'' a_string"
    | "typed_as data ''failed''" "with_ids data" "field data ''error'' a_string" "field_opt data ''retryable'' a_boolean"
    | "typed_as data ''cancelled''" "with_ids data"
        "field_opt data ''executionDisposition'' (\<lambda>v. v = JStr (js ''not_started''))"
    | "typed_as data ''pong''" "field_opt data ''timestamp'' a_number"
    unfolding ConnectorInboundMessage_def by blast
  then show ?thesis
  proof cases
    case 1
    then have "typed_as data ''hello''" by (simp add: ConnectorHello_def)
    with assms(2) 1 obtain cid impl name version runtime caps where
      "has_text data ''connectorId'' cid" "\<not> js_blank cid" "has_text data ''backend'' (js ''hermes'')"
      "jget (js ''protocolVersion'') data = Some (JNum (js ''1''))"
      "jget (js ''implementation'') data = Some (JObj impl)" "has_text impl ''name'' name"
      "has_text impl ''version'' version" "has_text impl ''runtimeVersion'' runtime"
      "jget (js ''capabilities'') data = Some (JObj caps)" "jget (js ''cancel'') caps = Some (JBool True)"
      "jget (js ''finalResult'') caps = Some (JBool True)"
      by (auto simp: demands_def ConnectorHello_def ConnectorImplementation_def ConnectorCapabilities_def
          typed_iff has_text_def js_one)
    then have "inbound_read data (In_hello \<lparr>he_connectorId = cid, he_name = name, he_version = version,
        he_runtimeVersion = runtime\<rparr>)"
      using \<open>typed_as data ''hello''\<close> by (intro inbound_read.hello) (simp_all add: typed_iff has_text_def)
    then show ?thesis using \<open>typed_as data ''hello''\<close> by (auto simp: unread_typed_def typed_iff)
  next
    case 2
    then have "\<exists>m. inbound_read data m" using ids job [OF 2] inbound_read.accepted by auto blast
    then show ?thesis using 2(1) by (simp add: unread_typed_def typed_iff)
  next
    case 3
    then obtain body where "has_text data ''text'' body" by (auto simp: typed_iff has_text_def)
    then have "\<exists>m. inbound_read data m" using ids [OF 3(2)] job [OF 3(1,2)] inbound_read.result by auto blast
    then show ?thesis using 3(1) by (simp add: unread_typed_def typed_iff)
  next
    case 4
    then obtain err where "has_text data ''error'' err" by (auto simp: typed_iff has_text_def)
    then have "\<exists>m. inbound_read data m" using ids [OF 4(2)] job [OF 4(1,2)] inbound_read.failed by auto blast
    then show ?thesis using 4(1,4) by (simp add: unread_typed_def)
  next
    case 5
    then have "jget (js ''executionDisposition'') data = None \<or> has_text data ''executionDisposition'' (js ''not_started'')"
      by (cases "jget (js ''executionDisposition'') data") (auto simp: field_opt_def has_text_def)
    then have "\<exists>m. inbound_read data m"
      using ids [OF 5(2)] job [OF 5(1,2)] inbound_read.cancelled inbound_read.not_started by auto blast+
    then show ?thesis using 5(1) by (simp add: unread_typed_def typed_iff)
  next
    case 6
    then have "inbound_read data In_pong" by (simp add: typed_iff has_text_def inbound_read.pong)
    then show ?thesis using 6 by (auto simp: unread_typed_def typed_iff)
  qed
qed

text \<open>C29: The reader of connector messages against the type \<open>ConnectorInboundMessage\<close>. A message
  passes exactly as the rules of \<open>inbound_read\<close> say, and they differ from the type in two ways:
  a message that passes, and whose \<open>retryable\<close> (of a failure) or \<open>timestamp\<close> (of a pong) has its
  type too, which nobody checks, is one the type describes that meets the further demands of the
  reader (protocol version 1, both capabilities, non-blank and non-empty ids, and the runtime
  version that the type leaves optional); and conversely.\<close>

theorem connector_messages_are_typed:
  "(parseConnectorMessage num raw = Inr m \<longleftrightarrow>
      (\<exists>data. parseJsonObject num raw = Inr data \<and> inbound_read data m))
   \<and> ((\<exists>m. inbound_read data m) \<and> unread_typed data \<longleftrightarrow> ConnectorInboundMessage data \<and> demands data)"
  using parse_reads read_conforms conforms_read by blast

section \<open>The reviewed range\<close>

text \<open>C32: The comparison loops of the version gate decide the half-open interval of the lexicographic
  order on the version triplets: a version passes exactly when the three texts have triplets and
  the version's lies at or above the minimum and below the exclusive maximum.\<close>

theorem version_gate_is_half_open:
  "in_range version minimum maximumExclusive \<longleftrightarrow>
     (\<exists>v lo hi. parseSemverTriplet version = Some v \<and> parseSemverTriplet minimum = Some lo
        \<and> parseSemverTriplet maximumExclusive = Some hi \<and> version_le lo v \<and> \<not> version_le hi v)"
  by (auto simp: in_range_def versionAtLeast_iff versionLessThan_iff split: option.splits)

section \<open>One reviewed connector\<close>

text \<open>C30: At every moment at most one connector is ready, no two sockets share a generation, and over
  the socket of the active connector a hello was received with the id it goes by, which named the
  configured bridge with a bridge version and a runtime version inside the reviewed half-open
  ranges, whatever the order of messages, closes, timeouts, stops and answers of the daemon.\<close>

theorem one_reviewed_connector:
  fixes c :: connector_cfg and evs :: "connector_event list"
  defines "s \<equiv> server_run c evs new_server"
  shows "(\<forall>i j. co_ready (sock_at s i) \<longrightarrow> co_ready (sock_at s j) \<longrightarrow> i = j)
    \<and> inj_on (generation_of s) {i. generation_of s i \<noteq> 0}
    \<and> (\<forall>i. currentSocket s = Some i \<longrightarrow> (\<exists>f h. S_message i f \<in> set evs
        \<and> parseConnectorMessage (cc_num c) (frame_raw f) = Inr (In_hello h)
        \<and> co_connectorId (sock_at s i) = Some (he_connectorId h)
        \<and> he_name h = cc_bridgeImplementation c
        \<and> in_range (he_version h) (cc_bridgeMinimum c) (cc_bridgeMaximumExclusive c)
        \<and> in_range (he_runtimeVersion h) (cc_hermesMinimum c) (cc_hermesMaximumExclusive c)))"
proof -
  have ok: "socks_ok (passed c) s" and gate: "gate_ok c evs s"
    using gate_run [of c evs] by (simp_all add: s_def server_ok_def)
  then have fit: "socks_fit (passed c) (sock_at s) (sv_active s) (sv_activeGeneration s) (sv_nextGeneration s)"
    by (simp add: socks_ok_def)
  have "\<forall>i j. co_ready (sock_at s i) \<longrightarrow> co_ready (sock_at s j) \<longrightarrow> i = j"
    using fitD(2) [OF fit] by (metis option.inject)
  moreover have "inj_on (generation_of s) {i. generation_of s i \<noteq> 0}" using fit unfolding socks_fit_def by blast
  moreover have "\<exists>f h. S_message i f \<in> set evs
        \<and> parseConnectorMessage (cc_num c) (frame_raw f) = Inr (In_hello h)
        \<and> co_connectorId (sock_at s i) = Some (he_connectorId h)
        \<and> he_name h = cc_bridgeImplementation c
        \<and> in_range (he_version h) (cc_bridgeMinimum c) (cc_bridgeMaximumExclusive c)
        \<and> in_range (he_runtimeVersion h) (cc_hermesMinimum c) (cc_hermesMaximumExclusive c)"
    if "currentSocket s = Some i" for i
  proof -
    have "generation_of s i \<noteq> 0" using that active_generation [OF ok] active_iff(2) [OF ok] by simp
    then obtain h where h: "admitted c evs i h" "co_connectorId (sock_at s i) = Some (he_connectorId h)"
      using gate unfolding gate_ok_def by blast
    moreover have "he_name h = cc_bridgeImplementation c
        \<and> in_range (he_version h) (cc_bridgeMinimum c) (cc_bridgeMaximumExclusive c)
        \<and> in_range (he_runtimeVersion h) (cc_hermesMinimum c) (cc_hermesMaximumExclusive c)"
      using h(1) by (simp add: admitted_def hello_refused_def split: if_splits)
    ultimately show ?thesis by (auto simp: admitted_def heard_def)
  qed
  ultimately show ?thesis by blast
qed

section \<open>A connector\<close>

definition demo_connector :: connector_cfg where
  "demo_connector = \<lparr>cc_token = js ''t'', cc_acceptHermes = True, cc_maxFrameBytes = 1000,
     cc_hermesMinimum = js ''1.0.0'', cc_hermesMaximumExclusive = js ''2.0.0'',
     cc_bridgeImplementation = js ''b'', cc_bridgeMinimum = js ''1.0.0'',
     cc_bridgeMaximumExclusive = js ''2.0.0'', cc_num = id, cc_clock = (\<lambda>n. 20000 * int n),
     cc_send_result = (\<lambda>_. Some 1)\<rparr>"

definition demo_hello :: hello where
  "demo_hello = \<lparr>he_connectorId = js ''c'', he_name = js ''b'', he_version = js ''1.2.0'',
     he_runtimeVersion = js ''1.9.9''\<rparr>"

definition demo_hello_raw :: jstring where
  "demo_hello_raw = json_stringify (JObj
     [(js ''type'', JStr (js ''hello'')), (js ''protocolVersion'', JNum (js ''1'')),
      (js ''connectorId'', JStr (js ''c'')), (js ''backend'', JStr (js ''hermes'')),
      (js ''implementation'', JObj [(js ''name'', JStr (js ''b'')), (js ''version'', JStr (js ''1.2.0'')),
         (js ''runtimeVersion'', JStr (js ''1.9.9''))]),
      (js ''capabilities'', JObj [(js ''cancel'', JBool True), (js ''finalResult'', JBool True)])])"

lemma demo_hello_parsed: "parseConnectorMessage id demo_hello_raw = Inr (In_hello demo_hello)"
  by code_simp

lemma demo_hello_passes: "hello_refused demo_connector demo_hello = None"
  by code_simp

lemma demo_hello_short: "utf8_length demo_hello_raw \<le> 1000"
  by code_simp

text \<open>A first connector, and then another bridge with the same id after the first went silent.\<close>

definition demo_connect :: "connector_event list" where
  "demo_connect = [S_start Path_absent, S_request (js ''/v1/connectors/hermes'') (Some (js ''Bearer t'')) True,
     S_message 0 (Frame_text demo_hello_raw), S_next, S_settled None]"

definition demo_reconnect :: "connector_event list" where
  "demo_reconnect = [S_request (js ''/v1/connectors/hermes'') (Some (js ''Bearer t'')) True,
     S_message 1 (Frame_text demo_hello_raw), S_next]"

lemma demo_route: "route demo_connector (js ''/v1/connectors/hermes'') (Some (js ''Bearer t'')) = R_upgrade"
  by code_simp

text \<open>The operation of a hello, on its two good ways.\<close>

lemma hello_message:
  "parseConnectorMessage (cc_num c) raw = Inr (In_hello h) \<Longrightarrow>
     handleMessage c i raw = acceptHello c (T_message i raw) i h"
  by (simp add: handleMessage_def Let_def)

lemma hello_alone:
  "\<not> co_ready (sock_at s i) \<Longrightarrow> generation_of s i = 0 \<Longrightarrow> hello_refused c h = None \<Longrightarrow> currentSocket s = None \<Longrightarrow>
     acceptHello c t i h s = expose c t i h s"
  by (simp add: acceptHello_def bindA_def readA_def)

lemma hello_takes_over:
  "\<not> co_ready (sock_at s i) \<Longrightarrow> generation_of s i = 0 \<Longrightarrow> hello_refused c h = None \<Longrightarrow>
     currentSocket s = Some old \<Longrightarrow> old \<noteq> i \<Longrightarrow>
     cc_clock c (sv_tick s) - co_lastPongAt (sock_at s old) > HEARTBEAT_INTERVAL_MS * 2 \<Longrightarrow>
     acceptHello c t i h s = settle t (V_takeover i h old) old (expose c t i h) (taken_over old s)"
  by (simp add: acceptHello_def bindA_def readA_def tickS_def thenA_def modify_def ret_def close_socket_def emitS_def
      taken_over_def Let_def)

lemma expose_sent:
  "cc_send_result c (sv_tick s) = Some r \<Longrightarrow> r \<noteq> 0 \<Longrightarrow>
     expose c t i h s = (Inr Suspended, (exposed i h s)\<lparr>sv_helloTimers := removeAll i (sv_helloTimers s),
       sv_tick := Suc (sv_tick s), sv_current := Some (t, V_handler),
       sv_log := sv_log s @ [Sv_send i (Out_hello_ack (he_connectorId h)), Sv_call (X_ready Hermes)]\<rparr>)"
  by (simp add: expose_def exposed_def thenA_def bindA_def modify_def readA_def emitS_def waitS_def ret_def
      sendS_def tickS_def set_sock_def)

lemma demo_num: "he_connectorId demo_hello = js ''c''" "cc_num demo_connector = id"
  "cc_maxFrameBytes demo_connector = 1000" "cc_send_result demo_connector n = Some 1"
  "cc_clock demo_connector n = 20000 * int n"
  by (simp_all add: demo_connector_def demo_hello_def)

definition demo_asked :: server where
  "demo_asked = \<lparr>sv_running = True, sv_sockets = [\<lparr>co_connectorId = None, co_ready = False,
       co_lastPongAt = 0, co_generation = 0, co_disconnectHandled = False\<rparr>],
     sv_active = None, sv_activeGeneration = 0, sv_nextGeneration = 0, sv_queue = [T_message 0 demo_hello_raw],
     sv_current = None, sv_helloTimers = [0], sv_heartbeat = True, sv_tick = 2,
     sv_log = [Sv_send 0 Out_hello_required]\<rparr>"

definition demo_connected :: server where
  "demo_connected = demo_asked\<lparr>sv_sockets := [\<lparr>co_connectorId = Some (js ''c''), co_ready = True,
       co_lastPongAt = 0, co_generation = 1, co_disconnectHandled = False\<rparr>],
     sv_active := Some 0, sv_activeGeneration := 1, sv_nextGeneration := 1, sv_queue := [],
     sv_helloTimers := [], sv_tick := 3,
     sv_log := [Sv_send 0 Out_hello_required, Sv_send 0 (Out_hello_ack (js ''c'')), Sv_call (X_ready Hermes)]\<rparr>"

lemma demo_asked_run:
  "server_run demo_connector [S_start Path_absent,
     S_request (js ''/v1/connectors/hermes'') (Some (js ''Bearer t'')) True,
     S_message 0 (Frame_text demo_hello_raw)] new_server = demo_asked"
  using demo_hello_short
  by (simp add: new_server_def demo_asked_def runS_def start_server_def on_request_def open_connection_def
      on_socket_message_def frame_raw_def sendS_def emitS_def tickS_def bindA_def thenA_def readA_def modify_def
      ret_def throw_def assertA_def demo_route demo_num)

lemma demo_connected_run: "server_run demo_connector [S_next, S_settled None] demo_asked = demo_connected"
proof -
  let ?s = "demo_asked\<lparr>sv_queue := [], sv_current := None\<rparr>"
  have "acceptHello demo_connector (T_message 0 demo_hello_raw) 0 demo_hello ?s
      = expose demo_connector (T_message 0 demo_hello_raw) 0 demo_hello ?s"
    by (rule hello_alone [OF _ _ demo_hello_passes])
      (simp_all add: demo_asked_def sock_at_def currentSocket_def)
  then show ?thesis
    using demo_hello_parsed expose_sent [of demo_connector ?s 1]
    by (simp add: next_operation_def run_operation_def hello_message demo_num handler_settled_def ret_def
        exposed_def set_sock_def sock_at_def demo_asked_def demo_connected_def)
qed

theorem one_reviewed_connector_witness:
  "currentSocket demo_connected = Some 0
   \<and> (\<exists>f h. S_message 0 f \<in> set demo_connect
        \<and> parseConnectorMessage id (frame_raw f) = Inr (In_hello h)
        \<and> co_connectorId (sock_at demo_connected 0) = Some (he_connectorId h) \<and> he_name h = js ''b'')"
proof -
  have run: "server_run demo_connector demo_connect new_server = demo_connected"
    by (simp only: demo_connected_run [symmetric] demo_asked_run [symmetric] demo_connect_def server_run.simps)
  have "currentSocket demo_connected = Some 0"
    by (simp add: demo_connected_def currentSocket_def isActiveSocket_def sock_at_def)
  moreover have "cc_bridgeImplementation demo_connector = js ''b''" "cc_num demo_connector = id"
    by (simp_all add: demo_connector_def)
  ultimately show ?thesis
    using one_reviewed_connector [of demo_connector demo_connect, unfolded run] by metis
qed

section \<open>Takeover\<close>

text \<open>C31: A new connector is exposed only after its predecessors were settled: as long as the server is
  not stopped and no call of \<open>onDisconnected\<close> fails, whatever its other handlers do, every other
  generation that ever was active has had its disconnection handled by the time another connector
  is active. A stop is excluded because it drops the active generation without settling it: its
  late close does that, and a hello still in the queue may be exposed before.\<close>

theorem takeover_settles_first:
  assumes "rtranclp (calm_step c) new_server s" "currentSocket s = Some i"
    and "generation_of s j \<noteq> 0" "j \<noteq> i"
  shows "co_disconnectHandled (sock_at s j)"
proof -
  have ok: "connector_ok c s" by (rule calm_connector.reached_ok [OF refl assms(1)])
  then have "sv_active s = Some i" using assms(2) active_iff(2) by (auto simp: connector_ok_def server_ok_def)
  then show ?thesis using ok assms(3,4) unfolding connector_ok_def settled_ok_def by auto
qed

text \<open>The second bridge takes over the generation that went silent.\<close>

definition demo_waiting :: server where
  "demo_waiting = \<lparr>sv_running = True, sv_sockets = [\<lparr>co_connectorId = Some (js ''c''), co_ready = False,
       co_lastPongAt = 0, co_generation = 1, co_disconnectHandled = False\<rparr>,
       \<lparr>co_connectorId = None, co_ready = False, co_lastPongAt = 60000, co_generation = 0,
        co_disconnectHandled = False\<rparr>],
     sv_active = None, sv_activeGeneration = 0, sv_nextGeneration = 1, sv_queue = [],
     sv_current = Some (T_message 1 demo_hello_raw, V_takeover 1 demo_hello 0),
     sv_helloTimers = [1], sv_heartbeat = True, sv_tick = 6,
     sv_log = sv_log demo_connected @ [Sv_send 1 Out_hello_required, Sv_close 0 1001,
       Sv_call (disconnected_event (js ''c''))]\<rparr>"

lemma demo_waiting_run: "server_run demo_connector demo_reconnect demo_connected = demo_waiting"
proof -
  let ?s = "demo_connected\<lparr>sv_sockets := sv_sockets demo_connected @ [\<lparr>co_connectorId = None, co_ready = False,
      co_lastPongAt = 60000, co_generation = 0, co_disconnectHandled = False\<rparr>],
    sv_helloTimers := [1], sv_tick := 5, sv_log := sv_log demo_connected @ [Sv_send 1 Out_hello_required]\<rparr>"
  have asked: "server_run demo_connector [S_request (js ''/v1/connectors/hermes'') (Some (js ''Bearer t'')) True,
      S_message 1 (Frame_text demo_hello_raw)] demo_connected = ?s\<lparr>sv_queue := [T_message 1 demo_hello_raw]\<rparr>"
    using demo_hello_short
    by (simp add: demo_asked_def demo_connected_def runS_def on_request_def open_connection_def
        on_socket_message_def frame_raw_def sendS_def emitS_def tickS_def bindA_def thenA_def readA_def modify_def
        ret_def demo_route demo_num)
  let ?t = "?s\<lparr>sv_queue := [], sv_current := None\<rparr>"
  have "acceptHello demo_connector (T_message 1 demo_hello_raw) 1 demo_hello ?t
      = settle (T_message 1 demo_hello_raw) (V_takeover 1 demo_hello 0) 0
          (expose demo_connector (T_message 1 demo_hello_raw) 1 demo_hello) (taken_over 0 ?t)"
    by (rule hello_takes_over [OF _ _ demo_hello_passes])
      (simp_all add: demo_asked_def demo_connected_def sock_at_def currentSocket_def isActiveSocket_def demo_num
        HEARTBEAT_INTERVAL_MS_def)
  moreover have "server_run demo_connector demo_reconnect demo_connected
      = next_operation demo_connector (?s\<lparr>sv_queue := [T_message 1 demo_hello_raw]\<rparr>)"
    unfolding asked [symmetric] by (simp only: demo_reconnect_def server_run.simps server_happens.simps)
  ultimately show ?thesis
    using demo_hello_parsed
    by (simp add: next_operation_def run_operation_def hello_message demo_num settle_result taken_over_def Let_def
        fence_def isActiveSocket_def set_sock_def sock_at_def demo_asked_def demo_connected_def demo_waiting_def)
qed

definition demo_taken :: server where
  "demo_taken = server_run demo_connector [S_settled None] demo_waiting"

lemma demo_taken_state:
  "currentSocket demo_taken = Some 1" "generation_of demo_taken 0 = 1"
  unfolding demo_taken_def
  by (simp_all add: handler_settled_def run_operation_def demo_waiting_def thenA_def bindA_def modify_def ret_def
      expose_sent [of _ _ 1] demo_num exposed_def set_sock_def sock_at_def currentSocket_def isActiveSocket_def
      del: sock_at_set)

theorem takeover_settles_first_witness: "co_disconnectHandled (sock_at demo_taken 0)"
proof -
  have run: "demo_taken = server_run demo_connector (demo_connect @ demo_reconnect @ [S_settled None]) new_server"
    by (simp only: demo_taken_def demo_waiting_run [symmetric] demo_connected_run [symmetric]
        demo_asked_run [symmetric] demo_connect_def demo_reconnect_def server_run.simps append.simps)
  have "calm_run demo_connector (demo_connect @ demo_reconnect @ [S_settled None]) new_server"
    by (simp add: demo_connect_def demo_reconnect_def calm_event_def)
  then have "rtranclp (calm_step demo_connector) new_server demo_taken"
    unfolding run by (rule calm_run_steps)
  from takeover_settles_first [OF this demo_taken_state(1), of 0] demo_taken_state(2)
  show ?thesis by simp
qed

text \<open>C33: The settlement of a generation can reach its successor: when the settlement of a takeover
  fails and the bridge repeats its hello, the new generation is exposed although the old one was
  not settled; the late close of the old socket then reports the connector id to the daemon as
  disconnected while it is the id of the live connector.\<close>

theorem failed_takeover_hits_successor:
  assumes "rtranclp (server_step c (\<lambda>_. True)) new_server s"
    and waiting: "sv_current s = Some (t, V_takeover i h old)" "sv_queue s = [T_message i raw]"
    and hello: "parseConnectorMessage (cc_num c) raw = Inr (In_hello h)" "hello_refused c h = None"
    and old: "co_connectorId (sock_at s old) = Some (he_connectorId h)" "\<not> co_disconnectHandled (sock_at s old)"
    and "he_connectorId h \<noteq> []"
  shows "let s' = server_run c [S_settled (Some e), S_next, S_settled None, S_closed old, S_next] s
    in connectorId s' = Some (he_connectorId h)
       \<and> last (sv_log s') = Sv_call (disconnected_event (he_connectorId h))"
proof -
  have ok: "server_ok (passed c) s" by (rule connector.reached_ok [OF refl assms(1)])
  then have v: "fresh_sock s i" "sv_active s = None" "generation_of s old \<noteq> 0" "old < length (sv_sockets s)"
    using waiting(1) by (auto simp: server_ok_def)
  have "old \<noteq> i" using v(1,3) by (auto simp: fresh_sock_def)
  have "quiet (operation_failed c t (Cn_handler e))"
    unfolding operation_failed_def by (cases t) (auto intro: quiet_rules)
  then obtain a s1 where fails: "operation_failed c t (Cn_handler e) (s\<lparr>sv_current := None\<rparr>) = (Inr a, s1)"
    "same_core (s\<lparr>sv_current := None\<rparr>) s1"
    using quiet_run by metis
  have s1: "handler_settled c (Some e) s = s1"
    using waiting(1) fails(1) by (simp add: handler_settled_def run_operation_def throw_def)
  let ?s1 = "s1\<lparr>sv_queue := [], sv_current := None\<rparr>"
  have at1: "sock_at ?s1 j = sock_at s j" for j using core_sock_at [OF fails(2)] by simp
  have core1: "sv_active ?s1 = None" "length (sv_sockets ?s1) = length (sv_sockets s)"
    "sv_queue s1 = [T_message i raw]" "sv_current s1 = None"
    using fails(2) v(2) waiting(2) by (simp_all add: same_core_def)
  obtain s2 where exp: "expose c (T_message i raw) i h ?s1 = (Inr Suspended, s2\<lparr>sv_current := Some (T_message i raw, V_handler)\<rparr>)"
    "same_core (exposed i h ?s1) s2"
    using expose_result by metis
  have "handleMessage c i raw ?s1 = expose c (T_message i raw) i h ?s1"
    using v(1) core1(1) unfolding hello_message [OF hello(1)]
    by (intro hello_alone [OF _ _ hello(2)]) (simp_all only: at1, simp_all add: fresh_sock_def currentSocket_def)
  then have s2: "next_operation c s1 = s2\<lparr>sv_current := Some (T_message i raw, V_handler)\<rparr>"
    using exp(1) core1(3,4) by (simp add: next_operation_def run_operation_def)
  have i: "i < length (sv_sockets s)" using v(1) by (simp add: fresh_sock_def)
  have at2: "sock_at s2 j = sock_at (exposed i h ?s1) j" for j using core_sock_at [OF exp(2)] by simp
  have core2: "sv_active s2 = Some i" "length (sv_sockets s2) = length (sv_sockets s)" "sv_queue s2 = []"
    "sv_activeGeneration s2 = Suc (sv_nextGeneration s1)"
    using exp(2) core1(2) by (simp_all add: same_core_def exposed_def)
  have new: "co_connectorId (sock_at s2 i) = Some (he_connectorId h)" "co_ready (sock_at s2 i)"
    "co_generation (sock_at s2 i) = Suc (sv_nextGeneration s1)"
    and left: "sock_at s2 old = sock_at s old"
    using i core1(2) \<open>old \<noteq> i\<close> at1 by (simp_all add: at2 exposed_def)
  let ?s3 = "s2\<lparr>sv_queue := [], sv_current := None\<rparr>"
  have closed: "server_run c [S_settled (Some e), S_next, S_settled None, S_closed old, S_next] s
      = next_operation c (?s3\<lparr>sv_helloTimers := removeAll old (sv_helloTimers s2), sv_queue := [T_close old]\<rparr>)"
    unfolding server_run.simps server_happens.simps s1 s2
    using core2(2,3) v(4) by (simp add: handler_settled_def run_operation_def ret_def runS_def
        on_socket_close_def modify_def)
  let ?s4 = "s2\<lparr>sv_helloTimers := removeAll old (sv_helloTimers s2), sv_queue := [], sv_current := None\<rparr>"
  have "\<not> isActiveSocket ?s4 old" using core2(1) \<open>old \<noteq> i\<close> by (simp add: isActiveSocket_def)
  then have "socketClosed old ?s4 = (Inr Suspended, ?s4\<lparr>sv_log := sv_log s2 @ [Sv_call (disconnected_event (he_connectorId h))],
      sv_current := Some (T_close old, V_settle old)\<rparr>)"
    using v(3) old assms(8) left
    by (simp add: socketClosed_def bindA_def readA_def thenA_def modify_def fence_def settle_result)
  then show ?thesis
    unfolding closed using new core2(1,4)
    by (simp add: next_operation_def run_operation_def connectorId_def currentSocket_def isActiveSocket_def)
qed

text \<open>The first settlement fails, and the bridge says hello again.\<close>

definition demo_asked_again :: server where
  "demo_asked_again = server_run demo_connector [S_message 1 (Frame_text demo_hello_raw)] demo_waiting"

theorem failed_takeover_hits_successor_witness:
  "let s = server_run demo_connector [S_settled (Some (js ''e'')), S_next, S_settled None, S_closed 0, S_next] demo_asked_again
   in connectorId s = Some (js ''c'') \<and> last (sv_log s) = Sv_call (disconnected_event (js ''c''))"
proof -
  have run: "demo_asked_again = server_run demo_connector
      (demo_connect @ demo_reconnect @ [S_message 1 (Frame_text demo_hello_raw)]) new_server"
    by (simp only: demo_asked_again_def demo_waiting_run [symmetric] demo_connected_run [symmetric]
        demo_asked_run [symmetric] demo_connect_def demo_reconnect_def server_run.simps append.simps)
  have steps: "rtranclp (server_step demo_connector (\<lambda>_. True)) new_server demo_asked_again"
    unfolding run by (rule server_run_steps) simp
  have again: "demo_asked_again = demo_waiting\<lparr>sv_queue := [T_message 1 demo_hello_raw]\<rparr>"
    using demo_hello_short
    by (simp add: demo_asked_again_def demo_waiting_def runS_def on_socket_message_def frame_raw_def modify_def demo_num)
  have s: "sv_current demo_asked_again = Some (T_message 1 demo_hello_raw, V_takeover 1 demo_hello 0)"
    "sv_queue demo_asked_again = [T_message 1 demo_hello_raw]"
    "co_connectorId (sock_at demo_asked_again 0) = Some (he_connectorId demo_hello)"
    "\<not> co_disconnectHandled (sock_at demo_asked_again 0)" "he_connectorId demo_hello \<noteq> []"
    by (simp_all add: again demo_waiting_def sock_at_def demo_num)
  have "parseConnectorMessage (cc_num demo_connector) demo_hello_raw = Inr (In_hello demo_hello)"
    using demo_hello_parsed by (simp add: demo_num)
  from failed_takeover_hits_successor [OF steps s(1,2) this demo_hello_passes s(3-5), of "js ''e''"]
  show ?thesis by (simp only: demo_num)
qed

end
