(* ===== verification/Claude_Stream.thy ===== *)
theory Claude_Stream
  imports Utf8 Livis
begin

text \<open>
  The output of a Claude Code child process: \<open>consumeClaudeNativeStream\<close> of
  \<open>src/src/backends/claude/native-cli.ts\<close>. The bytes of stdout are decoded as UTF-8 in
  chunks, split into lines, and every line is checked; the final text is taken only from a
  stream that went from one \<open>system/init\<close> to one \<open>result\<close> without a trace of a tool.

  The reader waits for \<open>onInit\<close> in the middle of a chunk. A task is therefore a value of
  \<open>stream_task\<close>: it reads, it waits for \<open>onInit\<close>, or it has ended.
\<close>

section \<open>Errors\<close>

datatype stream_error =
  St_unsafe_init
| St_user_or_tool
| St_no_message
| St_stop_tool_use
| St_no_content
| St_bad_block
| St_tool_block jstring
| St_not_json
| St_bad_event
| St_repeated_init
| St_hook
| St_result_boundary
| St_no_text
| St_output_exceeded
| St_total_exceeded
| St_line_exceeded
| St_incomplete
| St_thrown jstring

text \<open>\<open>error.message\<close>\<close>

fun stream_message :: "stream_error \<Rightarrow> jstring" where
  "stream_message St_unsafe_init =
       js ''Claude system/init '' @ [0x672A, 0x8BC1, 0x660E, 0x7981, 0x7528, 0x53EF, 0x6267,
       0x884C, 0x5DE5, 0x5177, 0x3001] @ js ''MCP'' @ [0x3001, 0x6280, 0x80FD, 0x548C, 0x659C,
       0x6760, 0x547D, 0x4EE4]"
| "stream_message St_user_or_tool =
       js ''Claude safe-mode stream '' @ [0x51FA, 0x73B0, 0x4E86, 0x5DE5, 0x5177, 0x7ED3,
       0x679C, 0x6216, 0x7528, 0x6237, 0x56DE, 0x6CE8, 0x4E8B, 0x4EF6]"
| "stream_message St_no_message =
       js ''Claude assistant '' @ [0x4E8B, 0x4EF6, 0x7F3A, 0x5C11, 0x6709, 0x6548] @
       js '' message''"
| "stream_message St_stop_tool_use =
       js ''Claude safe-mode assistant '' @ [0x8BD5, 0x56FE, 0x8FDB, 0x5165] @ js '' tool_use''"
| "stream_message St_no_content =
       js ''Claude assistant '' @ [0x4E8B, 0x4EF6, 0x7F3A, 0x5C11, 0x6709, 0x754C] @
       js '' content '' @ [0x6570, 0x7EC4]"
| "stream_message St_bad_block =
       js ''Claude assistant content '' @ [0x7ED3, 0x6784, 0x65E0, 0x6548]"
| "stream_message (St_tool_block kind) =
       js ''Claude safe-mode stream '' @ [0x51FA, 0x73B0, 0x4E86] @ js '' '' @ kind @ js '' block''"
| "stream_message St_not_json =
       js ''Claude stream-json '' @ [0x5305, 0x542B, 0x65E0, 0x6548] @ js '' JSON '' @ [0x884C]"
| "stream_message St_bad_event =
       js ''Claude stream-json '' @ [0x4E8B, 0x4EF6, 0x7ED3, 0x6784, 0x65E0, 0x6548]"
| "stream_message St_repeated_init =
       js ''Claude '' @ [0x91CD, 0x590D, 0x53D1, 0x9001] @ js '' system/init''"
| "stream_message St_hook =
       js ''Claude safe-mode '' @ [0x6267, 0x884C, 0x51FA, 0x73B0, 0x4E86] @ js '' Hook '' @
       [0x4E8B, 0x4EF6]"
| "stream_message St_result_boundary =
       js ''Claude result '' @ [0x4E0E] @ js '' system/init '' @ [0x7684, 0x4F1A, 0x8BDD,
       0x8FB9, 0x754C, 0x4E0D, 0x4E00, 0x81F4]"
| "stream_message St_no_text =
       js ''Claude success result '' @ [0x7F3A, 0x5C11, 0x6700, 0x7EC8, 0x6587, 0x672C]"
| "stream_message St_output_exceeded =
       js ''Claude '' @ [0x6700, 0x7EC8, 0x8F93, 0x51FA, 0x8D85, 0x8FC7] @ js '' Relay '' @
       [0x4E0A, 0x9650]"
| "stream_message St_total_exceeded =
       js ''Claude stream-json '' @ [0x603B, 0x8F93, 0x51FA, 0x8D85, 0x8FC7] @ js '' Relay '' @
       [0x89E3, 0x6790, 0x4E0A, 0x9650]"
| "stream_message St_line_exceeded =
       js ''Claude stream-json '' @ [0x5355, 0x884C, 0x8D85, 0x8FC7, 0x89E3, 0x6790, 0x4E0A,
       0x9650]"
| "stream_message St_incomplete =
       js ''Claude stream-json '' @ [0x672A, 0x5F62, 0x6210] @ js '' system/init '' @
       [0x5230] @ js '' terminal result '' @ [0x7684, 0x5B8C, 0x6574, 0x5E8F, 0x5217]"
| "stream_message (St_thrown m) = m"

section \<open>Decoding in chunks\<close>

text \<open>\<open>new TextDecoder()\<close> with \<open>stream: true\<close> keeps back a sequence that is well-formed so far,
  and drops a byte order mark at the front of its output.\<close>

fun unfinished :: "nat list \<Rightarrow> bool" where
  "unfinished [a] \<longleftrightarrow> 0xC2 \<le> a \<and> a < 0xF5"
| "unfinished [a, b] \<longleftrightarrow> 0xE0 \<le> a \<and> a < 0xF5 \<and> second_ok a b"
| "unfinished [a, b, d] \<longleftrightarrow> 0xF0 \<le> a \<and> a < 0xF5 \<and> second_ok a b \<and> cont d"
| "unfinished _ \<longleftrightarrow> False"

function decode_stream :: "nat list \<Rightarrow> jstring \<times> nat list" where
  "decode_stream [] = ([], [])"
| "decode_stream (a # r) =
     (if unfinished (a # r) then ([], a # r)
      else (case decode_stream (snd (decode_one a r)) of
          (us, held) \<Rightarrow> (fst (decode_one a r) @ us, held)))"
  by pat_completeness auto
termination by (relation "measure length") (auto simp: le_imp_less_Suc decode_one_shorter)

declare decode_stream.simps(2) [simp del]

definition text_out :: "bool \<Rightarrow> jstring \<Rightarrow> jstring" where
  "text_out begun us =
     (if begun then us else case us of [] \<Rightarrow> [] | u # r \<Rightarrow> if u = 0xFEFF then r else us)"

definition text_decode :: "nat list \<Rightarrow> jstring" where
  "text_decode bs = text_out False (utf8_decode bs)"

section \<open>Lines\<close>

record stream_cfg =
  sg_num :: "jstring \<Rightarrow> jstring"
  sg_maxOutputChars :: nat

record stream_result =
  sr_sessionId :: jstring
  sr_success :: bool
  sr_text :: "jstring option"
  sr_subtype :: jstring

record parse =
  pa_sessionId :: "jstring option"
  pa_terminal :: "stream_result option"

definition empty_array :: "json option \<Rightarrow> bool" where
  "empty_array v \<longleftrightarrow> v = Some (JArr [])"

definition optional_array :: "json option \<Rightarrow> bool" where
  "optional_array v = (case v of None \<Rightarrow> True | Some (JArr _) \<Rightarrow> True | _ \<Rightarrow> False)"

definition safeInitSessionId :: "jobject \<Rightarrow> stream_error + jstring" where
  "safeInitSessionId r =
     (case jget (js ''session_id'') r of
        Some (JStr sessionId) \<Rightarrow>
          if sessionId = [] \<or> 128 < length sessionId
             \<or> \<not> empty_array (jget (js ''tools'') r) \<or> \<not> empty_array (jget (js ''mcp_servers'') r)
             \<or> \<not> empty_array (jget (js ''skills'') r)
             \<or> \<not> empty_array (jget (js ''slash_commands'') r)
             \<or> \<not> optional_array (jget (js ''plugins'') r)
             \<or> \<not> optional_array (jget (js ''agents'') r)
             \<or> jget (js ''permissionMode'') r \<noteq> Some (JStr (js ''dontAsk''))
          then Inl St_unsafe_init else Inr sessionId
      | _ \<Rightarrow> Inl St_unsafe_init)"

definition tool_block_types :: "jstring list" where
  "tool_block_types = [js ''tool_use'', js ''server_tool_use'', js ''tool_result'', js ''mcp_tool_use'']"

definition check_block :: "json \<Rightarrow> stream_error + unit" where
  "check_block b =
     (case b of
        JObj block \<Rightarrow>
          (case jget (js ''type'') block of
             Some (JStr kind) \<Rightarrow> guardR (kind \<notin> set tool_block_types) (St_tool_block kind)
           | _ \<Rightarrow> Inl St_bad_block)
      | _ \<Rightarrow> Inl St_bad_block)"

fun check_blocks :: "json list \<Rightarrow> stream_error + unit" where
  "check_blocks [] = Inr ()"
| "check_blocks (b # bs) = bindR (check_block b) (\<lambda>_. check_blocks bs)"

definition assertNoExecutionEvent :: "jobject \<Rightarrow> stream_error + unit" where
  "assertNoExecutionEvent r =
     (let kind = jget (js ''type'') r in
      if kind = Some (JStr (js ''user'')) \<or> kind = Some (JStr (js ''tool'')) then Inl St_user_or_tool
      else if kind \<noteq> Some (JStr (js ''assistant'')) then Inr ()
      else case jget (js ''message'') r of
          Some (JObj message) \<Rightarrow>
            if jget (js ''stop_reason'') message = Some (JStr (js ''tool_use'')) then Inl St_stop_tool_use
            else (case jget (js ''content'') message of
                Some (JArr blocks) \<Rightarrow> check_blocks blocks
              | _ \<Rightarrow> Inl St_no_content)
        | _ \<Rightarrow> Inl St_no_message)"

text \<open>\<open>/hook/iu\<close>: with both flags the Kelvin sign matches \<open>k\<close>.\<close>

definition fold_case :: "16 word \<Rightarrow> 16 word" where
  "fold_case u = (if 0x41 \<le> u \<and> u \<le> 0x5A then u + 0x20 else if u = 0x212A then 0x6B else u)"

fun contains :: "jstring \<Rightarrow> jstring \<Rightarrow> bool" where
  "contains p [] \<longleftrightarrow> p = []"
| "contains p (u # r) \<longleftrightarrow> take (length p) (u # r) = p \<or> contains p r"

definition names_hook :: "json option \<Rightarrow> bool" where
  "names_hook v = (case v of Some (JStr s) \<Rightarrow> contains (js ''hook'') (map fold_case s) | _ \<Rightarrow> False)"

definition read_result :: "stream_cfg \<Rightarrow> jobject \<Rightarrow> parse \<Rightarrow> stream_error + stream_result" where
  "read_result c r p =
     (case pa_sessionId p of
        None \<Rightarrow> Inl St_result_boundary
      | Some sessionId \<Rightarrow>
          if pa_terminal p \<noteq> None \<or> jget (js ''session_id'') r \<noteq> Some (JStr sessionId)
          then Inl St_result_boundary
          else
            let subtype = (case jget (js ''subtype'') r of
                  Some (JStr s) \<Rightarrow> if length s \<le> 128 then s else js ''unknown''
                | _ \<Rightarrow> js ''unknown'');
                success = (subtype = js ''success'' \<and> jget (js ''is_error'') r = Some (JBool False));
                text = (if success then json_text (jget (js ''result'') r) else None)
            in if success \<and> text = None then Inl St_no_text
               else if text \<noteq> None \<and> length (the text) > sg_maxOutputChars c then Inl St_output_exceeded
               else Inr \<lparr>sr_sessionId = sessionId, sr_success = success, sr_text = text,
                         sr_subtype = subtype\<rparr>)"

text \<open>A line, and the session id for which \<open>onInit\<close> is awaited, if it is the init event.\<close>

definition consumeLine :: "stream_cfg \<Rightarrow> jstring \<Rightarrow> parse \<Rightarrow> stream_error + parse \<times> jstring option" where
  "consumeLine c line p =
     (if js_blank line then Inr (p, None)
      else case json_parse (sg_num c) line of
        None \<Rightarrow> Inl St_not_json
      | Some (JObj r) \<Rightarrow>
          (case jget (js ''type'') r of
             Some (JStr kind) \<Rightarrow>
               if kind = js ''system'' \<and> jget (js ''subtype'') r = Some (JStr (js ''init'')) then
                 (if pa_sessionId p \<noteq> None then Inl St_repeated_init
                  else bindR (safeInitSessionId r) (\<lambda>sessionId.
                    Inr (p\<lparr>pa_sessionId := Some sessionId\<rparr>, Some sessionId)))
               else if kind = js ''system'' \<and> names_hook (jget (js ''subtype'') r) then Inl St_hook
               else bindR (assertNoExecutionEvent r) (\<lambda>_.
                 if kind \<noteq> js ''result'' then Inr (p, None)
                 else bindR (read_result c r p) (\<lambda>t. Inr (p\<lparr>pa_terminal := Some t\<rparr>, None)))
           | _ \<Rightarrow> Inl St_bad_event)
      | Some _ \<Rightarrow> Inl St_bad_event)"

section \<open>The task\<close>

record stream =
  st_held :: "nat list"
  st_begun :: bool
  st_buffered :: jstring
  st_totalBytes :: nat
  st_parse :: parse

datatype pause = In_chunk | At_end

datatype stream_task =
  Reading stream
| Accepting pause jstring stream
| Ended "stream_error + stream_result"

definition max_bytes :: "stream_cfg \<Rightarrow> nat" where
  "max_bytes c = max 1048576 (sg_maxOutputChars c * 4 + 512 * 1024)"

definition strip_cr :: "jstring \<Rightarrow> jstring" where
  "strip_cr s = (if s \<noteq> [] \<and> last s = 0x0D then butlast s else s)"

definition first_line :: "jstring \<Rightarrow> jstring" where
  "first_line s = takeWhile (\<lambda>u. u \<noteq> 0x0A) s"

definition other_lines :: "jstring \<Rightarrow> jstring" where
  "other_lines s = tl (dropWhile (\<lambda>u. u \<noteq> 0x0A) s)"

lemma other_lines_shorter: "0x0A \<in> set s \<Longrightarrow> length (other_lines s) < length s"
  unfolding other_lines_def
  by (induction s) (auto simp: le_imp_less_Suc length_dropWhile_le)

function drain_lines ::
  "stream_cfg \<Rightarrow> jstring \<Rightarrow> parse \<Rightarrow> stream_error + jstring \<times> parse \<times> jstring option" where
  "drain_lines c buffered p =
     (if 0x0A \<in> set buffered then
        case consumeLine c (strip_cr (first_line buffered)) p of
          Inl e \<Rightarrow> Inl e
        | Inr (p', Some sessionId) \<Rightarrow> Inr (other_lines buffered, p', Some sessionId)
        | Inr (p', None) \<Rightarrow> drain_lines c (other_lines buffered) p'
      else Inr (buffered, p, None))"
  by pat_completeness auto
termination by (relation "measure (\<lambda>(_, buffered, _). length buffered)") (auto simp: other_lines_shorter)

declare drain_lines.simps [simp del]

definition continue_chunk :: "stream_cfg \<Rightarrow> stream \<Rightarrow> stream_task" where
  "continue_chunk c s =
     (case drain_lines c (st_buffered s) (st_parse s) of
        Inl e \<Rightarrow> Ended (Inl e)
      | Inr (rest, p, Some sessionId) \<Rightarrow>
          Accepting In_chunk sessionId (s\<lparr>st_buffered := rest, st_parse := p\<rparr>)
      | Inr (rest, p, None) \<Rightarrow>
          if utf8_length rest > max_bytes c then Ended (Inl St_line_exceeded)
          else Reading (s\<lparr>st_buffered := rest, st_parse := p\<rparr>))"

definition end_stream :: "parse \<Rightarrow> stream_error + stream_result" where
  "end_stream p =
     (case pa_terminal p of
        Some t \<Rightarrow> if pa_sessionId p = None then Inl St_incomplete else Inr t
      | None \<Rightarrow> Inl St_incomplete)"

definition decode_chunk :: "nat list \<Rightarrow> stream \<Rightarrow> stream" where
  "decode_chunk bs s =
     (let (us, held) = decode_stream (st_held s @ bs) in
      s\<lparr>st_totalBytes := st_totalBytes s + length bs, st_held := held,
        st_begun := st_begun s \<or> us \<noteq> [], st_buffered := st_buffered s @ text_out (st_begun s) us\<rparr>)"

text \<open>The reader returns bytes, the end, or rejects; \<open>onInit\<close> resolves or rejects.\<close>

definition task_chunk :: "stream_cfg \<Rightarrow> nat list \<Rightarrow> stream_task \<Rightarrow> stream_task" where
  "task_chunk c bs t =
     (case t of
        Reading s \<Rightarrow>
          if st_totalBytes s + length bs > max_bytes c then Ended (Inl St_total_exceeded)
          else continue_chunk c (decode_chunk bs s)
      | _ \<Rightarrow> t)"

definition final_line :: "stream \<Rightarrow> jstring" where
  "final_line s = strip_cr (st_buffered s @ text_out (st_begun s) (utf8_decode (st_held s)))"

definition task_done :: "stream_cfg \<Rightarrow> stream_task \<Rightarrow> stream_task" where
  "task_done c t =
     (case t of
        Reading s \<Rightarrow>
          (case consumeLine c (final_line s) (st_parse s) of
             Inl e \<Rightarrow> Ended (Inl e)
           | Inr (p, Some sessionId) \<Rightarrow> Accepting At_end sessionId (s\<lparr>st_parse := p\<rparr>)
           | Inr (p, None) \<Rightarrow> Ended (end_stream p))
      | _ \<Rightarrow> t)"

definition task_failed :: "jstring \<Rightarrow> stream_task \<Rightarrow> stream_task" where
  "task_failed e t = (case t of Ended _ \<Rightarrow> t | _ \<Rightarrow> Ended (Inl (St_thrown e)))"

definition task_accepted :: "stream_cfg \<Rightarrow> stream_task \<Rightarrow> stream_task" where
  "task_accepted c t =
     (case t of
        Accepting In_chunk _ s \<Rightarrow> continue_chunk c s
      | Accepting At_end _ s \<Rightarrow> Ended (end_stream (st_parse s))
      | _ \<Rightarrow> t)"

definition new_stream :: stream where
  "new_stream = \<lparr>st_held = [], st_begun = False, st_buffered = [], st_totalBytes = 0,
     st_parse = \<lparr>pa_sessionId = None, pa_terminal = None\<rparr>\<rparr>"

text \<open>The whole of it, with an \<open>onInit\<close> that resolves.\<close>

definition task_read :: "stream_cfg \<Rightarrow> nat list list \<Rightarrow> stream_task" where
  "task_read c chunks =
     foldl (\<lambda>t bs. task_accepted c (task_chunk c bs t)) (Reading new_stream) chunks"

definition consumeClaudeNativeStream :: "stream_cfg \<Rightarrow> nat list list \<Rightarrow> stream_task" where
  "consumeClaudeNativeStream c chunks = task_accepted c (task_done c (task_read c chunks))"

end
