(* ===== verification/Claude_Cli.thy ===== *)
theory Claude_Cli
  imports Claude_Stream
begin

text \<open>
  The Claude Code executable, \<open>src/src/backends/claude/native-cli.ts\<close>: the pinned command, the
  environment and the arguments of the child process, and the probe of its capabilities. What the
  file system says (\<open>realpath\<close>, \<open>stat\<close>) and what the commands print is the environment's.
\<close>

section \<open>Files and paths\<close>

record file_info =
  fi_isFile :: bool
  fi_isDirectory :: bool
  fi_mode :: "32 word"
  fi_size :: int
  fi_mtimeMs :: jstring

text \<open>A call that throws is \<open>None\<close>.\<close>

record files =
  fs_realpath :: "jstring \<Rightarrow> jstring option"
  fs_stat :: "jstring \<Rightarrow> file_info option"

datatype cli_error =
  Cli_invalid string
| Cli_threw
| Cli_probe_failed
| Cli_missing_flags "jstring list"
| Cli_bad_version
| Cli_bad_budget
| Cli_bad_prompt

definition isAbsolute :: "jstring \<Rightarrow> bool" where
  "isAbsolute p \<longleftrightarrow> p \<noteq> [] \<and> hd p = 0x2F"

text \<open>\<open>s.split(d)\<close> for a separator of one unit.\<close>

fun split_on :: "16 word \<Rightarrow> jstring \<Rightarrow> jstring list" where
  "split_on d [] = [[]]"
| "split_on d (u # r) =
     (if u = d then [] # split_on d r
      else case split_on d r of [] \<Rightarrow> [[u]] | w # ws \<Rightarrow> (u # w) # ws)"

definition segments :: "jstring \<Rightarrow> jstring list" where
  "segments p = filter (\<lambda>w. w \<noteq> []) (split_on 0x2F p)"

text \<open>Both paths are results of \<open>realpath\<close>: \<open>relative\<close> leads upwards exactly when the segments of
  the parent are no prefix.\<close>

definition isWithin :: "jstring \<Rightarrow> jstring \<Rightarrow> bool" where
  "isWithin parent child \<longleftrightarrow> take (length (segments parent)) (segments child) = segments parent"

definition executable_file :: "file_info \<Rightarrow> bool" where
  "executable_file i \<longleftrightarrow> fi_isFile i \<and> and (fi_mode i) 0x49 \<noteq> 0"

section \<open>The pinned command\<close>

record pinned_command =
  pc_path :: jstring
  pc_size :: int
  pc_mtimeMs :: jstring

definition or_throw :: "'a option \<Rightarrow> cli_error \<Rightarrow> cli_error + 'a" where
  "or_throw x e = (case x of None \<Rightarrow> Inl e | Some a \<Rightarrow> Inr a)"

definition pinClaudeCommand :: "files \<Rightarrow> jstring \<Rightarrow> jstring \<Rightarrow> cli_error + pinned_command" where
  "pinClaudeCommand fs command stateDir =
     bindR (guardR (isAbsolute command) (Cli_invalid ''not absolute'')) (\<lambda>_.
     bindR (or_throw (fs_realpath fs stateDir) Cli_threw) (\<lambda>canonicalStateDir.
     bindR (or_throw (fs_realpath fs command) (Cli_invalid ''not found'')) (\<lambda>path.
     bindR (guardR (\<not> isWithin canonicalStateDir path) (Cli_invalid ''in stateDir'')) (\<lambda>_.
     bindR (or_throw (fs_stat fs path) Cli_threw) (\<lambda>info.
     bindR (guardR (executable_file info) (Cli_invalid ''not executable'')) (\<lambda>_.
     Inr \<lparr>pc_path = path, pc_size = fi_size info, pc_mtimeMs = fi_mtimeMs info\<rparr>))))))"

definition assertPinnedClaudeCommand :: "files \<Rightarrow> pinned_command \<Rightarrow> cli_error + unit" where
  "assertPinnedClaudeCommand fs command =
     bindR (or_throw (fs_realpath fs (pc_path command)) Cli_threw) (\<lambda>canonical.
     bindR (or_throw (fs_stat fs canonical) Cli_threw) (\<lambda>info.
     guardR (canonical = pc_path command \<and> executable_file info \<and> fi_size info = pc_size command
             \<and> fi_mtimeMs info = pc_mtimeMs command) (Cli_invalid ''drift'')))"

section \<open>The environment of the child\<close>

fun path_entries :: "files \<Rightarrow> jstring \<Rightarrow> jstring list \<Rightarrow> jstring list \<Rightarrow> jstring list" where
  "path_entries fs stateDir [] entries = entries"
| "path_entries fs stateDir (e # es) entries =
     path_entries fs stateDir es
       (if \<not> isAbsolute e then entries
        else case fs_realpath fs e of
            None \<Rightarrow> entries
          | Some canonical \<Rightarrow>
              (case fs_stat fs canonical of
                 None \<Rightarrow> entries
               | Some info \<Rightarrow>
                   if \<not> fi_isDirectory info \<or> isWithin stateDir canonical \<or> canonical \<in> set entries
                   then entries else entries @ [canonical]))"

fun join_with :: "16 word \<Rightarrow> jstring list \<Rightarrow> jstring" where
  "join_with d [] = []"
| "join_with d [w] = w"
| "join_with d (w # ws) = w @ d # join_with d ws"

definition sanitizedPath :: "files \<Rightarrow> jstring option \<Rightarrow> jstring \<Rightarrow> jstring option" where
  "sanitizedPath fs v stateDir =
     (let entries = path_entries fs stateDir (split_on 0x3A (case v of None \<Rightarrow> [] | Some s \<Rightarrow> s)) [] in
      if entries = [] then None else Some (join_with 0x3A entries))"

definition ENVIRONMENT_KEYS :: "jstring list" where
  "ENVIRONMENT_KEYS = map js [''LANG'', ''LC_ALL'', ''LC_CTYPE'', ''TERM'', ''TZ'', ''NO_COLOR'']"

definition buildClaudeNativeEnvironment ::
  "files \<Rightarrow> jstring \<Rightarrow> jstring \<Rightarrow> (jstring \<Rightarrow> jstring option) \<Rightarrow> cli_error + (jstring \<times> jstring) list" where
  "buildClaudeNativeEnvironment fs stateDir0 runtimeTmpDir0 source =
     bindR (or_throw (fs_realpath fs stateDir0) Cli_threw) (\<lambda>stateDir.
     bindR (or_throw (fs_realpath fs runtimeTmpDir0) Cli_threw) (\<lambda>runtimeTmpDir.
     bindR (guardR (isWithin stateDir runtimeTmpDir) (Cli_invalid ''tmpdir'')) (\<lambda>_.
     bindR (guardR (source (js ''HOME'') \<noteq> None \<and> isAbsolute (the (source (js ''HOME''))))
              (Cli_invalid ''home'')) (\<lambda>_.
     bindR (or_throw (fs_realpath fs (the (source (js ''HOME'')))) Cli_threw) (\<lambda>home.
     bindR (or_throw (fs_stat fs home) Cli_threw) (\<lambda>homeInfo.
     bindR (guardR (fi_isDirectory homeInfo \<and> \<not> isWithin stateDir home) (Cli_invalid ''home'')) (\<lambda>_.
     Inr ([(js ''HOME'', home), (js ''TMPDIR'', runtimeTmpDir)]
       @ (case sanitizedPath fs (source (js ''PATH'')) stateDir of
            None \<Rightarrow> [] | Some p \<Rightarrow> [(js ''PATH'', p)])
       @ concat (map (\<lambda>k. case source k of None \<Rightarrow> [] | Some v \<Rightarrow> [(k, v)]) ENVIRONMENT_KEYS)))))))))"

section \<open>The probe\<close>

definition CLAUDE_NATIVE_REQUIRED_FLAGS :: "jstring list" where
  "CLAUDE_NATIVE_REQUIRED_FLAGS = map js
     [''--print'', ''--input-format'', ''--output-format'', ''--verbose'', ''--safe-mode'',
      ''--no-chrome'', ''--disable-slash-commands'', ''--strict-mcp-config'',
      ''--mcp-config'', ''--tools'', ''--permission-mode'', ''--no-session-persistence'',
      ''--prompt-suggestions'', ''--max-budget-usd'', ''--system-prompt'']"

record command_result =
  cr_exitCode :: int
  cr_stdout :: jstring
  cr_stderr :: jstring

text \<open>A reader that keeps the first \<open>maxBytes\<close> bytes and drops the others.\<close>

fun bounded_bytes :: "nat \<Rightarrow> nat list list \<Rightarrow> nat list \<Rightarrow> nat list" where
  "bounded_bytes maxBytes [] kept = kept"
| "bounded_bytes maxBytes (chunk # chunks) kept =
     bounded_bytes maxBytes chunks
       (if length kept \<ge> maxBytes then kept
        else let remaining = maxBytes - length kept in
          kept @ (if length chunk \<le> remaining then chunk else take remaining chunk))"

definition boundedStreamText :: "nat \<Rightarrow> nat list list \<Rightarrow> jstring" where
  "boundedStreamText maxBytes chunks = text_decode (bounded_bytes maxBytes chunks [])"

text \<open>\<open>split(/\r?\n/u).map((item) => item.trim()).find(Boolean)\<close>; trimming removes the carriage
  return, if the line has one.\<close>

definition observedVersion :: "jstring \<Rightarrow> jstring \<Rightarrow> cli_error + jstring" where
  "observedVersion stdout stderr =
     (case find (\<lambda>l. l \<noteq> []) (map js_trim (split_on 0x0A (stdout @ 0x0A # stderr))) of
        None \<Rightarrow> Inl Cli_bad_version
      | Some line \<Rightarrow> if 128 < length line then Inl Cli_bad_version else Inr line)"

record preparation =
  pr_command :: pinned_command
  pr_environment :: "(jstring \<times> jstring) list"
  pr_cliVersion :: jstring

text \<open>The file system is read at three moments; the two commands run in between.\<close>

definition prepareClaudeNativeCli ::
  "files \<Rightarrow> files \<Rightarrow> files \<Rightarrow> jstring \<Rightarrow> jstring \<Rightarrow> jstring \<Rightarrow> (jstring \<Rightarrow> jstring option)
    \<Rightarrow> cli_error + command_result \<Rightarrow> cli_error + command_result \<Rightarrow> cli_error + preparation" where
  "prepareClaudeNativeCli fs1 fs2 fs3 command stateDir runtimeTmpDir source run_version run_help =
     bindR (pinClaudeCommand fs1 command stateDir) (\<lambda>pinned.
     bindR (buildClaudeNativeEnvironment fs2 stateDir runtimeTmpDir source) (\<lambda>environment.
     bindR run_version (\<lambda>version.
     bindR run_help (\<lambda>help.
     bindR (guardR (cr_exitCode version = 0 \<and> cr_exitCode help = 0) Cli_probe_failed) (\<lambda>_.
     let helpText = cr_stdout help @ 0x0A # cr_stderr help;
         missing = filter (\<lambda>flag. \<not> contains flag helpText) CLAUDE_NATIVE_REQUIRED_FLAGS in
     bindR (guardR (missing = []) (Cli_missing_flags missing)) (\<lambda>_.
     bindR (assertPinnedClaudeCommand fs3 pinned) (\<lambda>_.
     bindR (observedVersion (cr_stdout version) (cr_stderr version)) (\<lambda>cliVersion.
     Inr \<lparr>pr_command = pinned, pr_environment = environment, pr_cliVersion = cliVersion\<rparr>))))))))"

section \<open>The arguments\<close>

definition CLAUDE_NATIVE_SYSTEM_PROMPT :: jstring where
  "CLAUDE_NATIVE_SYSTEM_PROMPT =
       [0x4F60, 0x901A, 0x8FC7] @ js '' LiViS Relay '' @ [0x63A5, 0x6536, 0x5355, 0x6B21,
       0x7EAF, 0x6587, 0x672C, 0x8BF7, 0x6C42, 0x3002, 0x53EA, 0x8FD4, 0x56DE, 0x5BF9, 0x7528,
       0x6237, 0x6709, 0x7528, 0x7684, 0x6700, 0x7EC8, 0x6587, 0x672C, 0xFF1B, 0x4E0D, 0x5F97,
       0x8C03, 0x7528, 0x5DE5, 0x5177, 0x3001] @ js ''MCP'' @ [0x3001, 0x6280, 0x80FD, 0x3001,
       0x6D4F, 0x89C8, 0x5668, 0x3001, 0x63D2, 0x4EF6, 0x3001] @ js ''Hook '' @ [0x6216,
       0x659C, 0x6760, 0x547D, 0x4EE4, 0x3002]"

text \<open>The budget is the text \<open>String(maxBudgetUsd)\<close> of a number.\<close>

definition positive_number :: "jstring \<Rightarrow> bool" where
  "positive_number n \<longleftrightarrow>
     n \<noteq> [] \<and> n \<noteq> js ''NaN'' \<and> n \<noteq> js ''Infinity'' \<and> n \<noteq> js ''0'' \<and> hd n \<noteq> 0x2D"

definition buildClaudeNativeInvocationCommand ::
  "pinned_command \<Rightarrow> jstring \<Rightarrow> jstring option \<Rightarrow> cli_error + jstring list" where
  "buildClaudeNativeInvocationCommand command maxBudgetUsd prompt =
     (let systemPrompt = (case prompt of None \<Rightarrow> CLAUDE_NATIVE_SYSTEM_PROMPT | Some s \<Rightarrow> s) in
      bindR (guardR (positive_number maxBudgetUsd) Cli_bad_budget) (\<lambda>_.
      bindR (guardR (\<not> js_blank systemPrompt) Cli_bad_prompt) (\<lambda>_.
      Inr (pc_path command #
        map js [''--print'', ''--input-format'', ''text'', ''--output-format'', ''stream-json'',
          ''--verbose'', ''--safe-mode'', ''--no-chrome'', ''--disable-slash-commands'',
          ''--strict-mcp-config'', ''--mcp-config'', ''{\"mcpServers\":{}}'', ''--tools'', '''',
          ''--permission-mode'', ''dontAsk'', ''--no-session-persistence'', ''--prompt-suggestions'',
          ''false'', ''--max-budget-usd'']
        @ [maxBudgetUsd, js ''--system-prompt'', systemPrompt]))))"

section \<open>What the child can see\<close>

lemma path_entries_outside:
  "list_all (\<lambda>e. \<not> isWithin stateDir e) entries \<Longrightarrow>
     list_all (\<lambda>e. \<not> isWithin stateDir e) (path_entries fs stateDir es entries)"
  by (induction es arbitrary: entries) (auto split: option.split)

lemma bounded_bytes_take:
  "bounded_bytes n chunks kept = (if length kept \<ge> n then kept else take n (kept @ concat chunks))"
  by (induction chunks arbitrary: kept) (auto simp: Let_def)

text \<open>The environment holds the listed variables only, and no directory on its search path lies in
  the state directory.\<close>

lemma environment_is_listed:
  assumes "buildClaudeNativeEnvironment fs stateDir runtimeTmpDir source = Inr env"
  shows "set (map fst env) \<subseteq> set (map js [''HOME'', ''TMPDIR'', ''PATH'']) \<union> set ENVIRONMENT_KEYS"
  using assms
  by (auto simp: buildClaudeNativeEnvironment_def bindR_Inr_iff split: option.splits)

end
