(* ===== verification/Claude_Backend.thy ===== *)
theory Claude_Backend
  imports Claude_Cli Daemon_Types Store_Machine
begin

text \<open>
  The Claude backend, \<open>ClaudeNativeExecutionBackend\<close> of
  \<open>src/src/backends/claude/native-execution-backend.ts\<close>: one child process for every job.

  \<^item> An attempt is an entry of \<open>cl_attempts\<close>, the index standing for the object. \<open>at_wait\<close> is
    what \<open>runAttempt\<close> waits for; \<open>at_stdout\<close> is the task that reads the stream of the child
    (\<open>Claude_Stream\<close>), which goes on beside it, and \<open>at_deadline\<close> the timer that is armed.
  \<^item> The file system, the child, the clock, the answers of the daemon's handlers and the other
    writers of the store are the environment. What \<open>spawn\<close>, \<open>kill\<close> and \<open>randomUUID\<close> do is taken
    from the configuration by tick.
  \<^item> What leaves the backend, and what it reads from the child, is appended to \<open>cl_log\<close>.
\<close>

section \<open>State\<close>

record layout =
  la_stateDir :: jstring
  la_workspace :: jstring
  la_runtimeTmpDir :: jstring
  la_sessionHash :: jstring

datatype io_task = Io_none | Io_running | Io_ended | Io_failed jstring

text \<open>\<open>closeProcess\<close> waits for the child after SIGTERM, after SIGKILL (with the first error), and
  for its pipes (with the error of the process group, if there is one).\<close>

datatype close_phase = Cl_term | Cl_kill | Cl_drain "jstring option"

text \<open>What follows \<open>closeProcess\<close>.\<close>

datatype close_then = Then_stopped | Then_cancelled | Then_caught jstring | Then_failed jstring

datatype attempt_wait =
  At_scheduled
| At_input
| At_output
| At_confirm stream_result int
| At_closing close_phase close_then
| At_handler
| At_last_handler "jstring list" jstring
| At_over

record attempt =
  at_job :: stored_job
  at_pid :: "int option"
  at_turnId :: "jstring option"
  at_accepted :: bool
  at_cancelRequested :: bool
  at_deadlineReason :: "jstring option"
  at_deadline :: "jstring option"
  at_terminal :: bool
  at_stdout :: "stream_task option"
  at_stderr :: io_task
  at_exited :: "int option"
  at_wait :: attempt_wait

record submission_record =
  pe_jobId :: jstring
  pe_leaseId :: jstring
  pe_cancelled :: bool

datatype dispatch_phase =
  D_pin stored_job preparation layout
| D_context stored_job preparation layout
| D_settled stored_job submission

datatype start_phase =
  Not_started | Start_layout | Start_context layout | Start_prepare layout | Start_ready
| Start_resolved | Start_rejected

datatype stop_phase =
  Not_stopped | Stop_start | Stop_submission nat bool | Stop_attempt nat | Stop_done

datatype claude_error = Claude_text jstring | Claude_store store_error

datatype signal = SIGTERM | SIGKILL

datatype signal_outcome = Sg_sent | Sg_missing | Sg_threw jstring

datatype claude_effect =
  Ca_ready jstring
| Ca_start_failed claude_error
| Ca_spawned nat stored_job "jstring list"
| Ca_input nat jstring
| Ca_chunk nat "nat list"
| Ca_exited nat int
| Ca_signal nat signal bool
| Ca_call nat exec_event
| Ca_submission stored_job submission
| Ca_cancel stored_job submission

record claude =
  cl_db :: db
  cl_layout :: "layout option"
  cl_preparation :: "preparation option"
  cl_active :: "nat option"
  cl_started :: bool
  cl_stopping :: bool
  cl_start :: start_phase
  cl_stop :: stop_phase
  cl_pending :: "submission_record option"
  cl_dispatch :: "dispatch_phase option"
  cl_submissions :: nat
  cl_executionId :: "jstring option"
  cl_lastFailure :: "jstring option"
  cl_failed :: bool
  cl_contextGeneration :: "jstring option"
  cl_lastContextFailure :: "jstring option"
  cl_attempts :: "attempt list"
  cl_tick :: nat
  cl_log :: "claude_effect list"

record claude_cfg =
  ca_store :: store_cfg
  ca_scopeKey :: jstring
  ca_sessionKey :: jstring
  ca_remoteNodeId :: jstring
  ca_maxOutputChars :: nat
  ca_maxBudgetUsd :: jstring
  ca_assistantContext :: bool
  ca_processGroups :: bool
  ca_num :: "jstring \<Rightarrow> jstring"
  ca_clock :: "nat \<Rightarrow> int"
  ca_uuid :: "nat \<Rightarrow> jstring"
  ca_spawn :: "nat \<Rightarrow> jstring + int option"
  ca_signal :: "nat \<Rightarrow> signal_outcome"

type_synonym 'a clact = "(claude, claude_error, 'a) stretch"

definition emitC :: "claude_effect \<Rightarrow> unit clact" where
  "emitC x = modify (\<lambda>s. s\<lparr>cl_log := cl_log s @ [x]\<rparr>)"

definition tickC :: "nat clact" where
  "tickC s = (Inr (cl_tick s), s\<lparr>cl_tick := Suc (cl_tick s)\<rparr>)"

definition storeC :: "claude_cfg \<Rightarrow> (store_cfg \<Rightarrow> int \<Rightarrow> db \<Rightarrow> 'a reply) \<Rightarrow> 'a clact" where
  "storeC c f s =
     (let r = f (ca_store c) (ca_clock c (cl_tick s)) (cl_db s)
      in (case fst r of Inl e \<Rightarrow> Inl (Claude_store e) | Inr a \<Rightarrow> Inr a,
          s\<lparr>cl_db := snd r, cl_tick := Suc (cl_tick s)\<rparr>))"

definition attempt_at :: "claude \<Rightarrow> nat \<Rightarrow> attempt" where
  "attempt_at s i = cl_attempts s ! i"

definition set_attempt :: "nat \<Rightarrow> (attempt \<Rightarrow> attempt) \<Rightarrow> claude \<Rightarrow> claude" where
  "set_attempt i f s = s\<lparr>cl_attempts := (cl_attempts s)[i := f (attempt_at s i)]\<rparr>"

definition upd_attempt :: "nat \<Rightarrow> (attempt \<Rightarrow> attempt) \<Rightarrow> unit clact" where
  "upd_attempt i f = modify (set_attempt i f)"

definition waitC :: "nat \<Rightarrow> attempt_wait \<Rightarrow> unit clact" where
  "waitC i w = upd_attempt i (\<lambda>a. a\<lparr>at_wait := w\<rparr>)"

definition set_failure :: "jstring \<Rightarrow> unit clact" where
  "set_failure m = modify (\<lambda>s. s\<lparr>cl_lastFailure := Some m\<rparr>)"

definition claude_ready :: "claude_cfg \<Rightarrow> claude \<Rightarrow> bool" where
  "claude_ready c s \<longleftrightarrow> cl_started s \<and> \<not> cl_stopping s \<and> \<not> cl_failed s \<and> cl_preparation s \<noteq> None
     \<and> getSessionQuarantine (ca_store c) (ca_sessionKey c) (cl_db s) = None"

definition executionId :: "claude_cfg \<Rightarrow> claude \<Rightarrow> jstring option" where
  "executionId c s = (if claude_ready c s then cl_executionId s else None)"

section \<open>The session anchor\<close>

definition hash :: "claude_cfg \<Rightarrow> jstring \<Rightarrow> jstring" where
  "hash c = sha256 (ca_store c)"

definition CLAUDE_SESSION_CONTRACT_VERSION :: jstring where
  "CLAUDE_SESSION_CONTRACT_VERSION = js ''claude-native-stateless-v1''"

definition CLAUDE_EFFECTIVE_MODEL :: jstring where
  "CLAUDE_EFFECTIVE_MODEL = js ''native-current-opaque''"

definition CLAUDE_MODEL_PROVIDER :: jstring where
  "CLAUDE_MODEL_PROVIDER = js ''claude-code-native-opaque''"

definition EMPTY_CHECKPOINT_SHA256 :: "claude_cfg \<Rightarrow> jstring" where
  "EMPTY_CHECKPOINT_SHA256 c = hash c (js ''[]'')"

definition CLAUDE_SECURITY_CONFIG_SHA256 :: "claude_cfg \<Rightarrow> jstring" where
  "CLAUDE_SECURITY_CONFIG_SHA256 c = hash c (json_stringify (JObj
     [(js ''safeMode'', JBool True), (js ''tools'', JArr []), (js ''mcpServers'', JArr []),
      (js ''skills'', JArr []), (js ''slashCommands'', JArr []),
      (js ''permissionMode'', JStr (js ''dontAsk'')), (js ''sessionPersistence'', JBool False),
      (js ''spawnEnvironment'', JStr (js ''allowlist-v1''))]))"

definition CLAUDE_FEATURE_SNAPSHOT_SHA256 :: "claude_cfg \<Rightarrow> jstring" where
  "CLAUDE_FEATURE_SNAPSHOT_SHA256 c = hash c (json_stringify (JObj
     [(js ''transport'', JStr (js ''cli-stream-json'')), (js ''execution'', JStr (js ''stateless-per-job'')),
      (js ''final'', JStr (js ''single-result'')), (js ''accountState'', JStr (js ''opaque''))]))"

definition stableSessionHash :: "claude_cfg \<Rightarrow> jstring" where
  "stableSessionHash c = hash c (json_stringify (JObj
     [(js ''scopeKey'', JStr (ca_scopeKey c)), (js ''sessionKey'', JStr (ca_sessionKey c)),
      (js ''remoteNodeId'', JStr (ca_remoteNodeId c)), (js ''backend'', JStr (js ''claude''))]))"

definition expectedThreadId :: "jstring \<Rightarrow> jstring" where
  "expectedThreadId sessionHash = js ''claude-stateless:'' @ take 24 sessionHash"

definition sessionMatchesAnchor :: "claude_cfg \<Rightarrow> session_row \<Rightarrow> layout \<Rightarrow> bool" where
  "sessionMatchesAnchor c session la \<longleftrightarrow>
     s_state_ownership session = Some LocalStateOpaque
     \<and> s_session_hash session = la_sessionHash la
     \<and> s_thread_id session = Some (expectedThreadId (la_sessionHash la))
     \<and> s_cwd session = la_workspace la
     \<and> s_cli_version session = CLAUDE_SESSION_CONTRACT_VERSION
     \<and> s_requested_model session = None
     \<and> s_effective_model session = Some CLAUDE_EFFECTIVE_MODEL
     \<and> s_model_provider session = Some CLAUDE_MODEL_PROVIDER
     \<and> s_security_config_sha256 session = Some (CLAUDE_SECURITY_CONFIG_SHA256 c)
     \<and> s_feature_snapshot_sha256 session = Some (CLAUDE_FEATURE_SNAPSHOT_SHA256 c)
     \<and> s_checkpoint_turn_id session = None \<and> s_checkpoint_turn_status session = None
     \<and> s_checkpoint_turn_count session = Some 0
     \<and> s_checkpoint_turns_sha256 session = Some (EMPTY_CHECKPOINT_SHA256 c)
     \<and> \<not> s_recovery_required session \<and> s_active_job_id session = None"

definition anchor_quarantined :: jstring where
  "anchor_quarantined = js ''Claude backend session '' @ [0x5DF2, 0x9694, 0x79BB, 0xFF1A]"

definition anchor_differs :: jstring where
  "anchor_differs = js ''Claude stateless session anchor '' @ [0x4E0E, 0x5F53, 0x524D, 0x5B89, 0x5168,
       0x5951, 0x7EA6, 0x4E0D, 0x4E00, 0x81F4]"

definition anchor_refused :: jstring where
  "anchor_refused = js ''Claude stateless session anchor '' @ [0x4E0D, 0x517C, 0x5BB9, 0xFF0C, 0x5DF2,
       0x5931, 0x8D25, 0x5173, 0x95ED, 0x5E76, 0x9694, 0x79BB]"

definition ensureSessionAnchor :: "claude_cfg \<Rightarrow> layout \<Rightarrow> unit clact" where
  "ensureSessionAnchor c la =
     bindA (readA (\<lambda>s. getSessionQuarantine (ca_store c) (ca_sessionKey c) (cl_db s))) (\<lambda>quarantine.
       case quarantine of
         Some q \<Rightarrow> throw (Claude_text (anchor_quarantined @ q_reason q))
       | None \<Rightarrow>
           bindA (readA (\<lambda>s. getBackendSession (ca_store c) (js ''claude'') (ca_sessionKey c) (cl_db s)))
             (\<lambda>existing.
               case existing of
                 Some session \<Rightarrow>
                   if sessionMatchesAnchor c session la then ret ()
                   else bindA (storeC c (\<lambda>cfg now. quarantineSession cfg now (ca_sessionKey c) anchor_differs))
                          (\<lambda>_. throw (Claude_text anchor_refused))
               | None \<Rightarrow>
                   bindA tickC (\<lambda>n.
                   bindA (storeC c (\<lambda>cfg now. createLocalOpaqueBackendSession cfg now
                     \<lparr>ls_backend = js ''claude'', ls_sessionKey = ca_sessionKey c,
                      ls_sessionHash = la_sessionHash la,
                      ls_threadId = expectedThreadId (la_sessionHash la), ls_cwd = la_workspace la,
                      ls_cliVersion = CLAUDE_SESSION_CONTRACT_VERSION, ls_requestedModel = None,
                      ls_effectiveModel = CLAUDE_EFFECTIVE_MODEL,
                      ls_modelProvider = CLAUDE_MODEL_PROVIDER,
                      ls_securityConfigSha256 = CLAUDE_SECURITY_CONFIG_SHA256 c,
                      ls_featureSnapshotSha256 = CLAUDE_FEATURE_SNAPSHOT_SHA256 c,
                      ls_checkpoint = \<lparr>cp_turn_id = None, cp_turn_status = None, cp_turn_count = 0,
                        cp_turns_sha256 = EMPTY_CHECKPOINT_SHA256 c, cp_at = ca_clock c n\<rparr>\<rparr>)) (\<lambda>_. ret ()))))"

section \<open>Signals and the end of a process\<close>

text \<open>\<open>signal\<close>: to the process group, and to the child alone if that threw.\<close>

definition signalC :: "claude_cfg \<Rightarrow> nat \<Rightarrow> signal \<Rightarrow> unit clact" where
  "signalC c i sg =
     bindA (readA (\<lambda>s. at_pid (attempt_at s i))) (\<lambda>pid.
       let child_kill =
             bindA tickC (\<lambda>n. thenA (emitC (Ca_signal i sg False))
               (case ca_signal c n of Sg_threw m \<Rightarrow> set_failure m | _ \<Rightarrow> ret ()))
       in if ca_processGroups c \<and> pid \<noteq> None \<and> the pid > 0 then
            bindA tickC (\<lambda>n. thenA (emitC (Ca_signal i sg True))
              (case ca_signal c n of Sg_threw _ \<Rightarrow> child_kill | _ \<Rightarrow> ret ()))
          else child_kill)"

definition closeProcess :: "claude_cfg \<Rightarrow> nat \<Rightarrow> close_then \<Rightarrow> unit clact" where
  "closeProcess c i k = thenA (signalC c i SIGTERM) (waitC i (At_closing Cl_term k))"

definition drain :: "nat \<Rightarrow> jstring option \<Rightarrow> close_then \<Rightarrow> unit clact" where
  "drain i closeError k = waitC i (At_closing (Cl_drain closeError) k)"

definition both_unconfirmed :: jstring where
  "both_unconfirmed = js ''Claude '' @ [0x8FDB, 0x7A0B, 0x7EC4, 0x4E0E] @ js '' stdio '' @ [0x5747, 0x672A,
       0x786E, 0x8BA4, 0x6536, 0x53E3]"

definition two_phases_unconfirmed :: jstring where
  "two_phases_unconfirmed = js ''Claude '' @ [0x72EC, 0x7ACB, 0x8FDB, 0x7A0B, 0x7EC4, 0x4E24, 0x9636, 0x6BB5,
       0x6536, 0x53E3, 0x672A, 0x786E, 0x8BA4]"

section \<open>The end of an attempt\<close>

definition no_execution_id :: jstring where
  "no_execution_id = js ''Claude executionId '' @ [0x5C1A, 0x672A, 0x5EFA, 0x7ACB]"

definition over :: "nat \<Rightarrow> unit clact" where
  "over i = waitC i At_over"

definition failClosed :: "claude_cfg \<Rightarrow> nat \<Rightarrow> jstring \<Rightarrow> unit clact" where
  "failClosed c i reason =
     thenA (modify (\<lambda>s. s\<lparr>cl_failed := True, cl_lastFailure := Some reason\<rparr>))
       (closeProcess c i (Then_failed reason))"

definition release_active :: "nat \<Rightarrow> unit clact" where
  "release_active i = modify (\<lambda>s. if cl_active s = Some i then s\<lparr>cl_active := None\<rparr> else s)"

definition fail_closed_incomplete :: "jstring \<Rightarrow> jstring" where
  "fail_closed_incomplete reason = js ''Claude fail-closed '' @ [0x672A, 0x5B8C, 0x6574, 0x6536, 0x53E3, 0xFF1A] @ reason"

definition failed_over :: "nat \<Rightarrow> jstring list \<Rightarrow> jstring \<Rightarrow> unit clact" where
  "failed_over i failures reason =
     thenA (if failures = [] then ret () else set_failure (fail_closed_incomplete reason)) (over i)"

definition failed_closed_reason :: "jstring \<Rightarrow> jstring" where
  "failed_closed_reason reason = js ''Claude attempt '' @ [0x5931, 0x8D25, 0x5173, 0x95ED, 0xFF1A] @ reason"

text \<open>\<open>failClosed\<close> after \<open>closeProcess\<close>.\<close>

definition report_failed :: "nat \<Rightarrow> jstring list \<Rightarrow> jstring \<Rightarrow> unit clact" where
  "report_failed i failures reason =
     bindA (readA (\<lambda>s. (cl_active s, cl_executionId s))) (\<lambda>(active, execution).
       if active \<noteq> Some i then failed_over i failures reason
       else thenA (upd_attempt i (\<lambda>a. a\<lparr>at_terminal := True\<rparr>))
         (case execution of
            None \<Rightarrow> thenA (release_active i) (failed_over i (failures @ [no_execution_id]) reason)
          | Some e \<Rightarrow>
              thenA (emitC (Ca_call i (X_disconnected Claude e (Some (failed_closed_reason reason)))))
                (waitC i (At_last_handler failures reason))))"

text \<open>\<open>beginTerminal\<close>, the call of the handler, and the wait for it.\<close>

definition finish :: "claude_cfg \<Rightarrow> nat \<Rightarrow> bool \<Rightarrow> (attempt \<Rightarrow> jstring \<Rightarrow> exec_event) \<Rightarrow> unit clact" where
  "finish c i failing ev =
     bindA (readA (\<lambda>s. (cl_active s, attempt_at s i, cl_executionId s))) (\<lambda>(active, a, execution).
       if at_terminal a \<or> active \<noteq> Some i then over i
       else
         thenA (upd_attempt i (\<lambda>a. a\<lparr>at_terminal := True\<rparr>))
           (thenA (modify (\<lambda>s. if failing then s\<lparr>cl_failed := True\<rparr> else s))
             (case execution of
                None \<Rightarrow> failClosed c i no_execution_id
              | Some e \<Rightarrow> thenA (emitC (Ca_call i (ev a e))) (waitC i At_handler))))"

definition claude_event :: "attempt \<Rightarrow> jstring \<Rightarrow> job_event" where
  "claude_event a execution =
     \<lparr>je_kind = Claude, je_executionId = execution, je_jobId = j_job_id (sj_row (at_job a)),
      je_leaseId = the (j_lease_id (sj_row (at_job a))),
      je_runGeneration = Some (int (j_run_generation (sj_row (at_job a)))), je_turnId = at_turnId a\<rparr>"

definition finishResult :: "claude_cfg \<Rightarrow> nat \<Rightarrow> jstring \<Rightarrow> unit clact" where
  "finishResult c i final = finish c i False (\<lambda>a e. X_result (claude_event a e) final)"

definition finishFailed :: "claude_cfg \<Rightarrow> nat \<Rightarrow> jstring \<Rightarrow> unit clact" where
  "finishFailed c i err = finish c i False (\<lambda>a e. X_failed (claude_event a e) err False)"

definition finishCancelled :: "claude_cfg \<Rightarrow> nat \<Rightarrow> unit clact" where
  "finishCancelled c i = finish c i True (\<lambda>a e. X_cancelled (claude_event a e) False)"

definition finishDisconnected :: "claude_cfg \<Rightarrow> nat \<Rightarrow> jstring \<Rightarrow> unit clact" where
  "finishDisconnected c i reason = finish c i True (\<lambda>a e. X_disconnected Claude e (Some reason))"

section \<open>The run of an attempt\<close>

definition stopped_reason :: jstring where
  "stopped_reason = js ''Claude backend '' @ [0x505C, 0x6B62, 0x65F6, 0x4ECD, 0x6709, 0x5DF2, 0x63D0,
       0x4EA4, 0x6267, 0x884C]"

definition init_timeout :: jstring where
  "init_timeout = js ''Claude system/init '' @ [0x7B49, 0x5F85, 0x8D85, 0x65F6]"

definition result_timeout :: jstring where
  "result_timeout = js ''Claude terminal result '' @ [0x7B49, 0x5F85, 0x8D85, 0x65F6]"

definition run_attempt :: "claude_cfg \<Rightarrow> nat \<Rightarrow> unit clact" where
  "run_attempt c i =
     bindA (readA (\<lambda>s. (cl_active s, cl_stopping s, attempt_at s i))) (\<lambda>(active, stopping, a).
       if active \<noteq> Some i then over i
       else if stopping then closeProcess c i Then_stopped
       else if at_cancelRequested a then closeProcess c i Then_cancelled
       else
         thenA (upd_attempt i (\<lambda>a. a\<lparr>at_deadline := Some init_timeout,
                  at_stdout := Some (Reading new_stream), at_stderr := Io_running\<rparr>))
           (thenA (emitC (Ca_input i (j_input_text (sj_row (at_job a))))) (waitC i At_input)))"

text \<open>The \<open>catch\<close> of \<open>runAttempt\<close>.\<close>

definition caught :: "claude_cfg \<Rightarrow> nat \<Rightarrow> jstring \<Rightarrow> unit clact" where
  "caught c i e =
     thenA (upd_attempt i (\<lambda>a. a\<lparr>at_deadline := None\<rparr>))
       (bindA (readA (\<lambda>s. at_terminal (attempt_at s i))) (\<lambda>terminal.
         if terminal then failClosed c i e else closeProcess c i (Then_caught e)))"

text \<open>The race of \<open>sendInput\<close> against the deadline, which rejects once it has run out.\<close>

datatype input_race = Input_sent | Input_failed jstring | Input_deadline

definition input_settled :: "claude_cfg \<Rightarrow> nat \<Rightarrow> input_race \<Rightarrow> unit clact" where
  "input_settled c i r =
     (case r of
        Input_sent \<Rightarrow> waitC i At_output
      | Input_failed e \<Rightarrow> caught c i e
      | Input_deadline \<Rightarrow>
          bindA (readA (\<lambda>s. at_deadlineReason (attempt_at s i))) (\<lambda>reason.
            case reason of Some e \<Rightarrow> caught c i e | None \<Rightarrow> ret ()))"

datatype output_race = Race_all | Race_stdout | Race_stderr | Race_deadline

text \<open>The race of stdout, stderr and the exit, which must all settle, against the deadline.\<close>

definition output_settled :: "claude_cfg \<Rightarrow> nat \<Rightarrow> output_race \<Rightarrow> unit clact" where
  "output_settled c i r =
     bindA (readA (\<lambda>s. attempt_at s i)) (\<lambda>a.
       case r of
         Race_all \<Rightarrow>
           (case (at_stdout a, at_stderr a, at_exited a) of
              (Some (Ended (Inr result)), Io_ended, Some exitCode) \<Rightarrow>
                thenA (upd_attempt i (\<lambda>a. a\<lparr>at_deadline := None\<rparr>)) (waitC i (At_confirm result exitCode))
            | _ \<Rightarrow> ret ())
       | Race_stdout \<Rightarrow>
           (case at_stdout a of Some (Ended (Inl e)) \<Rightarrow> caught c i (stream_message e) | _ \<Rightarrow> ret ())
       | Race_stderr \<Rightarrow> (case at_stderr a of Io_failed e \<Rightarrow> caught c i e | _ \<Rightarrow> ret ())
       | Race_deadline \<Rightarrow>
           (case at_deadlineReason a of Some e \<Rightarrow> caught c i e | None \<Rightarrow> ret ()))"

definition js_int :: "int \<Rightarrow> jstring" where
  "js_int n = (if n < 0 then 0x2D # js_decimal (nat (- n)) else js_decimal (nat n))"

definition exit_reason :: "int \<Rightarrow> jstring" where
  "exit_reason exitCode = js ''Claude CLI '' @ [0x975E, 0x96F6, 0x9000, 0x51FA, 0xFF08] @ js ''exit '' @ js_int exitCode @ [0xFF09]"

definition unbound_reason :: jstring where
  "unbound_reason = js ''Claude terminal result '' @ [0x672A, 0x7ED1, 0x5B9A, 0x6709, 0x6548] @
       js '' system/init''"

definition failure_text :: "jstring \<Rightarrow> jstring" where
  "failure_text subtype = js ''Claude Code terminal failure ('' @ subtype @ js '')''"

definition confirmed :: "claude_cfg \<Rightarrow> nat \<Rightarrow> stream_result \<Rightarrow> int \<Rightarrow> unit clact" where
  "confirmed c i result exitCode =
     bindA (readA (\<lambda>s. attempt_at s i)) (\<lambda>a.
       if at_cancelRequested a then finishCancelled c i
       else if exitCode \<noteq> 0 then finishDisconnected c i (exit_reason exitCode)
       else if \<not> at_accepted a \<or> at_turnId a = None then finishDisconnected c i unbound_reason
       else if sr_success result then finishResult c i (the (sr_text result))
       else finishFailed c i (failure_text (sr_subtype result)))"

definition confirm_settled :: "claude_cfg \<Rightarrow> nat \<Rightarrow> stream_result \<Rightarrow> int \<Rightarrow> jstring option \<Rightarrow> unit clact" where
  "confirm_settled c i result exitCode err =
     (case err of Some e \<Rightarrow> caught c i e | None \<Rightarrow> confirmed c i result exitCode)"

text \<open>\<open>closeProcess\<close> has returned, or thrown.\<close>

definition process_closed :: "claude_cfg \<Rightarrow> nat \<Rightarrow> close_then \<Rightarrow> jstring option \<Rightarrow> unit clact" where
  "process_closed c i k err =
     (case k of
        Then_stopped \<Rightarrow>
          (case err of Some e \<Rightarrow> failClosed c i e | None \<Rightarrow> finishDisconnected c i stopped_reason)
      | Then_cancelled \<Rightarrow>
          (case err of Some e \<Rightarrow> failClosed c i e | None \<Rightarrow> finishCancelled c i)
      | Then_caught e \<Rightarrow>
          thenA (case err of Some x \<Rightarrow> set_failure x | None \<Rightarrow> ret ())
            (bindA (readA (\<lambda>s. attempt_at s i)) (\<lambda>a.
               if at_cancelRequested a then finishCancelled c i
               else finishDisconnected c i
                      (case at_deadlineReason a of Some reason \<Rightarrow> reason | None \<Rightarrow> e)))
      | Then_failed reason \<Rightarrow>
          report_failed i (case err of Some e \<Rightarrow> [e] | None \<Rightarrow> []) reason)"

text \<open>A wait of \<open>closeProcess\<close> has ended: the child is gone (or the pipes are drained), or the
  time is up. The child is only ever gone when it has exited, and its pipes are drained when
  their tasks have settled.\<close>

definition io_settled :: "attempt \<Rightarrow> bool" where
  "io_settled a \<longleftrightarrow>
     (case at_stdout a of None \<Rightarrow> True | Some (Ended _) \<Rightarrow> True | Some _ \<Rightarrow> False)
     \<and> at_stderr a \<noteq> Io_running"

definition close_settled :: "claude_cfg \<Rightarrow> nat \<Rightarrow> close_phase \<Rightarrow> close_then \<Rightarrow> jstring option \<Rightarrow> unit clact" where
  "close_settled c i phase k err =
     bindA (readA (\<lambda>s. attempt_at s i)) (\<lambda>a.
       case phase of
         Cl_term \<Rightarrow>
           (case err of
              None \<Rightarrow> if at_exited a = None then ret () else drain i None k
            | Some _ \<Rightarrow> thenA (signalC c i SIGKILL) (waitC i (At_closing Cl_kill k)))
       | Cl_kill \<Rightarrow>
           (case err of
              None \<Rightarrow> if at_exited a = None then ret () else drain i None k
            | Some _ \<Rightarrow> drain i (Some two_phases_unconfirmed) k)
       | Cl_drain closeError \<Rightarrow>
           (case err of
              None \<Rightarrow> if io_settled a then process_closed c i k closeError else ret ()
            | Some drainError \<Rightarrow>
                process_closed c i k
                  (Some (if closeError = None then drainError else both_unconfirmed))))"

text \<open>The handler of the daemon that an attempt waits for has settled.\<close>

definition attempt_handler_settled :: "claude_cfg \<Rightarrow> nat \<Rightarrow> jstring option \<Rightarrow> unit clact" where
  "attempt_handler_settled c i err =
     bindA (readA (\<lambda>s. at_wait (attempt_at s i))) (\<lambda>w.
       case w of
         At_handler \<Rightarrow>
           (case err of Some e \<Rightarrow> failClosed c i e | None \<Rightarrow> thenA (release_active i) (over i))
       | At_last_handler failures reason \<Rightarrow>
           thenA (release_active i)
             (failed_over i (failures @ (case err of Some e \<Rightarrow> [e] | None \<Rightarrow> [])) reason)
       | _ \<Rightarrow> ret ())"

section \<open>The stream of the child\<close>

definition repeated_session :: jstring where
  "repeated_session = js ''Claude attempt '' @ [0x91CD, 0x590D, 0x7ED1, 0x5B9A] @ js '' session_id''"

definition stream_cfg_of :: "claude_cfg \<Rightarrow> stream_cfg" where
  "stream_cfg_of c = \<lparr>sg_num = ca_num c, sg_maxOutputChars = ca_maxOutputChars c\<rparr>"

definition set_stdout :: "nat \<Rightarrow> stream_task \<Rightarrow> unit clact" where
  "set_stdout i t = upd_attempt i (\<lambda>a. a\<lparr>at_stdout := Some t\<rparr>)"

text \<open>\<open>onInit\<close> up to the call of \<open>onAccepted\<close>.\<close>

definition on_init :: "nat \<Rightarrow> jstring \<Rightarrow> stream_task \<Rightarrow> unit clact" where
  "on_init i sessionId t =
     bindA (readA (\<lambda>s. (attempt_at s i, cl_executionId s))) (\<lambda>(a, execution).
       if at_turnId a \<noteq> None then set_stdout i (task_failed repeated_session t)
       else
         thenA (upd_attempt i (\<lambda>a. a\<lparr>at_turnId := Some sessionId\<rparr>))
           (case execution of
              None \<Rightarrow> set_stdout i (task_failed no_execution_id t)
            | Some e \<Rightarrow>
                thenA (emitC (Ca_call i (X_accepted (claude_event (a\<lparr>at_turnId := Some sessionId\<rparr>) e))))
                  (set_stdout i t)))"

definition stdout_goes_on :: "nat \<Rightarrow> stream_task \<Rightarrow> unit clact" where
  "stdout_goes_on i t =
     (case t of Accepting _ sessionId _ \<Rightarrow> on_init i sessionId t | _ \<Rightarrow> set_stdout i t)"

datatype stdout_read = Read_chunk "nat list" | Read_end | Read_threw jstring

definition stdout_reads :: "claude_cfg \<Rightarrow> nat \<Rightarrow> stdout_read \<Rightarrow> unit clact" where
  "stdout_reads c i r =
     bindA (readA (\<lambda>s. at_stdout (attempt_at s i))) (\<lambda>t.
       case t of
         Some (Reading st) \<Rightarrow>
           (case r of
              Read_chunk bs \<Rightarrow>
                thenA (emitC (Ca_chunk i bs))
                  (stdout_goes_on i (task_chunk (stream_cfg_of c) bs (Reading st)))
            | Read_end \<Rightarrow> stdout_goes_on i (task_done (stream_cfg_of c) (Reading st))
            | Read_threw e \<Rightarrow> set_stdout i (task_failed e (Reading st)))
       | _ \<Rightarrow> ret ())"

text \<open>\<open>onAccepted\<close> has settled.\<close>

definition accepted_settled :: "claude_cfg \<Rightarrow> nat \<Rightarrow> jstring option \<Rightarrow> unit clact" where
  "accepted_settled c i err =
     bindA (readA (\<lambda>s. at_stdout (attempt_at s i))) (\<lambda>t.
       case t of
         Some (Accepting w sessionId st) \<Rightarrow>
           (case err of
              Some e \<Rightarrow> set_stdout i (task_failed e (Accepting w sessionId st))
            | None \<Rightarrow>
                thenA (upd_attempt i (\<lambda>a. a\<lparr>at_accepted := True, at_deadline := Some result_timeout\<rparr>))
                  (stdout_goes_on i (task_accepted (stream_cfg_of c) (Accepting w sessionId st))))
       | _ \<Rightarrow> ret ())"

definition deadline_fires :: "claude_cfg \<Rightarrow> nat \<Rightarrow> unit clact" where
  "deadline_fires c i =
     bindA (readA (\<lambda>s. at_deadline (attempt_at s i))) (\<lambda>armed.
       case armed of
         None \<Rightarrow> ret ()
       | Some reason \<Rightarrow>
           thenA (upd_attempt i (\<lambda>a. a\<lparr>at_deadline := None, at_deadlineReason := Some reason\<rparr>))
             (signalC c i SIGTERM))"

section \<open>Start\<close>

definition start_claude :: "unit clact" where
  "start_claude =
     bindA (readA (\<lambda>s. (cl_start s, cl_stop s))) (\<lambda>(phase, stop).
       if phase \<noteq> Not_started then ret ()
       else if stop \<noteq> Not_stopped then throw (Claude_text (js ''Claude backend '' @ [0x5DF2, 0x8FDB, 0x5165, 0x505C, 0x6B62, 0x6D41, 0x7A0B]))
       else modify (\<lambda>s. s\<lparr>cl_start := Start_layout\<rparr>))"

definition start_rejects :: "claude_error \<Rightarrow> unit clact" where
  "start_rejects e =
     thenA (emitC (Ca_start_failed e)) (modify (\<lambda>s. s\<lparr>cl_start := Start_rejected\<rparr>))"

text \<open>The directories are there, as \<open>realpath\<close> gives them.\<close>

definition layout_of :: "claude_cfg \<Rightarrow> jstring \<times> jstring \<times> jstring \<Rightarrow> layout" where
  "layout_of c paths =
     \<lparr>la_stateDir = fst paths, la_workspace = fst (snd paths), la_runtimeTmpDir = snd (snd paths),
      la_sessionHash = stableSessionHash c\<rparr>"

definition layout_settled :: "claude_cfg \<Rightarrow> jstring + jstring \<times> jstring \<times> jstring \<Rightarrow> unit clact" where
  "layout_settled c r =
     (case r of
        Inl e \<Rightarrow> start_rejects (Claude_text e)
      | Inr paths \<Rightarrow> modify (\<lambda>s. s\<lparr>cl_start :=
          (if ca_assistantContext c then Start_context (layout_of c paths)
           else Start_prepare (layout_of c paths))\<rparr>))"

text \<open>\<open>syncAssistantContext\<close>: the snapshot's generation and prompt.\<close>

definition context_loaded :: "jstring \<Rightarrow> unit clact" where
  "context_loaded generation =
     modify (\<lambda>s. s\<lparr>cl_contextGeneration := Some generation, cl_lastContextFailure := None\<rparr>)"

definition start_context_settled :: "layout \<Rightarrow> jstring + jstring \<times> jstring \<Rightarrow> unit clact" where
  "start_context_settled la r =
     (case r of
        Inl e \<Rightarrow> start_rejects (Claude_text e)
      | Inr (generation, _) \<Rightarrow>
          thenA (context_loaded generation) (modify (\<lambda>s. s\<lparr>cl_start := Start_prepare la\<rparr>)))"

definition new_execution_id :: "layout \<Rightarrow> jstring \<Rightarrow> jstring" where
  "new_execution_id la uuid = js ''claude-native:'' @ take 24 (la_sessionHash la) @ js '':'' @ uuid"

definition prepared :: "claude_cfg \<Rightarrow> layout \<Rightarrow> jstring + preparation \<Rightarrow> unit clact" where
  "prepared c la r =
     (case r of
        Inl e \<Rightarrow> start_rejects (Claude_text e)
      | Inr p \<Rightarrow>
          tryA
            (thenA (ensureSessionAnchor c la)
              (bindA tickC (\<lambda>n.
                 thenA (modify (\<lambda>s. s\<lparr>cl_layout := Some la, cl_preparation := Some p,
                          cl_executionId := Some (new_execution_id la (ca_uuid c n)),
                          cl_started := True, cl_start := Start_ready\<rparr>))
                   (emitC (Ca_ready (new_execution_id la (ca_uuid c n)))))))
            start_rejects)"

definition ready_settled :: "jstring option \<Rightarrow> unit clact" where
  "ready_settled err =
     (case err of
        None \<Rightarrow> modify (\<lambda>s. s\<lparr>cl_start := Start_resolved\<rparr>)
      | Some e \<Rightarrow>
          thenA (modify (\<lambda>s. s\<lparr>cl_failed := True, cl_lastFailure := Some e\<rparr>))
            (start_rejects (Claude_text e)))"

section \<open>Dispatch\<close>

definition dispatch_to :: "dispatch_phase \<Rightarrow> unit clact" where
  "dispatch_to p = modify (\<lambda>s. s\<lparr>cl_dispatch := Some p\<rparr>)"

definition not_sent :: "stored_job \<Rightarrow> unit clact" where
  "not_sent job = dispatch_to (D_settled job Not_sent)"

text \<open>\<open>dispatchInternal\<close>: up to the check of the pinned command, and from one await to the next.\<close>

definition dispatchInternal :: "claude_cfg \<Rightarrow> stored_job \<Rightarrow> unit clact" where
  "dispatchInternal c job =
     bindA (readA (\<lambda>s. (claude_ready c s, cl_active s, cl_preparation s, cl_layout s)))
       (\<lambda>(ready, active, preparation, la).
         case (preparation, la) of
           (Some p, Some l) \<Rightarrow>
             if \<not> ready \<or> active \<noteq> None \<or> falsy (j_lease_id (sj_row job))
                \<or> j_run_generation (sj_row job) < 1 \<or> j_target_backend (sj_row job) \<noteq> Claude
             then not_sent job else dispatch_to (D_pin job p l)
         | _ \<Rightarrow> not_sent job)"

definition dispatch_claude :: "claude_cfg \<Rightarrow> stored_job \<Rightarrow> unit clact" where
  "dispatch_claude c job =
     bindA (readA cl_pending) (\<lambda>pending.
       if pending \<noteq> None then emitC (Ca_submission job Not_sent)
       else
         thenA (modify (\<lambda>s. s\<lparr>cl_pending := Some \<lparr>pe_jobId = j_job_id (sj_row job),
                  pe_leaseId = (case j_lease_id (sj_row job) of None \<Rightarrow> [] | Some l \<Rightarrow> l),
                  pe_cancelled = False\<rparr>, cl_submissions := Suc (cl_submissions s)\<rparr>))
           (dispatchInternal c job))"

text \<open>The check after an await.\<close>

definition still_wanted :: "claude_cfg \<Rightarrow> preparation \<Rightarrow> layout \<Rightarrow> claude \<Rightarrow> bool" where
  "still_wanted c p l s \<longleftrightarrow>
     \<not> (case cl_pending s of None \<Rightarrow> False | Some r \<Rightarrow> pe_cancelled r)
     \<and> claude_ready c s \<and> cl_preparation s = Some p \<and> cl_layout s = Some l"

definition pin_settled :: "claude_cfg \<Rightarrow> stored_job \<Rightarrow> preparation \<Rightarrow> layout \<Rightarrow> jstring option \<Rightarrow> unit clact" where
  "pin_settled c job p l err =
     (case err of
        Some e \<Rightarrow> thenA (set_failure e) (not_sent job)
      | None \<Rightarrow>
          bindA (readA (still_wanted c p l)) (\<lambda>wanted.
            if wanted then dispatch_to (D_context job p l) else not_sent job))"

definition new_attempt :: "stored_job \<Rightarrow> int option \<Rightarrow> attempt" where
  "new_attempt job pid =
     \<lparr>at_job = job, at_pid = pid, at_turnId = None, at_accepted = False, at_cancelRequested = False,
      at_deadlineReason = None, at_deadline = None, at_terminal = False, at_stdout = None,
      at_stderr = Io_none, at_exited = None, at_wait = At_scheduled\<rparr>"

definition invocation :: "claude_cfg \<Rightarrow> preparation \<Rightarrow> jstring option \<Rightarrow> cli_error + jstring list" where
  "invocation c p contextPrompt =
     buildClaudeNativeInvocationCommand (pr_command p) (ca_maxBudgetUsd c)
       (map_option (\<lambda>prompt. CLAUDE_NATIVE_SYSTEM_PROMPT @ [0x0A, 0x0A] @ prompt) contextPrompt)"

definition invocation_failure :: "cli_error \<Rightarrow> jstring" where
  "invocation_failure e =
     (if e = Cli_bad_budget then js ''Claude maxBudgetUsd '' @ [0x5FC5, 0x987B, 0x662F, 0x6B63, 0x6570]
      else js ''Claude system prompt '' @ [0x4E0D, 0x80FD, 0x4E3A, 0x7A7A])"

definition spawnC :: "claude_cfg \<Rightarrow> stored_job \<Rightarrow> preparation \<Rightarrow> jstring option \<Rightarrow> unit clact" where
  "spawnC c job p contextPrompt =
     (case invocation c p contextPrompt of
        Inl e \<Rightarrow> thenA (set_failure (invocation_failure e)) (not_sent job)
      | Inr command \<Rightarrow>
          bindA tickC (\<lambda>n.
            case ca_spawn c n of
              Inl e \<Rightarrow> thenA (set_failure e) (not_sent job)
            | Inr pid \<Rightarrow>
                bindA (readA (\<lambda>s. length (cl_attempts s))) (\<lambda>i.
                  thenA (modify (\<lambda>s. s\<lparr>cl_attempts := cl_attempts s @ [new_attempt job pid],
                           cl_active := Some i\<rparr>))
                    (thenA (emitC (Ca_spawned i job command))
                      (dispatch_to (D_settled job Submitted))))))"

definition context_settled ::
  "claude_cfg \<Rightarrow> stored_job \<Rightarrow> preparation \<Rightarrow> layout \<Rightarrow> jstring + jstring \<times> jstring \<Rightarrow> unit clact" where
  "context_settled c job p l r =
     (let spawn = (\<lambda>prompt. bindA (readA (still_wanted c p l)) (\<lambda>wanted.
            if wanted then spawnC c job p prompt else not_sent job)) in
      if \<not> ca_assistantContext c then spawn None
      else case r of
          Inl status \<Rightarrow>
            thenA (modify (\<lambda>s. s\<lparr>cl_lastContextFailure := Some status, cl_lastFailure := Some status\<rparr>))
              (not_sent job)
        | Inr (generation, prompt) \<Rightarrow> thenA (context_loaded generation) (spawn (Some prompt)))"

text \<open>The \<open>finally\<close> of \<open>dispatch\<close>, one turn after \<open>dispatchInternal\<close> has returned.\<close>

definition dispatch_returns :: "stored_job \<Rightarrow> submission \<Rightarrow> unit clact" where
  "dispatch_returns job r =
     thenA (modify (\<lambda>s. s\<lparr>cl_pending := None, cl_dispatch := None\<rparr>)) (emitC (Ca_submission job r))"

definition cancel_claude :: "claude_cfg \<Rightarrow> stored_job \<Rightarrow> unit clact" where
  "cancel_claude c job =
     bindA (readA (\<lambda>s. (cl_pending s, cl_active s, cl_attempts s))) (\<lambda>(pending, active, attempts).
       let same = (\<lambda>j. j_job_id (sj_row j) = j_job_id (sj_row job)
                     \<and> j_lease_id (sj_row j) = j_lease_id (sj_row job));
           to_active =
             (case active of
                None \<Rightarrow> emitC (Ca_cancel job Not_sent)
              | Some i \<Rightarrow>
                  if same (at_job (attempts ! i)) then
                    thenA (upd_attempt i (\<lambda>a. a\<lparr>at_cancelRequested := True\<rparr>))
                      (thenA (signalC c i SIGTERM) (emitC (Ca_cancel job Submitted)))
                  else emitC (Ca_cancel job Not_sent))
       in case pending of
            None \<Rightarrow> to_active
          | Some p \<Rightarrow>
              if pe_jobId p = j_job_id (sj_row job) \<and> Some (pe_leaseId p) = j_lease_id (sj_row job)
              then thenA (modify (\<lambda>s. s\<lparr>cl_pending := Some (p\<lparr>pe_cancelled := True\<rparr>)\<rparr>))
                     (emitC (Ca_cancel job Not_sent))
              else to_active)"

section \<open>Stop\<close>

definition stop_claude :: "unit clact" where
  "stop_claude =
     bindA (readA cl_stop) (\<lambda>phase.
       if phase \<noteq> Not_stopped then ret ()
       else modify (\<lambda>s. s\<lparr>cl_stopping := True, cl_stop := Stop_start\<rparr>))"

definition stop_ends :: "unit clact" where
  "stop_ends =
     modify (\<lambda>s. s\<lparr>cl_started := False, cl_preparation := None, cl_executionId := None,
               cl_stop := Stop_done\<rparr>)"

text \<open>The submission that \<open>stop\<close> waits for is the one that was under way when it looked.\<close>

definition stop_goes_on :: "claude_cfg \<Rightarrow> unit clact" where
  "stop_goes_on c =
     bindA (readA (\<lambda>s. s)) (\<lambda>s.
       case cl_stop s of
         Stop_start \<Rightarrow>
           if cl_start s \<in> {Not_started, Start_resolved, Start_rejected}
           then modify (\<lambda>s. s\<lparr>cl_stop := Stop_submission (cl_submissions s) (cl_dispatch s \<noteq> None)\<rparr>)
           else ret ()
       | Stop_submission n waits \<Rightarrow>
           if waits \<and> cl_dispatch s \<noteq> None \<and> cl_submissions s = n then ret ()
           else (case cl_active s of
               None \<Rightarrow> stop_ends
             | Some i \<Rightarrow>
                 thenA (signalC c i SIGTERM)
                   (thenA (if at_wait (attempt_at s i) = At_scheduled then run_attempt c i else ret ())
                     (modify (\<lambda>s. s\<lparr>cl_stop := Stop_attempt i\<rparr>))))
       | Stop_attempt i \<Rightarrow>
           if at_wait (attempt_at s i) = At_over then thenA (release_active i) stop_ends else ret ()
       | _ \<Rightarrow> ret ())"

section \<open>Events\<close>

datatype claude_input =
  K_start
| K_layout "jstring + jstring \<times> jstring \<times> jstring"
| K_start_context "jstring + jstring \<times> jstring"
| K_prepared "jstring + preparation"
| K_ready "jstring option"
| K_dispatch stored_job
| K_pin "jstring option"
| K_context "jstring + jstring \<times> jstring"
| K_dispatched
| K_cancel stored_job
| K_stop
| K_stop_goes_on
| K_run nat
| K_input nat input_race
| K_output nat output_race
| K_confirm nat "jstring option"
| K_close nat "jstring option"
| K_handler nat "jstring option"
| K_stdout nat stdout_read
| K_stderr nat "jstring option"
| K_exit nat int
| K_accepted nat "jstring option"
| K_deadline nat
| K_store store_cfg int store_op

definition runC :: "'a clact \<Rightarrow> claude \<Rightarrow> claude" where
  "runC m s = snd (m s)"

text \<open>An event happens only to a method that waits for it.\<close>

definition at_attempt :: "claude \<Rightarrow> nat \<Rightarrow> unit clact \<Rightarrow> unit clact" where
  "at_attempt s i m = (if i < length (cl_attempts s) then m else ret ())"

definition stderr_settled :: "nat \<Rightarrow> jstring option \<Rightarrow> unit clact" where
  "stderr_settled i err =
     upd_attempt i (\<lambda>a. if at_stderr a = Io_running
       then a\<lparr>at_stderr := (case err of None \<Rightarrow> Io_ended | Some e \<Rightarrow> Io_failed e)\<rparr> else a)"

definition child_exits :: "nat \<Rightarrow> int \<Rightarrow> unit clact" where
  "child_exits i code =
     bindA (readA (\<lambda>s. at_exited (attempt_at s i))) (\<lambda>exited.
       if exited = None
       then thenA (upd_attempt i (\<lambda>a. a\<lparr>at_exited := Some code\<rparr>)) (emitC (Ca_exited i code))
       else ret ())"

text \<open>What \<open>runAttempt\<close> of an attempt resumes with.\<close>

definition resumes :: "claude_cfg \<Rightarrow> nat \<Rightarrow> attempt_wait \<Rightarrow> claude_input \<Rightarrow> unit clact" where
  "resumes c i w ev =
     (case w of
        At_scheduled \<Rightarrow> (case ev of K_run _ \<Rightarrow> run_attempt c i | _ \<Rightarrow> ret ())
      | At_input \<Rightarrow> (case ev of K_input _ r \<Rightarrow> input_settled c i r | _ \<Rightarrow> ret ())
      | At_output \<Rightarrow> (case ev of K_output _ r \<Rightarrow> output_settled c i r | _ \<Rightarrow> ret ())
      | At_confirm result exitCode \<Rightarrow>
          (case ev of K_confirm _ err \<Rightarrow> confirm_settled c i result exitCode err | _ \<Rightarrow> ret ())
      | At_closing phase k \<Rightarrow> (case ev of K_close _ err \<Rightarrow> close_settled c i phase k err | _ \<Rightarrow> ret ())
      | At_handler \<Rightarrow> (case ev of K_handler _ err \<Rightarrow> attempt_handler_settled c i err | _ \<Rightarrow> ret ())
      | At_last_handler _ _ \<Rightarrow>
          (case ev of K_handler _ err \<Rightarrow> attempt_handler_settled c i err | _ \<Rightarrow> ret ())
      | At_over \<Rightarrow> ret ())"

definition run_resumes :: "claude_cfg \<Rightarrow> claude \<Rightarrow> nat \<Rightarrow> claude_input \<Rightarrow> unit clact" where
  "run_resumes c s i ev = at_attempt s i (resumes c i (at_wait (attempt_at s i)) ev)"

fun event_happens :: "claude_cfg \<Rightarrow> claude \<Rightarrow> claude_input \<Rightarrow> unit clact" where
  "event_happens c s K_start = start_claude"
| "event_happens c s (K_layout r) =
     (case cl_start s of Start_layout \<Rightarrow> layout_settled c r | _ \<Rightarrow> ret ())"
| "event_happens c s (K_start_context r) =
     (case cl_start s of Start_context la \<Rightarrow> start_context_settled la r | _ \<Rightarrow> ret ())"
| "event_happens c s (K_prepared r) =
     (case cl_start s of Start_prepare la \<Rightarrow> prepared c la r | _ \<Rightarrow> ret ())"
| "event_happens c s (K_ready err) = (case cl_start s of Start_ready \<Rightarrow> ready_settled err | _ \<Rightarrow> ret ())"
| "event_happens c s (K_dispatch job) = dispatch_claude c job"
| "event_happens c s (K_pin err) =
     (case cl_dispatch s of Some (D_pin job p l) \<Rightarrow> pin_settled c job p l err | _ \<Rightarrow> ret ())"
| "event_happens c s (K_context r) =
     (case cl_dispatch s of Some (D_context job p l) \<Rightarrow> context_settled c job p l r | _ \<Rightarrow> ret ())"
| "event_happens c s K_dispatched =
     (case cl_dispatch s of Some (D_settled job r) \<Rightarrow> dispatch_returns job r | _ \<Rightarrow> ret ())"
| "event_happens c s (K_cancel job) = cancel_claude c job"
| "event_happens c s K_stop = stop_claude"
| "event_happens c s K_stop_goes_on = stop_goes_on c"
| "event_happens c s (K_run i) = run_resumes c s i (K_run i)"
| "event_happens c s (K_input i r) = run_resumes c s i (K_input i r)"
| "event_happens c s (K_output i r) = run_resumes c s i (K_output i r)"
| "event_happens c s (K_confirm i err) = run_resumes c s i (K_confirm i err)"
| "event_happens c s (K_close i err) = run_resumes c s i (K_close i err)"
| "event_happens c s (K_handler i err) = run_resumes c s i (K_handler i err)"
| "event_happens c s (K_stdout i r) = at_attempt s i (stdout_reads c i r)"
| "event_happens c s (K_stderr i err) = at_attempt s i (stderr_settled i err)"
| "event_happens c s (K_exit i code) = at_attempt s i (child_exits i code)"
| "event_happens c s (K_accepted i err) = at_attempt s i (accepted_settled c i err)"
| "event_happens c s (K_deadline i) = at_attempt s i (deadline_fires c i)"
| "event_happens c s (K_store cfg now x) = modify (\<lambda>s. s\<lparr>cl_db := exec cfg now x (cl_db s)\<rparr>)"

definition claude_happens :: "claude_cfg \<Rightarrow> claude_input \<Rightarrow> claude \<Rightarrow> claude" where
  "claude_happens c ev s = runC (event_happens c s ev) s"

definition new_claude :: "db \<Rightarrow> claude" where
  "new_claude db = \<lparr>cl_db = db, cl_layout = None, cl_preparation = None, cl_active = None,
     cl_started = False, cl_stopping = False, cl_start = Not_started, cl_stop = Not_stopped,
     cl_pending = None, cl_dispatch = None, cl_submissions = 0, cl_executionId = None,
     cl_lastFailure = None, cl_failed = False, cl_contextGeneration = None,
     cl_lastContextFailure = None, cl_attempts = [], cl_tick = 0, cl_log = []\<rparr>"

inductive claude_step :: "claude_cfg \<Rightarrow> claude \<Rightarrow> claude \<Rightarrow> bool" for c where
  happens: "claude_step c s (claude_happens c ev s)"

inductive_cases claude_stepE: "claude_step c s s'"

fun claude_run :: "claude_cfg \<Rightarrow> claude_input list \<Rightarrow> claude \<Rightarrow> claude" where
  "claude_run c [] s = s"
| "claude_run c (ev # evs) s = claude_run c evs (claude_happens c ev s)"

lemma claude_run_steps: "rtranclp (claude_step c) s (claude_run c evs s)"
  by (induction evs arbitrary: s)
    (auto intro: converse_rtranclp_into_rtranclp claude_step.happens)

end
