(* ===== verification/Claude_Stream_Props.thy ===== *)
theory Claude_Stream_Props
  imports Claude_Stream
begin

text \<open>
  Reading in chunks gives what the whole text gives, and what a stream that ends in a result
  must have contained.
\<close>

section \<open>The decoder in chunks\<close>

lemma up_to_three:
  obtains "r = []" | b where "r = [b]" | b d where "r = [b, d]" | b d e s where "r = b # d # e # s"
  by (cases r) (metis list.exhaust)+

lemma second_cont: "second_ok a b \<Longrightarrow> cont b"
  by (auto simp: second_ok_def cont_def split: if_splits)

lemma unfinished_long [simp]: "\<not> unfinished (a # b # d # e # s)"
  by simp

lemma unfinished_prefix:
  assumes "unfinished (a # r @ cs)"
  shows "unfinished (a # r)"
proof (cases cs)
  case (Cons x xs)
  consider "r = []" | b where "r = [b]" | b d e where "r = b # d # e" using list.exhaust by metis
  then show ?thesis
  proof cases
    case 1
    then show ?thesis using assms Cons by (cases xs) (auto elim: unfinished.elims)
  next
    case (2 b)
    then show ?thesis using assms Cons by (cases xs) auto
  next
    case (3 b d e)
    then show ?thesis using assms Cons by (cases e) auto
  qed
qed (use assms in simp)

lemma unfinished_decode: "unfinished bs \<Longrightarrow> utf8_decode bs = [replacement]"
  by (erule unfinished.elims)
    (auto simp: utf8_decode.simps decode_one_def decode_two_def decode_three_def decode_four_def)

lemma decode_two_settled:
  "r \<noteq> [] \<Longrightarrow> decode_two a (r @ cs) = (fst (decode_two a r), snd (decode_two a r) @ cs)"
  by (cases r) (auto simp: decode_two_def)

lemma decode_three_settled:
  "\<not> unfinished (a # r) \<Longrightarrow> 0xE0 \<le> a \<Longrightarrow> a < 0xF0 \<Longrightarrow>
     decode_three a (r @ cs) = (fst (decode_three a r), snd (decode_three a r) @ cs)"
  by (cases r rule: up_to_three) (auto simp: decode_three_def)

lemma decode_four_settled:
  "\<not> unfinished (a # r) \<Longrightarrow> 0xF0 \<le> a \<Longrightarrow> a < 0xF5 \<Longrightarrow>
     decode_four a (r @ cs) = (fst (decode_four a r), snd (decode_four a r) @ cs)"
  by (cases r rule: up_to_three) (auto simp: decode_four_def)

lemma decode_one_settled:
  assumes "\<not> unfinished (a # r)"
  shows "decode_one a (r @ cs) = (fst (decode_one a r), snd (decode_one a r) @ cs)"
proof -
  have "r \<noteq> []" if "0xC2 \<le> a" "a < 0xE0" using assms that by auto
  then show ?thesis
    using assms decode_two_settled decode_three_settled decode_four_settled
    by (simp add: decode_one_def)
qed

lemma decode_stream_append:
  "decode_stream bs = (us, held) \<Longrightarrow> decode_stream (bs @ cs) =
     (us @ fst (decode_stream (held @ cs)), snd (decode_stream (held @ cs)))"
proof (induction bs arbitrary: us held rule: decode_stream.induct)
  case 1
  then show ?case by simp
next
  case (2 a r)
  show ?case
  proof (cases "unfinished (a # r)")
    case True
    then show ?thesis using 2 by (simp add: decode_stream.simps(2))
  next
    case False
    obtain us' where 3: "decode_stream (snd (decode_one a r)) = (us', held)"
        "us = fst (decode_one a r) @ us'"
      using 2 False by (auto simp: decode_stream.simps(2) split: prod.splits)
    have "\<not> unfinished (a # r @ cs)" using False unfinished_prefix by blast
    then show ?thesis
      using 2(1) [OF False 3(1)] 3(2)
      by (simp add: decode_stream.simps(2) decode_one_settled [OF False])
  qed
qed

lemma decode_stream_decode:
  "decode_stream bs = (us, held) \<Longrightarrow> utf8_decode bs = us @ utf8_decode held"
proof (induction bs arbitrary: us held rule: decode_stream.induct)
  case (2 a r)
  then show ?case
    by (cases "unfinished (a # r)")
      (auto simp: decode_stream.simps(2) utf8_decode.simps split: prod.splits)
qed simp

lemma decode_stream_held: "snd (decode_stream bs) = [] \<or> unfinished (snd (decode_stream bs))"
  by (induction bs rule: decode_stream.induct)
    (auto simp: decode_stream.simps(2) split: prod.splits)

lemma text_out_append: "text_out b (us @ vs) = text_out b us @ text_out (b \<or> us \<noteq> []) vs"
  by (auto simp: text_out_def split: list.split)

lemma length_decode_one: "length (fst (decode_one a r)) + length (snd (decode_one a r)) \<le> Suc (length r)"
  by (auto simp: decode_one_def decode_two_def decode_three_def decode_four_def surrogates_def
      split: list.split)

lemma length_decode_stream: "length (fst (decode_stream bs)) \<le> length bs"
proof (induction bs rule: decode_stream.induct)
  case (2 a r)
  then show ?case
    using length_decode_one [of a r]
    by (fastforce simp: decode_stream.simps(2) split: prod.splits)
qed simp

lemma utf8_length_bound: "utf8_length s \<le> 3 * length s"
  by (induction s rule: utf8_length.induct) auto

section \<open>The whole text at once\<close>

function text_lines :: "jstring \<Rightarrow> jstring list" where
  "text_lines s = (if 0x0A \<in> set s then first_line s # text_lines (other_lines s) else [s])"
  by pat_completeness auto
termination by (relation "measure length") (auto simp: other_lines_shorter)

declare text_lines.simps [simp del]

fun judge_lines :: "stream_cfg \<Rightarrow> jstring list \<Rightarrow> parse \<Rightarrow> stream_error + parse" where
  "judge_lines c [] p = Inr p"
| "judge_lines c (l # ls) p = bindR (consumeLine c (strip_cr l) p) (\<lambda>r. judge_lines c ls (fst r))"

definition new_parse :: parse where
  "new_parse = \<lparr>pa_sessionId = None, pa_terminal = None\<rparr>"

definition judge :: "stream_cfg \<Rightarrow> jstring \<Rightarrow> stream_error + stream_result" where
  "judge c text = bindR (judge_lines c (text_lines text) new_parse) end_stream"

text \<open>The complete lines of a buffer, without stopping at the init event.\<close>

function drain_all :: "stream_cfg \<Rightarrow> jstring \<Rightarrow> parse \<Rightarrow> stream_error + jstring \<times> parse" where
  "drain_all c buffered p =
     (if 0x0A \<in> set buffered then
        case consumeLine c (strip_cr (first_line buffered)) p of
          Inl e \<Rightarrow> Inl e
        | Inr r \<Rightarrow> drain_all c (other_lines buffered) (fst r)
      else Inr (buffered, p))"
  by pat_completeness auto
termination by (relation "measure (\<lambda>(_, buffered, _). length buffered)") (auto simp: other_lines_shorter)

declare drain_all.simps [simp del]

lemma judge_lines_drain:
  "judge_lines c (text_lines s) p =
     bindR (drain_all c s p) (\<lambda>(rest, p'). bindR (consumeLine c (strip_cr rest) p') (\<lambda>r. Inr (fst r)))"
proof (induction s arbitrary: p rule: text_lines.induct)
  case (1 s)
  show ?case
  proof (cases "0x0A \<in> set s")
    case True
    then show ?thesis
      using 1 by (auto simp: text_lines.simps [of s] drain_all.simps [of c s] split: sum.split)
  next
    case False
    then show ?thesis by (simp add: text_lines.simps [of s] drain_all.simps [of c s])
  qed
qed

lemma first_line_append: "0x0A \<in> set s \<Longrightarrow> first_line (s @ x) = first_line s"
  "0x0A \<in> set s \<Longrightarrow> other_lines (s @ x) = other_lines s @ x"
  unfolding first_line_def other_lines_def by (auto simp: takeWhile_append1 dropWhile_append1)

lemma drain_all_append:
  "drain_all c (s @ x) p = bindR (drain_all c s p) (\<lambda>(rest, p'). drain_all c (rest @ x) p')"
proof (induction s arbitrary: p rule: text_lines.induct)
  case (1 s)
  show ?case
  proof (cases "0x0A \<in> set s")
    case True
    then show ?thesis
      using 1 by (auto simp: drain_all.simps [of c s] drain_all.simps [of c "s @ x"] first_line_append
          split: sum.split)
  next
    case False
    then show ?thesis by (simp add: drain_all.simps [of c s])
  qed
qed

lemma drain_all_onward:
  "drain_all c s p = Inl e \<Longrightarrow> drain_all c (s @ x) p = Inl e"
  "drain_all c s p = Inr (rest, p') \<Longrightarrow> drain_all c (s @ x) p = drain_all c (rest @ x) p'"
  by (subst drain_all_append, simp)+

lemma drain_all_rest: "drain_all c s p = Inr (rest, p') \<Longrightarrow> length rest \<le> length s \<and> 0x0A \<notin> set rest"
proof (induction s arbitrary: p rule: text_lines.induct)
  case (1 s)
  then show ?case
    using other_lines_shorter [of s]
    by (auto simp: drain_all.simps [of c s] split: if_splits sum.splits) fastforce+
qed

lemma init_once:
  "consumeLine c l p = Inr (p', i) \<Longrightarrow>
     (pa_sessionId p \<noteq> None \<longrightarrow> i = None \<and> pa_sessionId p' = pa_sessionId p)
     \<and> (i \<noteq> None \<longrightarrow> pa_sessionId p' \<noteq> None)"
  by (auto simp: consumeLine_def bindR_def split: if_splits option.splits json.splits sum.splits)

lemma drain_lines_known:
  "pa_sessionId p \<noteq> None \<Longrightarrow>
     drain_lines c s p = bindR (drain_all c s p) (\<lambda>(rest, p'). Inr (rest, p', None))"
proof (induction s arbitrary: p rule: text_lines.induct)
  case (1 s)
  show ?case
  proof (cases "0x0A \<in> set s")
    case True
    show ?thesis
    proof (cases "consumeLine c (strip_cr (first_line s)) p")
      case (Inl e)
      then show ?thesis using True by (simp add: drain_all.simps [of c s] drain_lines.simps [of c s])
    next
      case (Inr r)
      obtain p' i where r: "r = (p', i)" by (cases r)
      then have "i = None" "pa_sessionId p' \<noteq> None" using init_once Inr 1(2) by fastforce+
      then show ?thesis
        using 1(1) [OF True, of p'] True Inr r
        by (simp add: drain_all.simps [of c s] drain_lines.simps [of c s])
    qed
  next
    case False
    then show ?thesis by (simp add: drain_all.simps [of c s] drain_lines.simps [of c s])
  qed
qed

definition settled_chunk :: "stream_cfg \<Rightarrow> stream \<Rightarrow> stream_task" where
  "settled_chunk c s =
     (case drain_all c (st_buffered s) (st_parse s) of
        Inl e \<Rightarrow> Ended (Inl e)
      | Inr (rest, p) \<Rightarrow>
          if utf8_length rest > max_bytes c then Ended (Inl St_line_exceeded)
          else Reading (s\<lparr>st_buffered := rest, st_parse := p\<rparr>))"

lemma continue_known: "pa_sessionId (st_parse s) \<noteq> None \<Longrightarrow> continue_chunk c s = settled_chunk c s"
  by (auto simp: continue_chunk_def settled_chunk_def drain_lines_known split: sum.splits)

lemma drain_lines_cases:
  "case drain_lines c s p of
     Inl e \<Rightarrow> drain_all c s p = Inl e
   | Inr (rest, p', None) \<Rightarrow> drain_all c s p = Inr (rest, p')
   | Inr (rest, p', Some _) \<Rightarrow> drain_all c s p = drain_all c rest p' \<and> pa_sessionId p' \<noteq> None"
proof (induction s arbitrary: p rule: text_lines.induct)
  case (1 s)
  show ?case
  proof (cases "0x0A \<in> set s")
    case True
    show ?thesis
    proof (cases "consumeLine c (strip_cr (first_line s)) p")
      case (Inl e)
      then show ?thesis using True by (simp add: drain_all.simps [of c s] drain_lines.simps [of c s])
    next
      case (Inr r)
      obtain p' i where r: "r = (p', i)" by (cases r)
      have "i \<noteq> None \<Longrightarrow> pa_sessionId p' \<noteq> None" using init_once Inr r by blast
      moreover have "drain_all c s p = drain_all c (other_lines s) p'"
        using True Inr r by (simp add: drain_all.simps [of c s])
      moreover have "drain_lines c s p =
          (case i of None \<Rightarrow> drain_lines c (other_lines s) p' | Some x \<Rightarrow> Inr (other_lines s, p', Some x))"
        using True Inr r by (simp add: drain_lines.simps [of c s])
      ultimately show ?thesis
        using 1 [OF True, of p'] by (cases i) (auto split: sum.splits option.splits prod.splits)
    qed
  next
    case False
    then show ?thesis by (simp add: drain_all.simps [of c s] drain_lines.simps [of c s])
  qed
qed

lemma accepted_chunk: "task_accepted c (continue_chunk c s) = settled_chunk c s"
proof (cases "drain_lines c (st_buffered s) (st_parse s)")
  case (Inl e)
  then show ?thesis
    using drain_lines_cases [of c "st_buffered s" "st_parse s"]
    by (simp add: continue_chunk_def settled_chunk_def task_accepted_def)
next
  case (Inr r)
  obtain rest p' i where r: "r = (rest, p', i)" by (cases r)
  show ?thesis
  proof (cases i)
    case None
    then show ?thesis
      using drain_lines_cases [of c "st_buffered s" "st_parse s"] Inr r
      by (simp add: continue_chunk_def settled_chunk_def task_accepted_def)
  next
    case (Some sid)
    then have "drain_all c (st_buffered s) (st_parse s) = drain_all c rest p'" "pa_sessionId p' \<noteq> None"
      using drain_lines_cases [of c "st_buffered s" "st_parse s"] Inr r by simp_all
    then show ?thesis
      using Inr r Some
      by (simp add: continue_chunk_def [of c s] task_accepted_def continue_known settled_chunk_def
          split: sum.split)
  qed
qed

section \<open>Reading in chunks is reading at once\<close>

definition text_so_far :: "nat list \<Rightarrow> jstring" where
  "text_so_far bs = text_out False (fst (decode_stream bs))"

definition read_state :: "stream_cfg \<Rightarrow> nat list \<Rightarrow> stream_task" where
  "read_state c bs =
     (case drain_all c (text_so_far bs) new_parse of
        Inl e \<Rightarrow> Ended (Inl e)
      | Inr (rest, p) \<Rightarrow>
          Reading \<lparr>st_held = snd (decode_stream bs), st_begun = (fst (decode_stream bs) \<noteq> []),
            st_buffered = rest, st_totalBytes = length bs, st_parse = p\<rparr>)"

lemma read_state_start: "read_state c [] = Reading new_stream"
  by (simp add: read_state_def text_so_far_def text_out_def drain_all.simps new_stream_def new_parse_def)

lemma length_text_so_far: "length (text_so_far bs) \<le> length bs"
  using length_decode_stream [of bs]
  by (auto simp: text_so_far_def text_out_def split: list.split)

text \<open>What a chunk adds, after the bytes \<open>bs\<close>.\<close>

lemma chunk_verdict:
  "task_accepted c (task_chunk c x (read_state c bs)) =
     (case drain_all c (text_so_far bs) new_parse of
        Inl e \<Rightarrow> Ended (Inl e)
      | Inr _ \<Rightarrow>
          if length bs + length x > max_bytes c then Ended (Inl St_total_exceeded)
          else (case drain_all c (text_so_far (bs @ x)) new_parse of
              Inl e \<Rightarrow> Ended (Inl e)
            | Inr (rest, _) \<Rightarrow>
                if utf8_length rest > max_bytes c then Ended (Inl St_line_exceeded)
                else read_state c (bs @ x)))"
proof -
  obtain us held where d: "decode_stream bs = (us, held)" by (cases "decode_stream bs")
  obtain vs held' where e: "decode_stream (held @ x) = (vs, held')" by (cases "decode_stream (held @ x)")
  have de: "decode_stream (bs @ x) = (us @ vs, held')" using decode_stream_append [OF d] e by simp
  have whole: "text_so_far (bs @ x) = text_so_far bs @ text_out (us \<noteq> []) vs"
    by (simp add: text_so_far_def d de text_out_append)
  show ?thesis
  proof (cases "drain_all c (text_so_far bs) new_parse")
    case (Inl err)
    then show ?thesis by (simp add: read_state_def task_chunk_def task_accepted_def)
  next
    case (Inr r)
    obtain rest p where r: "r = (rest, p)" by (cases r)
    have onward: "drain_all c (text_so_far (bs @ x)) new_parse = drain_all c (rest @ text_out (us \<noteq> []) vs) p"
      unfolding whole by (rule drain_all_onward(2)) (simp add: Inr r)
    define s where "s = \<lparr>st_held = held, st_begun = (us \<noteq> []), st_buffered = rest,
        st_totalBytes = length bs, st_parse = p\<rparr>"
    have chunk: "task_chunk c x (read_state c bs) =
        (if length bs + length x > max_bytes c then Ended (Inl St_total_exceeded)
         else continue_chunk c (decode_chunk x s))"
      by (simp add: read_state_def Inr r d task_chunk_def s_def)
    show ?thesis
    proof (cases "length bs + length x > max_bytes c")
      case True
      then show ?thesis by (simp add: chunk task_accepted_def Inr)
    next
      case False
      have new: "decode_chunk x s = \<lparr>st_held = held', st_begun = (us @ vs \<noteq> []),
          st_buffered = rest @ text_out (us \<noteq> []) vs, st_totalBytes = length (bs @ x), st_parse = p\<rparr>"
        by (simp add: decode_chunk_def e s_def)
      have settled: "task_accepted c (task_chunk c x (read_state c bs)) = settled_chunk c (decode_chunk x s)"
        using False by (simp only: chunk if_False accepted_chunk)
      show ?thesis
      proof (cases "drain_all c (rest @ text_out (us \<noteq> []) vs) p")
        case (Inl err)
        then show ?thesis using False by (simp add: settled settled_chunk_def new onward Inr)
      next
        case (Inr t)
        obtain rest' p' where t: "t = (rest', p')" by (cases t)
        have "read_state c (bs @ x) = Reading \<lparr>st_held = held', st_begun = (us @ vs \<noteq> []),
            st_buffered = rest', st_totalBytes = length (bs @ x), st_parse = p'\<rparr>"
          by (simp add: read_state_def onward Inr t de)
        then show ?thesis
          using False \<open>drain_all c (text_so_far bs) new_parse = Inr r\<close>
          by (simp add: settled settled_chunk_def new onward Inr t)
      qed
    qed
  qed
qed

lemma text_so_far_append: "\<exists>y. text_so_far (bs @ x) = text_so_far bs @ y"
proof -
  obtain us held where d: "decode_stream bs = (us, held)" by (cases "decode_stream bs")
  show ?thesis
    using decode_stream_append [OF d, of x] by (auto simp: text_so_far_def d text_out_append)
qed

lemma failed_before:
  "drain_all c (text_so_far bs) new_parse = Inl e \<Longrightarrow> drain_all c (text_so_far (bs @ x)) new_parse = Inl e"
  using text_so_far_append [of bs x] by (auto intro: drain_all_onward(1))

lemma small_rest:
  assumes "3 * length bs \<le> max_bytes c" "drain_all c (text_so_far bs) new_parse = Inr (rest, p)"
  shows "\<not> utf8_length rest > max_bytes c"
proof -
  have "length rest \<le> length bs"
    using drain_all_rest [OF assms(2)] length_text_so_far order_trans by blast
  then show ?thesis
    using utf8_length_bound [of rest] assms(1) by linarith
qed

lemma failed_state: "drain_all c (text_so_far bs) new_parse = Inl e \<Longrightarrow> read_state c bs = Ended (Inl e)"
  by (simp add: read_state_def)

lemma read_state_chunk:
  assumes "3 * length (bs @ x) \<le> max_bytes c"
  shows "task_accepted c (task_chunk c x (read_state c bs)) = read_state c (bs @ x)"
proof (cases "drain_all c (text_so_far bs) new_parse")
  case (Inl e)
  then show ?thesis
    using failed_before [OF Inl] chunk_verdict [of c x bs] by (simp add: failed_state)
next
  case (Inr r)
  then show ?thesis
    using assms small_rest [OF assms] chunk_verdict [of c x bs]
    by (cases "drain_all c (text_so_far (bs @ x)) new_parse") (auto simp: failed_state)
qed

lemma task_read_state: "3 * length (concat chunks) \<le> max_bytes c \<Longrightarrow> task_read c chunks = read_state c (concat chunks)"
  unfolding task_read_def
proof (induction chunks rule: rev_induct)
  case Nil
  then show ?case by (simp add: read_state_start)
next
  case (snoc x xs)
  then show ?case using read_state_chunk [of "concat xs" x c] by simp
qed

section \<open>What a result rests on\<close>

section \<open>What a result rests on\<close>

lemma read_state_cases:
  "task_accepted c (task_chunk c x (read_state c bs)) = read_state c (bs @ x)
   \<or> (\<exists>e. task_accepted c (task_chunk c x (read_state c bs)) = Ended (Inl e))"
  using chunk_verdict [of c x bs] by (auto split: sum.splits if_splits)

lemma task_read_cases: "task_read c chunks = read_state c (concat chunks) \<or> (\<exists>e. task_read c chunks = Ended (Inl e))"
  unfolding task_read_def
proof (induction chunks rule: rev_induct)
  case Nil
  then show ?case by (simp add: read_state_start)
next
  case (snoc x xs)
  have "task_accepted c (task_chunk c x (Ended r)) = Ended r" for r
    by (simp add: task_chunk_def task_accepted_def)
  then show ?case
    using snoc read_state_cases [of c x "concat xs"] by (auto simp del: concat_append) simp_all
qed

text \<open>The end of the stream, after the bytes \<open>bs\<close>.\<close>

lemma end_verdict:
  "task_accepted c (task_done c (read_state c bs)) = Ended (judge c (text_decode bs))"
proof -
  obtain us held where d: "decode_stream bs = (us, held)" by (cases "decode_stream bs")
  have whole: "text_decode bs = text_so_far bs @ text_out (us \<noteq> []) (utf8_decode held)"
    by (simp add: text_decode_def text_so_far_def decode_stream_decode [OF d] d text_out_append)
  show ?thesis
  proof (cases "drain_all c (text_so_far bs) new_parse")
    case (Inl e)
    then show ?thesis
      by (simp add: read_state_def task_done_def task_accepted_def judge_def judge_lines_drain whole
          drain_all_onward(1))
  next
    case (Inr r)
    obtain rest p where r: "r = (rest, p)" by (cases r)
    have tail: "0x0A \<notin> set (rest @ text_out (us \<noteq> []) (utf8_decode held))"
      using drain_all_rest Inr r decode_stream_held [of bs] d
      by (auto simp: text_out_def unfinished_decode replacement_def split: if_splits list.splits)
    have verdict: "drain_all c (text_decode bs) new_parse =
        Inr (rest @ text_out (us \<noteq> []) (utf8_decode held), p)"
      unfolding whole using tail drain_all_onward(2) [OF Inr [unfolded r]]
      by (simp add: drain_all.simps [of c "rest @ text_out (us \<noteq> []) (utf8_decode held)"])
    show ?thesis
      by (auto simp: read_state_def task_done_def task_accepted_def judge_def judge_lines_drain verdict
          Inr r d final_line_def split: sum.split option.split)
  qed
qed

lemma ended_stays:
  "task_done c (Ended r) = Ended r" "task_accepted c (Ended r) = Ended r"
  by (simp_all add: task_done_def task_accepted_def)

lemma consumed_judged:
  "consumeClaudeNativeStream c chunks = Ended (Inr t) \<Longrightarrow> judge c (text_decode (concat chunks)) = Inr t"
  using task_read_cases [of c chunks]
  by (auto simp: consumeClaudeNativeStream_def end_verdict ended_stays)

text \<open>The events of a text: the objects on its lines that are not blank.\<close>

definition line_event :: "stream_cfg \<Rightarrow> jstring \<Rightarrow> json option" where
  "line_event c l = json_parse (sg_num c) (strip_cr l)"

definition line_events :: "stream_cfg \<Rightarrow> jstring list \<Rightarrow> json option list" where
  "line_events c ls = map (line_event c) (filter (\<lambda>l. \<not> js_blank (strip_cr l)) ls)"

definition has :: "string \<Rightarrow> json \<Rightarrow> jobject \<Rightarrow> bool" where
  "has k v r \<longleftrightarrow> jget (js k) r = Some v"

definition is_init :: "jobject \<Rightarrow> bool" where
  "is_init r \<longleftrightarrow> has ''type'' (JStr (js ''system'')) r \<and> has ''subtype'' (JStr (js ''init'')) r"

definition is_result :: "jobject \<Rightarrow> bool" where
  "is_result r \<longleftrightarrow> has ''type'' (JStr (js ''result'')) r"

text \<open>The init event of a session without tools, servers, skills and commands.\<close>

definition sandboxed :: "jstring \<Rightarrow> jobject \<Rightarrow> bool" where
  "sandboxed sessionId r \<longleftrightarrow>
     has ''session_id'' (JStr sessionId) r \<and> has ''tools'' (JArr []) r \<and> has ''mcp_servers'' (JArr []) r
     \<and> has ''skills'' (JArr []) r \<and> has ''slash_commands'' (JArr []) r
     \<and> has ''permissionMode'' (JStr (js ''dontAsk'')) r"

text \<open>An event that is no trace of a tool; an answer of the model consists of other blocks.\<close>

definition harmless_block :: "json \<Rightarrow> bool" where
  "harmless_block b \<longleftrightarrow>
     (\<exists>block kind. b = JObj block \<and> has ''type'' (JStr kind) block
        \<and> kind \<notin> {js ''tool_use'', js ''server_tool_use'', js ''tool_result'', js ''mcp_tool_use''})"

definition tool_free :: "jobject \<Rightarrow> bool" where
  "tool_free r \<longleftrightarrow>
     \<not> has ''type'' (JStr (js ''user'')) r \<and> \<not> has ''type'' (JStr (js ''tool'')) r
     \<and> (has ''type'' (JStr (js ''assistant'')) r \<longrightarrow>
          (\<exists>m blocks. has ''message'' (JObj m) r \<and> has ''content'' (JArr blocks) m
             \<and> list_all harmless_block blocks))"

lemma check_block_Inr: "check_block b = Inr () \<longleftrightarrow> harmless_block b"
  by (auto simp: check_block_def harmless_block_def has_def tool_block_types_def
      split: json.split option.split)

lemma check_blocks_Inr: "check_blocks bs = Inr () \<longleftrightarrow> list_all harmless_block bs"
  by (induction bs) (auto simp: check_block_Inr [symmetric] bindR_Inr_iff)

lemma no_execution: "assertNoExecutionEvent r = Inr u \<Longrightarrow> tool_free r"
  by (auto simp: assertNoExecutionEvent_def tool_free_def has_def Let_def check_blocks_Inr
      split: if_splits option.splits json.splits)

lemma safe_init: "safeInitSessionId r = Inr sessionId \<Longrightarrow> sandboxed sessionId r"
  by (auto simp: safeInitSessionId_def sandboxed_def has_def empty_array_def
      split: if_splits option.splits json.splits)

lemma init_tool_free: "is_init r \<Longrightarrow> tool_free r"
  by (auto simp: is_init_def tool_free_def has_def)

text \<open>What an event does to the parse.\<close>

definition event_moves :: "stream_cfg \<Rightarrow> jobject \<Rightarrow> parse \<Rightarrow> parse \<Rightarrow> bool" where
  "event_moves c r p p' \<longleftrightarrow>
     is_init r \<and> \<not> is_result r \<and> pa_sessionId p = None
       \<and> (\<exists>sid. sandboxed sid r \<and> p' = p\<lparr>pa_sessionId := Some sid\<rparr>)
     \<or> is_result r \<and> \<not> is_init r \<and> (\<exists>t. read_result c r p = Inr t \<and> p' = p\<lparr>pa_terminal := Some t\<rparr>)
     \<or> \<not> is_init r \<and> \<not> is_result r \<and> p' = p"

lemma consumeLine_cases:
  assumes "consumeLine c l p = Inr (p', i)" "\<not> js_blank l"
  obtains r where "json_parse (sg_num c) l = Some (JObj r)" "tool_free r" "event_moves c r p p'"
proof -
  obtain r where r: "json_parse (sg_num c) l = Some (JObj r)"
    using assms by (auto simp: consumeLine_def split: option.splits json.splits)
  obtain kind where kind: "jget (js ''type'') r = Some (JStr kind)"
    using assms r by (auto simp: consumeLine_def split: option.splits json.splits)
  show ?thesis
  proof (cases "is_init r")
    case True
    then have "pa_sessionId p = None" "\<exists>sid. safeInitSessionId r = Inr sid \<and> p' = p\<lparr>pa_sessionId := Some sid\<rparr>"
      using assms r kind by (auto simp: consumeLine_def is_init_def has_def bindR_Inr_iff split: if_splits)
    moreover have "\<not> is_result r" using True by (auto simp: is_init_def is_result_def has_def)
    ultimately show ?thesis using that r True init_tool_free safe_init unfolding event_moves_def by blast
  next
    case False
    then have "assertNoExecutionEvent r = Inr ()"
        "kind \<noteq> js ''result'' \<and> p' = p
         \<or> kind = js ''result'' \<and> (\<exists>t. read_result c r p = Inr t \<and> p' = p\<lparr>pa_terminal := Some t\<rparr>)"
      using assms r kind
      by (auto simp: consumeLine_def is_init_def has_def bindR_Inr_iff split: if_splits)
    moreover have "is_result r \<longleftrightarrow> kind = js ''result''" by (simp add: is_result_def has_def kind)
    ultimately show ?thesis using that r False no_execution unfolding event_moves_def by blast
  qed
qed

text \<open>What a list of events does.\<close>

fun events_move :: "stream_cfg \<Rightarrow> parse \<Rightarrow> jobject list \<Rightarrow> parse \<Rightarrow> bool" where
  "events_move c p [] p' \<longleftrightarrow> p' = p"
| "events_move c p (r # rs) p' \<longleftrightarrow> (\<exists>q. event_moves c r p q \<and> events_move c q rs p')"

lemma judged_events:
  "judge_lines c ls p = Inr p' \<Longrightarrow>
     \<exists>rs. line_events c ls = map (\<lambda>r. Some (JObj r)) rs \<and> list_all tool_free rs \<and> events_move c p rs p'"
proof (induction ls arbitrary: p)
  case Nil
  then show ?case by (simp add: line_events_def)
next
  case (Cons l ls)
  obtain q i where q: "consumeLine c (strip_cr l) p = Inr (q, i)" "judge_lines c ls q = Inr p'"
    using Cons.prems by (auto simp: bindR_Inr_iff)
  obtain rs where rs: "line_events c ls = map (\<lambda>r. Some (JObj r)) rs" "list_all tool_free rs"
      "events_move c q rs p'"
    using Cons.IH [OF q(2)] by blast
  show ?case
  proof (cases "js_blank (strip_cr l)")
    case True
    then have "q = p" using q(1) by (simp add: consumeLine_def)
    then show ?thesis using rs True by (auto simp: line_events_def)
  next
    case False
    then obtain r where r: "json_parse (sg_num c) (strip_cr l) = Some (JObj r)" "tool_free r"
        "event_moves c r p q"
      using consumeLine_cases [OF q(1)] by blast
    then have "line_events c (l # ls) = map (\<lambda>r. Some (JObj r)) (r # rs)"
      using rs(1) False by (simp add: line_events_def line_event_def)
    then show ?thesis using r rs by (intro exI [of _ "r # rs"]) auto
  qed
qed

abbreviation plain_event :: "jobject \<Rightarrow> bool" where
  "plain_event r \<equiv> \<not> is_init r \<and> \<not> is_result r"

lemma events_after_result:
  "events_move c p rs p' \<Longrightarrow> pa_sessionId p \<noteq> None \<Longrightarrow> pa_terminal p \<noteq> None \<Longrightarrow>
     list_all plain_event rs \<and> p' = p"
proof (induction rs arbitrary: p)
  case (Cons r rs)
  then obtain q where q: "event_moves c r p q" "events_move c q rs p'" by auto
  have "\<not> (\<exists>t. read_result c r p = Inr t)"
    using Cons.prems by (auto simp: read_result_def)
  then have "plain_event r \<and> q = p" using q(1) Cons.prems by (auto simp: event_moves_def)
  then show ?case using Cons q by auto
qed simp

lemma events_after_init:
  "events_move c p rs p' \<Longrightarrow> pa_sessionId p \<noteq> None \<Longrightarrow> pa_terminal p = None \<Longrightarrow>
     pa_terminal p' = Some t \<Longrightarrow>
     \<exists>vs r ws. rs = vs @ r # ws \<and> list_all plain_event (vs @ ws) \<and> is_result r \<and> \<not> is_init r
       \<and> read_result c r p = Inr t"
proof (induction rs arbitrary: p)
  case (Cons r rs)
  then obtain q where q: "event_moves c r p q" "events_move c q rs p'" by auto
  show ?case
  proof (cases "is_result r")
    case True
    then obtain u where u: "read_result c r p = Inr u" "q = p\<lparr>pa_terminal := Some u\<rparr>" "\<not> is_init r"
      using q(1) Cons.prems by (auto simp: event_moves_def)
    then have "list_all plain_event rs" "p' = q"
      using events_after_result [OF q(2)] Cons.prems by auto
    then show ?thesis
      using u True Cons.prems by (intro exI [of _ "[]"] exI [of _ r] exI [of _ rs]) auto
  next
    case False
    then have "q = p" "plain_event r" using q(1) Cons.prems by (auto simp: event_moves_def)
    then obtain vs u ws where "rs = vs @ u # ws" "list_all plain_event (vs @ ws)" "is_result u"
        "\<not> is_init u" "read_result c u p = Inr t"
      using Cons.IH [of p] q(2) Cons.prems by blast
    then show ?thesis
      using \<open>plain_event r\<close> by (intro exI [of _ "r # vs"] exI [of _ u] exI [of _ ws]) auto
  qed
qed simp

lemma read_result_Inr:
  assumes "read_result c r p = Inr t" "pa_sessionId p = Some sid"
  shows "sr_sessionId t = sid" "has ''session_id'' (JStr sid) r"
    "sr_success t \<Longrightarrow> \<exists>s. sr_text t = Some s \<and> has ''result'' (JStr s) r
       \<and> has ''subtype'' (JStr (js ''success'')) r \<and> has ''is_error'' (JBool False) r
       \<and> length s \<le> sg_maxOutputChars c"
    "\<not> sr_success t \<Longrightarrow> sr_text t = None"
proof -
  show "sr_sessionId t = sid" "has ''session_id'' (JStr sid) r" "\<not> sr_success t \<Longrightarrow> sr_text t = None"
    using assms by (auto simp: read_result_def has_def Let_def split: if_splits option.splits json.splits)
  assume "sr_success t"
  then obtain s where "sr_text t = Some s" "json_text (jget (js ''result'') r) = Some s"
      "has ''subtype'' (JStr (js ''success'')) r" "has ''is_error'' (JBool False) r"
      "length s \<le> sg_maxOutputChars c"
    using assms
    by (auto simp: read_result_def has_def Let_def split: if_splits option.splits json.splits)
  then show "\<exists>s. sr_text t = Some s \<and> has ''result'' (JStr s) r
       \<and> has ''subtype'' (JStr (js ''success'')) r \<and> has ''is_error'' (JBool False) r
       \<and> length s \<le> sg_maxOutputChars c"
    by (auto simp: json_text_def has_def split: option.splits json.splits)
qed

lemma events_to_result:
  "events_move c p rs p' \<Longrightarrow> pa_sessionId p = None \<Longrightarrow> pa_terminal p = None \<Longrightarrow>
     pa_terminal p' = Some t \<Longrightarrow>
     \<exists>us i vs r ws q. rs = us @ i # vs @ r # ws \<and> list_all plain_event (us @ vs @ ws) \<and> is_init i
       \<and> sandboxed (sr_sessionId t) i \<and> is_result r \<and> read_result c r q = Inr t
       \<and> pa_sessionId q = Some (sr_sessionId t)"
proof (induction rs arbitrary: p)
  case (Cons r rs)
  then obtain q where q: "event_moves c r p q" "events_move c q rs p'" by auto
  show ?case
  proof (cases "is_init r")
    case True
    then obtain sid where sid: "sandboxed sid r" "q = p\<lparr>pa_sessionId := Some sid\<rparr>"
      using q(1) by (auto simp: event_moves_def)
    then obtain vs u ws where u: "rs = vs @ u # ws" "list_all plain_event (vs @ ws)" "is_result u"
        "read_result c u q = Inr t"
      using events_after_init [OF q(2)] Cons.prems by auto
    then have "sr_sessionId t = sid" using read_result_Inr(1) sid by simp
    then show ?thesis
      using True sid u by (intro exI [of _ "[]"] exI [of _ r] exI [of _ vs] exI [of _ u] exI [of _ ws]) auto
  next
    case False
    have "\<not> (\<exists>t. read_result c r p = Inr t)" using Cons.prems by (auto simp: read_result_def)
    then have "q = p" "plain_event r" using False q(1) by (auto simp: event_moves_def)
    then obtain us i vs u ws q' where "rs = us @ i # vs @ u # ws" "list_all plain_event (us @ vs @ ws)"
        "is_init i" "sandboxed (sr_sessionId t) i" "is_result u" "read_result c u q' = Inr t"
        "pa_sessionId q' = Some (sr_sessionId t)"
      using Cons.IH [of p] q(2) Cons.prems by blast
    then show ?thesis
      using \<open>plain_event r\<close>
      by (intro exI [of _ "r # us"] exI [of _ i] exI [of _ vs] exI [of _ u] exI [of _ ws] exI [of _ q'])
        auto
  qed
qed simp

section \<open>A stream\<close>

definition demo_init_line :: jstring where
  "demo_init_line = json_stringify (JObj [(js ''type'', JStr (js ''system'')), (js ''subtype'', JStr (js ''init'')),
     (js ''session_id'', JStr (js ''s'')), (js ''tools'', JArr []), (js ''mcp_servers'', JArr []),
     (js ''skills'', JArr []), (js ''slash_commands'', JArr []),
     (js ''permissionMode'', JStr (js ''dontAsk''))])"

definition demo_result_line :: jstring where
  "demo_result_line = json_stringify (JObj [(js ''type'', JStr (js ''result'')),
     (js ''subtype'', JStr (js ''success'')), (js ''is_error'', JBool False),
     (js ''session_id'', JStr (js ''s'')), (js ''result'', JStr [0x4F60])])"

definition demo_text :: jstring where
  "demo_text = demo_init_line @ 0x0D # 0x0A # demo_result_line @ [0x0A]"

definition demo_stream_cfg :: stream_cfg where
  "demo_stream_cfg = \<lparr>sg_num = (\<lambda>s. s), sg_maxOutputChars = 8\<rparr>"

text \<open>The text arrives byte by byte.\<close>

definition demo_chunks :: "nat list list" where
  "demo_chunks = map (\<lambda>b. [b]) (utf8_bytes demo_text)"

lemma concat_single: "concat (map (\<lambda>b. [b]) xs) = xs"
  by (induction xs) simp_all

lemma demo_decoded: "text_decode (concat demo_chunks) = demo_text"
proof -
  have paired: "well_paired demo_text" by code_simp
  have "utf8_decode (utf8_bytes demo_text) = demo_text" by (rule utf8_inverse [OF paired])
  moreover have "text_out False demo_text = demo_text" by code_simp
  ultimately show ?thesis by (simp add: text_decode_def demo_chunks_def concat_single)
qed

lemma demo_short: "3 * length (concat demo_chunks) \<le> max_bytes demo_stream_cfg"
proof -
  have "3 * utf8_length demo_text \<le> 3000" by code_simp
  then show ?thesis
    by (simp add: demo_chunks_def concat_single length_utf8_bytes max_bytes_def)
qed

definition demo_parse :: parse where
  "demo_parse = \<lparr>pa_sessionId = Some (js ''s''), pa_terminal = None\<rparr>"

definition demo_result :: stream_result where
  "demo_result = \<lparr>sr_sessionId = js ''s'', sr_success = True, sr_text = Some [0x4F60], sr_subtype = js ''success''\<rparr>"

lemma demo_init_consumed:
  "consumeLine demo_stream_cfg demo_init_line new_parse = Inr (demo_parse, Some (js ''s''))"
  by code_simp

lemma demo_result_consumed:
  "consumeLine demo_stream_cfg demo_result_line demo_parse = Inr (demo_parse\<lparr>pa_terminal := Some demo_result\<rparr>, None)"
  by code_simp

lemma demo_no_newline: "0x0A \<notin> set demo_init_line \<and> 0x0A \<notin> set demo_result_line"
  by code_simp

lemma demo_last: "last demo_result_line = 0x7D \<and> demo_result_line \<noteq> []"
  by code_simp

lemma first_line_exact: "0x0A \<notin> set s \<Longrightarrow> first_line (s @ 0x0A # r) = s" "0x0A \<notin> set s \<Longrightarrow> other_lines (s @ 0x0A # r) = r"
  unfolding first_line_def other_lines_def by (auto simp: takeWhile_append dropWhile_append)

lemma demo_judged: "judge demo_stream_cfg demo_text = Inr demo_result"
proof -
  have "text_lines demo_text = [demo_init_line @ [0x0D], demo_result_line, []]"
    using demo_no_newline first_line_exact [of "demo_init_line @ [0x0D]" "demo_result_line @ [0x0A]"]
      first_line_exact [of demo_result_line "[]"]
    by (simp add: demo_text_def text_lines.simps [of "demo_init_line @ _"] text_lines.simps [of "demo_result_line @ _"]
        text_lines.simps [of "[]"])
  moreover have "strip_cr (demo_init_line @ [0x0D]) = demo_init_line" "strip_cr demo_result_line = demo_result_line"
    using demo_last by (simp_all add: strip_cr_def)
  moreover have "consumeLine demo_stream_cfg (strip_cr []) p = Inr (p, None)" for p
    by (simp add: consumeLine_def strip_cr_def js_blank_def)
  ultimately show ?thesis
    by (simp add: judge_def demo_init_consumed demo_result_consumed end_stream_def) (simp add: demo_parse_def)
qed

lemma demo_consumed:
  obtains t where "consumeClaudeNativeStream demo_stream_cfg demo_chunks = Ended (Inr t)"
    "sr_success t" "sr_text t = Some [0x4F60]"
proof -
  obtain t where "judge demo_stream_cfg demo_text = Inr t" "sr_success t" "sr_text t = Some [0x4F60]"
    using demo_judged by (simp add: demo_result_def)
  moreover have "consumeClaudeNativeStream demo_stream_cfg demo_chunks = Ended (judge demo_stream_cfg demo_text)"
    by (simp add: consumeClaudeNativeStream_def task_read_state demo_short end_verdict demo_decoded)
  ultimately show ?thesis using that by simp
qed

section \<open>The properties\<close>

text \<open>C39: a stream is read to a result only if every line that is not blank holds an object, none
  of them is a trace of a tool, exactly one is the init event of a session without tools, servers,
  skills and commands, and exactly one, after it, is the result, with the same session id. A text
  is returned only with a result that reports success, is the text of that result, and is no
  longer than the limit.\<close>

theorem results_come_from_clean_streams:
  assumes "consumeClaudeNativeStream c chunks = Ended (Inr t)"
  shows "\<exists>us i vs r ws.
    line_events c (text_lines (text_decode (concat chunks))) =
      map (\<lambda>e. Some (JObj e)) (us @ i # vs @ r # ws)
    \<and> list_all tool_free (us @ i # vs @ r # ws)
    \<and> list_all plain_event (us @ vs @ ws)
    \<and> is_init i \<and> sandboxed (sr_sessionId t) i
    \<and> is_result r \<and> has ''session_id'' (JStr (sr_sessionId t)) r
    \<and> (if sr_success t
       then \<exists>s. sr_text t = Some s \<and> has ''result'' (JStr s) r
              \<and> has ''is_error'' (JBool False) r \<and> length s \<le> sg_maxOutputChars c
       else sr_text t = None)"
proof -
  obtain p where p: "judge_lines c (text_lines (text_decode (concat chunks))) new_parse = Inr p"
      "end_stream p = Inr t"
    using consumed_judged [OF assms] by (auto simp: judge_def bindR_Inr_iff)
  obtain rs where rs: "line_events c (text_lines (text_decode (concat chunks))) =
        map (\<lambda>r. Some (JObj r)) rs" "list_all tool_free rs" "events_move c new_parse rs p"
    using judged_events [OF p(1)] by blast
  have "pa_terminal p = Some t" using p(2) by (auto simp: end_stream_def split: option.splits if_splits)
  then obtain us i vs r ws q where e: "rs = us @ i # vs @ r # ws" "list_all plain_event (us @ vs @ ws)"
      "is_init i" "sandboxed (sr_sessionId t) i" "is_result r" "read_result c r q = Inr t"
      "pa_sessionId q = Some (sr_sessionId t)"
    using events_to_result [OF rs(3)] by (auto simp: new_parse_def)
  show ?thesis
    using e(2-5) rs(1,2) [unfolded e(1)] read_result_Inr [OF e(6,7)]
    by (intro exI [of _ us] exI [of _ i] exI [of _ vs] exI [of _ r] exI [of _ ws]) auto
qed

theorem results_come_from_clean_streams_witness:
  "\<exists>us i vs r ws sessionId.
     line_events demo_stream_cfg (text_lines demo_text) = map (\<lambda>e. Some (JObj e)) (us @ i # vs @ r # ws)
     \<and> sandboxed sessionId i \<and> has ''session_id'' (JStr sessionId) r \<and> has ''result'' (JStr [0x4F60]) r"
proof -
  obtain t where t: "consumeClaudeNativeStream demo_stream_cfg demo_chunks = Ended (Inr t)"
    "sr_success t" "sr_text t = Some [0x4F60]" by (rule demo_consumed)
  then show ?thesis
    using results_come_from_clean_streams [OF t(1)] by (simp add: demo_decoded) blast
qed

text \<open>C40: a stream that stays within a third of the limit on its length is read to the verdict
  that its whole text has, split into lines at once: neither the chunks it arrives in, which may
  cut a character or a line, nor the pause for the init event make a difference, whether it ends
  in a result or in an error.\<close>

theorem chunks_make_no_difference:
  assumes "3 * length (concat chunks) \<le> max_bytes c"
  shows "consumeClaudeNativeStream c chunks = Ended (judge c (text_decode (concat chunks)))"
  using assms by (simp add: consumeClaudeNativeStream_def task_read_state end_verdict)

theorem chunks_make_no_difference_witness:
  "\<exists>t. consumeClaudeNativeStream demo_stream_cfg demo_chunks = Ended (Inr t) \<and> sr_text t = Some [0x4F60]"
  using chunks_make_no_difference [OF demo_short] demo_judged
  by (simp add: demo_decoded demo_result_def)

end
