(* ===== verification/Claude_Tasks.thy ===== *)
theory Claude_Tasks
  imports Claude_Stream_Props
begin

text \<open>
  The reading task step by step: how a task that has read certain chunks goes on, and which
  session its parse belongs to.
\<close>

definition parse_ok :: "parse \<Rightarrow> bool" where
  "parse_ok p \<longleftrightarrow> (\<forall>t. pa_terminal p = Some t \<longrightarrow> pa_sessionId p = Some (sr_sessionId t))"

lemma read_result_session: "read_result c r p = Inr t \<Longrightarrow> pa_sessionId p = Some (sr_sessionId t)"
  by (auto simp: read_result_def Let_def split: option.splits if_splits)

lemma consumeLine_parse:
  assumes "consumeLine c l p = Inr (p', i)" "parse_ok p"
  shows "parse_ok p' \<and> (case i of None \<Rightarrow> pa_sessionId p' = pa_sessionId p
     | Some sid \<Rightarrow> pa_sessionId p = None \<and> pa_sessionId p' = Some sid)"
  using assms read_result_session
  by (auto simp: consumeLine_def parse_ok_def bindR_Inr_iff split: if_splits option.splits json.splits)

lemma drain_lines_parse:
  "drain_lines c s p = Inr (rest, p', i) \<Longrightarrow> parse_ok p \<Longrightarrow>
     parse_ok p' \<and> (case i of None \<Rightarrow> pa_sessionId p' = pa_sessionId p
     | Some sid \<Rightarrow> pa_sessionId p = None \<and> pa_sessionId p' = Some sid)"
proof (induction s arbitrary: p rule: text_lines.induct)
  case (1 s)
  show ?case
  proof (cases "0x0A \<in> set s")
    case True
    then obtain q j where q: "consumeLine c (strip_cr (first_line s)) p = Inr (q, j)"
      using 1(2) by (auto simp: drain_lines.simps [of c s] split: sum.splits)
    note step = consumeLine_parse [OF q 1(3)]
    show ?thesis
    proof (cases j)
      case None
      then have "drain_lines c (other_lines s) q = Inr (rest, p', i)"
        using 1(2) True q by (simp add: drain_lines.simps [of c s])
      then show ?thesis using 1(1) [OF True] step None by (auto split: option.splits)
    next
      case (Some sid)
      then show ?thesis using 1(2) True q step by (auto simp: drain_lines.simps [of c s])
    qed
  next
    case False
    then show ?thesis using 1(2,3) by (simp add: drain_lines.simps [of c s])
  qed
qed

text \<open>A task with a known session id, and one that has just met the init event.\<close>

definition in_session :: "jstring option \<Rightarrow> stream_task \<Rightarrow> bool" where
  "in_session turn t =
     (case t of
        Reading s \<Rightarrow> parse_ok (st_parse s) \<and> pa_sessionId (st_parse s) = turn
      | Accepting _ sid s \<Rightarrow> parse_ok (st_parse s) \<and> pa_sessionId (st_parse s) = Some sid \<and> turn = Some sid
      | Ended (Inl _) \<Rightarrow> True
      | Ended (Inr r) \<Rightarrow> turn = Some (sr_sessionId r))"

definition goes_on :: "jstring option \<Rightarrow> stream_task \<Rightarrow> bool" where
  "goes_on turn t =
     (case t of Accepting _ sid s \<Rightarrow> turn = None \<and> in_session (Some sid) t | _ \<Rightarrow> in_session turn t)"

lemma in_session_simps [simp]:
  "in_session turn (Reading s) \<longleftrightarrow> parse_ok (st_parse s) \<and> pa_sessionId (st_parse s) = turn"
  "in_session turn (Accepting w sid s) \<longleftrightarrow>
     parse_ok (st_parse s) \<and> pa_sessionId (st_parse s) = Some sid \<and> turn = Some sid"
  "in_session turn (Ended (Inl e))"
  "in_session turn (Ended (Inr r)) \<longleftrightarrow> turn = Some (sr_sessionId r)"
  by (simp_all add: in_session_def)

lemma goes_on_simps [simp]:
  "goes_on turn (Reading s) \<longleftrightarrow> in_session turn (Reading s)"
  "goes_on turn (Accepting w sid s) \<longleftrightarrow> turn = None \<and> in_session (Some sid) (Accepting w sid s)"
  "goes_on turn (Ended r) \<longleftrightarrow> in_session turn (Ended r)"
  by (simp_all add: goes_on_def del: in_session_simps)

lemma continue_goes_on:
  "parse_ok (st_parse s) \<Longrightarrow> goes_on (pa_sessionId (st_parse s)) (continue_chunk c s)"
  using drain_lines_parse [of c "st_buffered s" "st_parse s"]
  by (auto simp: continue_chunk_def split: sum.split option.split)

lemma end_stream_session: "parse_ok p \<Longrightarrow> in_session (pa_sessionId p) (Ended (end_stream p))"
  by (auto simp: end_stream_def parse_ok_def split: option.split)

lemma chunk_goes_on:
  assumes "in_session turn (Reading s)"
  shows "goes_on turn (task_chunk c bs (Reading s))"
proof -
  have "st_parse (decode_chunk bs s) = st_parse s" by (simp add: decode_chunk_def split: prod.split)
  then show ?thesis
    using assms continue_goes_on [of "decode_chunk bs s" c] by (simp add: task_chunk_def)
qed

lemma done_goes_on:
  assumes "in_session turn (Reading s)"
  shows "goes_on turn (task_done c (Reading s))"
proof (cases "consumeLine c (final_line s) (st_parse s)")
  case (Inl e)
  then show ?thesis by (simp add: task_done_def)
next
  case (Inr r)
  obtain p i where r: "r = (p, i)" by (cases r)
  then show ?thesis
    using assms consumeLine_parse [of c "final_line s" "st_parse s" p i] end_stream_session [of p] Inr
    by (cases i) (simp_all add: task_done_def)
qed

lemma accepted_goes_on:
  "in_session turn (Accepting w sid s) \<Longrightarrow> goes_on turn (task_accepted c (Accepting w sid s))"
  using continue_goes_on [of s c] end_stream_session [of "st_parse s"]
  by (cases w) (simp_all add: task_accepted_def)

section \<open>A task and the chunks it has read\<close>

definition has_read :: "stream_cfg \<Rightarrow> nat list list \<Rightarrow> stream_task \<Rightarrow> bool" where
  "has_read c chunks t =
     (case t of
        Reading _ \<Rightarrow> task_read c chunks = t
      | Accepting In_chunk _ _ \<Rightarrow> task_read c chunks = task_accepted c t
      | Accepting At_end _ _ \<Rightarrow> consumeClaudeNativeStream c chunks = task_accepted c t
      | Ended (Inl _) \<Rightarrow> True
      | Ended (Inr _) \<Rightarrow> consumeClaudeNativeStream c chunks = t)"

lemma task_read_snoc: "task_read c (chunks @ [bs]) = task_accepted c (task_chunk c bs (task_read c chunks))"
  by (simp add: task_read_def)

lemma task_read_Nil: "task_read c [] = Reading new_stream"
  by (simp add: task_read_def)

lemma continue_pause:
  "continue_chunk c s = Accepting w sid s' \<Longrightarrow> w = In_chunk" "continue_chunk c s \<noteq> Ended (Inr r)"
  by (auto simp: continue_chunk_def split: sum.splits option.splits prod.splits if_splits)

lemma chunk_pause:
  "task_chunk c bs (Reading s) = Accepting w sid s' \<Longrightarrow> w = In_chunk" "task_chunk c bs (Reading s) \<noteq> Ended (Inr r)"
  using continue_pause by (auto simp: task_chunk_def split: if_splits)

lemma accepted_Reading: "task_accepted c (Reading s) = Reading s"
  by (simp add: task_accepted_def)

lemma has_read_chunk:
  "has_read c chunks (Reading s) \<Longrightarrow> has_read c (chunks @ [bs]) (task_chunk c bs (Reading s))"
  using chunk_pause [of c bs s]
  by (cases "task_chunk c bs (Reading s)")
    (auto simp: has_read_def task_read_snoc accepted_Reading split: pause.split sum.split)

lemma done_pause: "task_done c (Reading s) = Accepting w sid s' \<Longrightarrow> w = At_end" "task_done c (Reading s) \<noteq> Reading s'"
  by (auto simp: task_done_def split: sum.splits option.splits prod.splits)

lemma has_read_done:
  "has_read c chunks (Reading s) \<Longrightarrow> has_read c chunks (task_done c (Reading s))"
  using done_pause [of c s]
  by (cases "task_done c (Reading s)")
    (auto simp: has_read_def consumeClaudeNativeStream_def ended_stays split: pause.split sum.split)

lemma has_read_accepted:
  assumes "has_read c chunks (Accepting w sid s)" "in_session turn (Accepting w sid s)"
  shows "has_read c chunks (task_accepted c (Accepting w sid s))"
proof (cases w)
  case In_chunk
  have known: "pa_sessionId (st_parse s) \<noteq> None" using assms(2) by (simp add: in_session_def)
  have t: "task_accepted c (Accepting w sid s) = settled_chunk c s"
    by (simp add: task_accepted_def In_chunk continue_known [OF known])
  then have "task_read c chunks = settled_chunk c s" using assms(1) In_chunk by (simp add: has_read_def)
  then show ?thesis
    unfolding t by (auto simp: settled_chunk_def has_read_def split: sum.splits)
next
  case At_end
  then show ?thesis
    using assms(1) by (auto simp: has_read_def task_accepted_def split: sum.split)
qed

lemma consumed_text:
  assumes "consumeClaudeNativeStream c chunks = Ended (Inr t)" "sr_success t"
  shows "\<exists>s. sr_text t = Some s"
proof -
  obtain p where p: "judge_lines c (text_lines (text_decode (concat chunks))) new_parse = Inr p"
      "end_stream p = Inr t"
    using consumed_judged [OF assms(1)] by (auto simp: judge_def bindR_Inr_iff)
  obtain rs where "events_move c new_parse rs p" using judged_events [OF p(1)] by blast
  moreover have "pa_terminal p = Some t" using p(2) by (auto simp: end_stream_def split: option.splits if_splits)
  ultimately obtain r q where "read_result c r q = Inr t" "pa_sessionId q = Some (sr_sessionId t)"
    using events_to_result [of c new_parse rs p t] by (auto simp: new_parse_def)
  then show ?thesis using read_result_Inr(3) assms(2) by blast
qed

end
