(* ===== verification/Claude_Inv.thy ===== *)
theory Claude_Inv
  imports Claude_Backend Claude_Tasks
begin

text \<open>
  The invariant of the Claude backend. Everything that an attempt's methods do is local to it:
  they change its entry and append to the log what concerns it (\<open>frame\<close>), so that the invariant
  of an attempt is a predicate on a small record (\<open>local\<close>), evaluated method by method.
\<close>

section \<open>What the log says of an attempt\<close>

fun call_of :: "nat \<Rightarrow> claude_effect \<Rightarrow> exec_event list" where
  "call_of i (Ca_call j e) = (if i = j then [e] else [])"
| "call_of i _ = []"

fun chunk_of :: "nat \<Rightarrow> claude_effect \<Rightarrow> nat list list" where
  "chunk_of i (Ca_chunk j bs) = (if i = j then [bs] else [])"
| "chunk_of i _ = []"

fun exit_of :: "nat \<Rightarrow> claude_effect \<Rightarrow> int list" where
  "exit_of i (Ca_exited j code) = (if i = j then [code] else [])"
| "exit_of i _ = []"

definition calls :: "nat \<Rightarrow> claude_effect list \<Rightarrow> exec_event list" where
  "calls i l = concat (map (call_of i) l)"

definition chunks :: "nat \<Rightarrow> claude_effect list \<Rightarrow> nat list list" where
  "chunks i l = concat (map (chunk_of i) l)"

definition exits :: "nat \<Rightarrow> claude_effect list \<Rightarrow> int list" where
  "exits i l = concat (map (exit_of i) l)"

lemma views_append:
  "calls i (l @ l') = calls i l @ calls i l'"
  "chunks i (l @ l') = chunks i l @ chunks i l'"
  "exits i (l @ l') = exits i l @ exits i l'"
  by (simp_all add: calls_def chunks_def exits_def)

lemma views_one:
  "calls i [] = []" "chunks i [] = []" "exits i [] = []"
  "calls i (x # l) = call_of i x @ calls i l" "chunks i (x # l) = chunk_of i x @ chunks i l"
  "exits i (x # l) = exit_of i x @ exits i l"
  by (simp_all add: calls_def chunks_def exits_def)

record local =
  lo_at :: attempt
  lo_act :: bool
  lo_failed :: bool
  lo_exec :: "jstring option"
  lo_calls :: "exec_event list"
  lo_chunks :: "nat list list"
  lo_exits :: "int list"

definition local :: "nat \<Rightarrow> claude \<Rightarrow> local" where
  "local i s = \<lparr>lo_at = attempt_at s i, lo_act = (cl_active s = Some i), lo_failed = cl_failed s,
     lo_exec = cl_executionId s, lo_calls = calls i (cl_log s), lo_chunks = chunks i (cl_log s),
     lo_exits = exits i (cl_log s)\<rparr>"

lemma local_sel [simp]:
  "lo_at (local i s) = attempt_at s i" "lo_act (local i s) \<longleftrightarrow> cl_active s = Some i"
  "lo_failed (local i s) = cl_failed s" "lo_exec (local i s) = cl_executionId s"
  "lo_calls (local i s) = calls i (cl_log s)" "lo_chunks (local i s) = chunks i (cl_log s)"
  "lo_exits (local i s) = exits i (cl_log s)"
  by (simp_all add: local_def)

section \<open>What a method of an attempt leaves alone\<close>

fun about :: "nat \<Rightarrow> claude_effect \<Rightarrow> bool" where
  "about i (Ca_call j _) \<longleftrightarrow> i = j"
| "about i (Ca_chunk j _) \<longleftrightarrow> i = j"
| "about i (Ca_exited j _) \<longleftrightarrow> i = j"
| "about i (Ca_spawned _ _ _) \<longleftrightarrow> False"
| "about i _ \<longleftrightarrow> True"

lemma views_about:
  assumes "list_all (about i) xs" "j \<noteq> i"
  shows "calls j xs = []" "chunks j xs = []" "exits j xs = []"
proof -
  have "call_of j x = [] \<and> chunk_of j x = [] \<and> exit_of j x = []" if "x \<in> set xs" for x
    using assms that by (cases x) (auto simp: list_all_iff)
  then show "calls j xs = []" "chunks j xs = []" "exits j xs = []"
    by (simp_all add: calls_def chunks_def exits_def)
qed

definition frame :: "nat \<Rightarrow> claude \<Rightarrow> claude \<Rightarrow> bool" where
  "frame i s s' \<longleftrightarrow>
     length (cl_attempts s') = length (cl_attempts s)
     \<and> (\<forall>j. j \<noteq> i \<longrightarrow> attempt_at s' j = attempt_at s j)
     \<and> (cl_active s' = cl_active s \<or> cl_active s = Some i \<and> cl_active s' = None)
     \<and> (cl_failed s \<longrightarrow> cl_failed s') \<and> cl_executionId s' = cl_executionId s
     \<and> cl_pending s' = cl_pending s \<and> cl_dispatch s' = cl_dispatch s
     \<and> cl_preparation s' = cl_preparation s \<and> cl_start s' = cl_start s
     \<and> (\<exists>xs. cl_log s' = cl_log s @ xs \<and> list_all (about i) xs)"

interpretation attempt_frame: stretch_relation "frame i" for i
proof unfold_locales
  fix d e f
  show "frame i d d" by (simp add: frame_def)
  assume "frame i d e" "frame i e f"
  then show "frame i d f"
    unfolding frame_def by (auto simp: list_all_append)
qed

lemmas frame_flow = attempt_frame.keeps_flow

lemma frame_primitives:
  "keeps (frame i) (upd_attempt i f)" "keeps (frame i) (waitC i w)" "keeps (frame i) (set_failure m)"
  "keeps (frame i) tickC" "about i x \<Longrightarrow> keeps (frame i) (emitC x)" "keeps (frame i) (release_active i)"
  "keeps (frame i) (set_stdout i t)"
  by (auto simp: keeps_def frame_def upd_attempt_def waitC_def set_stdout_def modify_def set_attempt_def
      attempt_at_def set_failure_def tickC_def emitC_def release_active_def)

lemma frame_signal: "keeps (frame i) (signalC c i sg)"
  unfolding signalC_def Let_def
  by (intro frame_flow frame_primitives impI conjI) (auto split: signal_outcome.split
      intro!: frame_flow frame_primitives)

lemma frame_fails:
  "keeps (frame i) (modify (\<lambda>s. s\<lparr>cl_failed := True, cl_lastFailure := m\<rparr>))"
  "keeps (frame i) (modify (\<lambda>s. if b then s\<lparr>cl_failed := True\<rparr> else s))"
  by (auto simp: keeps_def frame_def modify_def attempt_at_def)

lemmas frame_intros = frame_flow frame_primitives frame_signal frame_fails

lemma frame_close: "keeps (frame i) (closeProcess c i k)" "keeps (frame i) (drain i e k)"
  "keeps (frame i) (over i)"
  unfolding closeProcess_def drain_def over_def by (intro frame_intros)+

lemma frame_failed: "keeps (frame i) (failClosed c i reason)" "keeps (frame i) (failed_over i fs reason)"
  unfolding failClosed_def failed_over_def by (intro frame_intros frame_close)+

lemma frame_report: "keeps (frame i) (report_failed i fs reason)"
  unfolding report_failed_def by (intro frame_intros frame_failed) simp

lemma frame_finish: "keeps (frame i) (finish c i failing ev)"
  unfolding finish_def by (intro frame_intros frame_failed frame_close) simp

lemmas frame_ends = frame_intros frame_close frame_failed frame_report frame_finish

lemma frame_finishes: "keeps (frame i) (finishResult c i t)" "keeps (frame i) (finishFailed c i e)"
  "keeps (frame i) (finishCancelled c i)" "keeps (frame i) (finishDisconnected c i e)"
  unfolding finishResult_def finishFailed_def finishCancelled_def finishDisconnected_def
  by (intro frame_ends)+

lemma frame_run: "keeps (frame i) (run_attempt c i)"
  unfolding run_attempt_def by (intro frame_ends) simp

lemma frame_caught: "keeps (frame i) (caught c i e)"
  unfolding caught_def by (intro frame_ends)

lemma frame_process_closed: "keeps (frame i) (process_closed c i k err)"
  unfolding process_closed_def
  by (auto split: close_then.split intro!: frame_ends frame_finishes)

lemma frame_resumes: "keeps (frame i) (resumes c i w ev)"
  unfolding resumes_def input_settled_def output_settled_def confirm_settled_def confirmed_def
    close_settled_def attempt_handler_settled_def
  by (auto split: attempt_wait.split claude_input.split input_race.split output_race.split io_task.split
      stream_task.split close_phase.split
      intro!: frame_ends frame_finishes frame_run frame_caught frame_process_closed)

lemma frame_stdout: "keeps (frame i) (stdout_goes_on i t)"
  unfolding stdout_goes_on_def on_init_def
  by (auto split: stream_task.split intro!: frame_ends)

lemma frame_child: "keeps (frame i) (stdout_reads c i r)" "keeps (frame i) (stderr_settled i err)"
  "keeps (frame i) (child_exits i code)" "keeps (frame i) (accepted_settled c i err)"
  "keeps (frame i) (deadline_fires c i)"
  unfolding stdout_reads_def stderr_settled_def child_exits_def accepted_settled_def deadline_fires_def
  by (auto split: stream_task.split stdout_read.split intro!: frame_ends frame_stdout)

section \<open>Evaluation of the methods\<close>

lemma thenA_calm: "fst (m s) = Inr u \<Longrightarrow> thenA m k s = k (snd (m s))"
  by (cases "m s") (simp add: thenA_def bindA_def)

lemma bindA_calm: "fst (m s) = Inr a \<Longrightarrow> bindA m k s = k a (snd (m s))"
  by (cases "m s") (simp add: bindA_def)

lemma primitives_eval:
  "upd_attempt i f s = (Inr (), set_attempt i f s)"
  "waitC i w s = (Inr (), set_attempt i (\<lambda>a. a\<lparr>at_wait := w\<rparr>) s)"
  "set_stdout i t s = (Inr (), set_attempt i (\<lambda>a. a\<lparr>at_stdout := Some t\<rparr>) s)"
  "over i s = (Inr (), set_attempt i (\<lambda>a. a\<lparr>at_wait := At_over\<rparr>) s)"
  "drain i e k s = (Inr (), set_attempt i (\<lambda>a. a\<lparr>at_wait := At_closing (Cl_drain e) k\<rparr>) s)"
  "set_failure m s = (Inr (), s\<lparr>cl_lastFailure := Some m\<rparr>)"
  "emitC x s = (Inr (), s\<lparr>cl_log := cl_log s @ [x]\<rparr>)"
  "readA g s = (Inr (g s), s)" "modify h s = (Inr (), h s)" "ret a s = (Inr a, s)"
  "release_active i s = (Inr (), if cl_active s = Some i then s\<lparr>cl_active := None\<rparr> else s)"
  by (simp_all add: upd_attempt_def waitC_def set_stdout_def over_def drain_def set_failure_def emitC_def
      readA_def modify_def ret_def release_active_def)

text \<open>A signal has no effect but in the log and in \<open>lastFailure\<close>.\<close>

lemma signal_eval:
  "fst (signalC c i sg s) = Inr ()" "cl_attempts (snd (signalC c i sg s)) = cl_attempts s"
  "local j (snd (signalC c i sg s)) = local j s"
  unfolding signalC_def
  by (auto simp: bindA_calm thenA_calm primitives_eval tickC_def Let_def local_def attempt_at_def
      views_append views_one split: signal_outcome.split)

lemma local_set:
  "i < length (cl_attempts s) \<Longrightarrow>
     local i (set_attempt i f s) = (local i s)\<lparr>lo_at := f (attempt_at s i)\<rparr>"
  by (simp add: local_def set_attempt_def attempt_at_def)

lemma set_attempt_sel [simp]:
  "length (cl_attempts (set_attempt i f s)) = length (cl_attempts s)"
  "i < length (cl_attempts s) \<Longrightarrow> attempt_at (set_attempt i f s) i = f (attempt_at s i)"
  "cl_active (set_attempt i f s) = cl_active s" "cl_failed (set_attempt i f s) = cl_failed s"
  "cl_executionId (set_attempt i f s) = cl_executionId s" "cl_log (set_attempt i f s) = cl_log s"
  by (simp_all add: set_attempt_def attempt_at_def)

lemma local_other [simp]:
  "local i (s\<lparr>cl_lastFailure := m\<rparr>) = local i s"
  "local i (s\<lparr>cl_failed := b\<rparr>) = (local i s)\<lparr>lo_failed := b\<rparr>"
  "local i (s\<lparr>cl_active := None\<rparr>) = (local i s)\<lparr>lo_act := False\<rparr>"
  "local i (s\<lparr>cl_log := l\<rparr>) = (local i s)\<lparr>lo_calls := calls i l, lo_chunks := chunks i l, lo_exits := exits i l\<rparr>"
  by (simp_all add: local_def attempt_at_def)

lemma attempt_at_other [simp]:
  "attempt_at (s\<lparr>cl_lastFailure := m\<rparr>) = attempt_at s" "attempt_at (s\<lparr>cl_failed := b\<rparr>) = attempt_at s"
  "attempt_at (s\<lparr>cl_active := x\<rparr>) = attempt_at s" "attempt_at (s\<lparr>cl_log := l\<rparr>) = attempt_at s"
  by (simp_all add: attempt_at_def fun_eq_iff)

lemma signal_sel [simp]:
  "attempt_at (snd (signalC c i sg s)) j = attempt_at s j" "cl_active (snd (signalC c i sg s)) = cl_active s"
  "cl_failed (snd (signalC c i sg s)) = cl_failed s" "cl_executionId (snd (signalC c i sg s)) = cl_executionId s"
proof -
  show "attempt_at (snd (signalC c i sg s)) j = attempt_at s j"
      "cl_failed (snd (signalC c i sg s)) = cl_failed s"
      "cl_executionId (snd (signalC c i sg s)) = cl_executionId s"
    using signal_eval(3) [of j c i sg s] by (metis local_sel(1), metis local_sel(3), metis local_sel(4))
  show "cl_active (snd (signalC c i sg s)) = cl_active s"
    unfolding signalC_def
    by (auto simp: bindA_calm thenA_calm primitives_eval tickC_def Let_def split: signal_outcome.split)
qed

lemmas eval = thenA_calm bindA_calm primitives_eval signal_eval local_set views_append views_one

lemma close_eval:
  "fst (closeProcess c i k s) = Inr ()"
  "i < length (cl_attempts s) \<Longrightarrow> local i (snd (closeProcess c i k s)) =
     (local i s)\<lparr>lo_at := (attempt_at s i)\<lparr>at_wait := At_closing Cl_term k\<rparr>\<rparr>"
  by (simp_all add: closeProcess_def eval)

lemma failed_eval:
  "fst (failClosed c i reason s) = Inr ()"
  "i < length (cl_attempts s) \<Longrightarrow> local i (snd (failClosed c i reason s)) =
     (local i s)\<lparr>lo_failed := True,
       lo_at := (attempt_at s i)\<lparr>at_wait := At_closing Cl_term (Then_failed reason)\<rparr>\<rparr>"
  by (simp_all add: failClosed_def eval close_eval)

lemma failed_over_eval:
  "fst (failed_over i fs reason s) = Inr ()"
  "i < length (cl_attempts s) \<Longrightarrow> local i (snd (failed_over i fs reason s)) =
     (local i s)\<lparr>lo_at := (attempt_at s i)\<lparr>at_wait := At_over\<rparr>\<rparr>"
  by (simp_all add: failed_over_def eval)

section \<open>The invariant of an attempt\<close>

fun is_verdict :: "exec_event \<Rightarrow> bool" where
  "is_verdict (X_result _ _) \<longleftrightarrow> True"
| "is_verdict (X_failed _ _ _) \<longleftrightarrow> True"
| "is_verdict (X_cancelled _ _) \<longleftrightarrow> True"
| "is_verdict _ \<longleftrightarrow> False"

fun is_accepted :: "exec_event \<Rightarrow> bool" where
  "is_accepted (X_accepted _) \<longleftrightarrow> True"
| "is_accepted _ \<longleftrightarrow> False"

text \<open>A result or a failure follows the acceptance of the same attempt and turn.\<close>

fun follows :: "exec_event \<Rightarrow> exec_event list \<Rightarrow> bool" where
  "follows (X_result je _) before \<longleftrightarrow> X_accepted je \<in> set before"
| "follows (X_failed je _ _) before \<longleftrightarrow> X_accepted je \<in> set before"
| "follows _ _ \<longleftrightarrow> True"

definition accepted_first :: "exec_event list \<Rightarrow> bool" where
  "accepted_first es \<longleftrightarrow> (\<forall>before e later. es = before @ e # later \<longrightarrow> follows e before)"

lemma accepted_first_Nil: "accepted_first []"
  by (simp add: accepted_first_def)

lemma accepted_first_snoc: "accepted_first (es @ [e]) \<longleftrightarrow> accepted_first es \<and> follows e es"
proof -
  have "accepted_first es" if "accepted_first (es @ [e])"
    using that unfolding accepted_first_def by (metis append.assoc append_Cons)
  moreover have "follows e es" if "accepted_first (es @ [e])"
    using that unfolding accepted_first_def by blast
  moreover have "accepted_first (es @ [e])" if "accepted_first es" "follows e es"
    using that unfolding accepted_first_def
    by (auto simp: append_eq_append_conv2 Cons_eq_append_conv append_eq_Cons_conv)
  ultimately show ?thesis by blast
qed

fun late_wait :: "attempt_wait \<Rightarrow> bool" where
  "late_wait At_handler \<longleftrightarrow> True"
| "late_wait (At_last_handler _ _) \<longleftrightarrow> True"
| "late_wait (At_closing _ (Then_failed _)) \<longleftrightarrow> True"
| "late_wait At_over \<longleftrightarrow> True"
| "late_wait _ \<longleftrightarrow> False"

text \<open>What is known while an attempt waits: unless the backend has failed, the child has exited
  before the attempt ends.\<close>

fun wait_ok :: "bool \<Rightarrow> attempt \<Rightarrow> attempt_wait \<Rightarrow> bool" where
  "wait_ok failed a At_scheduled \<longleftrightarrow> at_stdout a = None"
| "wait_ok failed a (At_confirm r code) \<longleftrightarrow>
     at_stdout a = Some (Ended (Inr r)) \<and> at_exited a = Some code"
| "wait_ok failed a (At_closing _ (Then_failed _)) \<longleftrightarrow> failed"
| "wait_ok failed a At_handler \<longleftrightarrow> failed \<or> at_exited a \<noteq> None"
| "wait_ok failed a (At_last_handler _ _) \<longleftrightarrow> failed"
| "wait_ok failed a At_over \<longleftrightarrow> failed \<or> at_exited a \<noteq> None"
| "wait_ok failed a _ \<longleftrightarrow> True"

definition awaits_accept :: "stream_task option \<Rightarrow> bool" where
  "awaits_accept t = (case t of Some (Accepting _ _ _) \<Rightarrow> True | _ \<Rightarrow> False)"

definition stdout_ok :: "claude_cfg \<Rightarrow> nat list list \<Rightarrow> jstring option \<Rightarrow> stream_task option \<Rightarrow> bool" where
  "stdout_ok c read turn t =
     (case t of
        None \<Rightarrow> read = [] \<and> turn = None
      | Some t \<Rightarrow> has_read (stream_cfg_of c) read t \<and> in_session turn t)"

text \<open>A result that the stream of the child has given, before the child exited with 0.\<close>

definition gave :: "attempt \<Rightarrow> job_event \<Rightarrow> jstring \<Rightarrow> bool" where
  "gave a je final \<longleftrightarrow>
     (\<exists>t. at_stdout a = Some (Ended (Inr t)) \<and> sr_success t \<and> sr_text t = Some final
        \<and> je_turnId je = Some (sr_sessionId t) \<and> at_exited a = Some 0)"

definition events_ok :: "attempt \<Rightarrow> jstring option \<Rightarrow> exec_event list \<Rightarrow> bool" where
  "events_ok a execution es \<longleftrightarrow>
     (\<forall>je. X_accepted je \<in> set es \<longrightarrow>
        je = claude_event a (je_executionId je) \<and> at_turnId a \<noteq> None
        \<and> (execution = None \<or> execution = Some (je_executionId je)))
     \<and> (\<forall>je final. X_result je final \<in> set es \<longrightarrow> gave a je final)
     \<and> accepted_first es
     \<and> length (filter is_verdict es) \<le> (if at_terminal a then 1 else 0)
     \<and> length (filter is_accepted es) \<le> (if at_turnId a = None then 0 else 1)
     \<and> (at_accepted a \<or> awaits_accept (at_stdout a) \<longrightarrow> (\<exists>je. X_accepted je \<in> set es))"

definition exit_list :: "int option \<Rightarrow> int list" where
  "exit_list x = (case x of None \<Rightarrow> [] | Some code \<Rightarrow> [code])"

definition att_ok :: "claude_cfg \<Rightarrow> local \<Rightarrow> bool" where
  "att_ok c l \<longleftrightarrow>
     (lo_act l \<longleftrightarrow> at_wait (lo_at l) \<noteq> At_over)
     \<and> (at_terminal (lo_at l) \<longrightarrow> late_wait (at_wait (lo_at l)))
     \<and> wait_ok (lo_failed l) (lo_at l) (at_wait (lo_at l))
     \<and> lo_exits l = exit_list (at_exited (lo_at l))
     \<and> stdout_ok c (lo_chunks l) (at_turnId (lo_at l)) (at_stdout (lo_at l))
     \<and> events_ok (lo_at l) (lo_exec l) (lo_calls l)"

lemma claude_event_cong [simp]:
  "claude_event (a\<lparr>at_wait := w\<rparr>) e = claude_event a e"
  "claude_event (a\<lparr>at_terminal := b\<rparr>) e = claude_event a e"
  "claude_event (a\<lparr>at_deadline := d\<rparr>) e = claude_event a e"
  "claude_event (a\<lparr>at_deadlineReason := d\<rparr>) e = claude_event a e"
  "claude_event (a\<lparr>at_stdout := t\<rparr>) e = claude_event a e"
  "claude_event (a\<lparr>at_stderr := io\<rparr>) e = claude_event a e"
  "claude_event (a\<lparr>at_exited := x\<rparr>) e = claude_event a e"
  "claude_event (a\<lparr>at_accepted := b\<rparr>) e = claude_event a e"
  "claude_event (a\<lparr>at_cancelRequested := b\<rparr>) e = claude_event a e"
  by (simp_all add: claude_event_def)

lemma wait_ok_cong [simp]:
  "wait_ok failed (a\<lparr>at_wait := x\<rparr>) w = wait_ok failed a w"
  "wait_ok failed (a\<lparr>at_terminal := b\<rparr>) w = wait_ok failed a w"
  "wait_ok failed (a\<lparr>at_deadline := d\<rparr>) w = wait_ok failed a w"
  "wait_ok failed (a\<lparr>at_deadlineReason := d\<rparr>) w = wait_ok failed a w"
  "wait_ok failed (a\<lparr>at_stderr := io\<rparr>) w = wait_ok failed a w"
  "wait_ok failed (a\<lparr>at_accepted := b\<rparr>) w = wait_ok failed a w"
  "wait_ok failed (a\<lparr>at_turnId := tu\<rparr>) w = wait_ok failed a w"
  "wait_ok failed (a\<lparr>at_cancelRequested := b\<rparr>) w = wait_ok failed a w"
  by (induction failed a w rule: wait_ok.induct) simp_all

lemma gave_cong [simp]:
  "gave (a\<lparr>at_wait := x\<rparr>) = gave a" "gave (a\<lparr>at_terminal := b\<rparr>) = gave a"
  "gave (a\<lparr>at_deadline := d\<rparr>) = gave a" "gave (a\<lparr>at_deadlineReason := d\<rparr>) = gave a"
  "gave (a\<lparr>at_stderr := io\<rparr>) = gave a" "gave (a\<lparr>at_accepted := b\<rparr>) = gave a"
  "gave (a\<lparr>at_turnId := tu\<rparr>) = gave a" "gave (a\<lparr>at_cancelRequested := b\<rparr>) = gave a"
  by (simp_all add: gave_def fun_eq_iff)

lemma events_ok_cong [simp]:
  "events_ok (a\<lparr>at_wait := x\<rparr>) e es = events_ok a e es"
  "events_ok (a\<lparr>at_deadline := d\<rparr>) e es = events_ok a e es"
  "events_ok (a\<lparr>at_deadlineReason := d\<rparr>) e es = events_ok a e es"
  "events_ok (a\<lparr>at_stderr := io\<rparr>) e es = events_ok a e es"
  "events_ok (a\<lparr>at_cancelRequested := b\<rparr>) e es = events_ok a e es"
  by (simp_all add: events_ok_def)

lemma events_ok_terminal: "events_ok a e es \<Longrightarrow> events_ok (a\<lparr>at_terminal := True\<rparr>) e es"
  by (auto simp: events_ok_def split: if_splits)

lemma events_ok_exec: "events_ok a e es \<Longrightarrow> e' = e \<or> e' = None \<Longrightarrow> events_ok a e' es"
  by (auto simp: events_ok_def)

lemma wait_ok_mono: "wait_ok failed a w \<Longrightarrow> (failed \<Longrightarrow> failed') \<Longrightarrow> wait_ok failed' a w"
  by (induction failed a w rule: wait_ok.induct) auto

text \<open>What others do: the backend may fail, and its execution id go.\<close>

lemma att_ok_others:
  assumes "att_ok c l" "lo_failed l \<Longrightarrow> failed'" "exec' = lo_exec l \<or> exec' = None"
  shows "att_ok c (l\<lparr>lo_failed := failed', lo_exec := exec'\<rparr>)"
  using assms wait_ok_mono events_ok_exec unfolding att_ok_def by auto

text \<open>Another wait.\<close>

lemma att_ok_wait:
  assumes "att_ok c l" "w \<noteq> At_over" "at_wait (lo_at l) \<noteq> At_over" "wait_ok failed' (lo_at l) w"
    "at_terminal (lo_at l) \<longrightarrow> late_wait w"
  shows "att_ok c (l\<lparr>lo_failed := failed', lo_at := (lo_at l)\<lparr>at_wait := w\<rparr>\<rparr>)"
  using assms unfolding att_ok_def by simp

section \<open>The methods keep it\<close>

lemma att_okD:
  assumes "att_ok c (local i s)"
  shows "cl_active s = Some i \<longleftrightarrow> at_wait (attempt_at s i) \<noteq> At_over"
    "at_terminal (attempt_at s i) \<Longrightarrow> late_wait (at_wait (attempt_at s i))"
    "wait_ok (cl_failed s) (attempt_at s i) (at_wait (attempt_at s i))"
    "exits i (cl_log s) = exit_list (at_exited (attempt_at s i))"
    "stdout_ok c (chunks i (cl_log s)) (at_turnId (attempt_at s i)) (at_stdout (attempt_at s i))"
    "events_ok (attempt_at s i) (cl_executionId s) (calls i (cl_log s))"
  using assms by (simp_all add: att_ok_def)

lemma local_same: "(local i s)\<lparr>lo_failed := cl_failed s\<rparr> = local i s"
  by (simp add: local_def)

lemma close_ok:
  assumes "i < length (cl_attempts s)" "att_ok c (local i s)" "at_wait (attempt_at s i) \<noteq> At_over"
    "wait_ok (cl_failed s) (attempt_at s i) (At_closing Cl_term k)"
    "at_terminal (attempt_at s i) \<longrightarrow> late_wait (At_closing Cl_term k)"
  shows "att_ok c (local i (snd (closeProcess c i k s)))"
  using att_ok_wait [OF assms(2), of "At_closing Cl_term k" "cl_failed s"] assms
  by (simp add: close_eval local_same)

lemma failed_ok:
  assumes "i < length (cl_attempts s)" "att_ok c (local i s)" "at_wait (attempt_at s i) \<noteq> At_over"
  shows "att_ok c (local i (snd (failClosed c i reason s)))"
  using att_ok_wait [OF assms(2), of "At_closing Cl_term (Then_failed reason)" True] assms
  by (simp add: failed_eval)

text \<open>The end of an attempt: it gives up its place, and is over.\<close>

lemma ended_ok:
  assumes "att_ok c l" "at_wait (lo_at l) \<noteq> At_over" "lo_failed l \<or> at_exited (lo_at l) \<noteq> None"
  shows "att_ok c (l\<lparr>lo_act := False, lo_at := (lo_at l)\<lparr>at_wait := At_over\<rparr>\<rparr>)"
  using assms unfolding att_ok_def by simp

text \<open>A call of a handler that ends the attempt.\<close>

definition may_end :: "attempt \<Rightarrow> exec_event list \<Rightarrow> exec_event \<Rightarrow> bool" where
  "may_end a es e \<longleftrightarrow>
     \<not> is_accepted e \<and> follows e es \<and> (\<forall>je final. e = X_result je final \<longrightarrow> gave a je final)"

lemma events_ok_end:
  assumes "events_ok a execution es" "\<not> at_terminal a" "may_end a es e"
  shows "events_ok (a\<lparr>at_terminal := True\<rparr>) execution (es @ [e])"
  using assms
  by (auto simp: events_ok_def may_end_def accepted_first_snoc split: if_splits)

lemma finish_ok:
  assumes len: "i < length (cl_attempts s)" and ok: "att_ok c (local i s)"
    and early: "\<not> late_wait (at_wait (attempt_at s i))"
    and exited: "failing \<or> at_exited (attempt_at s i) \<noteq> None"
    and ev: "\<And>e. cl_executionId s = Some e \<Longrightarrow>
      may_end (attempt_at s i) (calls i (cl_log s)) (ev (attempt_at s i) e)"
  shows "att_ok c (local i (snd (finish c i failing ev s)))"
proof -
  note d = att_okD [OF ok]
  have act: "cl_active s = Some i" "\<not> at_terminal (attempt_at s i)" "at_wait (attempt_at s i) \<noteq> At_over"
    using d(1,2) early by (auto simp: late_wait.simps)
  define s1 where "s1 = (let s1 = set_attempt i (\<lambda>a. a\<lparr>at_terminal := True\<rparr>) s in
    if failing then s1\<lparr>cl_failed := True\<rparr> else s1)"
  have loc1: "local i s1 = (local i s)\<lparr>lo_failed := cl_failed s \<or> failing,
      lo_at := (attempt_at s i)\<lparr>at_terminal := True\<rparr>\<rparr>"
    using len by (simp add: s1_def Let_def local_set local_same)
  have len1: "i < length (cl_attempts s1)" using len by (simp add: s1_def Let_def)
  have sel: "cl_executionId s1 = cl_executionId s" "cl_log s1 = cl_log s"
    by (simp_all add: s1_def Let_def)
  show ?thesis
  proof (cases "cl_executionId s")
    case None
    then have "finish c i failing ev s = failClosed c i no_execution_id s1"
      using act by (auto simp: finish_def eval s1_def Let_def)
    moreover have "local i (snd (failClosed c i no_execution_id s1)) = (local i s)\<lparr>lo_failed := True,
        lo_at := (attempt_at s i)\<lparr>at_terminal := True,
          at_wait := At_closing Cl_term (Then_failed no_execution_id)\<rparr>\<rparr>"
      using loc1 failed_eval(2) [OF len1, of c no_execution_id] local_sel(1) [of i s1] by simp
    moreover have "att_ok c \<dots>"
      using ok act events_ok_terminal by (simp add: att_ok_def)
    ultimately show ?thesis by simp
  next
    case (Some e)
    then have "finish c i failing ev s =
        (Inr (), set_attempt i (\<lambda>a. a\<lparr>at_wait := At_handler\<rparr>)
          (s1\<lparr>cl_log := cl_log s1 @ [Ca_call i (ev (attempt_at s i) e)]\<rparr>))"
      using act by (auto simp: finish_def eval s1_def Let_def)
    moreover have "local i (set_attempt i (\<lambda>a. a\<lparr>at_wait := At_handler\<rparr>)
          (s1\<lparr>cl_log := cl_log s1 @ [Ca_call i (ev (attempt_at s i) e)]\<rparr>)) =
        (local i s)\<lparr>lo_failed := cl_failed s \<or> failing,
          lo_at := (attempt_at s i)\<lparr>at_terminal := True, at_wait := At_handler\<rparr>,
          lo_calls := calls i (cl_log s) @ [ev (attempt_at s i) e]\<rparr>"
      using loc1 len1 local_sel(1) [of i s1] by (simp add: eval sel)
    moreover have "att_ok c \<dots>"
      using ok act exited events_ok_end [OF d(6) act(2) ev [OF Some]] by (auto simp: att_ok_def)
    ultimately show ?thesis by simp
  qed
qed

lemma accepted_event:
  "events_ok a (Some e) es \<Longrightarrow> at_accepted a \<Longrightarrow> X_accepted (claude_event a e) \<in> set es"
  unfolding events_ok_def by (metis option.inject option.simps(3))

lemma finishCancelled_ok:
  "i < length (cl_attempts s) \<Longrightarrow> att_ok c (local i s) \<Longrightarrow> \<not> late_wait (at_wait (attempt_at s i)) \<Longrightarrow>
     att_ok c (local i (snd (finishCancelled c i s)))"
  unfolding finishCancelled_def by (rule finish_ok) (auto simp: may_end_def)

lemma finishDisconnected_ok:
  "i < length (cl_attempts s) \<Longrightarrow> att_ok c (local i s) \<Longrightarrow> \<not> late_wait (at_wait (attempt_at s i)) \<Longrightarrow>
     att_ok c (local i (snd (finishDisconnected c i reason s)))"
  unfolding finishDisconnected_def by (rule finish_ok) (auto simp: may_end_def)

lemma confirmed_ok:
  assumes len: "i < length (cl_attempts s)" and ok: "att_ok c (local i s)"
    and w: "at_wait (attempt_at s i) = At_confirm r code"
  shows "att_ok c (local i (snd (confirmed c i r code s)))"
proof -
  note d = att_okD [OF ok]
  define a where "a = attempt_at s i"
  have early: "\<not> late_wait (at_wait (attempt_at s i))" by (simp add: w)
  have out: "at_stdout a = Some (Ended (Inr r))" "at_exited a = Some code"
    using d(3) by (simp_all add: w a_def)
  have read: "consumeClaudeNativeStream (stream_cfg_of c) (chunks i (cl_log s)) = Ended (Inr r)"
    "at_turnId a = Some (sr_sessionId r)"
    using d(5) out(1) by (simp_all add: stdout_ok_def has_read_def a_def)
  have result: "may_end a (calls i (cl_log s)) (X_result (claude_event a e) (the (sr_text r)))"
    if "cl_executionId s = Some e" "at_accepted a" "code = 0" "sr_success r" for e
    using that accepted_event [of a e] d(6) consumed_text [OF read(1)] out read(2)
    by (auto simp: may_end_def gave_def a_def claude_event_def)
  have failure: "may_end a (calls i (cl_log s)) (X_failed (claude_event a e) m False)"
    if "cl_executionId s = Some e" "at_accepted a" for e m
    using that accepted_event [of a e] d(6) by (simp add: may_end_def a_def)
  have "att_ok c (local i (snd (finishResult c i (the (sr_text r)) s)))"
    if "at_accepted a" "code = 0" "sr_success r"
    unfolding finishResult_def using len ok early out result that by (intro finish_ok) (auto simp: a_def)
  moreover have "att_ok c (local i (snd (finishFailed c i m s)))" if "at_accepted a" for m
    unfolding finishFailed_def using len ok early out failure that by (intro finish_ok) (auto simp: a_def)
  ultimately show ?thesis
    using finishCancelled_ok [OF len ok early] finishDisconnected_ok [OF len ok early]
    by (simp add: confirmed_def eval a_def)
qed

lemma report_failed_ok:
  assumes len: "i < length (cl_attempts s)" and ok: "att_ok c (local i s)"
    and w: "at_wait (attempt_at s i) = At_closing phase (Then_failed reason)"
  shows "att_ok c (local i (snd (report_failed i fs reason s)))"
proof -
  note d = att_okD [OF ok]
  have act: "cl_active s = Some i" "cl_failed s" using d(1,3) by (simp_all add: w)
  define s1 where "s1 = set_attempt i (\<lambda>a. a\<lparr>at_terminal := True\<rparr>) s"
  have s1: "i < length (cl_attempts s1)" "cl_active s1 = Some i" "cl_log s1 = cl_log s"
      "local i s1 = (local i s)\<lparr>lo_at := (attempt_at s i)\<lparr>at_terminal := True\<rparr>\<rparr>"
      "attempt_at s1 i = (attempt_at s i)\<lparr>at_terminal := True\<rparr>"
    using len act by (simp_all add: s1_def local_set)
  have ok1: "att_ok c (local i s1)"
    using ok w events_ok_terminal by (simp add: s1 att_ok_def)
  show ?thesis
  proof (cases "cl_executionId s")
    case None
    then have "report_failed i fs reason s =
        failed_over i (fs @ [no_execution_id]) reason (s1\<lparr>cl_active := None\<rparr>)"
      using act s1(2) by (simp add: report_failed_def eval s1_def)
    moreover have "local i (snd (failed_over i (fs @ [no_execution_id]) reason (s1\<lparr>cl_active := None\<rparr>))) =
        (local i s1)\<lparr>lo_act := False, lo_at := (lo_at (local i s1))\<lparr>at_wait := At_over\<rparr>\<rparr>"
      using s1(1) by (simp add: failed_over_eval)
    moreover have "att_ok c \<dots>"
      using ended_ok [OF ok1] act w by (simp add: s1)
    ultimately show ?thesis by simp
  next
    case (Some e)
    let ?e = "X_disconnected Claude e (Some (failed_closed_reason reason))"
    have "report_failed i fs reason s = (Inr (), set_attempt i (\<lambda>a. a\<lparr>at_wait := At_last_handler fs reason\<rparr>)
          (s1\<lparr>cl_log := cl_log s1 @ [Ca_call i ?e]\<rparr>))"
      using act Some by (simp add: report_failed_def eval s1_def)
    moreover have "local i (set_attempt i (\<lambda>a. a\<lparr>at_wait := At_last_handler fs reason\<rparr>)
          (s1\<lparr>cl_log := cl_log s1 @ [Ca_call i ?e]\<rparr>)) =
        (local i s1)\<lparr>lo_at := (lo_at (local i s1))\<lparr>at_wait := At_last_handler fs reason\<rparr>,
          lo_calls := calls i (cl_log s) @ [?e]\<rparr>"
      using s1 by (simp add: eval)
    moreover have "events_ok (attempt_at s1 i) (cl_executionId s) (calls i (cl_log s) @ [?e])"
      using d(6) by (auto simp: events_ok_def accepted_first_snoc s1 split: if_splits)
    then have "att_ok c ((local i s1)\<lparr>lo_at := (lo_at (local i s1))\<lparr>at_wait := At_last_handler fs reason\<rparr>,
          lo_calls := calls i (cl_log s) @ [?e]\<rparr>)"
      using ok1 act w by (simp add: att_ok_def s1)
    ultimately show ?thesis by simp
  qed
qed

lemma run_attempt_ok:
  assumes len: "i < length (cl_attempts s)" and ok: "att_ok c (local i s)"
    and w: "at_wait (attempt_at s i) = At_scheduled"
  shows "att_ok c (local i (snd (run_attempt c i s)))"
proof -
  note d = att_okD [OF ok]
  have act: "cl_active s = Some i" "\<not> at_terminal (attempt_at s i)" "at_stdout (attempt_at s i) = None"
    using d(1-3) by (auto simp: w)
  have start: "stdout_ok c (chunks i (cl_log s)) (at_turnId (attempt_at s i)) (Some (Reading new_stream))"
    using d(5) act(3) by (simp add: stdout_ok_def has_read_def task_read_Nil new_stream_def parse_ok_def)
  have events: "events_ok ((attempt_at s i)\<lparr>at_deadline := Some init_timeout,
      at_stdout := Some (Reading new_stream)\<rparr>) (cl_executionId s) (calls i (cl_log s))"
    using d(6) act(3) by (auto simp: events_ok_def gave_def awaits_accept_def)
  show ?thesis
    using close_ok [OF len ok] act d len ok start events
    by (auto simp: run_attempt_def eval w att_ok_def
        intro!: close_ok)
qed

lemma quiet_attempt:
  "att_ok c l \<Longrightarrow> att_ok c (l\<lparr>lo_at := (lo_at l)\<lparr>at_deadline := d\<rparr>\<rparr>)"
  "att_ok c l \<Longrightarrow> att_ok c (l\<lparr>lo_at := (lo_at l)\<lparr>at_cancelRequested := b\<rparr>\<rparr>)"
  "att_ok c l \<Longrightarrow> att_ok c (l\<lparr>lo_at := (lo_at l)\<lparr>at_deadline := d, at_deadlineReason := r\<rparr>\<rparr>)"
  by (simp_all add: att_ok_def)

lemma caught_ok:
  assumes len: "i < length (cl_attempts s)" and ok: "att_ok c (local i s)"
    and early: "\<not> late_wait (at_wait (attempt_at s i))"
  shows "att_ok c (local i (snd (caught c i e s)))"
proof -
  define s1 where "s1 = set_attempt i (\<lambda>a. a\<lparr>at_deadline := None\<rparr>) s"
  have s1: "i < length (cl_attempts s1)" "attempt_at s1 i = (attempt_at s i)\<lparr>at_deadline := None\<rparr>"
    using len by (simp_all add: s1_def)
  have ok1: "att_ok c (local i s1)"
    using quiet_attempt(1) [OF ok, of None] len by (simp add: s1_def local_set)
  have "\<not> at_terminal (attempt_at s i)" "at_wait (attempt_at s i) \<noteq> At_over"
    using att_okD(2) [OF ok] early by (auto simp: late_wait.simps)
  moreover have "caught c i e s = closeProcess c i (Then_caught e) s1"
    using calculation len by (simp add: caught_def eval s1_def)
  ultimately show ?thesis
    using close_ok [OF s1(1) ok1, of "Then_caught e"] by (simp add: s1(2))
qed

lemma process_closed_ok:
  assumes len: "i < length (cl_attempts s)" and ok: "att_ok c (local i s)"
    and w: "at_wait (attempt_at s i) = At_closing phase k"
  shows "att_ok c (local i (snd (process_closed c i k err s)))"
proof (cases k)
  case (Then_failed reason)
  then show ?thesis
    using report_failed_ok [OF len ok] w by (simp add: process_closed_def)
next
  case (Then_caught e)
  have early: "\<not> late_wait (at_wait (attempt_at s i))" by (simp add: w Then_caught)
  define s1 where "s1 = (case err of None \<Rightarrow> s | Some x \<Rightarrow> s\<lparr>cl_lastFailure := Some x\<rparr>)"
  have s1: "i < length (cl_attempts s1)" "local i s1 = local i s" "attempt_at s1 i = attempt_at s i"
    using len by (simp_all add: s1_def split: option.split)
  have "process_closed c i k err s =
      (if at_cancelRequested (attempt_at s1 i) then finishCancelled c i s1
       else finishDisconnected c i (case at_deadlineReason (attempt_at s1 i) of
              Some reason \<Rightarrow> reason | None \<Rightarrow> e) s1)"
    by (cases err) (simp_all add: process_closed_def Then_caught eval s1_def)
  then show ?thesis
    using finishCancelled_ok [OF s1(1)] finishDisconnected_ok [OF s1(1)] ok early s1 by simp
qed (use finishCancelled_ok [OF len ok] finishDisconnected_ok [OF len ok] failed_ok [OF len ok] w in
    \<open>auto simp: process_closed_def split: option.split\<close>)

lemma close_settled_ok:
  assumes len: "i < length (cl_attempts s)" and ok: "att_ok c (local i s)"
    and w: "at_wait (attempt_at s i) = At_closing phase k"
  shows "att_ok c (local i (snd (close_settled c i phase k err s)))"
proof -
  have moved: "att_ok c ((local i s)\<lparr>lo_at := (attempt_at s i)\<lparr>at_wait := At_closing phase' k\<rparr>\<rparr>)" for phase'
  proof -
    have "wait_ok (cl_failed s) (attempt_at s i) (At_closing phase' k)"
        "at_terminal (attempt_at s i) \<longrightarrow> late_wait (At_closing phase' k)"
      using att_okD(2,3) [OF ok] by (cases k; auto simp: w)+
    then show ?thesis
      using att_ok_wait [OF ok, of "At_closing phase' k" "cl_failed s"] by (simp add: w local_same)
  qed
  then show ?thesis
    using process_closed_ok [OF len ok w] ok len
    by (auto simp: close_settled_def eval split: close_phase.split option.split)
qed

lemma attempt_handler_ok:
  assumes len: "i < length (cl_attempts s)" and ok: "att_ok c (local i s)"
  shows "att_ok c (local i (snd (attempt_handler_settled c i err s)))"
proof -
  note d = att_okD [OF ok]
  have gone: "local i (if cl_active s = Some i then s\<lparr>cl_active := None\<rparr> else s) = (local i s)\<lparr>lo_act := False\<rparr>"
    by (auto simp: local_def attempt_at_def)
  have len': "i < length (cl_attempts (if cl_active s = Some i then s\<lparr>cl_active := None\<rparr> else s))"
    "attempt_at (if cl_active s = Some i then s\<lparr>cl_active := None\<rparr> else s) i = attempt_at s i"
    using len by auto
  show ?thesis
    using d(1,3) ended_ok [OF ok] failed_ok [OF len ok] ok len' gone
    by (auto simp: attempt_handler_settled_def eval failed_over_eval split: attempt_wait.split option.split)
qed

lemma output_settled_ok:
  assumes len: "i < length (cl_attempts s)" and ok: "att_ok c (local i s)"
    and w: "at_wait (attempt_at s i) = At_output"
  shows "att_ok c (local i (snd (output_settled c i r s)))"
proof -
  have early: "\<not> late_wait (at_wait (attempt_at s i))" by (simp add: w)
  have confirm: "att_ok c ((local i s)\<lparr>lo_at := (attempt_at s i)\<lparr>at_deadline := None,
      at_wait := At_confirm result code\<rparr>\<rparr>)"
    if "at_stdout (attempt_at s i) = Some (Ended (Inr result))" "at_exited (attempt_at s i) = Some code"
    for result code
    using that ok att_okD(2) [OF ok] by (simp add: att_ok_def w)
  show ?thesis
    using caught_ok [OF len ok early] confirm ok len
    by (auto simp: output_settled_def eval split: output_race.split io_task.split option.split
        stream_task.split sum.split)
qed

lemma resumes_ok:
  assumes len: "i < length (cl_attempts s)" and ok: "att_ok c (local i s)"
  shows "att_ok c (local i (snd (resumes c i (at_wait (attempt_at s i)) ev s)))"
proof (cases "at_wait (attempt_at s i)")
  case At_scheduled
  then show ?thesis
    using run_attempt_ok [OF len ok] ok by (simp add: resumes_def eval split: claude_input.split)
next
  case At_input
  have "\<not> at_terminal (attempt_at s i)" using att_okD(2) [OF ok] At_input by auto
  then have "att_ok c ((local i s)\<lparr>lo_at := (attempt_at s i)\<lparr>at_wait := At_output\<rparr>\<rparr>)"
    using att_ok_wait [OF ok, of At_output "cl_failed s"] At_input by (simp add: local_same)
  then show ?thesis
    using caught_ok [OF len ok] ok len At_input
    by (auto simp: resumes_def input_settled_def eval split: claude_input.split input_race.split option.split)
next
  case At_output
  then show ?thesis
    using output_settled_ok [OF len ok] ok by (simp add: resumes_def eval split: claude_input.split)
next
  case (At_confirm result code)
  then show ?thesis
    using confirmed_ok [OF len ok] caught_ok [OF len ok] ok
    by (auto simp: resumes_def confirm_settled_def eval split: claude_input.split option.split)
next
  case (At_closing phase k)
  then show ?thesis
    using close_settled_ok [OF len ok] ok by (simp add: resumes_def eval split: claude_input.split)
qed (use attempt_handler_ok [OF len ok] ok in \<open>simp_all add: resumes_def eval split: claude_input.split\<close>)

section \<open>What the child does\<close>

text \<open>The task that reads its stream goes on, while it has not ended.\<close>

definition reading :: "attempt \<Rightarrow> bool" where
  "reading a \<longleftrightarrow> (case at_stdout a of Some (Reading _) \<Rightarrow> True | Some (Accepting _ _ _) \<Rightarrow> True | _ \<Rightarrow> False)"

lemma reading_open:
  assumes "reading a"
  shows "\<not> gave a je final" "at_stdout a \<noteq> None" "at_stdout a \<noteq> Some (Ended r)"
  using assms by (auto simp: reading_def gave_def split: option.splits stream_task.splits)

lemma wait_ok_reading: "wait_ok failed a w \<Longrightarrow> reading a \<Longrightarrow> wait_ok failed (a\<lparr>at_stdout := t\<rparr>) w"
  by (induction failed a w rule: wait_ok.induct) (auto simp: reading_def)

lemma task_set_ok:
  assumes "att_ok c l" "reading (lo_at l)" "\<not> awaits_accept (Some t)"
    "stdout_ok c ch (at_turnId (lo_at l)) (Some t)"
  shows "att_ok c (l\<lparr>lo_chunks := ch, lo_at := (lo_at l)\<lparr>at_stdout := Some t\<rparr>\<rparr>)"
  using assms reading_open(1) wait_ok_reading by (auto simp: att_ok_def events_ok_def)

lemma init_events_ok:
  assumes "events_ok a execution es" "reading a" "at_turnId a = None"
  shows "events_ok (a\<lparr>at_turnId := Some sid, at_stdout := Some (Ended (Inl err))\<rparr>) execution es"
    "execution = Some e \<Longrightarrow>
       events_ok (a\<lparr>at_turnId := Some sid, at_stdout := t\<rparr>) execution
         (es @ [X_accepted (claude_event (a\<lparr>at_turnId := Some sid\<rparr>) e)])"
proof -
  have none: "X_accepted je \<notin> set es" "X_result je final \<notin> set es" for je final
    using assms reading_open(1) by (auto simp: events_ok_def)
  then show "events_ok (a\<lparr>at_turnId := Some sid, at_stdout := Some (Ended (Inl err))\<rparr>) execution es"
    using assms by (auto simp: events_ok_def awaits_accept_def)
  have "claude_event (a\<lparr>at_turnId := Some sid, at_stdout := t\<rparr>) e = claude_event (a\<lparr>at_turnId := Some sid\<rparr>) e"
    "je_executionId (claude_event (a\<lparr>at_turnId := Some sid\<rparr>) e) = e"
    by (simp_all add: claude_event_def)
  then show "events_ok (a\<lparr>at_turnId := Some sid, at_stdout := t\<rparr>) execution
         (es @ [X_accepted (claude_event (a\<lparr>at_turnId := Some sid\<rparr>) e)])" if "execution = Some e"
    using assms none that by (auto simp: events_ok_def accepted_first_snoc)
qed

text \<open>The new state of the task, after the chunks \<open>ch\<close>, of which the last may just have been logged.\<close>

lemma stdout_goes_on_ok:
  assumes len: "i < length (cl_attempts s)"
    and ok: "att_ok c ((local i s)\<lparr>lo_chunks := ch\<rparr>)" and open_task: "reading (attempt_at s i)"
    and read: "has_read (stream_cfg_of c) (chunks i (cl_log s)) t"
    and on: "goes_on (at_turnId (attempt_at s i)) t"
  shows "att_ok c (local i (snd (stdout_goes_on i t s)))"
proof (cases "\<exists>w sid st. t = Accepting w sid st")
  case False
  then have "snd (stdout_goes_on i t s) = set_attempt i (\<lambda>a. a\<lparr>at_stdout := Some t\<rparr>) s"
    by (cases t) (simp_all add: stdout_goes_on_def eval)
  moreover have "stdout_ok c (chunks i (cl_log s)) (at_turnId (attempt_at s i)) (Some t)"
    using read on False by (cases t) (simp_all add: stdout_ok_def)
  then have "att_ok c ((local i s)\<lparr>lo_chunks := chunks i (cl_log s),
      lo_at := (attempt_at s i)\<lparr>at_stdout := Some t\<rparr>\<rparr>)"
    using task_set_ok [OF ok, of t "chunks i (cl_log s)"] False open_task
    by (cases t) (simp_all add: awaits_accept_def)
  ultimately show ?thesis using len by (simp add: local_set) (simp add: local_def)
next
  case True
  then obtain w sid st where t: "t = Accepting w sid st" by blast
  define a where "a = attempt_at s i"
  have turn: "at_turnId a = None" "in_session (Some sid) t" using on by (simp_all add: t a_def)
  have ev: "events_ok a (cl_executionId s) (calls i (cl_log s))"
    using ok by (simp add: att_ok_def a_def)
  have wait: "wait_ok (cl_failed s) (a\<lparr>at_turnId := Some sid, at_stdout := t'\<rparr>) (at_wait a)" for t'
    using ok open_task wait_ok_reading [of "cl_failed s" "a\<lparr>at_turnId := Some sid\<rparr>" "at_wait a" t']
    by (simp add: att_ok_def a_def reading_def)
  have rest: "(cl_active s = Some i) = (at_wait a \<noteq> At_over)" "at_terminal a \<Longrightarrow> late_wait (at_wait a)"
    "exits i (cl_log s) = exit_list (at_exited a)"
    using ok by (simp_all add: att_ok_def a_def)
  note init = init_events_ok [OF ev open_task [folded a_def] turn(1), where sid = sid]
  show ?thesis
  proof (cases "cl_executionId s")
    case None
    then have "snd (stdout_goes_on i t s) =
        set_attempt i (\<lambda>a. a\<lparr>at_stdout := Some (task_failed no_execution_id t)\<rparr>)
          (set_attempt i (\<lambda>a. a\<lparr>at_turnId := Some sid\<rparr>) s)"
      using turn(1) by (simp add: t stdout_goes_on_def on_init_def eval a_def)
    moreover have "task_failed no_execution_id t = Ended (Inl (St_thrown no_execution_id))"
      by (simp add: task_failed_def t)
    ultimately show ?thesis
      using len init(1) [of "St_thrown no_execution_id"] wait rest
      by (simp add: local_set att_ok_def stdout_ok_def has_read_def flip: a_def)
  next
    case (Some e)
    then have "snd (stdout_goes_on i t s) = set_attempt i (\<lambda>a. a\<lparr>at_stdout := Some t\<rparr>)
        (set_attempt i (\<lambda>a. a\<lparr>at_turnId := Some sid\<rparr>) s
          \<lparr>cl_log := cl_log s @ [Ca_call i (X_accepted (claude_event (a\<lparr>at_turnId := Some sid\<rparr>) e))]\<rparr>)"
      using turn(1) by (simp add: t stdout_goes_on_def on_init_def eval a_def)
    then show ?thesis
      using len init(2) [OF Some, of "Some t"] wait rest read turn(2) Some
      by (simp add: eval att_ok_def stdout_ok_def flip: a_def)
  qed
qed

lemma chunks_same: "(local i s)\<lparr>lo_chunks := chunks i (cl_log s)\<rparr> = local i s"
  by (simp add: local_def)

lemma stdout_reads_ok:
  assumes len: "i < length (cl_attempts s)" and ok: "att_ok c (local i s)"
  shows "att_ok c (local i (snd (stdout_reads c i r s)))"
proof (cases "at_stdout (attempt_at s i)")
  case None
  then show ?thesis using ok by (simp add: stdout_reads_def eval)
next
  case (Some t)
  show ?thesis
  proof (cases t)
    case (Reading st)
    have open_task: "reading (attempt_at s i)" using Some Reading by (simp add: reading_def)
    have st: "has_read (stream_cfg_of c) (chunks i (cl_log s)) (Reading st)"
        "in_session (at_turnId (attempt_at s i)) (Reading st)"
      using att_okD(5) [OF ok] by (simp_all add: Some Reading stdout_ok_def)
    show ?thesis
    proof (cases r)
      case (Read_chunk bs)
      define s1 where "s1 = s\<lparr>cl_log := cl_log s @ [Ca_chunk i bs]\<rparr>"
      have s1: "i < length (cl_attempts s1)" "attempt_at s1 i = attempt_at s i"
          "chunks i (cl_log s1) = chunks i (cl_log s) @ [bs]"
          "(local i s1)\<lparr>lo_chunks := chunks i (cl_log s)\<rparr> = local i s"
        using len by (simp_all add: s1_def views_append views_one local_def attempt_at_def)
      have "stdout_reads c i r s = stdout_goes_on i (task_chunk (stream_cfg_of c) bs (Reading st)) s1"
        by (simp add: stdout_reads_def eval Some Reading Read_chunk s1_def)
      then show ?thesis
        using stdout_goes_on_ok [OF s1(1), of c "chunks i (cl_log s)"] ok open_task
          has_read_chunk [OF st(1)] chunk_goes_on [OF st(2)]
        by (simp add: s1)
    next
      case Read_end
      then have "stdout_reads c i r s = stdout_goes_on i (task_done (stream_cfg_of c) (Reading st)) s"
        by (simp add: stdout_reads_def eval Some Reading)
      then show ?thesis
        using stdout_goes_on_ok [OF len, of c "chunks i (cl_log s)"] ok open_task
          has_read_done [OF st(1)] done_goes_on [OF st(2)]
        by (simp add: chunks_same)
    next
      case (Read_threw e)
      have "att_ok c ((local i s)\<lparr>lo_chunks := chunks i (cl_log s),
          lo_at := (attempt_at s i)\<lparr>at_stdout := Some (Ended (Inl (St_thrown e)))\<rparr>\<rparr>)"
        using task_set_ok [OF ok, of "Ended (Inl (St_thrown e))" "chunks i (cl_log s)"] open_task
        by (simp add: awaits_accept_def stdout_ok_def has_read_def)
      then show ?thesis
        using len by (simp add: stdout_reads_def eval Some Reading Read_threw task_failed_def chunks_same)
    qed
  qed (use ok Some in \<open>simp_all add: stdout_reads_def eval\<close>)
qed

lemma accepted_settled_ok:
  assumes len: "i < length (cl_attempts s)" and ok: "att_ok c (local i s)"
  shows "att_ok c (local i (snd (accepted_settled c i err s)))"
proof (cases "\<exists>w sid st. at_stdout (attempt_at s i) = Some (Accepting w sid st)")
  case False
  then show ?thesis
    using ok by (cases "at_stdout (attempt_at s i)")
      (auto simp: accepted_settled_def eval split: stream_task.split)
next
  case True
  then obtain w sid st where t: "at_stdout (attempt_at s i) = Some (Accepting w sid st)" by blast
  have open_task: "reading (attempt_at s i)" using t by (simp add: reading_def)
  have st: "has_read (stream_cfg_of c) (chunks i (cl_log s)) (Accepting w sid st)"
      "in_session (at_turnId (attempt_at s i)) (Accepting w sid st)"
    using att_okD(5) [OF ok] by (simp_all add: t stdout_ok_def)
  show ?thesis
  proof (cases err)
    case (Some e)
    have "att_ok c ((local i s)\<lparr>lo_chunks := chunks i (cl_log s),
        lo_at := (attempt_at s i)\<lparr>at_stdout := Some (Ended (Inl (St_thrown e)))\<rparr>\<rparr>)"
      using task_set_ok [OF ok, of "Ended (Inl (St_thrown e))" "chunks i (cl_log s)"] open_task
      by (simp add: awaits_accept_def stdout_ok_def has_read_def)
    then show ?thesis
      using len by (simp add: accepted_settled_def eval t Some task_failed_def chunks_same)
  next
    case None
    define s1 where
      "s1 = set_attempt i (\<lambda>a. a\<lparr>at_accepted := True, at_deadline := Some result_timeout\<rparr>) s"
    have s1: "i < length (cl_attempts s1)" "cl_log s1 = cl_log s"
        "attempt_at s1 i = (attempt_at s i)\<lparr>at_accepted := True, at_deadline := Some result_timeout\<rparr>"
        "local i s1 = (local i s)\<lparr>lo_at := (attempt_at s i)\<lparr>at_accepted := True,
            at_deadline := Some result_timeout\<rparr>\<rparr>"
      using len by (simp_all add: s1_def local_set)
    have "events_ok ((attempt_at s i)\<lparr>at_accepted := True\<rparr>) (cl_executionId s) (calls i (cl_log s))"
      using att_okD(6) [OF ok] t by (auto simp: events_ok_def awaits_accept_def)
    then have "att_ok c (local i s1)" using ok by (simp add: s1 att_ok_def)
    then have "att_ok c ((local i s1)\<lparr>lo_chunks := chunks i (cl_log s)\<rparr>)"
      using chunks_same [of i s1] by (simp only: s1(2))
    moreover have "accepted_settled c i err s =
        stdout_goes_on i (task_accepted (stream_cfg_of c) (Accepting w sid st)) s1"
      by (simp add: accepted_settled_def eval t None s1_def)
    moreover have "reading (attempt_at s1 i)" using open_task by (simp add: s1 reading_def)
    ultimately show ?thesis
      using stdout_goes_on_ok [OF s1(1), of c "chunks i (cl_log s)"] has_read_accepted [OF st]
        accepted_goes_on [OF st(2)]
      by (simp add: s1(2,3))
  qed
qed

lemma wait_ok_exit:
  "wait_ok failed a w \<Longrightarrow> at_exited a = None \<Longrightarrow> wait_ok failed (a\<lparr>at_exited := Some code\<rparr>) w"
  by (induction failed a w rule: wait_ok.induct) auto

lemma child_ok:
  assumes len: "i < length (cl_attempts s)" and ok: "att_ok c (local i s)"
  shows "att_ok c (local i (snd (stderr_settled i err s)))"
    "att_ok c (local i (snd (child_exits i code s)))"
    "att_ok c (local i (snd (deadline_fires c i s)))"
proof -
  show "att_ok c (local i (snd (stderr_settled i err s)))"
    using ok len by (auto simp: stderr_settled_def eval att_ok_def)
  show "att_ok c (local i (snd (deadline_fires c i s)))"
    using quiet_attempt(3) [OF ok] ok len
    by (auto simp: deadline_fires_def eval split: option.split)
  show "att_ok c (local i (snd (child_exits i code s)))"
  proof (cases "at_exited (attempt_at s i)")
    case None
    have w: "wait_ok (cl_failed s) ((attempt_at s i)\<lparr>at_exited := Some code\<rparr>) (at_wait (attempt_at s i))"
      using att_okD(3) [OF ok] None by (rule wait_ok_exit)
    have "events_ok ((attempt_at s i)\<lparr>at_exited := Some code\<rparr>) (cl_executionId s) (calls i (cl_log s))"
      using att_okD(6) [OF ok] None by (auto simp: events_ok_def gave_def)
    then show ?thesis
      using ok len w None
      by (simp add: child_exits_def eval att_ok_def exit_list_def)
  qed (use ok in \<open>simp add: child_exits_def eval\<close>)
qed

end
