(* ===== verification/Claude_Ok.thy ===== *)
theory Claude_Ok
  imports Claude_Inv
begin

text \<open>
  The invariant of the whole Claude backend: the invariants of the attempts, one child at a time,
  and the order in which submissions go. Every step keeps it.
\<close>

section \<open>The invariant\<close>

text \<open>When a child is spawned, every child spawned before has exited.\<close>

definition one_child :: "claude_effect list \<Rightarrow> bool" where
  "one_child l \<longleftrightarrow>
     (\<forall>before i job command later. l = before @ Ca_spawned i job command # later \<longrightarrow>
        (\<forall>j job' command'. Ca_spawned j job' command' \<in> set before \<longrightarrow>
           (\<exists>code. Ca_exited j code \<in> set before)))"

fun is_spawn :: "claude_effect \<Rightarrow> bool" where
  "is_spawn (Ca_spawned _ _ _) \<longleftrightarrow> True"
| "is_spawn _ \<longleftrightarrow> False"

lemma split_before:
  assumes "l @ xs = before @ x # later" "x \<notin> set xs"
  obtains later' where "l = before @ x # later'"
  using assms by (fastforce simp: append_eq_append_conv2 Cons_eq_append_conv append_eq_Cons_conv)

lemma one_child_append:
  assumes "one_child l" "list_all (\<lambda>x. \<not> is_spawn x) xs"
  shows "one_child (l @ xs)"
  unfolding one_child_def
proof (intro allI impI)
  fix before i job command later j job' command'
  assume split: "l @ xs = before @ Ca_spawned i job command # later"
    and j: "Ca_spawned j job' command' \<in> set before"
  have "Ca_spawned i job command \<notin> set xs" using assms(2) by (auto simp: list_all_iff)
  then obtain later' where "l = before @ Ca_spawned i job command # later'"
    using split_before [OF split] by blast
  then show "\<exists>code. Ca_exited j code \<in> set before"
    using assms(1) j unfolding one_child_def by blast
qed

lemma one_child_spawn:
  assumes "one_child l" "\<And>j job' command'. Ca_spawned j job' command' \<in> set l \<Longrightarrow> \<exists>code. Ca_exited j code \<in> set l"
  shows "one_child (l @ [Ca_spawned i job command])"
  unfolding one_child_def
proof (intro allI impI)
  fix before i' job' command' later j job'' command''
  assume split: "l @ [Ca_spawned i job command] = before @ Ca_spawned i' job' command' # later"
    and j: "Ca_spawned j job'' command'' \<in> set before"
  show "\<exists>code. Ca_exited j code \<in> set before"
  proof (cases later rule: rev_cases)
    case Nil
    then show ?thesis using split j assms(2) by auto
  next
    case (snoc ys y)
    then have "l = before @ Ca_spawned i' job' command' # ys" using split by simp
    then show ?thesis using assms(1) j unfolding one_child_def by blast
  qed
qed

definition log_ok :: "nat \<Rightarrow> claude_effect list \<Rightarrow> bool" where
  "log_ok n l \<longleftrightarrow>
     (\<forall>i. n \<le> i \<longrightarrow> calls i l = [] \<and> chunks i l = [] \<and> exits i l = [])
     \<and> (\<forall>i job command. Ca_spawned i job command \<in> set l \<longrightarrow> i < n)
     \<and> one_child l"

definition core_ok :: "claude_cfg \<Rightarrow> claude \<Rightarrow> bool" where
  "core_ok c s \<longleftrightarrow>
     (\<forall>i < length (cl_attempts s). att_ok c (local i s))
     \<and> (\<forall>i. cl_active s = Some i \<longrightarrow> i < length (cl_attempts s))
     \<and> log_ok (length (cl_attempts s)) (cl_log s)"

fun early :: "start_phase \<Rightarrow> bool" where
  "early Not_started \<longleftrightarrow> True"
| "early Start_layout \<longleftrightarrow> True"
| "early (Start_context _) \<longleftrightarrow> True"
| "early (Start_prepare _) \<longleftrightarrow> True"
| "early _ \<longleftrightarrow> False"

definition submitting :: "dispatch_phase option \<Rightarrow> bool" where
  "submitting p = (case p of Some (D_pin _ _ _) \<Rightarrow> True | Some (D_context _ _ _) \<Rightarrow> True | _ \<Rightarrow> False)"

definition shell_ok :: "claude \<Rightarrow> bool" where
  "shell_ok s \<longleftrightarrow>
     (cl_pending s = None \<longleftrightarrow> cl_dispatch s = None)
     \<and> (submitting (cl_dispatch s) \<longrightarrow> cl_active s = None)
     \<and> (early (cl_start s) \<longrightarrow> cl_preparation s = None \<and> cl_attempts s = [])"

definition claude_ok :: "claude_cfg \<Rightarrow> claude \<Rightarrow> bool" where
  "claude_ok c s \<longleftrightarrow> core_ok c s \<and> shell_ok s"

section \<open>Methods of an attempt\<close>

lemma about_no_spawn: "list_all (about i) xs \<Longrightarrow> list_all (\<lambda>x. \<not> is_spawn x) xs"
proof -
  have "about i x \<Longrightarrow> \<not> is_spawn x" for x by (cases x) auto
  then show "list_all (about i) xs \<Longrightarrow> list_all (\<lambda>x. \<not> is_spawn x) xs" by (simp add: list_all_iff)
qed

lemma frame_local:
  assumes "frame i s s'" "j \<noteq> i"
  shows "local j s' = (local j s)\<lparr>lo_failed := cl_failed s'\<rparr>"
proof -
  obtain xs where "cl_log s' = cl_log s @ xs" "list_all (about i) xs"
    using assms(1) by (auto simp: frame_def)
  then show ?thesis
    using assms views_about [of i xs j] by (auto simp: local_def frame_def views_append)
qed

lemma local_exec: "(local j s)\<lparr>lo_failed := b, lo_exec := cl_executionId s\<rparr> = (local j s)\<lparr>lo_failed := b\<rparr>"
  by (simp add: local_def)

lemma frame_ok:
  assumes ok: "claude_ok c s" and i: "i < length (cl_attempts s)" and fr: "frame i s s'"
    and new: "att_ok c (local i s')"
  shows "claude_ok c s'"
proof -
  have len: "length (cl_attempts s') = length (cl_attempts s)"
    and act: "cl_active s' = cl_active s \<or> cl_active s = Some i \<and> cl_active s' = None"
    using fr by (auto simp: frame_def)
  obtain xs where xs: "cl_log s' = cl_log s @ xs" "list_all (about i) xs" using fr by (auto simp: frame_def)
  have "att_ok c (local j s')" if "j < length (cl_attempts s')" for j
  proof (cases "j = i")
    case False
    have "att_ok c ((local j s)\<lparr>lo_failed := cl_failed s', lo_exec := lo_exec (local j s)\<rparr>)"
      using ok that len fr by (intro att_ok_others) (auto simp: claude_ok_def core_ok_def frame_def)
    then show ?thesis using frame_local [OF fr False] by (simp add: local_exec)
  qed (use new in simp)
  moreover have "log_ok (length (cl_attempts s')) (cl_log s')"
    using ok xs i views_about [OF xs(2)] one_child_append [OF _ about_no_spawn [OF xs(2)]]
    unfolding claude_ok_def core_ok_def log_ok_def len
    by (auto simp: views_append list_all_iff) fastforce
  ultimately show ?thesis
    using ok act len fr by (auto simp: claude_ok_def core_ok_def shell_ok_def frame_def)
qed

section \<open>Methods beside the attempts\<close>

fun neutral :: "claude_effect \<Rightarrow> bool" where
  "neutral (Ca_call _ _) \<longleftrightarrow> False"
| "neutral (Ca_chunk _ _) \<longleftrightarrow> False"
| "neutral (Ca_exited _ _) \<longleftrightarrow> False"
| "neutral (Ca_spawned _ _ _) \<longleftrightarrow> False"
| "neutral _ \<longleftrightarrow> True"

lemma views_neutral:
  assumes "list_all neutral xs"
  shows "calls i xs = []" "chunks i xs = []" "exits i xs = []" "list_all (\<lambda>x. \<not> is_spawn x) xs"
proof -
  have "call_of i x = [] \<and> chunk_of i x = [] \<and> exit_of i x = [] \<and> \<not> is_spawn x" if "x \<in> set xs" for x
    using assms that by (cases x) (auto simp: list_all_iff)
  then show "calls i xs = []" "chunks i xs = []" "exits i xs = []" "list_all (\<lambda>x. \<not> is_spawn x) xs"
    by (simp_all add: calls_def chunks_def exits_def list_all_iff)
qed

definition aside :: "claude \<Rightarrow> claude \<Rightarrow> bool" where
  "aside s s' \<longleftrightarrow>
     cl_attempts s' = cl_attempts s \<and> cl_active s' = cl_active s \<and> (cl_failed s \<longrightarrow> cl_failed s')
     \<and> (cl_executionId s' = cl_executionId s \<or> cl_executionId s' = None)
     \<and> (\<exists>xs. cl_log s' = cl_log s @ xs \<and> list_all neutral xs)"

lemma log_ok_neutral: "log_ok n l \<Longrightarrow> list_all neutral xs \<Longrightarrow> log_ok n (l @ xs)"
  using views_neutral [of xs] one_child_append [of l xs]
  unfolding log_ok_def by (auto simp: views_append list_all_iff) blast+

lemma aside_core:
  assumes "core_ok c s" "aside s s'"
  shows "core_ok c s'"
proof -
  obtain xs where xs: "cl_log s' = cl_log s @ xs" "list_all neutral xs" using assms(2) by (auto simp: aside_def)
  have "local i s' = (local i s)\<lparr>lo_failed := cl_failed s', lo_exec := cl_executionId s'\<rparr>" for i
    using assms(2) xs views_neutral [OF xs(2)] by (simp add: local_def aside_def attempt_at_def views_append)
  moreover have "att_ok c ((local i s)\<lparr>lo_failed := cl_failed s', lo_exec := cl_executionId s'\<rparr>)"
    if "i < length (cl_attempts s)" for i
    using assms that by (intro att_ok_others) (auto simp: core_ok_def aside_def)
  ultimately show ?thesis
    using assms log_ok_neutral [OF _ xs(2)] by (auto simp: core_ok_def aside_def xs(1))
qed

text \<open>With no attempt there is nothing to keep but the log.\<close>

lemma core_empty: "cl_attempts s = [] \<Longrightarrow> core_ok c s \<longleftrightarrow> cl_active s = None \<and> log_ok 0 (cl_log s)"
  by (auto simp: core_ok_def)

text \<open>A method that touches the database and the clock only.\<close>

definition db_only :: "claude \<Rightarrow> claude \<Rightarrow> bool" where
  "db_only s s' \<longleftrightarrow> (\<exists>db n. s' = s\<lparr>cl_db := db, cl_tick := n\<rparr>)"

lemma db_onlyI: "db_only s (s\<lparr>cl_db := db, cl_tick := n\<rparr>)" "db_only s (s\<lparr>cl_tick := n\<rparr>)" "db_only s s"
proof -
  show "db_only s (s\<lparr>cl_db := db, cl_tick := n\<rparr>)" unfolding db_only_def by blast
  show "db_only s (s\<lparr>cl_tick := n\<rparr>)" unfolding db_only_def by (intro exI [of _ "cl_db s"] exI [of _ n]) simp
  show "db_only s s" unfolding db_only_def by (intro exI [of _ "cl_db s"] exI [of _ "cl_tick s"]) simp
qed

interpretation db_call: stretch_relation db_only
proof unfold_locales
  fix d e f :: claude
  show "db_only d d" by (rule db_onlyI)
  assume "db_only d e" "db_only e f"
  then obtain db n db' n' where "e = d\<lparr>cl_db := db, cl_tick := n\<rparr>" "f = e\<lparr>cl_db := db', cl_tick := n'\<rparr>"
    unfolding db_only_def by blast
  then have "f = d\<lparr>cl_db := db', cl_tick := n'\<rparr>" by simp
  then show "db_only d f" by (simp add: db_onlyI)
qed

lemma anchor_db_only: "keeps db_only (ensureSessionAnchor c la)"
proof -
  have tick: "keeps db_only tickC" "\<And>f. keeps db_only (storeC c f)"
    unfolding keeps_def tickC_def storeC_def Let_def by (simp_all add: db_onlyI)
  show ?thesis
    unfolding ensureSessionAnchor_def by (intro db_call.keeps_flow tick)
qed

lemma start_rejects_ok:
  assumes "claude_ok c s" "db_only s s'"
  shows "claude_ok c (snd (start_rejects e s'))"
proof -
  have "aside s (snd (start_rejects e s'))"
    using assms(2) by (auto simp: start_rejects_def eval aside_def db_only_def)
  then show ?thesis
    using assms aside_core by (auto simp: claude_ok_def shell_ok_def start_rejects_def eval db_only_def)
qed

lemma start_ok:
  assumes ok: "claude_ok c s"
  shows "claude_ok c (snd (start_claude s))"
    "cl_start s = Start_layout \<Longrightarrow> claude_ok c (snd (layout_settled c r s))"
    "cl_start s = Start_context la \<Longrightarrow> claude_ok c (snd (start_context_settled la r' s))"
    "cl_start s = Start_ready \<Longrightarrow> claude_ok c (snd (ready_settled err s))"
proof -
  note rej = start_rejects_ok [OF ok db_onlyI(3)]
  have beside: "claude_ok c s'" if "aside s s'" "shell_ok s'" for s'
    using ok that aside_core by (auto simp: claude_ok_def)
  have shell: "shell_ok s" using ok by (simp add: claude_ok_def)
  show "claude_ok c (snd (start_claude s))"
    using ok shell by (auto simp: start_claude_def eval throw_def aside_def shell_ok_def intro!: beside)
  show "claude_ok c (snd (layout_settled c r s))" if "cl_start s = Start_layout"
    using rej shell that
    by (auto simp: layout_settled_def eval aside_def shell_ok_def split: sum.split intro!: beside)
  show "claude_ok c (snd (start_context_settled la r' s))" if "cl_start s = Start_context la"
    using rej shell that
    by (auto simp: start_context_settled_def context_loaded_def eval aside_def shell_ok_def
        split: sum.split intro!: beside)
  show "claude_ok c (snd (ready_settled err s))" if "cl_start s = Start_ready"
    using shell that
    by (auto simp: ready_settled_def start_rejects_def eval aside_def shell_ok_def
        split: option.split intro!: beside)
qed

lemma prepared_ok:
  assumes ok: "claude_ok c s" and phase: "cl_start s = Start_prepare la"
  shows "claude_ok c (snd (prepared c la r s))"
proof (cases r)
  case (Inl e)
  then show ?thesis using start_rejects_ok [OF ok db_onlyI(3)] by (simp add: prepared_def)
next
  case (Inr p)
  obtain x s1 where x: "ensureSessionAnchor c la s = (x, s1)" by (cases "ensureSessionAnchor c la s")
  then have s1: "db_only s s1" using keepsD [OF anchor_db_only, of s c la] by simp
  have empty: "cl_attempts s = []" using ok phase by (simp add: claude_ok_def shell_ok_def)
  have base: "cl_active s = None" "log_ok 0 (cl_log s)" "shell_ok s"
    using ok core_empty [OF empty] by (simp_all add: claude_ok_def)
  show ?thesis
  proof (cases x)
    case (Inl e)
    then show ?thesis
      using start_rejects_ok [OF ok s1] by (simp add: prepared_def Inr tryA_def thenA_def bindA_def x)
  next
    case (Inr u)
    have log: "log_ok 0 (cl_log s @ [Ca_ready e])" for e using log_ok_neutral [OF base(2)] by simp
    have empty': "cl_attempts s1 = []" "cl_log s1 = cl_log s" "cl_active s1 = None"
        "cl_pending s1 = cl_pending s" "cl_dispatch s1 = cl_dispatch s"
      using s1 empty base by (auto simp: db_only_def)
    have "prepared c la r s = tryA (\<lambda>_. (Inr (), (snd (thenA (modify (\<lambda>s. s\<lparr>cl_layout := Some la,
          cl_preparation := Some p, cl_executionId := Some (new_execution_id la (ca_uuid c (cl_tick s1))),
          cl_started := True, cl_start := Start_ready\<rparr>))
          (emitC (Ca_ready (new_execution_id la (ca_uuid c (cl_tick s1))))) (s1\<lparr>cl_tick := Suc (cl_tick s1)\<rparr>)))))
        start_rejects s"
      using x Inr \<open>r = Inr p\<close>
      by (simp add: prepared_def tryA_def thenA_def bindA_def tickC_def eval)
    then show ?thesis
      using empty' log base(3)
      by (simp add: tryA_def eval claude_ok_def core_empty shell_ok_def)
  qed
qed

section \<open>Submissions\<close>

lemma beside_ok: "claude_ok c s \<Longrightarrow> aside s s' \<Longrightarrow> shell_ok s' \<Longrightarrow> claude_ok c s'"
  using aside_core by (auto simp: claude_ok_def)

lemma unaffected:
  assumes "claude_ok c s" "aside s t" "cl_pending t = cl_pending s" "cl_dispatch t = cl_dispatch s"
    "cl_start t = cl_start s" "cl_preparation t = cl_preparation s"
  shows "claude_ok c t"
  using assms by (intro beside_ok [OF assms(1,2)]) (auto simp: claude_ok_def shell_ok_def aside_def)

lemma dispatch_claude_ok: "claude_ok c s \<Longrightarrow> claude_ok c (snd (dispatch_claude c job s))"
  by (rule beside_ok, assumption)
    (auto simp: dispatch_claude_def dispatchInternal_def not_sent_def dispatch_to_def eval aside_def
      claude_ok_def shell_ok_def submitting_def split: option.split)

lemma pin_settled_ok:
  assumes "claude_ok c s" "cl_dispatch s = Some (D_pin job p l)"
  shows "claude_ok c (snd (pin_settled c job p l err s))"
  using assms
  by (intro beside_ok [OF assms(1)])
    (auto simp: pin_settled_def not_sent_def dispatch_to_def eval aside_def claude_ok_def shell_ok_def
      submitting_def split: option.split)

lemma dispatch_returns_ok:
  assumes "claude_ok c s"
  shows "claude_ok c (snd (dispatch_returns job r s))"
  using assms
  by (intro beside_ok [OF assms])
    (auto simp: dispatch_returns_def eval aside_def claude_ok_def shell_ok_def submitting_def)

lemma exit_logged: "exits i l = [code] \<Longrightarrow> Ca_exited i code \<in> set l"
proof (induction l)
  case (Cons x l)
  then show ?case by (cases x) (auto simp: views_one split: if_splits)
qed (simp add: views_one)

text \<open>While no attempt is active, and the backend has not failed, every child has exited.\<close>

lemma all_exited:
  assumes "core_ok c s" "cl_active s = None" "\<not> cl_failed s" "Ca_spawned j job command \<in> set (cl_log s)"
  shows "\<exists>code. Ca_exited j code \<in> set (cl_log s)"
proof -
  have "j < length (cl_attempts s)" using assms(1,4) unfolding core_ok_def log_ok_def by blast
  then have ok: "att_ok c (local j s)" using assms(1) by (simp add: core_ok_def)
  have "at_wait (attempt_at s j) = At_over" using att_okD(1) [OF ok] assms(2) by simp
  then have "at_exited (attempt_at s j) \<noteq> None" using att_okD(3) [OF ok] assms(3) by simp
  then obtain code where "exits j (cl_log s) = [code]" using att_okD(4) [OF ok] by (auto simp: exit_list_def)
  then show ?thesis using exit_logged by blast
qed

text \<open>The spawn itself.\<close>

lemma log_ok_spawn:
  assumes "log_ok n l" "\<And>j job' command'. Ca_spawned j job' command' \<in> set l \<Longrightarrow> \<exists>code. Ca_exited j code \<in> set l"
  shows "log_ok (Suc n) (l @ [Ca_spawned n job command])"
proof -
  have "one_child (l @ [Ca_spawned n job command])"
    using assms by (intro one_child_spawn) (simp_all add: log_ok_def)
  moreover have "j < Suc n" if "Ca_spawned j job' command' \<in> set (l @ [Ca_spawned n job command])" for j job' command'
  proof (cases "Ca_spawned j job' command' \<in> set l")
    case True
    then have "j < n" using assms(1) unfolding log_ok_def by blast
    then show ?thesis by simp
  next
    case False
    then show ?thesis using that by simp
  qed
  ultimately show ?thesis
    using assms(1) unfolding log_ok_def by (auto simp: views_append views_one)
qed

definition spawned :: "stored_job \<Rightarrow> int option \<Rightarrow> jstring list \<Rightarrow> nat \<Rightarrow> claude \<Rightarrow> claude" where
  "spawned job pid command n s = s\<lparr>cl_tick := n, cl_attempts := cl_attempts s @ [new_attempt job pid],
     cl_active := Some (length (cl_attempts s)),
     cl_log := cl_log s @ [Ca_spawned (length (cl_attempts s)) job command],
     cl_dispatch := Some (D_settled job Submitted)\<rparr>"

lemma spawned_ok:
  assumes ok: "claude_ok c s" and phase: "submitting (cl_dispatch s)" and live: "\<not> cl_failed s"
    and prep: "cl_preparation s \<noteq> None"
  shows "claude_ok c (spawned job pid command n s)"
proof -
  let ?n = "length (cl_attempts s)"
  let ?t = "spawned job pid command n s"
  have core: "core_ok c s" and shell: "shell_ok s" using ok by (simp_all add: claude_ok_def)
  have idle: "cl_active s = None" using shell phase by (simp add: shell_ok_def)
  have log: "log_ok ?n (cl_log s)" using core by (simp add: core_ok_def)
  have log': "log_ok (Suc ?n) (cl_log ?t)"
    using log_ok_spawn [OF log all_exited [OF core idle live]] by (simp add: spawned_def)
  have "att_ok c (local j ?t)" if "j < Suc ?n" for j
  proof (cases "j = ?n")
    case True
    have "calls ?n (cl_log s) = []" "chunks ?n (cl_log s) = []" "exits ?n (cl_log s) = []"
      using log by (simp_all add: log_ok_def)
    then show ?thesis
      by (simp add: True spawned_def att_ok_def attempt_at_def new_attempt_def views_append views_one
          exit_list_def stdout_ok_def events_ok_def accepted_first_Nil awaits_accept_def)
  next
    case False
    then have "local j ?t = local j s"
      using that idle by (simp add: spawned_def local_def attempt_at_def nth_append views_append views_one)
    then show ?thesis using core False that by (simp add: core_ok_def)
  qed
  then have "core_ok c ?t" using log' by (simp add: core_ok_def spawned_def)
  moreover have "shell_ok ?t"
    using shell phase prep
    by (cases "cl_dispatch s") (simp_all add: shell_ok_def submitting_def spawned_def)
  ultimately show ?thesis by (simp add: claude_ok_def)
qed

lemma not_sent_aside:
  assumes "claude_ok c s" "submitting (cl_dispatch s)" "aside s t" "cl_pending t = cl_pending s"
    "cl_start t = cl_start s" "cl_preparation t = cl_preparation s"
  shows "claude_ok c (snd (not_sent job t))"
proof (rule beside_ok [OF assms(1)])
  have "cl_dispatch s \<noteq> None" using assms(2) by (cases "cl_dispatch s") (simp_all add: submitting_def)
  moreover have "shell_ok s" using assms(1) by (simp add: claude_ok_def)
  ultimately show "shell_ok (snd (not_sent job t))"
    using assms(3-) by (simp add: not_sent_def dispatch_to_def eval shell_ok_def aside_def submitting_def)
  show "aside s (snd (not_sent job t))"
    using assms(3) by (simp add: not_sent_def dispatch_to_def eval aside_def)
qed

lemma not_sent_ok:
  assumes "claude_ok c s" "submitting (cl_dispatch s)"
  shows "claude_ok c (snd (not_sent job s))" "claude_ok c (snd (not_sent job (s\<lparr>cl_lastFailure := m\<rparr>)))"
    "claude_ok c (snd (not_sent job (s\<lparr>cl_lastFailure := m, cl_tick := n\<rparr>)))"
    "claude_ok c (snd (not_sent job (s\<lparr>cl_tick := n, cl_lastFailure := m\<rparr>)))"
    "claude_ok c (snd (not_sent job (s\<lparr>cl_lastContextFailure := m', cl_lastFailure := m\<rparr>)))"
  by (rule not_sent_aside [OF assms]; simp add: aside_def)+

lemma spawnC_ok:
  assumes ok: "claude_ok c s" "submitting (cl_dispatch s)" and wanted: "still_wanted c p l s"
  shows "claude_ok c (snd (spawnC c job p prompt s))"
proof -
  have live: "\<not> cl_failed s" "cl_preparation s \<noteq> None"
    using wanted by (simp_all add: still_wanted_def claude_ready_def)
  have "claude_ok c (snd (thenA (modify (\<lambda>s. s\<lparr>cl_attempts := cl_attempts s @ [new_attempt job pid],
           cl_active := Some (length (cl_attempts s))\<rparr>))
      (thenA (emitC (Ca_spawned (length (cl_attempts s)) job command))
        (dispatch_to (D_settled job Submitted))) (s\<lparr>cl_tick := n\<rparr>)))" for pid command n
    using spawned_ok [OF ok live, of job pid command n]
    by (simp add: eval dispatch_to_def spawned_def)
  then show ?thesis
    using not_sent_ok [OF ok]
    by (simp add: spawnC_def eval tickC_def split: sum.split)
qed

lemma context_settled_ok:
  assumes ok: "claude_ok c s" and phase: "cl_dispatch s = Some (D_context job p l)"
  shows "claude_ok c (snd (context_settled c job p l r s))"
proof -
  have sub: "submitting (cl_dispatch s)" by (simp add: phase submitting_def)
  have go: "still_wanted c p l t \<Longrightarrow> claude_ok c (snd (spawnC c job p prompt t))"
      "claude_ok c (snd (not_sent job t))"
    if "claude_ok c t" "cl_dispatch t = cl_dispatch s" for t prompt
    using that sub spawnC_ok [of c t p l job prompt] not_sent_ok(1) [of c t job] by simp_all
  have loaded: "claude_ok c (snd (context_loaded g s))" "fst (context_loaded g s) = Inr ()"
    "cl_dispatch (snd (context_loaded g s)) = cl_dispatch s" for g
    using unaffected [OF ok] by (simp_all add: context_loaded_def eval aside_def)
  show ?thesis
  proof (cases "ca_assistantContext c")
    case False
    then show ?thesis using go [OF ok] by (simp add: context_settled_def eval)
  next
    case True
    then show ?thesis
      using go [OF loaded(1,3)] loaded(2) not_sent_ok(5) [OF ok sub]
      by (cases r) (auto simp: context_settled_def eval split: prod.split)
  qed
qed

section \<open>Cancellation and stop\<close>

lemma local_log:
  "about i x \<Longrightarrow> call_of i x = [] \<Longrightarrow> chunk_of i x = [] \<Longrightarrow> exit_of i x = [] \<Longrightarrow>
     local i (snd (emitC x s)) = local i s"
  by (simp add: eval local_def attempt_at_def views_append)

text \<open>A step of an attempt that changes nothing of it but in the log.\<close>

lemma attempt_step_ok:
  assumes ok: "claude_ok c s" and i: "i < length (cl_attempts s)" and fr: "keeps (frame i) m"
    and new: "att_ok c (local i s) \<Longrightarrow> att_ok c (local i (snd (m s)))"
  shows "claude_ok c (snd (m s))"
proof (rule frame_ok [OF ok i])
  show "frame i s (snd (m s))" using fr by (simp add: keeps_def)
  show "att_ok c (local i (snd (m s)))" using new ok i by (simp add: claude_ok_def core_ok_def)
qed

lemma signal_ok:
  "claude_ok c s \<Longrightarrow> i < length (cl_attempts s) \<Longrightarrow> claude_ok c (snd (signalC c i sg s))"
  by (rule attempt_step_ok [OF _ _ frame_signal]) (simp_all add: signal_eval)

lemma cancel_claude_ok:
  assumes ok: "claude_ok c s"
  shows "claude_ok c (snd (cancel_claude c job s))"
proof -
  have quiet: "claude_ok c (snd (emitC (Ca_cancel job r) t))" if "claude_ok c t" for r t
    using unaffected [OF that] by (simp add: eval aside_def)
  have pending: "claude_ok c (s\<lparr>cl_pending := Some q\<rparr>)" if "cl_pending s = Some q'" for q q'
  proof (rule beside_ok [OF ok])
    show "shell_ok (s\<lparr>cl_pending := Some q\<rparr>)" using ok that by (auto simp: claude_ok_def shell_ok_def)
  qed (simp add: aside_def)
  have active: "claude_ok c (snd (thenA (upd_attempt i (\<lambda>a. a\<lparr>at_cancelRequested := True\<rparr>))
      (thenA (signalC c i SIGTERM) (emitC (Ca_cancel job r))) s))" if "cl_active s = Some i" for i r
  proof -
    have i: "i < length (cl_attempts s)" using ok that by (simp add: claude_ok_def core_ok_def)
    let ?s = "snd (upd_attempt i (\<lambda>a. a\<lparr>at_cancelRequested := True\<rparr>) s)"
    have "claude_ok c ?s"
    proof (rule attempt_step_ok [OF ok i frame_primitives(1)])
      assume "att_ok c (local i s)"
      from quiet_attempt(2) [OF this, of True] show "att_ok c (local i ?s)" using i by (simp add: eval)
    qed
    moreover have "i < length (cl_attempts ?s)" using i by (simp add: eval)
    ultimately have "claude_ok c (snd (signalC c i SIGTERM ?s))" by (rule signal_ok)
    then show ?thesis using quiet by (simp add: eval)
  qed
  show ?thesis
    using quiet quiet [OF pending] ok active
    by (auto simp: cancel_claude_def eval Let_def split: option.split)
qed

lemma stop_ends_ok: "claude_ok c s \<Longrightarrow> claude_ok c (snd (stop_ends s))"
  by (rule beside_ok, assumption)
    (auto simp: stop_ends_def eval aside_def claude_ok_def shell_ok_def)

lemma stopping_ok:
  assumes ok: "claude_ok c s"
  shows "claude_ok c (snd (stop_claude s))"
proof -
  have "claude_ok c (s\<lparr>cl_stopping := True, cl_stop := Stop_start\<rparr>)"
    using unaffected [OF ok] by (simp add: aside_def)
  then show ?thesis using ok by (simp add: stop_claude_def eval)
qed

lemma store_ok: "claude_ok c s \<Longrightarrow> claude_ok c (s\<lparr>cl_db := db\<rparr>)"
  by (erule unaffected) (simp_all add: aside_def)

lemma stop_goes_on_ok:
  assumes ok: "claude_ok c s"
  shows "claude_ok c (snd (stop_goes_on c s))"
proof -
  have phase: "claude_ok c (t\<lparr>cl_stop := p\<rparr>)" if "claude_ok c t" for p t
    using unaffected [OF that] by (simp add: aside_def)
  have released: "claude_ok c (snd (release_active i s))"
    if "at_wait (attempt_at s i) = At_over" for i
  proof (cases "cl_active s = Some i")
    case True
    then have "i < length (cl_attempts s)" using ok by (simp add: claude_ok_def core_ok_def)
    then have "att_ok c (local i s)" using ok by (simp add: claude_ok_def core_ok_def)
    then show ?thesis using att_okD(1) True that by fastforce
  qed (use ok in \<open>simp add: eval\<close>)
  have signal: "claude_ok c (snd (thenA (signalC c i SIGTERM)
      (thenA (if at_wait (attempt_at s i) = At_scheduled then run_attempt c i else ret ())
        (modify (\<lambda>s. s\<lparr>cl_stop := Stop_attempt i\<rparr>))) s))" if "cl_active s = Some i" for i
  proof -
    have i: "i < length (cl_attempts s)" using ok that by (simp add: claude_ok_def core_ok_def)
    let ?s = "snd (signalC c i SIGTERM s)"
    have s: "claude_ok c ?s" "i < length (cl_attempts ?s)" "attempt_at ?s i = attempt_at s i"
      using signal_ok [OF ok i] i by (simp_all add: signal_eval)
    have "claude_ok c (snd (run_attempt c i ?s))" if "at_wait (attempt_at s i) = At_scheduled"
      using attempt_step_ok [OF s(1,2) frame_run] run_attempt_ok [OF s(2)] that by (simp add: s(3))
    moreover have "fst (run_attempt c i ?s) = Inr ()"
      by (simp add: run_attempt_def eval close_eval)
    ultimately show ?thesis using phase s(1) by (simp add: eval)
  qed
  show ?thesis
    using ok phase stop_ends_ok [OF ok] stop_ends_ok [OF released] signal
    by (auto simp: stop_goes_on_def eval split: stop_phase.split option.split)
qed

section \<open>Every step\<close>

lemma run_resumes_ok:
  assumes "claude_ok c s"
  shows "claude_ok c (snd (run_resumes c s i ev s))"
  using attempt_step_ok [OF assms _ frame_resumes] resumes_ok assms
  by (simp add: run_resumes_def at_attempt_def eval)

lemma child_step_ok:
  assumes "claude_ok c s"
  shows "claude_ok c (snd (at_attempt s i (stdout_reads c i r) s))"
    "claude_ok c (snd (at_attempt s i (stderr_settled i err) s))"
    "claude_ok c (snd (at_attempt s i (child_exits i code) s))"
    "claude_ok c (snd (at_attempt s i (accepted_settled c i err) s))"
    "claude_ok c (snd (at_attempt s i (deadline_fires c i) s))"
  using attempt_step_ok [OF assms _ frame_child(1)] attempt_step_ok [OF assms _ frame_child(2)]
    attempt_step_ok [OF assms _ frame_child(3)] attempt_step_ok [OF assms _ frame_child(4)]
    attempt_step_ok [OF assms _ frame_child(5)] stdout_reads_ok child_ok accepted_settled_ok assms
  by (simp_all add: at_attempt_def eval)

lemma claude_happens_ok: "claude_ok c s \<Longrightarrow> claude_ok c (claude_happens c ev s)"
proof (cases ev)
  case (K_layout r)
  assume "claude_ok c s"
  then show ?thesis using start_ok(2) K_layout
    by (auto simp: claude_happens_def runC_def eval split: start_phase.split)
next
  case (K_start_context r)
  assume "claude_ok c s"
  then show ?thesis using start_ok(3) K_start_context
    by (auto simp: claude_happens_def runC_def eval split: start_phase.split)
next
  case (K_prepared r)
  assume "claude_ok c s"
  then show ?thesis using prepared_ok K_prepared
    by (auto simp: claude_happens_def runC_def eval split: start_phase.split)
next
  case (K_ready err)
  assume "claude_ok c s"
  then show ?thesis using start_ok(4) K_ready
    by (auto simp: claude_happens_def runC_def eval split: start_phase.split)
next
  case K_stop
  assume "claude_ok c s"
  then show ?thesis using stopping_ok K_stop by (simp add: claude_happens_def runC_def)
next
  case (K_store cfg now x)
  assume "claude_ok c s"
  then show ?thesis using store_ok K_store by (simp add: claude_happens_def runC_def eval)
qed (auto simp: claude_happens_def runC_def eval start_ok(1) dispatch_claude_ok pin_settled_ok
    context_settled_ok dispatch_returns_ok cancel_claude_ok stop_goes_on_ok run_resumes_ok child_step_ok
    split: option.split dispatch_phase.split)

lemma new_claude_ok: "claude_ok c (new_claude db)"
  by (simp add: claude_ok_def core_ok_def log_ok_def one_child_def shell_ok_def new_claude_def
      submitting_def views_one)

end
