(* ===== verification/Claude_End.thy ===== *)
theory Claude_End
  imports Claude_Ok
begin

text \<open>
  How attempts of the Claude backend end: every resumption of \<open>runAttempt\<close> brings its attempt
  closer to the end, and while it waits for the child a deadline is armed or has fired.
\<close>

section \<open>The way to the end\<close>

fun rank :: "attempt_wait \<Rightarrow> nat" where
  "rank At_over = 0"
| "rank (At_last_handler _ _) = 1"
| "rank (At_closing (Cl_drain _) (Then_failed _)) = 2"
| "rank (At_closing Cl_kill (Then_failed _)) = 3"
| "rank (At_closing Cl_term (Then_failed _)) = 4"
| "rank At_handler = 5"
| "rank (At_closing (Cl_drain _) _) = 6"
| "rank (At_closing Cl_kill _) = 7"
| "rank (At_closing Cl_term _) = 8"
| "rank (At_confirm _ _) = 9"
| "rank At_output = 10"
| "rank At_input = 11"
| "rank At_scheduled = 12"

lemma rank_zero: "rank w = 0 \<longleftrightarrow> w = At_over"
  by (induction w rule: rank.induct) simp_all

lemma rank_closing: "rank (At_closing Cl_term k) \<le> 8" "rank (At_closing Cl_kill k) < rank (At_closing Cl_term k)"
  "rank (At_closing (Cl_drain e) k) < rank (At_closing Cl_kill k)"
  by (cases k; simp)+

lemma rank_bound: "rank w \<le> 12"
  by (induction w rule: rank.induct) simp_all

definition timed :: "attempt \<Rightarrow> bool" where
  "timed a \<longleftrightarrow> at_deadline a \<noteq> None \<or> at_deadlineReason a \<noteq> None"

lemma timed_cong [simp]:
  "timed (a\<lparr>at_stdout := x\<rparr>) = timed a" "timed (a\<lparr>at_stderr := io\<rparr>) = timed a"
  "timed (a\<lparr>at_exited := code\<rparr>) = timed a" "timed (a\<lparr>at_turnId := turn\<rparr>) = timed a"
  "timed (a\<lparr>at_wait := w\<rparr>) = timed a" "timed (a\<lparr>at_cancelRequested := b\<rparr>) = timed a"
  "timed (a\<lparr>at_accepted := b\<rparr>) = timed a" "timed (a\<lparr>at_deadline := Some r\<rparr>)"
  "timed (a\<lparr>at_deadline := d, at_deadlineReason := Some r\<rparr>)"
  by (simp_all add: timed_def)

definition waits :: "attempt_wait \<Rightarrow> bool" where
  "waits w \<longleftrightarrow> w = At_input \<or> w = At_output"

lemma waits_rank: "waits w \<longleftrightarrow> rank w = 10 \<or> rank w = 11"
  unfolding waits_def by (induction w rule: rank.induct) simp_all

definition gets_on :: "attempt \<Rightarrow> attempt \<Rightarrow> bool" where
  "gets_on a b \<longleftrightarrow>
     rank (at_wait b) \<le> rank (at_wait a)
     \<and> (waits (at_wait b) \<longrightarrow> timed b \<or> waits (at_wait a) \<and> (timed a \<longrightarrow> timed b))"

lemma gets_on_refl [simp]: "gets_on a a"
  by (simp add: gets_on_def)

section \<open>What the methods do to the wait\<close>

lemma close_att: "i < length (cl_attempts s) \<Longrightarrow>
    attempt_at (snd (closeProcess c i k s)) i = (attempt_at s i)\<lparr>at_wait := At_closing Cl_term k\<rparr>"
  using close_eval(2) [of i s c k] local_sel(1) [of i "snd (closeProcess c i k s)"] by simp

lemma failed_att: "i < length (cl_attempts s) \<Longrightarrow>
    attempt_at (snd (failClosed c i reason s)) i
    = (attempt_at s i)\<lparr>at_wait := At_closing Cl_term (Then_failed reason)\<rparr>"
  using failed_eval(2) [of i s c reason] local_sel(1) [of i "snd (failClosed c i reason s)"] by simp

lemma failed_over_att: "i < length (cl_attempts s) \<Longrightarrow>
    attempt_at (snd (failed_over i fs reason s)) i = (attempt_at s i)\<lparr>at_wait := At_over\<rparr>"
  using failed_over_eval(2) [of i s fs reason] local_sel(1) [of i "snd (failed_over i fs reason s)"] by simp

lemma finish_rank: "i < length (cl_attempts s) \<Longrightarrow>
    rank (at_wait (attempt_at (snd (finish c i failing ev s)) i)) \<le> 5"
  by (auto simp: finish_def eval failed_att split: option.split)

lemma finishes_rank:
  assumes "i < length (cl_attempts s)"
  shows "rank (at_wait (attempt_at (snd (finishResult c i t s)) i)) \<le> 5"
    "rank (at_wait (attempt_at (snd (finishFailed c i e s)) i)) \<le> 5"
    "rank (at_wait (attempt_at (snd (finishCancelled c i s)) i)) \<le> 5"
    "rank (at_wait (attempt_at (snd (finishDisconnected c i e s)) i)) \<le> 5"
  unfolding finishResult_def finishFailed_def finishCancelled_def finishDisconnected_def
  by (simp_all add: finish_rank assms)

lemma report_rank: "i < length (cl_attempts s) \<Longrightarrow>
    rank (at_wait (attempt_at (snd (report_failed i fs reason s)) i)) \<le> 1"
  by (auto simp: report_failed_def eval failed_over_att split: option.split)

lemma caught_rank: "i < length (cl_attempts s) \<Longrightarrow>
    rank (at_wait (attempt_at (snd (caught c i e s)) i)) \<le> 8"
  by (auto simp: caught_def eval close_att failed_att)

lemma run_rank:
  "i < length (cl_attempts s) \<Longrightarrow>
     rank (at_wait (attempt_at (snd (run_attempt c i s)) i)) \<le> 8
     \<or> at_wait (attempt_at (snd (run_attempt c i s)) i) = At_input \<and> timed (attempt_at (snd (run_attempt c i s)) i)"
  by (auto simp: run_attempt_def eval close_att)

lemma closed_rank:
  assumes "i < length (cl_attempts s)" "at_wait (attempt_at s i) = At_closing phase k"
  shows "rank (at_wait (attempt_at (snd (process_closed c i k err s)) i)) < rank (At_closing (Cl_drain e) k)"
proof -
  have le: "n \<le> 5 \<Longrightarrow> n < 6" "n \<le> 1 \<Longrightarrow> n < 2" for n :: nat by simp_all
  show ?thesis
    using assms(1) finishes_rank report_rank
    by (cases k; cases err) (simp_all add: process_closed_def eval failed_att le)
qed

lemma confirmed_rank: "i < length (cl_attempts s) \<Longrightarrow>
    rank (at_wait (attempt_at (snd (confirmed c i r code s)) i)) \<le> 5"
  using finishes_rank by (simp add: confirmed_def eval)

text \<open>The event that ends a wait: the deadline, the timeout of a step of \<open>closeProcess\<close>, or the
  answer of a handler.\<close>

definition ends_wait :: "attempt_wait \<Rightarrow> claude_input \<Rightarrow> bool" where
  "ends_wait w ev =
     (case w of
        At_scheduled \<Rightarrow> (case ev of K_run _ \<Rightarrow> True | _ \<Rightarrow> False)
      | At_input \<Rightarrow> (case ev of K_input _ Input_deadline \<Rightarrow> True | _ \<Rightarrow> False)
      | At_output \<Rightarrow> (case ev of K_output _ Race_deadline \<Rightarrow> True | _ \<Rightarrow> False)
      | At_confirm _ _ \<Rightarrow> (case ev of K_confirm _ (Some _) \<Rightarrow> True | _ \<Rightarrow> False)
      | At_closing _ _ \<Rightarrow> (case ev of K_close _ (Some _) \<Rightarrow> True | _ \<Rightarrow> False)
      | At_handler \<Rightarrow> (case ev of K_handler _ _ \<Rightarrow> True | _ \<Rightarrow> False)
      | At_last_handler _ _ \<Rightarrow> (case ev of K_handler _ _ \<Rightarrow> True | _ \<Rightarrow> False)
      | At_over \<Rightarrow> False)"

lemma ends_wait_waits [simp]:
  "waits w \<Longrightarrow> \<not> ends_wait w (K_run i)" "waits w \<Longrightarrow> \<not> ends_wait w (K_confirm i err)"
  "waits w \<Longrightarrow> \<not> ends_wait w (K_close i err)" "waits w \<Longrightarrow> \<not> ends_wait w (K_handler i err)"
  by (auto simp: waits_def ends_wait_def)

definition resumed :: "claude_cfg \<Rightarrow> nat \<Rightarrow> claude_input \<Rightarrow> claude \<Rightarrow> attempt" where
  "resumed c i ev s = attempt_at (snd (resumes c i (at_wait (attempt_at s i)) ev s)) i"

text \<open>What a resumption does: nothing, or it brings the attempt closer to its end.\<close>

definition closer :: "attempt \<Rightarrow> attempt \<Rightarrow> bool" where
  "closer a b \<longleftrightarrow> rank (at_wait b) < rank (at_wait a) \<and> (waits (at_wait b) \<longrightarrow> waits (at_wait a) \<and> (timed a \<longrightarrow> timed b) \<or> timed b)"

lemma closer_low: "rank (at_wait b) \<le> n \<Longrightarrow> n < rank (at_wait a) \<Longrightarrow> n < 10 \<Longrightarrow> closer a b"
  by (auto simp: closer_def waits_rank)

lemma closer_less: "rank (at_wait b) < rank (at_wait a) \<Longrightarrow> rank (at_wait a) \<le> 9 \<Longrightarrow> closer a b"
  by (auto simp: closer_def waits_rank)

lemma closer_gets_on: "closer a b \<Longrightarrow> gets_on a b"
  by (auto simp: gets_on_def closer_def)

lemma caught_closer:
  "i < length (cl_attempts s) \<Longrightarrow> 9 \<le> rank (at_wait (attempt_at s i)) \<Longrightarrow>
     closer (attempt_at s i) (attempt_at (snd (caught c i e s)) i)"
  by (rule closer_low [OF caught_rank]) simp_all

lemma output_closer:
  assumes len: "i < length (cl_attempts s)" and w: "at_wait (attempt_at s i) = At_output"
  shows "closer (attempt_at s i) (attempt_at (snd (output_settled c i r s)) i)
      \<or> r \<noteq> Race_deadline \<and> attempt_at (snd (output_settled c i r s)) i = attempt_at s i
      \<or> r = Race_deadline \<and> at_deadlineReason (attempt_at s i) = None
        \<and> attempt_at (snd (output_settled c i r s)) i = attempt_at s i"
proof -
  have "closer (attempt_at s i) ((attempt_at s i)\<lparr>at_deadline := None, at_wait := At_confirm result code\<rparr>)"
    for result code
    by (rule closer_low [of _ 9]) (simp_all add: w)
  then show ?thesis
    using caught_closer [OF len] len
    by (auto simp: output_settled_def eval w split: output_race.split io_task.split option.split
        stream_task.split sum.split)
qed

lemma closing_closer:
  assumes len: "i < length (cl_attempts s)" and w: "at_wait (attempt_at s i) = At_closing phase k"
  shows "closer (attempt_at s i) (attempt_at (snd (close_settled c i phase k err s)) i)
      \<or> err = None \<and> attempt_at (snd (close_settled c i phase k err s)) i = attempt_at s i"
proof -
  have step: "closer (attempt_at s i) ((attempt_at s i)\<lparr>at_wait := At_closing q k\<rparr>)"
    if "rank (At_closing q k) < rank (At_closing phase k)" for q
    using that rank_closing(1,2) [of k] rank_closing(3) [of _ k]
    by (auto simp: closer_def w waits_def)
  have ended: "closer (attempt_at s i) (attempt_at (snd (process_closed c i k e s)) i)"
    if "phase = Cl_drain x" for e x
  proof -
    have "rank (at_wait (attempt_at (snd (process_closed c i k e s)) i)) < rank (At_closing (Cl_drain x) k)"
      by (rule closed_rank [OF len w])
    moreover have "rank (At_closing (Cl_drain x) k) \<le> 9" by (cases k) simp_all
    ultimately show ?thesis by (intro closer_less) (simp_all only: w that)
  qed
  have kills: "rank (At_closing (Cl_drain x) k) < rank (At_closing Cl_term k)" for x
    using rank_closing(2) [of k] rank_closing(3) [of x k] by simp
  show ?thesis
  proof (cases phase)
    case Cl_term
    have "closer (attempt_at s i) ((attempt_at s i)\<lparr>at_wait := At_closing (Cl_drain None) k\<rparr>)"
        "closer (attempt_at s i) ((attempt_at s i)\<lparr>at_wait := At_closing Cl_kill k\<rparr>)"
      using step [of "Cl_drain None"] step [of Cl_kill] kills [of None] rank_closing(2) [of k] Cl_term
      by simp_all
    then show ?thesis using len by (cases err) (simp_all add: Cl_term close_settled_def eval)
  next
    case Cl_kill
    have "closer (attempt_at s i) ((attempt_at s i)\<lparr>at_wait := At_closing (Cl_drain x) k\<rparr>)" for x
      using step [of "Cl_drain x"] rank_closing(3) [of x k] Cl_kill by simp
    then show ?thesis using len by (cases err) (simp_all add: Cl_kill close_settled_def eval)
  next
    case (Cl_drain x)
    then show ?thesis using ended [OF Cl_drain] by (cases err) (simp_all add: close_settled_def eval)
  qed
qed

lemma handler_closer:
  assumes len: "i < length (cl_attempts s)"
    and w: "at_wait (attempt_at s i) = At_handler \<or> at_wait (attempt_at s i) = At_last_handler fs reason"
  shows "closer (attempt_at s i) (attempt_at (snd (attempt_handler_settled c i err s)) i)"
proof -
  have "rank (at_wait (attempt_at (snd (attempt_handler_settled c i err s)) i)) < rank (at_wait (attempt_at s i))"
    using w len by (cases err) (auto simp: attempt_handler_settled_def eval failed_att failed_over_att)
  moreover have "rank (at_wait (attempt_at s i)) \<le> 5" using w by auto
  ultimately show ?thesis by (simp add: closer_def waits_rank)
qed

lemma resumes_closer:
  assumes len: "i < length (cl_attempts s)"
  shows "closer (attempt_at s i) (resumed c i ev s)
    \<or> resumed c i ev s = attempt_at s i \<and>
      (ends_wait (at_wait (attempt_at s i)) ev \<longrightarrow>
         waits (at_wait (attempt_at s i)) \<and> at_deadlineReason (attempt_at s i) = None)"
proof (cases "at_wait (attempt_at s i)")
  case At_scheduled
  then have "closer (attempt_at s i) (attempt_at (snd (run_attempt c i s)) i)"
    using run_rank [OF len, of c] by (auto simp: closer_def waits_rank)
  then show ?thesis
    by (cases ev) (simp_all add: resumed_def resumes_def At_scheduled ends_wait_def eval)
next
  case At_input
  have "closer (attempt_at s i) ((attempt_at s i)\<lparr>at_wait := At_output\<rparr>)"
    by (simp add: closer_def At_input waits_def timed_def)
  then show ?thesis
    using caught_closer [OF len] len
    by (cases ev) (auto simp: resumed_def resumes_def At_input ends_wait_def input_settled_def eval waits_def
        split: input_race.split option.split)
next
  case At_output
  then show ?thesis
    using output_closer [OF len At_output, of c]
    by (cases ev) (auto simp: resumed_def resumes_def ends_wait_def eval waits_def split: output_race.split)
next
  case (At_confirm result code)
  then show ?thesis
    using caught_closer [OF len] closer_low [OF confirmed_rank [OF len]]
    by (cases ev) (auto simp: resumed_def resumes_def ends_wait_def confirm_settled_def eval
        split: option.split)
next
  case (At_closing phase k)
  then show ?thesis
    using closing_closer [OF len At_closing, of c]
    by (cases ev) (auto simp: resumed_def resumes_def ends_wait_def eval split: option.split)
next
  case At_handler
  then show ?thesis
    using handler_closer [OF len disjI1]
    by (cases ev) (simp_all add: resumed_def resumes_def ends_wait_def eval)
next
  case (At_last_handler fs reason)
  then show ?thesis
    using handler_closer [OF len disjI2]
    by (cases ev) (simp_all add: resumed_def resumes_def ends_wait_def eval)
next
  case At_over
  then show ?thesis by (simp add: resumed_def resumes_def ends_wait_def eval)
qed

section \<open>Every event\<close>

text \<open>The methods beside the attempts add attempts, but do not change one.\<close>

definition adds :: "claude \<Rightarrow> claude \<Rightarrow> bool" where
  "adds s s' \<longleftrightarrow>
     (\<exists>xs. cl_attempts s' = cl_attempts s @ xs \<and> list_all (\<lambda>a. at_wait a = At_scheduled) xs)"

interpretation adding: stretch_relation adds
proof unfold_locales
  fix s t u :: claude
  show "adds s s" unfolding adds_def by (rule exI [of _ "[]"]) simp
  assume "adds s t" "adds t u"
  then obtain xs ys where "cl_attempts t = cl_attempts s @ xs" "cl_attempts u = (cl_attempts s @ xs) @ ys"
      "list_all (\<lambda>a. at_wait a = At_scheduled) xs" "list_all (\<lambda>a. at_wait a = At_scheduled) ys"
    unfolding adds_def by metis
  then show "adds s u" unfolding adds_def by (intro exI [of _ "xs @ ys"]) simp
qed

lemma adds_primitives:
  "keeps adds tickC" "keeps adds (set_failure m)" "keeps adds (emitC x)" "keeps adds (storeC c f)"
  "keeps adds (release_active i)"
  by (simp_all add: keeps_def adds_def tickC_def set_failure_def emitC_def modify_def storeC_def Let_def
      release_active_def)

lemma adds_modify: "(\<And>s. cl_attempts (f s) = cl_attempts s) \<Longrightarrow> keeps adds (modify f)"
  by (simp add: keeps_def adds_def modify_def)

lemma adds_spawn:
  "keeps adds (modify (\<lambda>s. s\<lparr>cl_attempts := cl_attempts s @ [new_attempt job pid], cl_active := a\<rparr>))"
  by (simp add: keeps_def adds_def modify_def new_attempt_def)

lemmas adds_intros = adding.keeps_flow adds_primitives adds_modify adds_spawn

lemma adds_not_sent: "keeps adds (not_sent job)" "keeps adds (dispatch_to p)" "keeps adds (context_loaded g)"
  unfolding not_sent_def dispatch_to_def context_loaded_def by (intro adds_intros; simp)+

lemma adds_starts: "keeps adds (start_rejects e)" "keeps adds (ensureSessionAnchor c la)"
  unfolding start_rejects_def ensureSessionAnchor_def by (intro adds_intros; simp)+

lemma adds_dispatch: "keeps adds (dispatchInternal c job)"
  unfolding dispatchInternal_def by (intro adds_intros adds_not_sent; simp)+

lemma adds_spawnC: "keeps adds (spawnC c job p prompt)"
  unfolding spawnC_def by (intro adds_intros adds_not_sent; simp)+

lemma adds_shell:
  "keeps adds start_claude" "keeps adds (layout_settled c r)" "keeps adds (start_context_settled la r')"
  "keeps adds (prepared c la p)" "keeps adds (ready_settled err)" "keeps adds (dispatch_claude c job)"
  "keeps adds (pin_settled c job pp la err)" "keeps adds (context_settled c job pp la r')"
  "keeps adds (dispatch_returns job sub)" "keeps adds stop_claude"
  unfolding start_claude_def layout_settled_def start_context_settled_def prepared_def ready_settled_def
    dispatch_claude_def pin_settled_def context_settled_def dispatch_returns_def stop_claude_def Let_def
  by (intro adds_intros adds_not_sent adds_starts adds_dispatch adds_spawnC; simp)+

text \<open>An attempt after an event, and the number of attempts.\<close>

definition gets_on_at :: "nat \<Rightarrow> claude \<Rightarrow> claude \<Rightarrow> bool" where
  "gets_on_at j s s' \<longleftrightarrow>
     j < length (cl_attempts s') \<and> gets_on (attempt_at s j) (attempt_at s' j)"

lemma child_gets_on:
  assumes "i < length (cl_attempts s)"
  shows "gets_on (attempt_at s i) (attempt_at (snd (stdout_reads c i r s)) i)"
    "gets_on (attempt_at s i) (attempt_at (snd (stderr_settled i err s)) i)"
    "gets_on (attempt_at s i) (attempt_at (snd (child_exits i code s)) i)"
    "gets_on (attempt_at s i) (attempt_at (snd (accepted_settled c i err s)) i)"
    "gets_on (attempt_at s i) (attempt_at (snd (deadline_fires c i s)) i)"
proof -
  have on: "at_wait (attempt_at (snd (stdout_goes_on i t s')) i) = at_wait (attempt_at s' i)"
      "timed (attempt_at (snd (stdout_goes_on i t s')) i) \<longleftrightarrow> timed (attempt_at s' i)"
    if "i < length (cl_attempts s')" for t s'
    using that by (cases t; cases "cl_executionId s'";
        simp add: stdout_goes_on_def on_init_def eval)+
  have cong: "gets_on a b" if "at_wait b = at_wait a" "timed a \<Longrightarrow> timed b" for a b
    using that by (simp add: gets_on_def)
  show "gets_on (attempt_at s i) (attempt_at (snd (stdout_reads c i r s)) i)"
    using assms
    by (intro cong) (auto simp: stdout_reads_def eval on split: option.split stream_task.split stdout_read.split)
  show "gets_on (attempt_at s i) (attempt_at (snd (stderr_settled i err s)) i)"
    using assms by (intro cong) (auto simp: stderr_settled_def eval)
  show "gets_on (attempt_at s i) (attempt_at (snd (child_exits i code s)) i)"
    using assms by (intro cong) (auto simp: child_exits_def eval)
  show "gets_on (attempt_at s i) (attempt_at (snd (accepted_settled c i err s)) i)"
    using assms
    by (intro cong) (auto simp: accepted_settled_def eval on split: option.split stream_task.split)
  show "gets_on (attempt_at s i) (attempt_at (snd (deadline_fires c i s)) i)"
    using assms by (intro cong) (auto simp: deadline_fires_def eval split: option.split)
qed

lemma gets_on_trans: "gets_on a b \<Longrightarrow> gets_on b d \<Longrightarrow> gets_on a d"
  unfolding gets_on_def using order_trans by blast

definition onward :: "nat \<Rightarrow> claude \<Rightarrow> claude \<Rightarrow> bool" where
  "onward j s s' \<longleftrightarrow>
     (j < length (cl_attempts s) \<longrightarrow> gets_on_at j s s')
     \<and> (length (cl_attempts s) \<le> j \<and> j < length (cl_attempts s') \<and> waits (at_wait (attempt_at s' j)) \<longrightarrow>
          timed (attempt_at s' j))"

interpretation onward: stretch_relation "onward j" for j
proof unfold_locales
  fix s t u
  show "onward j s s" by (auto simp: onward_def gets_on_at_def)
  assume a: "onward j s t" "onward j t u"
  show "onward j s u"
  proof (cases "j < length (cl_attempts s)")
    case True
    then show ?thesis using a gets_on_trans by (auto simp: onward_def gets_on_at_def)
  next
    case False
    then show ?thesis
      using a by (cases "j < length (cl_attempts t)") (auto simp: onward_def gets_on_at_def gets_on_def)
  qed
qed

lemma onward_primitives:
  "keeps (onward j) (emitC x)" "keeps (onward j) (signalC c i sg)" "keeps (onward j) (release_active i)"
  "keeps (onward j) stop_ends"
  by (auto simp: keeps_def onward_def gets_on_at_def eval attempt_at_def stop_ends_def)

lemma onward_cancels: "keeps (onward j) (upd_attempt i (\<lambda>a. a\<lparr>at_cancelRequested := True\<rparr>))"
proof -
  have "attempt_at (set_attempt i f s) j = (if i = j then f (attempt_at s j) else attempt_at s j)"
    if "j < length (cl_attempts s)" for f s using that by (auto simp: set_attempt_def attempt_at_def nth_list_update)
  moreover have "gets_on a (a\<lparr>at_cancelRequested := True\<rparr>)" for a by (simp add: gets_on_def)
  ultimately show ?thesis by (auto simp: keeps_def onward_def gets_on_at_def eval)
qed

lemma onward_modify: "(\<And>s. cl_attempts (f s) = cl_attempts s) \<Longrightarrow> keeps (onward j) (modify f)"
  by (auto simp: keeps_def onward_def gets_on_at_def modify_def attempt_at_def)

lemma onward_adds: "keeps adds m \<Longrightarrow> keeps (onward j) m"
  unfolding keeps_def
proof (intro allI)
  fix s
  assume "\<forall>s. adds s (snd (m s))"
  then obtain xs where xs: "cl_attempts (snd (m s)) = cl_attempts s @ xs"
      "list_all (\<lambda>a. at_wait a = At_scheduled) xs"
    unfolding adds_def by blast
  have "at_wait ((cl_attempts s @ xs) ! j) = At_scheduled"
    if "length (cl_attempts s) \<le> j" "j < length (cl_attempts s @ xs)"
    using that xs(2) by (auto simp: nth_append list_all_length)
  then show "onward j s (snd (m s))"
    using xs(1) by (auto simp: onward_def gets_on_at_def attempt_at_def nth_append waits_def)
qed

lemma frame_onward:
  assumes "keeps (frame i) m"
    "i < length (cl_attempts s) \<Longrightarrow> gets_on (attempt_at s i) (attempt_at (snd (m s)) i)"
  shows "onward j s (snd (m s))"
  using keepsD [OF assms(1), of s] assms(2) by (cases "j = i") (auto simp: frame_def onward_def gets_on_at_def)

lemmas onward_intros = onward.keeps_flow onward_primitives onward_cancels onward_modify

lemma cancel_onward: "keeps (onward j) (cancel_claude c job)"
  unfolding cancel_claude_def Let_def by (intro onward_intros; simp)

lemma stop_onward: "onward j s (snd (stop_goes_on c s))"
proof -
  have scheduled: "onward j s (snd (thenA (signalC c i SIGTERM)
      (thenA (if at_wait (attempt_at s i) = At_scheduled then run_attempt c i else ret ())
        (modify (\<lambda>s. s\<lparr>cl_stop := Stop_attempt i\<rparr>))) s))" for i
  proof (cases "at_wait (attempt_at s i) = At_scheduled")
    case True
    let ?s = "snd (signalC c i SIGTERM s)"
    have sig: "onward j s ?s" using onward_primitives(2) by (rule keepsD)
    have run: "onward j ?s (snd (run_attempt c i ?s))"
    proof (rule frame_onward [OF frame_run])
      assume len: "i < length (cl_attempts ?s)"
      have "at_wait (attempt_at ?s i) = At_scheduled" using True by simp
      then show "gets_on (attempt_at ?s i) (attempt_at (snd (run_attempt c i ?s)) i)"
        using run_rank [OF len, of c] by (auto simp: gets_on_def waits_rank)
    qed
    have "keeps (onward j) (modify (\<lambda>s. s\<lparr>cl_stop := Stop_attempt i\<rparr>))" by (intro onward_modify) simp
    then have last: "onward j t (t\<lparr>cl_stop := Stop_attempt i\<rparr>)" for t by (simp add: keeps_def modify_def)
    have "fst (run_attempt c i ?s) = Inr ()" by (simp add: run_attempt_def eval close_eval)
    then have "snd (thenA (signalC c i SIGTERM) (thenA (run_attempt c i)
        (modify (\<lambda>s. s\<lparr>cl_stop := Stop_attempt i\<rparr>))) s) = (snd (run_attempt c i ?s))\<lparr>cl_stop := Stop_attempt i\<rparr>"
      by (simp add: eval)
    then show ?thesis
      using onward.R_trans [OF onward.R_trans [OF sig run] last] True by simp
  next
    case False
    have "keeps (onward j) (thenA (signalC c i SIGTERM) (thenA (ret ())
        (modify (\<lambda>s. s\<lparr>cl_stop := Stop_attempt i\<rparr>))))"
      by (intro onward_intros) simp
    then show ?thesis using keepsD False by simp
  qed
  have here: "keeps (onward j) m \<Longrightarrow> onward j s (snd (m s))" for m :: "unit clact" by (rule keepsD)
  have phase: "keeps (onward j) (modify (\<lambda>s. s\<lparr>cl_stop := p (cl_submissions s) (cl_dispatch s \<noteq> None)\<rparr>))" for p
    by (intro onward_modify) simp
  show ?thesis
  proof (cases "cl_stop s")
    case Stop_start
    then show ?thesis
      using here [OF phase [of Stop_submission]] onward.R_refl by (simp add: stop_goes_on_def eval)
  next
    case (Stop_submission n waits)
    then show ?thesis
      using here [OF onward_primitives(4)] scheduled onward.R_refl
      by (cases "cl_active s") (simp_all add: stop_goes_on_def bindA_calm readA_def ret_def)
  next
    case (Stop_attempt i)
    have "keeps (onward j) (thenA (release_active i) stop_ends)" by (intro onward_intros)
    then show ?thesis
      using here onward.R_refl Stop_attempt by (simp add: stop_goes_on_def bindA_calm readA_def ret_def)
  qed (simp_all add: stop_goes_on_def eval onward.R_refl)
qed

lemma happens_onward: "onward j s (claude_happens c ev s)"
proof -
  have still: "onward j s s" by (rule onward.R_refl)
  have resumed: "onward j s (snd (run_resumes c s i ev s))" for i
    using frame_onward [OF frame_resumes] resumes_closer [of i s c ev] closer_gets_on still
    by (fastforce simp: run_resumes_def at_attempt_def eval resumed_def)
  have child: "onward j s (snd (at_attempt s i m s))"
    if "keeps (frame i) m" "i < length (cl_attempts s) \<Longrightarrow> gets_on (attempt_at s i) (attempt_at (snd (m s)) i)" for i m
    using frame_onward [OF that(1)] that(2) still by (auto simp: at_attempt_def eval)
  have store: "onward j s (s\<lparr>cl_db := db\<rparr>)" for db by (auto simp: onward_def gets_on_at_def attempt_at_def)
  note calm = adds_shell [THEN onward_adds, THEN keepsD] cancel_onward [THEN keepsD] stop_onward
  show ?thesis
    using calm still resumed store child [OF frame_child(1)] child [OF frame_child(2)] child [OF frame_child(3)]
      child [OF frame_child(4)] child [OF frame_child(5)] child_gets_on
    by (cases ev) (auto simp: claude_happens_def runC_def eval
        split: start_phase.split option.split dispatch_phase.split)
qed

text \<open>While an attempt waits for its child, a deadline is armed or has fired.\<close>

definition all_timed :: "claude \<Rightarrow> bool" where
  "all_timed s \<longleftrightarrow> (\<forall>i < length (cl_attempts s). waits (at_wait (attempt_at s i)) \<longrightarrow> timed (attempt_at s i))"

lemma happens_timed:
  assumes "all_timed s"
  shows "all_timed (claude_happens c ev s)"
  unfolding all_timed_def
proof (intro allI impI)
  fix j
  assume j: "j < length (cl_attempts (claude_happens c ev s))" "waits (at_wait (attempt_at (claude_happens c ev s) j))"
  show "timed (attempt_at (claude_happens c ev s) j)"
    using happens_onward [of j s c ev] assms j
    by (cases "j < length (cl_attempts s)") (auto simp: onward_def gets_on_at_def gets_on_def all_timed_def)
qed

interpretation claude: safe_system "\<lambda>s. \<exists>db. s = new_claude db" "claude_step c"
  "\<lambda>s. claude_ok c s \<and> all_timed s" for c
proof unfold_locales
  fix s t
  show "\<exists>db. s = new_claude db \<Longrightarrow> claude_ok c s \<and> all_timed s"
    using new_claude_ok by (auto simp: all_timed_def new_claude_def)
  assume "claude_ok c s \<and> all_timed s" "claude_step c s t"
  then show "claude_ok c t \<and> all_timed t"
    using claude_happens_ok happens_timed by (auto elim!: claude_stepE)
qed

lemma claude_reached: "rtranclp (claude_step c) (new_claude db) s \<Longrightarrow> claude_ok c s \<and> all_timed s"
  by (rule claude.reached_ok) blast

section \<open>Timers alone\<close>

text \<open>The timers of attempt \<open>i\<close>, in the order in which they run out, and the answers of the
  daemon to the end of the attempt.\<close>

definition timers :: "nat \<Rightarrow> jstring \<Rightarrow> jstring option \<Rightarrow> jstring option \<Rightarrow> claude_input list" where
  "timers i e answer answer' =
     [K_run i, K_deadline i, K_input i Input_deadline, K_output i Race_deadline, K_confirm i (Some e),
      K_close i (Some e), K_close i (Some e), K_close i (Some e), K_handler i answer,
      K_close i (Some e), K_close i (Some e), K_close i (Some e), K_handler i answer']"

definition rank_at :: "nat \<Rightarrow> claude \<Rightarrow> nat" where
  "rank_at i s = rank (at_wait (attempt_at s i))"

definition near :: "nat \<Rightarrow> nat \<Rightarrow> claude \<Rightarrow> bool" where
  "near i n s \<longleftrightarrow> i < length (cl_attempts s) \<and> rank_at i s \<le> n"

lemma goes_nearer:
  assumes "near i (Suc n) s" "event_happens c s ev = run_resumes c s i ev"
    "rank_at i s = Suc n \<Longrightarrow> ends_wait (at_wait (attempt_at s i)) ev"
    "waits (at_wait (attempt_at s i)) \<Longrightarrow> ends_wait (at_wait (attempt_at s i)) ev \<Longrightarrow>
       at_deadlineReason (attempt_at s i) \<noteq> None"
  shows "near i n (claude_happens c ev s)"
proof -
  have i: "i < length (cl_attempts s)" using assms(1) by (simp add: near_def)
  have s': "attempt_at (claude_happens c ev s) i = resumed c i ev s"
    using i by (simp add: claude_happens_def runC_def assms(2) run_resumes_def at_attempt_def resumed_def)
  have "i < length (cl_attempts (claude_happens c ev s))"
    using happens_onward [of i s c ev] i by (simp add: onward_def gets_on_at_def)
  moreover have "rank_at i (claude_happens c ev s) \<le> n"
  proof (cases "rank_at i s = Suc n")
    case True
    then have "closer (attempt_at s i) (resumed c i ev s)"
      using resumes_closer [OF i, of c ev] assms(3,4) by auto
    then show ?thesis using True by (simp add: rank_at_def s' closer_def)
  next
    case False
    then have "rank_at i s \<le> n" using assms(1) by (simp add: near_def)
    moreover have "rank_at i (claude_happens c ev s) \<le> rank_at i s"
      using resumes_closer [OF i, of c ev] by (auto simp: rank_at_def s' closer_def)
    ultimately show ?thesis by simp
  qed
  ultimately show ?thesis by (simp add: near_def)
qed

lemma rank_waits:
  "rank w = 12 \<longleftrightarrow> w = At_scheduled" "rank w = 11 \<longleftrightarrow> w = At_input" "rank w = 10 \<longleftrightarrow> w = At_output"
  "rank w = 9 \<Longrightarrow> \<exists>r code. w = At_confirm r code" "rank w \<in> {2, 3, 4, 6, 7, 8} \<Longrightarrow> \<exists>p k. w = At_closing p k"
  "rank w = 5 \<Longrightarrow> w = At_handler" "rank w = 1 \<Longrightarrow> \<exists>fs reason. w = At_last_handler fs reason"
  by (induction w rule: rank.induct) simp_all

lemma nearer:
  "near i 12 s \<Longrightarrow> near i 11 (claude_happens c (K_run i) s)"
  "near i 9 s \<Longrightarrow> near i 8 (claude_happens c (K_confirm i (Some e)) s)"
  "near i 8 s \<Longrightarrow> near i 7 (claude_happens c (K_close i (Some e)) s)"
  "near i 7 s \<Longrightarrow> near i 6 (claude_happens c (K_close i (Some e)) s)"
  "near i 6 s \<Longrightarrow> near i 5 (claude_happens c (K_close i (Some e)) s)"
  "near i 5 s \<Longrightarrow> near i 4 (claude_happens c (K_handler i answer) s)"
  "near i 4 s \<Longrightarrow> near i 3 (claude_happens c (K_close i (Some e)) s)"
  "near i 3 s \<Longrightarrow> near i 2 (claude_happens c (K_close i (Some e)) s)"
  "near i 2 s \<Longrightarrow> near i 1 (claude_happens c (K_close i (Some e)) s)"
  "near i 1 s \<Longrightarrow> near i 0 (claude_happens c (K_handler i answer) s)"
proof -
  note waits = rank_waits [of "at_wait (attempt_at s i)"]
  have closing: "ends_wait (at_wait (attempt_at s i)) (K_close i (Some e))"
    if "rank_at i s \<in> {2, 3, 4, 6, 7, 8}"
    using waits(5) that by (auto simp: rank_at_def ends_wait_def)
  have close: "near i n (claude_happens c (K_close i (Some e)) s)"
    if "near i (Suc n) s" "Suc n \<in> {2, 3, 4, 6, 7, 8}" for n
    using that closing by (intro goes_nearer) simp_all
  show "near i 11 (claude_happens c (K_run i) s)" if "near i 12 s"
    using that waits(1) by (intro goes_nearer) (simp_all add: rank_at_def, simp add: ends_wait_def)
  show "near i 8 (claude_happens c (K_confirm i (Some e)) s)" if "near i 9 s"
    using that waits(4) by (intro goes_nearer) (simp_all add: rank_at_def, auto simp: ends_wait_def)
  show "near i 4 (claude_happens c (K_handler i answer) s)" if "near i 5 s"
    using that waits(6) by (intro goes_nearer) (simp_all add: rank_at_def, simp add: ends_wait_def)
  show "near i 0 (claude_happens c (K_handler i answer) s)" if "near i 1 s"
    using that waits(7) by (intro goes_nearer) (simp_all add: rank_at_def, auto simp: ends_wait_def)
  show "near i 7 (claude_happens c (K_close i (Some e)) s)" if "near i 8 s"
    using close [of 7] that by simp
  show "near i 6 (claude_happens c (K_close i (Some e)) s)" if "near i 7 s"
    using close [of 6] that by simp
  show "near i 5 (claude_happens c (K_close i (Some e)) s)" if "near i 6 s"
    using close [of 5] that by simp
  show "near i 3 (claude_happens c (K_close i (Some e)) s)" if "near i 4 s"
    using close [of 3] that by simp
  show "near i 2 (claude_happens c (K_close i (Some e)) s)" if "near i 3 s"
    using close [of 2] that by simp
  show "near i 1 (claude_happens c (K_close i (Some e)) s)" if "near i 2 s"
    using close [of 1] that by (simp add: numeral_2_eq_2)
qed

text \<open>From the wait for the input or the output of the child.\<close>

lemma deadline_at:
  assumes "i < length (cl_attempts s)" "timed (attempt_at s i)"
  shows "at_deadlineReason (attempt_at (claude_happens c (K_deadline i) s) i) \<noteq> None"
  using assms
  by (auto simp: claude_happens_def runC_def at_attempt_def deadline_fires_def eval timed_def split: option.split)

lemma deadline_wait:
  assumes "near i n s"
  shows "near i n (claude_happens c (K_deadline i) s)"
    "at_wait (attempt_at (claude_happens c (K_deadline i) s) i) = at_wait (attempt_at s i)"
  using assms
  by (auto simp: claude_happens_def runC_def at_attempt_def deadline_fires_def eval near_def rank_at_def
      split: option.split)

lemma input_near:
  assumes "near i 11 s" "waits (at_wait (attempt_at s i)) \<longrightarrow> at_deadlineReason (attempt_at s i) \<noteq> None"
  shows "near i 10 (claude_happens c (K_input i Input_deadline) s)"
    "at_wait (attempt_at (claude_happens c (K_input i Input_deadline) s) i) = At_output \<longrightarrow>
       at_deadlineReason (attempt_at (claude_happens c (K_input i Input_deadline) s) i) \<noteq> None"
proof -
  have i: "i < length (cl_attempts s)" using assms(1) by (simp add: near_def)
  show "near i 10 (claude_happens c (K_input i Input_deadline) s)"
    using assms rank_waits(2) [of "at_wait (attempt_at s i)"]
    by (intro goes_nearer) (auto simp: ends_wait_def rank_at_def)
  let ?t = "claude_happens c (K_input i Input_deadline) s"
  have t: "?t = snd (resumes c i (at_wait (attempt_at s i)) (K_input i Input_deadline) s)"
    using i by (simp add: claude_happens_def runC_def run_resumes_def at_attempt_def)
  show "at_wait (attempt_at ?t i) = At_output \<longrightarrow> at_deadlineReason (attempt_at ?t i) \<noteq> None"
  proof (cases "at_wait (attempt_at s i) = At_input")
    case True
    then obtain e where "at_deadlineReason (attempt_at s i) = Some e" using assms(2) by (auto simp: waits_def)
    then have "rank (at_wait (attempt_at ?t i)) \<le> 8"
      using True caught_rank [OF i, of c e] by (simp add: t resumes_def input_settled_def eval)
    then show ?thesis by auto
  next
    case False
    then have "?t = s" by (cases "at_wait (attempt_at s i)") (simp_all add: t resumes_def eval)
    then show ?thesis using assms(2) by (simp add: waits_def)
  qed
qed

lemma output_near:
  assumes "near i 10 s" "at_wait (attempt_at s i) = At_output \<longrightarrow> at_deadlineReason (attempt_at s i) \<noteq> None"
  shows "near i 9 (claude_happens c (K_output i Race_deadline) s)"
  using assms rank_waits(3) [of "at_wait (attempt_at s i)"]
  by (intro goes_nearer) (auto simp: ends_wait_def rank_at_def waits_def split: claude_input.splits)

lemma timers_reach_the_end:
  assumes "all_timed s" "i < length (cl_attempts s)"
  shows "near i 0 (claude_run c (timers i e answer answer') s)"
proof -
  have s: "near i 12 s" using assms(2) rank_bound by (simp add: near_def rank_at_def)
  define s1 where "s1 = claude_happens c (K_run i) s"
  have s1: "near i 11 s1" "all_timed s1"
    using nearer(1) [OF s] happens_timed [OF assms(1)] by (simp_all add: s1_def)
  define s2 where "s2 = claude_happens c (K_deadline i) s1"
  have "waits (at_wait (attempt_at s2 i)) \<longrightarrow> at_deadlineReason (attempt_at s2 i) \<noteq> None"
    using deadline_at [of i s1 c] deadline_wait(2) [OF s1(1), of c] s1
    by (auto simp: s2_def near_def all_timed_def)
  then show ?thesis
    using input_near [of i s2 c] output_near nearer(2-) deadline_wait(1) [OF s1(1), of c]
    by (simp add: timers_def flip: s1_def s2_def)
qed

end
