(* ===== verification/Claude_Example.thy ===== *)
theory Claude_Example
  imports Claude_End Store_Examples
begin

text \<open>
  A concrete run of the Claude backend, used by the witnesses: it starts, runs a job to its
  result, and submits a second one. The stages of the run are written out and proved to be the
  states that the events lead to.
\<close>

section \<open>The stream of the child\<close>

lemma decode_one_suffix: "\<exists>pre. r = pre @ snd (decode_one a r)"
proof -
  have two: "\<exists>pre. r = pre @ snd (decode_two a r)"
    by (auto simp: decode_two_def split: list.split)
  have three: "\<exists>pre. r = pre @ snd (decode_three a r)"
    by (cases r rule: up_to_three) (auto simp: decode_three_def)
  have four: "\<exists>pre. r = pre @ snd (decode_four a r)"
    by (cases r rule: up_to_three) (auto simp: decode_four_def)
  show ?thesis using two three four by (auto simp: decode_one_def)
qed

lemma decode_stream_suffix: "\<exists>pre. bs = pre @ snd (decode_stream bs)"
proof (induction bs rule: decode_stream.induct)
  case (2 a r)
  show ?case
  proof (cases "unfinished (a # r)")
    case True
    then show ?thesis by (simp add: decode_stream.simps(2))
  next
    case False
    obtain pre where "r = pre @ snd (decode_one a r)" using decode_one_suffix by blast
    moreover obtain pre' where "snd (decode_one a r) = pre' @ snd (decode_stream (snd (decode_one a r)))"
      using 2 [OF False] by blast
    ultimately have "a # r = (a # pre @ pre') @ snd (decode_stream (a # r))"
      using False by (simp add: decode_stream.simps(2) split: prod.split) (metis append.assoc snd_conv)
    then show ?thesis by blast
  qed
qed simp

text \<open>A chunk that ends in an ASCII byte is decoded whole.\<close>

lemma decode_stream_whole:
  assumes "bs \<noteq> []" "last bs < 0x80"
  shows "decode_stream bs = (utf8_decode bs, [])"
proof -
  obtain pre where pre: "bs = pre @ snd (decode_stream bs)" using decode_stream_suffix by blast
  have "\<not> unfinished (snd (decode_stream bs))"
  proof
    assume u: "unfinished (snd (decode_stream bs))"
    then have "0x80 \<le> last (snd (decode_stream bs))"
      by (rule unfinished.elims(2)) (auto simp: second_ok_def cont_def split: if_splits)
    moreover have "last (snd (decode_stream bs)) = last bs"
      using u pre by (metis last_appendR unfinished.simps(4))
    ultimately show False using assms(2) by simp
  qed
  then have "snd (decode_stream bs) = []" using decode_stream_held by blast
  then show ?thesis using decode_stream_decode [of bs] by (cases "decode_stream bs") simp
qed
lemma utf8_bytes_snoc: "u < 0x80 \<Longrightarrow> utf8_bytes (s @ [u]) = utf8_bytes s @ [unat u]"
proof (induction s rule: utf8_bytes.induct)
  case 1
  then show ?case by (simp add: utf8_unit_def word_less_nat_alt)
next
  case (2 v)
  moreover have "\<not> is_low_surrogate u"
    using 2 by (simp add: low_nat word_less_nat_alt)
  ultimately show ?case by (simp add: utf8_unit_def word_less_nat_alt)
qed simp

lemma decode_line:
  assumes "well_paired (s @ [u])" "u < 0x80"
  shows "decode_stream (utf8_bytes (s @ [u])) = (s @ [u], [])"
proof -
  have "unat u < 0x80" using assms(2) by (simp add: word_less_nat_alt)
  then show ?thesis
    using decode_stream_whole [of "utf8_bytes (s @ [u])"] utf8_inverse [OF assms(1)]
    by (simp add: utf8_bytes_snoc [OF assms(2)])
qed
lemma demo_paired: "well_paired (demo_init_line @ [0x0A]) \<and> well_paired demo_result_line"
  by code_simp

lemma demo_first:
  "first_line (demo_init_line @ [0x0A]) = demo_init_line \<and> other_lines (demo_init_line @ [0x0A]) = []
     \<and> 0x0A \<notin> set demo_result_line"
  using first_line_exact [of demo_init_line "[]"] demo_no_newline by simp

lemma demo_ends:
  "last demo_init_line \<noteq> 0x0D \<and> last demo_result_line = 0x7D \<and> hd demo_init_line \<noteq> 0xFEFF
     \<and> demo_result_line \<noteq> [] \<and> demo_init_line \<noteq> []"
  by code_simp

lemma demo_lengths: "utf8_length (demo_init_line @ [0x0A]) < 600" "utf8_length demo_result_line < 600"
proof -
  have "utf8_length (demo_init_line @ [0x0A]) < 600" by code_simp
  then show "utf8_length (demo_init_line @ [0x0A]) < 600" .
  have "utf8_length demo_result_line < 600" by code_simp
  then show "utf8_length demo_result_line < 600" .
qed

lemmas demo_lines = demo_paired demo_first demo_ends

definition demo_chunk1 :: "nat list" where
  "demo_chunk1 = utf8_bytes (demo_init_line @ [0x0A])"

definition demo_chunk2 :: "nat list" where
  "demo_chunk2 = utf8_bytes demo_result_line"

definition demo_stream1 :: stream where
  "demo_stream1 = \<lparr>st_held = [], st_begun = True, st_buffered = [],
     st_totalBytes = utf8_length (demo_init_line @ [0x0A]), st_parse = demo_parse\<rparr>"

definition demo_stream2 :: stream where
  "demo_stream2 = \<lparr>st_held = [], st_begun = True, st_buffered = demo_result_line,
     st_totalBytes = utf8_length (demo_init_line @ [0x0A]) + utf8_length demo_result_line,
     st_parse = demo_parse\<rparr>"

lemma demo_decoded_chunks:
  "decode_stream demo_chunk1 = (demo_init_line @ [0x0A], [])" "decode_stream demo_chunk2 = (demo_result_line, [])"
proof -
  show "decode_stream demo_chunk1 = (demo_init_line @ [0x0A], [])"
    unfolding demo_chunk1_def by (rule decode_line) (use demo_lines(1) in simp_all)
  have "demo_result_line = butlast demo_result_line @ [0x7D]"
    using demo_lines(3) by (metis append_butlast_last_id)
  then show "decode_stream demo_chunk2 = (demo_result_line, [])"
    unfolding demo_chunk2_def using decode_line [where s = "butlast demo_result_line" and u = "0x7D"] demo_lines(1) by simp
qed

lemma demo_small: "max_bytes demo_stream_cfg = 1048576"
  by (simp add: max_bytes_def demo_stream_cfg_def)

lemma demo_tasks:
  "task_chunk demo_stream_cfg demo_chunk1 (Reading new_stream) = Accepting In_chunk (js ''s'') demo_stream1"
  "task_accepted demo_stream_cfg (Accepting In_chunk (js ''s'') demo_stream1) = Reading demo_stream1"
  "task_chunk demo_stream_cfg demo_chunk2 (Reading demo_stream1) = Reading demo_stream2"
  "task_done demo_stream_cfg (Reading demo_stream2) = Ended (Inr demo_result)"
proof -
  have parse: "st_parse new_stream = new_parse" by (simp add: new_stream_def new_parse_def)
  have kept: "text_out False (demo_init_line @ [0x0A]) = demo_init_line @ [0x0A]"
  proof -
    obtain u us where u: "demo_init_line = u # us" "u \<noteq> 0xFEFF"
      using demo_lines(3) by (metis list.collapse)
    show ?thesis unfolding u(1) using u(2) by (simp add: text_out_def)
  qed
  have strip: "strip_cr demo_init_line = demo_init_line" "strip_cr demo_result_line = demo_result_line"
    using demo_lines(3) by (simp_all add: strip_cr_def)
  have len: "length demo_chunk1 = utf8_length (demo_init_line @ [0x0A])"
      "length demo_chunk2 = utf8_length demo_result_line"
    by (simp_all add: demo_chunk1_def demo_chunk2_def length_utf8_bytes)
  have "drain_lines demo_stream_cfg (demo_init_line @ [0x0A]) new_parse = Inr ([], demo_parse, Some (js ''s''))"
    using demo_lines(2) demo_init_consumed by (simp add: drain_lines.simps [of _ "demo_init_line @ _"] strip)
  moreover have "decode_chunk demo_chunk1 new_stream = \<lparr>st_held = [], st_begun = True,
      st_buffered = demo_init_line @ [0x0A], st_totalBytes = utf8_length (demo_init_line @ [0x0A]),
      st_parse = new_parse\<rparr>"
    by (simp add: decode_chunk_def new_stream_def new_parse_def demo_decoded_chunks kept len)
  ultimately show "task_chunk demo_stream_cfg demo_chunk1 (Reading new_stream) = Accepting In_chunk (js ''s'') demo_stream1"
    using demo_lengths
    by (simp add: task_chunk_def continue_chunk_def demo_small len demo_stream1_def)
      (simp add: new_stream_def)
  show "task_accepted demo_stream_cfg (Accepting In_chunk (js ''s'') demo_stream1) = Reading demo_stream1"
    by (simp add: task_accepted_def continue_chunk_def drain_lines.simps demo_stream1_def)
  have "drain_lines demo_stream_cfg demo_result_line demo_parse = Inr (demo_result_line, demo_parse, None)"
    using demo_lines(2) by (simp add: drain_lines.simps)
  moreover have "decode_chunk demo_chunk2 demo_stream1 = demo_stream2"
    by (simp add: decode_chunk_def demo_stream1_def demo_stream2_def demo_decoded_chunks text_out_def len)
  ultimately show "task_chunk demo_stream_cfg demo_chunk2 (Reading demo_stream1) = Reading demo_stream2"
    using demo_lengths
    by (simp add: task_chunk_def continue_chunk_def demo_small len)
      (simp add: demo_stream1_def demo_stream2_def demo_small)
  have "final_line demo_stream2 = demo_result_line"
    by (simp add: final_line_def demo_stream2_def text_out_def strip)
  then show "task_done demo_stream_cfg (Reading demo_stream2) = Ended (Inr demo_result)"
    using demo_result_consumed
    by (simp add: task_done_def demo_stream2_def end_stream_def) (simp add: demo_parse_def)
qed

section \<open>The run\<close>

definition demo_native :: claude_cfg where
  "demo_native = \<lparr>ca_store = demo_cfg, ca_scopeKey = js ''s'', ca_sessionKey = js ''k'',
     ca_remoteNodeId = js ''n'', ca_maxOutputChars = 8, ca_maxBudgetUsd = js ''1'',
     ca_assistantContext = False, ca_processGroups = True, ca_num = (\<lambda>s. s),
     ca_clock = int, ca_uuid = (\<lambda>_. js ''u''), ca_spawn = (\<lambda>_. Inr (Some 7)),
     ca_signal = (\<lambda>_. Sg_sent)\<rparr>"

lemma demo_native_sel [simp]:
  "stream_cfg_of demo_native = demo_stream_cfg" "ca_store demo_native = demo_cfg"
  "ca_sessionKey demo_native = js ''k''" "\<not> ca_assistantContext demo_native"
  "ca_spawn demo_native n = Inr (Some 7)" "ca_signal demo_native n = Sg_sent" "ca_processGroups demo_native"
  "ca_uuid demo_native n = js ''u''"
  by (simp_all add: demo_native_def stream_cfg_of_def demo_stream_cfg_def)

definition demo_preparation :: preparation where
  "demo_preparation = \<lparr>pr_command = \<lparr>pc_path = js ''/c'', pc_size = 1, pc_mtimeMs = js ''1''\<rparr>,
     pr_environment = [], pr_cliVersion = js ''1''\<rparr>"

definition demo_layout :: layout where
  "demo_layout = layout_of demo_native (js ''/s'', js ''/s/w'', js ''/s/t'')"

definition demo_turn :: stored_job where
  "demo_turn = \<lparr>sj_row = demo_claimed Claude, sj_outbox = None\<rparr>"

definition demo_execution :: jstring where
  "demo_execution = new_execution_id demo_layout (js ''u'')"

definition demo_command :: "jstring list" where
  "demo_command = (case invocation demo_native demo_preparation None of Inr command \<Rightarrow> command | Inl _ \<Rightarrow> [])"

lemma demo_invocation: "invocation demo_native demo_preparation None = Inr demo_command"
proof -
  have "case invocation demo_native demo_preparation None of Inr _ \<Rightarrow> True | Inl _ \<Rightarrow> False" by code_simp
  then show ?thesis by (auto simp: demo_command_def split: sum.splits)
qed

definition demo_idle :: "db \<Rightarrow> nat option \<Rightarrow> nat \<Rightarrow> attempt list \<Rightarrow> nat \<Rightarrow> claude_effect list \<Rightarrow> claude" where
  "demo_idle db active submissions attempts n l =
     \<lparr>cl_db = db, cl_layout = Some demo_layout, cl_preparation = Some demo_preparation, cl_active = active,
      cl_started = True, cl_stopping = False, cl_start = Start_resolved, cl_stop = Not_stopped,
      cl_pending = None, cl_dispatch = None, cl_submissions = submissions,
      cl_executionId = Some demo_execution, cl_lastFailure = None, cl_failed = False,
      cl_contextGeneration = None, cl_lastContextFailure = None, cl_attempts = attempts,
      cl_tick = n, cl_log = l\<rparr>"

definition demo_start :: "claude_input list" where
  "demo_start = [K_start, K_layout (Inr (js ''/s'', js ''/s/w'', js ''/s/t'')), K_prepared (Inr demo_preparation),
     K_ready None]"

definition demo_submit :: "claude_input list" where
  "demo_submit = [K_dispatch demo_turn, K_pin None, K_context (Inl []), K_dispatched]"

definition demo_answer :: "claude_input list" where
  "demo_answer = [K_run 0, K_input 0 Input_sent, K_stdout 0 (Read_chunk demo_chunk1), K_accepted 0 None,
     K_stdout 0 (Read_chunk demo_chunk2), K_stdout 0 Read_end, K_stderr 0 None, K_exit 0 0,
     K_output 0 Race_all, K_confirm 0 None, K_handler 0 None]"

lemma demo_anchor:
  "case ensureSessionAnchor demo_native demo_layout ((new_claude fresh_db)\<lparr>cl_start := Start_prepare demo_layout\<rparr>) of
     (Inr _, s) \<Rightarrow> getSessionQuarantine demo_cfg (js ''k'') (cl_db s) = None
   | _ \<Rightarrow> False"
  by code_simp

lemma native_starts:
  obtains db n where "getSessionQuarantine demo_cfg (js ''k'') db = None"
    "claude_run demo_native demo_start (new_claude fresh_db) = demo_idle db None 0 [] n [Ca_ready demo_execution]"
proof -
  let ?s = "(new_claude fresh_db)\<lparr>cl_start := Start_prepare demo_layout\<rparr>"
  obtain u s where s: "ensureSessionAnchor demo_native demo_layout ?s = (Inr u, s)"
      "getSessionQuarantine demo_cfg (js ''k'') (cl_db s) = None"
    using demo_anchor by (auto split: prod.splits sum.splits)
  then have "db_only ?s s" using keepsD [OF anchor_db_only, of ?s demo_native demo_layout] by simp
  then obtain db n where db: "s = ?s\<lparr>cl_db := db, cl_tick := n\<rparr>" unfolding db_only_def by blast
  have "claude_run demo_native demo_start (new_claude fresh_db) =
      claude_happens demo_native (K_ready None) (claude_happens demo_native (K_prepared (Inr demo_preparation)) ?s)"
    by (simp add: demo_start_def claude_happens_def runC_def eval start_claude_def layout_settled_def
        demo_layout_def new_claude_def)
  also have "claude_happens demo_native (K_prepared (Inr demo_preparation)) ?s =
      s\<lparr>cl_tick := Suc n, cl_layout := Some demo_layout, cl_preparation := Some demo_preparation,
        cl_executionId := Some demo_execution, cl_started := True, cl_start := Start_ready,
        cl_log := [Ca_ready demo_execution]\<rparr>"
    using s(1) db
    by (simp add: claude_happens_def runC_def prepared_def tryA_def thenA_def bindA_def tickC_def modify_def
        emitC_def demo_execution_def new_claude_def)
  also have "claude_happens demo_native (K_ready None) \<dots> = demo_idle db None 0 [] (Suc n) [Ca_ready demo_execution]"
    unfolding db
    by (simp add: claude_happens_def runC_def ready_settled_def eval demo_idle_def new_claude_def)
  finally show ?thesis using that s(2) db by simp
qed

lemma demo_submits:
  assumes "getSessionQuarantine demo_cfg (js ''k'') db = None"
  shows "claude_run demo_native demo_submit (demo_idle db None m attempts n l) =
    demo_idle db (Some (length attempts)) (Suc m) (attempts @ [new_attempt demo_turn (Some 7)]) (Suc n)
      (l @ [Ca_spawned (length attempts) demo_turn demo_command, Ca_submission demo_turn Submitted])"
  using assms
  by (simp add: demo_submit_def claude_happens_def runC_def eval demo_idle_def dispatch_claude_def
      dispatchInternal_def dispatch_to_def pin_settled_def still_wanted_def claude_ready_def
      context_settled_def spawnC_def dispatch_returns_def demo_invocation tickC_def demo_turn_def
      demo_claimed_def demo_row_def falsy_def)

definition demo_turn_event :: job_event where
  "demo_turn_event = \<lparr>je_kind = Claude, je_executionId = demo_execution, je_jobId = js ''j'', je_leaseId = js ''l'',
     je_runGeneration = Some 1, je_turnId = Some (js ''s'')\<rparr>"

definition demo_finished :: attempt where
  "demo_finished = \<lparr>at_job = demo_turn, at_pid = Some 7, at_turnId = Some (js ''s''), at_accepted = True,
     at_cancelRequested = False, at_deadlineReason = None, at_deadline = None, at_terminal = True,
     at_stdout = Some (Ended (Inr demo_result)), at_stderr = Io_ended, at_exited = Some 0, at_wait = At_over\<rparr>"

lemma demo_result_sel: "sr_success demo_result" "sr_text demo_result = Some [0x4F60]"
  by (simp_all add: demo_result_def)

lemma demo_answers:
  "claude_run demo_native demo_answer (demo_idle db (Some 0) m [new_attempt demo_turn (Some 7)] n l) =
    demo_idle db None m [demo_finished] n
      (l @ [Ca_input 0 (js ''t''), Ca_chunk 0 demo_chunk1, Ca_call 0 (X_accepted demo_turn_event),
        Ca_chunk 0 demo_chunk2, Ca_exited 0 0, Ca_call 0 (X_result demo_turn_event [0x4F60])])"
  by (simp add: demo_answer_def claude_happens_def runC_def at_attempt_def run_resumes_def resumes_def
      eval demo_idle_def set_attempt_def attempt_at_def run_attempt_def new_attempt_def
      input_settled_def stdout_reads_def demo_tasks stdout_goes_on_def on_init_def accepted_settled_def
      stderr_settled_def child_exits_def output_settled_def confirm_settled_def confirmed_def
      finishResult_def finish_def attempt_handler_settled_def demo_finished_def demo_result_sel claude_event_def demo_turn_event_def
      demo_turn_def demo_claimed_def demo_row_def)

end
