(* ===== verification/Claude_Props.thy ===== *)
theory Claude_Props
  imports Claude_Example
begin

text \<open>
  The properties of the Claude backend: every sequence of events, from the start of the backend,
  with any file system, child processes, timers, answers of the daemon and other writers of the
  store.
\<close>

section \<open>The run of the witnesses\<close>

definition demo_native_events :: "claude_input list" where
  "demo_native_events = demo_start @ demo_submit @ demo_answer @ demo_submit"

definition demo_native_end :: claude where
  "demo_native_end = claude_run demo_native demo_native_events (new_claude fresh_db)"

lemma demo_native_reached: "rtranclp (claude_step demo_native) (new_claude fresh_db) demo_native_end"
  unfolding demo_native_end_def by (rule claude_run_steps)

lemma claude_run_append: "claude_run c (evs @ evs') s = claude_run c evs' (claude_run c evs s)"
  by (induction evs arbitrary: s) simp_all

definition demo_native_log :: "claude_effect list" where
  "demo_native_log = [Ca_ready demo_execution, Ca_spawned 0 demo_turn demo_command, Ca_submission demo_turn Submitted,
     Ca_input 0 (js ''t''), Ca_chunk 0 demo_chunk1, Ca_call 0 (X_accepted demo_turn_event),
     Ca_chunk 0 demo_chunk2, Ca_exited 0 0, Ca_call 0 (X_result demo_turn_event [0x4F60]),
     Ca_spawned 1 demo_turn demo_command, Ca_submission demo_turn Submitted]"

lemma demo_native_end_sel:
  "cl_log demo_native_end = demo_native_log" "length (cl_attempts demo_native_end) = 2"
  "cl_active demo_native_end = Some 1" "at_wait (attempt_at demo_native_end 1) = At_scheduled"
proof -
  obtain db n where "getSessionQuarantine demo_cfg (js ''k'') db = None"
    "claude_run demo_native demo_start (new_claude fresh_db) = demo_idle db None 0 [] n [Ca_ready demo_execution]"
    by (rule native_starts)
  then have "demo_native_end = demo_idle db (Some 1) (Suc (Suc 0)) [demo_finished, new_attempt demo_turn (Some 7)] (Suc (Suc n)) demo_native_log"
    using demo_answers [of db 1 "Suc n"]
    by (simp add: demo_native_end_def demo_native_events_def claude_run_append demo_submits demo_native_log_def)
  note eq = this
  show "cl_log demo_native_end = demo_native_log" "length (cl_attempts demo_native_end) = 2"
    "cl_active demo_native_end = Some 1" "at_wait (attempt_at demo_native_end 1) = At_scheduled"
    unfolding eq by (simp_all add: demo_idle_def attempt_at_def new_attempt_def)
qed

section \<open>Properties\<close>

text \<open>C34: one child at a time: when a child process is spawned, every child that was spawned before
  it has exited, whatever was cancelled, timed out, disconnected or failed in between.\<close>

theorem one_child_at_a_time:
  assumes "rtranclp (claude_step c) (new_claude db) s"
    and "cl_log s = before @ Ca_spawned i job command # later"
    and "Ca_spawned j job' command' \<in> set before"
  shows "\<exists>code. Ca_exited j code \<in> set before"
proof -
  have "one_child (cl_log s)"
    using claude_reached [OF assms(1)] by (simp add: claude_ok_def core_ok_def log_ok_def)
  then show ?thesis using assms(2,3) unfolding one_child_def by blast
qed

theorem one_child_at_a_time_witness:
  "\<exists>code. Ca_exited 0 code \<in> set (take 9 demo_native_log) \<and> demo_native_log ! 9 = Ca_spawned 1 demo_turn demo_command"
proof -
  have "\<exists>code. Ca_exited 0 code \<in> set (take 9 demo_native_log)"
    by (rule one_child_at_a_time [OF demo_native_reached, where j = 0 and i = 1])
      (simp_all add: demo_native_end_sel demo_native_log_def)
  then show ?thesis by (simp add: demo_native_log_def)
qed

text \<open>C35: what an attempt reports: at most one acceptance and at most one verdict (a result, a
  failure or a cancellation), and a result or a failure only after the acceptance of exactly the
  same execution, job, lease, attempt and turn.\<close>

theorem attempts_report_once:
  assumes "rtranclp (claude_step c) (new_claude db) s"
  shows "length (filter is_accepted (calls i (cl_log s))) \<le> 1
    \<and> length (filter is_verdict (calls i (cl_log s))) \<le> 1
    \<and> accepted_first (calls i (cl_log s))"
proof (cases "i < length (cl_attempts s)")
  case True
  then have "events_ok (attempt_at s i) (cl_executionId s) (calls i (cl_log s))"
    using claude_reached [OF assms] att_okD(6) by (fastforce simp: claude_ok_def core_ok_def)
  then show ?thesis by (auto simp: events_ok_def split: if_splits)
next
  case False
  then have "calls i (cl_log s) = []"
    using claude_reached [OF assms] by (simp add: claude_ok_def core_ok_def log_ok_def)
  then show ?thesis by (simp add: accepted_first_Nil)
qed

theorem attempts_report_once_witness:
  "accepted_first [X_accepted demo_turn_event, X_result demo_turn_event [0x4F60]]"
  using attempts_report_once [OF demo_native_reached, of 0]
  by (simp add: demo_native_end_sel demo_native_log_def views_one)

text \<open>C36: the text of a job is what its child has printed: a result is reported only if the whole
  output of the child process, as far as it was read, is a stream that ends in a successful result
  with this text and this session id, and the child exited with 0.\<close>

theorem results_come_from_the_child:
  assumes "rtranclp (claude_step c) (new_claude db) s"
    and "Ca_call i (X_result je final) \<in> set (cl_log s)"
  shows "\<exists>t. consumeClaudeNativeStream (stream_cfg_of c) (chunks i (cl_log s)) = Ended (Inr t)
    \<and> sr_success t \<and> sr_text t = Some final \<and> je_turnId je = Some (sr_sessionId t)
    \<and> exits i (cl_log s) = [0]"
proof -
  note ok = claude_reached [OF assms(1)]
  have reported: "X_result je final \<in> set (calls i (cl_log s))"
    using assms(2) by (force simp: calls_def)
  then have "i < length (cl_attempts s)"
    using ok by (auto simp: claude_ok_def core_ok_def log_ok_def not_less [symmetric])
  then have att: "att_ok c (local i s)" using ok by (simp add: claude_ok_def core_ok_def)
  then have "gave (attempt_at s i) je final" using reported by (auto simp: att_ok_def events_ok_def)
  then show ?thesis
    using att by (auto simp: gave_def att_ok_def stdout_ok_def has_read_def exit_list_def)
qed

theorem results_come_from_the_child_witness:
  "\<exists>t. consumeClaudeNativeStream demo_stream_cfg [demo_chunk1, demo_chunk2] = Ended (Inr t)
     \<and> sr_text t = Some [0x4F60]"
  using results_come_from_the_child [OF demo_native_reached, of 0 demo_turn_event "[0x4F60]"]
  by (auto simp: demo_native_end_sel demo_native_log_def views_one)

text \<open>C37: an attempt ends with its timers and two answers of the daemon: whatever it is waiting for,
  and even if its child never reads its input, never writes, never exits and never closes its
  pipes, the timers of the attempt (its start, its deadline, which ends the wait for the input and
  for the output, the confirmation that the process group is gone and the steps of
  \<open>closeProcess\<close>, twice), together with the answers, of either sort, of the at most two calls of
  the daemon's handlers, bring it to its end and leave the backend without this attempt. The
  answers are needed: \<open>runAttempt\<close> sets no timer for a handler.\<close>

theorem timers_end_attempts:
  assumes "rtranclp (claude_step c) (new_claude db) s" "i < length (cl_attempts s)"
  shows "at_wait (attempt_at (claude_run c (timers i e answer answer') s) i) = At_over
    \<and> cl_active (claude_run c (timers i e answer answer') s) \<noteq> Some i"
proof -
  let ?t = "claude_run c (timers i e answer answer') s"
  have over: "i < length (cl_attempts ?t)" "at_wait (attempt_at ?t i) = At_over"
    using timers_reach_the_end [OF _ assms(2)] claude_reached [OF assms(1)] rank_zero
    by (auto simp: near_def rank_at_def)
  have "rtranclp (claude_step c) (new_claude db) ?t"
    using assms(1) claude_run_steps by (rule rtranclp_trans)
  then have "att_ok c (local i ?t)"
    using claude_reached over(1) by (auto simp: claude_ok_def core_ok_def)
  then show ?thesis using over(2) by (simp add: att_ok_def)
qed

theorem timers_end_attempts_witness:
  "at_wait (attempt_at (claude_run demo_native (timers 1 (js ''e'') None None) demo_native_end) 1) = At_over
   \<and> at_wait (attempt_at demo_native_end 1) = At_scheduled"
proof
  show "at_wait (attempt_at (claude_run demo_native (timers 1 (js ''e'') None None) demo_native_end) 1) = At_over"
    by (rule timers_end_attempts [OF demo_native_reached, THEN conjunct1]) (simp add: demo_native_end_sel)
qed (rule demo_native_end_sel)

section \<open>A deadline that outlives its attempt\<close>

text \<open>C38: an acceptance that the daemon completes late, after the deadline has failed the attempt,
  its child is gone and the attempt is over, arms the deadline of the result all the same; when it
  runs out, SIGTERM is sent to the process group of a child that no longer exists, whose number may
  by then belong to another.\<close>

theorem late_acceptance_signals_a_dead_child:
  assumes "i < length (cl_attempts s)" "at_wait (attempt_at s i) = At_over"
    and "at_stdout (attempt_at s i) = Some (Accepting w sessionId st)"
    and "ca_processGroups c" "at_pid (attempt_at s i) = Some p" "0 < p"
  shows "Ca_signal i SIGTERM True
    \<in> set (drop (length (cl_log s)) (cl_log (claude_run c [K_accepted i None, K_deadline i] s)))"
proof -
  let ?t = "claude_happens c (K_accepted i None) s"
  have keep: "at_deadline (attempt_at (snd (stdout_goes_on i x u)) i) = at_deadline (attempt_at u i)"
      "at_pid (attempt_at (snd (stdout_goes_on i x u)) i) = at_pid (attempt_at u i)"
    if "i < length (cl_attempts u)" for x u
    using that by (cases x; cases "cl_executionId u"; simp add: stdout_goes_on_def on_init_def eval)+
  have fr: "frame i s ?t"
    using frame_child(4) assms(1)
    by (auto simp: claude_happens_def runC_def at_attempt_def keeps_def)
  then obtain xs where xs: "cl_log ?t = cl_log s @ xs" by (auto simp: frame_def)
  have i: "i < length (cl_attempts ?t)" using fr assms(1) by (simp add: frame_def)
  have "at_deadline (attempt_at ?t i) = Some result_timeout" "at_pid (attempt_at ?t i) = Some p"
    using assms(1,3,5) keep
    by (simp_all add: claude_happens_def runC_def at_attempt_def accepted_settled_def eval)
  then have "Ca_signal i SIGTERM True \<in> set (drop (length (cl_log ?t)) (cl_log (claude_happens c (K_deadline i) ?t)))"
    using i assms(4,6)
    by (auto simp: claude_happens_def runC_def at_attempt_def deadline_fires_def eval signalC_def tickC_def
        Let_def split: signal_outcome.split)
  then show ?thesis
    by (auto simp: xs dest: in_set_dropD elim!: set_rev_mp [OF _ set_drop_subset_set_drop])
qed

definition demo_late :: "claude_input list" where
  "demo_late = demo_start @ demo_submit @ [K_run 0, K_input 0 Input_sent, K_stdout 0 (Read_chunk demo_chunk1),
     K_deadline 0, K_output 0 Race_deadline, K_exit 0 143, K_close 0 None, K_close 0 (Some (js ''t'')),
     K_handler 0 None]"

definition demo_pending :: "jstring option \<Rightarrow> int option \<Rightarrow> bool \<Rightarrow> attempt_wait \<Rightarrow> attempt" where
  "demo_pending reason exited terminal w =
     \<lparr>at_job = demo_turn, at_pid = Some 7, at_turnId = Some (js ''s''), at_accepted = False,
      at_cancelRequested = False, at_deadlineReason = reason,
      at_deadline = (if reason = None then Some init_timeout else None), at_terminal = terminal,
      at_stdout = Some (Accepting In_chunk (js ''s'') demo_stream1), at_stderr = Io_running,
      at_exited = exited, at_wait = w\<rparr>"

lemma bindA_readA: "bindA (readA g) k s = k (g s) s"
  by (simp add: bindA_def readA_def)

lemma demo_late_accepting:
  "\<exists>l'. claude_run demo_native [K_run 0, K_input 0 Input_sent, K_stdout 0 (Read_chunk demo_chunk1)]
      (demo_idle db (Some 0) m [new_attempt demo_turn (Some 7)] n l) =
    demo_idle db (Some 0) m [demo_pending None None False At_output] n l'"
  by (simp add: claude_happens_def runC_def at_attempt_def run_resumes_def resumes_def
      eval demo_idle_def set_attempt_def attempt_at_def run_attempt_def new_attempt_def
      input_settled_def stdout_reads_def demo_tasks stdout_goes_on_def on_init_def demo_pending_def)

lemma demo_signal:
  "signalC demo_native 0 sg (demo_idle db a m [demo_pending r x b w] n l) =
     (Inr (), demo_idle db a m [demo_pending r x b w] (Suc n) (l @ [Ca_signal 0 sg True]))"
  by (simp add: signalC_def Let_def bindA_calm thenA_calm primitives_eval tickC_def demo_idle_def attempt_at_def
      demo_pending_def)

lemma demo_set:
  "set_attempt 0 f (demo_idle db a m [x] n l) = demo_idle db a m [f x] n l"
  "attempt_at (demo_idle db a m (x # xs) n l) 0 = x" "cl_active (demo_idle db a m xs n l) = a"
  "length (cl_attempts (demo_idle db a m xs n l)) = length xs" "cl_log (demo_idle db a m xs n l) = l"
  "(demo_idle db a m xs n l)\<lparr>cl_log := l'\<rparr> = demo_idle db a m xs n l'"
  by (simp_all add: demo_idle_def set_attempt_def attempt_at_def)

lemma demo_pending_sel:
  "at_deadline (demo_pending None x b w) = Some init_timeout" "at_deadlineReason (demo_pending r x b w) = r"
  "at_exited (demo_pending r x b w) = x" "at_wait (demo_pending r x b w) = w" "at_terminal (demo_pending r x b w) = b"
  "(demo_pending None x b w)\<lparr>at_deadline := None, at_deadlineReason := Some e\<rparr> = demo_pending (Some e) x b w"
  "(demo_pending (Some e) x b w)\<lparr>at_deadline := None\<rparr> = demo_pending (Some e) x b w"
  "(demo_pending r x b w)\<lparr>at_wait := w'\<rparr> = demo_pending r x b w'"
  "(demo_pending r x b w)\<lparr>at_exited := x'\<rparr> = demo_pending r x' b w"
  "(demo_pending r x b w)\<lparr>at_terminal := b'\<rparr> = demo_pending r x b' w"
  "at_cancelRequested (demo_pending r x b w) = False"
  by (simp_all add: demo_pending_def)

lemma demo_late_closing:
  "claude_happens demo_native (K_deadline 0) (demo_idle db (Some 0) m [demo_pending None x False w] n l) =
     demo_idle db (Some 0) m [demo_pending (Some init_timeout) x False w] (Suc n) (l @ [Ca_signal 0 SIGTERM True])"
  "claude_happens demo_native (K_output 0 Race_deadline)
      (demo_idle db (Some 0) m [demo_pending (Some r) x False At_output] n l) =
     demo_idle db (Some 0) m [demo_pending (Some r) x False (At_closing Cl_term (Then_caught r))] (Suc n)
       (l @ [Ca_signal 0 SIGTERM True])"
  "claude_happens demo_native (K_exit 0 143) (demo_idle db (Some 0) m [demo_pending q None False w] n l) =
     demo_idle db (Some 0) m [demo_pending q (Some 143) False w] n (l @ [Ca_exited 0 143])"
  "claude_happens demo_native (K_close 0 None)
      (demo_idle db (Some 0) m [demo_pending q (Some y) False (At_closing Cl_term k)] n l) =
     demo_idle db (Some 0) m [demo_pending q (Some y) False (At_closing (Cl_drain None) k)] n l"
  by (simp_all add: claude_happens_def runC_def at_attempt_def run_resumes_def resumes_def
      bindA_readA thenA_calm bindA_calm primitives_eval demo_set demo_signal demo_pending_sel deadline_fires_def
      output_settled_def caught_def closeProcess_def child_exits_def close_settled_def)

lemma demo_late_over:
  "attempt_at (claude_run demo_native [K_close 0 (Some e), K_handler 0 None]
      (demo_idle db (Some 0) m [demo_pending (Some r) x False
        (At_closing (Cl_drain None) (Then_caught init_timeout))] n l)) 0 = demo_pending (Some r) x True At_over
   \<and> 0 < length (cl_attempts (claude_run demo_native [K_close 0 (Some e), K_handler 0 None]
      (demo_idle db (Some 0) m [demo_pending (Some r) x False
        (At_closing (Cl_drain None) (Then_caught init_timeout))] n l)))"
  by (simp add: claude_happens_def runC_def at_attempt_def run_resumes_def resumes_def
      bindA_readA thenA_calm bindA_calm primitives_eval set_attempt_def attempt_at_def demo_idle_def demo_pending_sel
      close_settled_def process_closed_def finishDisconnected_def finish_def attempt_handler_settled_def)

lemma demo_late_end:
  "attempt_at (claude_run demo_native demo_late (new_claude fresh_db)) 0 =
     demo_pending (Some init_timeout) (Some 143) True At_over
   \<and> 0 < length (cl_attempts (claude_run demo_native demo_late (new_claude fresh_db)))"
proof -
  obtain db n where start: "getSessionQuarantine demo_cfg (js ''k'') db = None"
    "claude_run demo_native demo_start (new_claude fresh_db) = demo_idle db None 0 [] n [Ca_ready demo_execution]"
    by (rule native_starts)
  define l where "l = [Ca_ready demo_execution, Ca_spawned 0 demo_turn demo_command, Ca_submission demo_turn Submitted]"
  have submitted: "claude_run demo_native (demo_start @ demo_submit) (new_claude fresh_db) =
      demo_idle db (Some 0) 1 [new_attempt demo_turn (Some 7)] (Suc n) l"
    using start by (simp add: claude_run_append demo_submits l_def)
  obtain l' where accepting: "claude_run demo_native [K_run 0, K_input 0 Input_sent, K_stdout 0 (Read_chunk demo_chunk1)]
      (demo_idle db (Some 0) 1 [new_attempt demo_turn (Some 7)] (Suc n) l) =
    demo_idle db (Some 0) 1 [demo_pending None None False At_output] (Suc n) l'"
    using demo_late_accepting by blast
  have late: "demo_late = (demo_start @ demo_submit) @ [K_run 0, K_input 0 Input_sent, K_stdout 0 (Read_chunk demo_chunk1)]
      @ [K_deadline 0, K_output 0 Race_deadline, K_exit 0 143, K_close 0 None]
      @ [K_close 0 (Some (js ''t'')), K_handler 0 None]"
    by (simp add: demo_late_def)
  have "claude_run demo_native demo_late (new_claude fresh_db) =
      claude_run demo_native [K_close 0 (Some (js ''t'')), K_handler 0 None]
        (claude_run demo_native [K_deadline 0, K_output 0 Race_deadline, K_exit 0 143, K_close 0 None]
          (demo_idle db (Some 0) 1 [demo_pending None None False At_output] (Suc n) l'))"
    unfolding late claude_run_append submitted [unfolded claude_run_append] accepting ..
  also have "claude_run demo_native [K_deadline 0, K_output 0 Race_deadline, K_exit 0 143, K_close 0 None]
          (demo_idle db (Some 0) 1 [demo_pending None None False At_output] (Suc n) l') =
      demo_idle db (Some 0) 1 [demo_pending (Some init_timeout) (Some 143) False
        (At_closing (Cl_drain None) (Then_caught init_timeout))] (Suc (Suc (Suc n)))
        (((l' @ [Ca_signal 0 SIGTERM True]) @ [Ca_signal 0 SIGTERM True]) @ [Ca_exited 0 143])"
    by (simp only: claude_run.simps demo_late_closing)
  finally show ?thesis using demo_late_over by simp
qed

theorem late_acceptance_signals_a_dead_child_witness:
  "\<exists>s. rtranclp (claude_step demo_native) (new_claude fresh_db) s \<and> at_exited (attempt_at s 0) = Some 143
     \<and> Ca_signal 0 SIGTERM True
         \<in> set (drop (length (cl_log s)) (cl_log (claude_run demo_native [K_accepted 0 None, K_deadline 0] s)))"
proof (intro exI conjI)
  let ?s = "claude_run demo_native demo_late (new_claude fresh_db)"
  show "rtranclp (claude_step demo_native) (new_claude fresh_db) ?s" by (rule claude_run_steps)
  show "at_exited (attempt_at ?s 0) = Some 143" using demo_late_end by (simp add: demo_pending_def)
  show "Ca_signal 0 SIGTERM True
      \<in> set (drop (length (cl_log ?s)) (cl_log (claude_run demo_native [K_accepted 0 None, K_deadline 0] ?s)))"
    using demo_late_end
    by (intro late_acceptance_signals_a_dead_child [where p = 7]) (simp_all add: demo_pending_def)
qed

section \<open>A cancellation that comes too early\<close>

text \<open>C12: a cancellation that comes between the spawn of the child and the \<open>finally\<close> of \<open>dispatch\<close>
  is lost: it still finds the submission pending, is answered with \<open>not_sent\<close>, and marks what the
  \<open>finally\<close> then throws away. No attempt is marked as cancelled, no signal is sent, the child stays
  the active one, and \<open>dispatch\<close> reports that the job was submitted.\<close>

theorem cancellation_of_a_spawned_child_is_lost:
  fixes c :: claude_cfg and s :: claude
  assumes "cl_dispatch s = Some (D_settled job Submitted)" "cl_pending s = Some p"
    and "pe_jobId p = j_job_id (sj_row job)" "j_lease_id (sj_row job) = Some (pe_leaseId p)"
  defines "t \<equiv> claude_run c [K_cancel job, K_dispatched] s"
  shows "cl_attempts t = cl_attempts s \<and> cl_active t = cl_active s \<and> cl_pending t = None
    \<and> cl_log t = cl_log s @ [Ca_cancel job Not_sent, Ca_submission job Submitted]"
  using assms
  by (simp add: claude_happens_def runC_def cancel_claude_def dispatch_returns_def Let_def eval)

text \<open>A run of it: the child has been spawned, and the cancellation is in time for nothing.\<close>

definition demo_spawned :: claude where
  "demo_spawned = claude_run demo_native (demo_start @ [K_dispatch demo_turn, K_pin None, K_context (Inl [])])
     (new_claude fresh_db)"

lemma demo_spawned_state:
  "cl_dispatch demo_spawned = Some (D_settled demo_turn Submitted)"
  "\<exists>p. cl_pending demo_spawned = Some p \<and> pe_jobId p = j_job_id (sj_row demo_turn)
     \<and> j_lease_id (sj_row demo_turn) = Some (pe_leaseId p)"
  "cl_log demo_spawned = [Ca_ready demo_execution, Ca_spawned 0 demo_turn demo_command]"
  "cl_attempts demo_spawned = [new_attempt demo_turn (Some 7)]"
proof -
  obtain db n where start: "getSessionQuarantine demo_cfg (js ''k'') db = None"
    "claude_run demo_native demo_start (new_claude fresh_db) = demo_idle db None 0 [] n [Ca_ready demo_execution]"
    by (rule native_starts)
  have run: "demo_spawned = claude_run demo_native [K_dispatch demo_turn, K_pin None, K_context (Inl [])]
      (demo_idle db None 0 [] n [Ca_ready demo_execution])"
    unfolding demo_spawned_def claude_run_append start(2) ..
  note spawn = claude_happens_def runC_def eval demo_idle_def dispatch_claude_def
      dispatchInternal_def dispatch_to_def pin_settled_def still_wanted_def claude_ready_def
      context_settled_def spawnC_def demo_invocation tickC_def demo_turn_def
      demo_claimed_def demo_row_def falsy_def
  show "cl_dispatch demo_spawned = Some (D_settled demo_turn Submitted)"
    "\<exists>p. cl_pending demo_spawned = Some p \<and> pe_jobId p = j_job_id (sj_row demo_turn)
     \<and> j_lease_id (sj_row demo_turn) = Some (pe_leaseId p)"
    "cl_log demo_spawned = [Ca_ready demo_execution, Ca_spawned 0 demo_turn demo_command]"
    "cl_attempts demo_spawned = [new_attempt demo_turn (Some 7)]"
    using start(1) by (simp_all add: run spawn)
qed

theorem cancellation_of_a_spawned_child_is_lost_witness:
  "cl_log (claude_run demo_native [K_cancel demo_turn, K_dispatched] demo_spawned) =
     [Ca_ready demo_execution, Ca_spawned 0 demo_turn demo_command, Ca_cancel demo_turn Not_sent,
      Ca_submission demo_turn Submitted]
   \<and> cl_attempts (claude_run demo_native [K_cancel demo_turn, K_dispatched] demo_spawned)
       = [new_attempt demo_turn (Some 7)]"
proof -
  obtain p where p: "cl_pending demo_spawned = Some p" "pe_jobId p = j_job_id (sj_row demo_turn)"
    "j_lease_id (sj_row demo_turn) = Some (pe_leaseId p)"
    using demo_spawned_state(2) by blast
  from cancellation_of_a_spawned_child_is_lost [OF demo_spawned_state(1) p, of demo_native]
  show ?thesis by (simp add: demo_spawned_state(3,4))
qed

end
