(* ===== verification/Spec2Isabelle.thy ===== *)
theory Spec2Isabelle
  imports Store_Props Store_Consistency Livis_Props Client_Props Connector_Props Claude_Props
begin

text \<open>
  A verification of the bridge between a LiViS relay and a local assistant
  (\<open>src/src\<close>, TypeScript on Bun). The properties are numbered C1 to C40 in the texts before their
  theorems; they stand in the theories of the components, with a concrete run beside each.

  The program. A daemon (\<open>daemon.ts\<close>) receives jobs from the relay server through a web socket
  client (\<open>relay/client.ts\<close>, wire format \<open>protocol/livis.ts\<close>), writes them to an SQLite store
  (\<open>state/store.ts\<close>) before it acknowledges them, hands each to one execution backend, and sends
  the result back until the relay has acknowledged it. The backends are Hermes, an external bridge
  that connects to a local socket (\<open>connector/server.ts\<close>), and two child-process backends, Codex
  and Claude (\<open>backends/claude\<close>). The parts meet in the store, whose operations are
  transactions, and in the handlers that the daemon gives to the client and to the backend.

  How it is modelled. A method is a function on a state record that returns an error or a value
  with the new state: \<open>error + 'a\<close> for pure code, \<open>reply\<close> for a method of the store, and
  \<open>stretch\<close> for a piece of an asynchronous method that runs between two awaits. An await is a
  value in the state that says who waits for what; an event resumes it. So every interleaving of
  handlers, timers, messages and answers is a list of events, a run is a fold over it
  (\<open>happen\<close>, \<open>client_run\<close>, \<open>server_run\<close>, \<open>claude_run\<close>) or a step relation
  (\<open>store_step\<close>, \<open>daemon_run\<close>, \<open>system_step\<close>, \<open>server_step\<close>, \<open>claude_step\<close>), and an
  invariant is proved over all of them. The locales \<open>safe_system\<close> and \<open>growing_system\<close> hold that
  argument once; they are interpreted on the store, the daemon, the relay system, the connector
  and the Claude backend. The locale of \<open>Stretch\<close> carries relations through stretches of code.
\<close>

section \<open>The theories\<close>

text \<open>
  \<^item> \<open>Prelude\<close>: strings as lists of 16-bit code units (\<open>jstring\<close>, literals \<open>js ''...''\<close>), the
    error monad (\<open>bindR\<close>), and lists of rows as SQL tables. \<open>Util\<close>: \<open>util.ts\<close>. \<open>Json_Text\<close>,
    \<open>Json_Value\<close>: \<open>JSON.parse\<close> and \<open>JSON.stringify\<close> with the proof that one inverts the other.
    \<open>Utf8\<close>: the decoder of \<open>Buffer.toString\<close>, and that it inverts the encoder.
  \<^item> \<open>Store_Types\<close>, \<open>Store_Base\<close>, \<open>Store_Jobs\<close>, \<open>Store_Backend\<close>, \<open>Store_Outbox\<close>: the tables of
    schema v8 with their constraints and triggers, and every operation of \<open>JobStore\<close> on them.
    \<open>Store_Invariant\<close> to \<open>Store_Outbox_Wf\<close>: the invariant \<open>store_wf\<close> (jobs, ledger of attempts,
    sessions, outbox, small tables), the order \<open>store_le\<close> in which a store only grows, and that
    every operation keeps both. \<open>Store_Machine\<close>: the store as a machine over its calls.
    \<open>Store_Props\<close> has C1 to C11; \<open>Store_Delivery\<close> what one delivery does to the outbox (C25);
    \<open>Store_Consistency\<close> that the internal consistency errors of the store are never thrown.
  \<^item> \<open>Livis\<close>, \<open>Livis_Props\<close>: the wire format, with the exact conditions under which a message is a
    job (C19), the round trip of a result (C20) and the candidates of an acknowledgement (C21).
  \<^item> \<open>Daemon_Types\<close>, \<open>Daemon\<close>, \<open>Daemon_Upstream\<close>: the handlers of \<open>RelayDaemon\<close>, its dispatch
    loop and its gate on the upstream. \<open>Daemon_Stretch\<close>, \<open>Daemon_Store\<close>, \<open>Store_Claims\<close>,
    \<open>Daemon_Dispatch\<close>, \<open>Daemon_Expiry\<close>, \<open>Daemon_Ack\<close>: the daemon only moves its database by
    operations of the store, claims before it dispatches, dispatches nothing on an expired proof
    and answers only what is stored. \<open>Daemon_Props\<close> has C13 to C18.
  \<^item> \<open>Relay_Client\<close>, \<open>Client_Stretch\<close>, \<open>Client_Replay\<close>: \<open>RelayClient\<close>, its connections, message
    chains, token refresh and delivery; \<open>Relay_System\<close>: client, daemon and other writers on one
    store. \<open>Client_Replay\<close> has C24, \<open>Client_Props\<close> C22, C23 and C26 to C28.
  \<^item> \<open>Connector_Types\<close>, \<open>Connector\<close>: the messages, routes, version gate and sockets of
    \<open>ConnectorServer\<close>, and \<open>HermesExecutionBackend\<close>. \<open>Connector_Inv\<close>: one active socket, one
    generation each. \<open>Connector_Gate\<close>: what the active connector had sent. \<open>Connector_Props\<close> has
    C29 to C33.
  \<^item> \<open>Claude_Stream\<close>, \<open>Claude_Stream_Props\<close>: the reader of the stream-json output (C39, C40).
    \<open>Claude_Cli\<close>: pinning, environment and probe of the command. \<open>Claude_Backend\<close>: the backend with
    its attempts, children, timers and handlers. \<open>Claude_Tasks\<close>, \<open>Claude_Inv\<close>, \<open>Claude_Ok\<close>: its
    invariant. \<open>Claude_End\<close>: the rank of an attempt, from 12 (scheduled) to 0 (over), which every
    timer brings down. \<open>Claude_Example\<close>: a concrete run. \<open>Claude_Props\<close> has C12 and C34 to C38.
  \<^item> \<open>Growing_System\<close>, \<open>Stretch\<close>: the locales.
\<close>

section \<open>Parameters\<close>

text \<open>
  What is not under \<open>src/\<close>, or is read from outside, is an argument. The store takes \<open>sha256\<close> and
  the time of a call. The records \<open>daemon_cfg\<close>, \<open>relay_cfg\<close>, \<open>connector_cfg\<close> and \<open>claude_cfg\<close>
  hold the configuration and, by tick, the clock, fresh identifiers, random numbers, the results
  of sends, spawns and signals; \<open>num\<close> is how JavaScript prints a number it has parsed, and
  \<open>millis\<close> the value of a timestamp. Answers that take time (tokens, the upstream check, files,
  child processes, the daemon's handlers) come as events. A theorem that needs more of a parameter
  says so among its assumptions: that a decimal is printed as it was read (C20), that the clock
  does not run backwards (C24), or that a random number lies between 0 and 1 (C27).

  Bounds. The reader of JSON is given twice the length of its text and one as fuel, which is enough
  for every text (\<open>parse_value_fuel\<close>). \<open>drive\<close> of C24 has one turn more than there are results to
  deliver. The thirteen events of \<open>timers\<close> in C37 are one for each step of the rank and the
  deadline.
\<close>

section \<open>Limits\<close>

text \<open>
  Restrictions of single theorems, as their texts say: no session is created under the backend
  name \<open>"hermes"\<close> (\<open>admissible\<close>, in all theorems on runs of the store, the daemon or
  the relay system: C1 to C11, C13 to C15, C18 and C22 to C25; the store would take it, its
  callers never do); no proof is saved in the meantime (C16);
  the replay runs undisturbed on a forward clock (C24); the server is not stopped and no
  settlement fails (C31); the daemon's handlers answer (C37); a stream is within a third of the
  length limit (C40). C12, C28, C33 and C38 show behaviour that the code should not have, and so
  does the lemma \<open>loop_outlives_the_gate\<close>.

  Approximations. Status texts and log lines are left out, and so are the texts of most errors. The
  step of a job in C6 is that of the store, which is a little wider than the diagram of the
  documentation (a received job may be dispatched before it is acknowledged, a dispatched one may
  finish without a report that it runs). Version numbers are exact naturals where the code has
  doubles, jitter is computed in rationals, timestamps are integers, and text is stored as it is
  where SQLite would replace lone surrogates. A hello timer that has fired may fire again, and
  \<open>K_stopping\<close> waits for the run there is rather than for the one it saw: both allow more runs
  than the code has. A statement of the store is one step; other processes may run any method of
  the store in between.

  Not modelled. Of the store, opening the file and the migrations from schemas 1 to 7; of
  \<open>util.ts\<close>, the helpers for private files. Configuration, identity, secrets and capabilities
  (\<open>config.ts\<close>, \<open>identity.ts\<close>, \<open>secrets.ts\<close>, \<open>capabilities.ts\<close>); the upstream check, its proofs
  and activation (\<open>upstream/\<close>), whose outcome is an answer to the daemon; profiles and contracts
  (\<open>protocol/profile.ts\<close>, \<open>protocol/contract*.ts\<close>); the Codex backend (\<open>backends/codex/\<close>), whose
  effect on the store goes through the operations above; the backend switch (\<open>backend/\<close>), the
  assistant context (\<open>context/\<close>), the identity service (\<open>auth/\<close>), and installation, release and
  the command line: they are file transactions, network calls and output.
\<close>

end
